(* ===== verification/Prelude.thy ===== *)
theory Prelude
  imports Main "HOL-Library.AList" "HOL-Library.Char_ord" "HOL-Library.List_Lexorder"
    "HOL-Library.Word"
begin

text \<open>
  Shared vocabulary of the development: the theorem collections, the C++ integer narrowing
  conversions, the character classes of \<^verbatim>\<open><cctype>\<close>, the exceptions that the modelled
  code throws, and list lemmas on recency lists and association lists.
\<close>

named_theorems lru_simps \<open>facts on LruMemory that its clients rewrite with\<close>
named_theorems rl_simps \<open>facts on RegionLru that its clients rewrite with\<close>
named_theorems cm_simps \<open>facts on CacheManager that its clients rewrite with\<close>
named_theorems json_simps \<open>facts on JSON values and their accessors\<close>

section \<open>C++ integers\<close>

text \<open>Narrowing of an integer to \<^verbatim>\<open>int\<close>, \<^verbatim>\<open>long long\<close> and \<^verbatim>\<open>std::uint64_t\<close> (two's complement).\<close>

definition as_int32 :: "int \<Rightarrow> int" where
  "as_int32 i = signed_take_bit 31 i"

definition as_int64 :: "int \<Rightarrow> int" where
  "as_int64 i = signed_take_bit 63 i"

definition int_max :: int where
  "int_max = 2147483647"

definition uint64_max :: nat where
  "uint64_max = 18446744073709551615"

lemma as_int32_id: "- (2 ^ 31) \<le> i \<Longrightarrow> i < 2 ^ 31 \<Longrightarrow> as_int32 i = i"
  by (simp add: as_int32_def signed_take_bit_int_eq_self_iff)

lemma as_int64_id: "- (2 ^ 63) \<le> i \<Longrightarrow> i < 2 ^ 63 \<Longrightarrow> as_int64 i = i"
  by (simp add: as_int64_def signed_take_bit_int_eq_self_iff)

lemma as_int32_range: "- (2 ^ 31) \<le> as_int32 i \<and> as_int32 i < 2 ^ 31"
  unfolding as_int32_def
  using signed_take_bit_int_greater_eq_minus_exp[of 31 i] signed_take_bit_int_less_exp[of 31 i]
  by simp

section \<open>Characters\<close>

text \<open>The \<^verbatim>\<open><cctype>\<close> classes of the C locale, on the unsigned character code.\<close>

definition code_of :: "char \<Rightarrow> nat" where
  "code_of c = of_char c"

definition isdigit :: "char \<Rightarrow> bool" where
  "isdigit c \<longleftrightarrow> 48 \<le> code_of c \<and> code_of c \<le> 57"

definition isalpha :: "char \<Rightarrow> bool" where
  "isalpha c \<longleftrightarrow> 65 \<le> code_of c \<and> code_of c \<le> 90 \<or> 97 \<le> code_of c \<and> code_of c \<le> 122"

definition isalnum :: "char \<Rightarrow> bool" where
  "isalnum c \<longleftrightarrow> isalpha c \<or> isdigit c"

definition isspace :: "char \<Rightarrow> bool" where
  "isspace c \<longleftrightarrow> code_of c = 32 \<or> 9 \<le> code_of c \<and> code_of c \<le> 13"

abbreviation quote :: char where
  "quote \<equiv> CHR 0x22"

abbreviation backslash :: char where
  "backslash \<equiv> CHR 0x5C"

section \<open>Decimal numerals\<close>

text \<open>\<^verbatim>\<open>std::to_string\<close> of an unsigned integer, and the value of a digit string.\<close>

definition digit_char :: "nat \<Rightarrow> char" where
  "digit_char d = char_of (48 + d)"

fun to_string :: "nat \<Rightarrow> string" where
  "to_string n = (if n < 10 then [digit_char n] else to_string (n div 10) @ [digit_char (n mod 10)])"

declare to_string.simps [simp del]

definition digits_value :: "string \<Rightarrow> nat" where
  "digits_value ds = foldl (\<lambda>n c. n * 10 + (code_of c - 48)) 0 ds"

lemma code_of_digit_char [simp]: "d < 10 \<Longrightarrow> code_of (digit_char d) = 48 + d"
  by (simp add: code_of_def digit_char_def)

lemma isdigit_digit_char [simp]: "d < 10 \<Longrightarrow> isdigit (digit_char d)"
  by (simp add: isdigit_def)

lemma to_string_digits: "\<forall>c \<in> set (to_string n). isdigit c"
  by (induction n rule: to_string.induct) (subst to_string.simps, auto)

lemma to_string_nonempty [simp]: "to_string n \<noteq> []"
  by (subst to_string.simps) simp

lemma digits_value_snoc: "digits_value (ds @ [c]) = digits_value ds * 10 + (code_of c - 48)"
  by (simp add: digits_value_def)

lemma digits_value_to_string [simp]: "digits_value (to_string n) = n"
proof (induction n rule: to_string.induct)
  case (1 n)
  then show ?case
    by (subst to_string.simps) (auto simp: digits_value_snoc, simp add: digits_value_def)
qed

section \<open>Exceptions\<close>

text \<open>
  The exceptions the modelled code throws: \<^verbatim>\<open>std::invalid_argument\<close> and
  \<^verbatim>\<open>std::runtime_error\<close> with their text, and any \<^verbatim>\<open>nlohmann::json::exception\<close>
  (the handlers do not distinguish those).
\<close>

datatype cpp_exn = InvalidArgument string | RuntimeError string | JsonException

type_synonym 'a outcome = "cpp_exn + 'a"

definition bindE :: "'a outcome \<Rightarrow> ('a \<Rightarrow> 'b outcome) \<Rightarrow> 'b outcome" where
  "bindE m f = (case m of Inl e \<Rightarrow> Inl e | Inr x \<Rightarrow> f x)"

definition requireE :: "bool \<Rightarrow> string \<Rightarrow> 'b outcome \<Rightarrow> 'b outcome" where
  "requireE c code k = (if c then k else Inl (InvalidArgument code))"

lemma bindE_simps [simp]: "bindE (Inl e) f = Inl e" "bindE (Inr x) f = f x"
  by (simp_all add: bindE_def)

lemma bindE_Inr_iff: "bindE m f = Inr y \<longleftrightarrow> (\<exists>x. m = Inr x \<and> f x = Inr y)"
  by (cases m) auto

lemma requireE_Inr_iff: "requireE c code k = Inr y \<longleftrightarrow> c \<and> k = Inr y"
  by (simp add: requireE_def)

lemmas outcome_iffs = bindE_Inr_iff requireE_Inr_iff

section \<open>Recency lists\<close>

text \<open>\<open>std::list::splice\<close> to the front, or erase followed by \<open>push_front\<close>.\<close>

definition to_front :: "'a \<Rightarrow> 'a list \<Rightarrow> 'a list" where
  "to_front x xs = x # remove1 x xs"

lemma set_to_front [simp]: "distinct xs \<Longrightarrow> set (to_front x xs) = insert x (set xs)"
  by (auto simp: to_front_def)

lemma distinct_to_front [simp]: "distinct xs \<Longrightarrow> distinct (to_front x xs)"
  by (simp add: to_front_def)

lemma length_to_front: "distinct xs \<Longrightarrow>
    length (to_front x xs) = (if x \<in> set xs then length xs else Suc (length xs))"
  by (cases "x \<in> set xs")
    (auto simp: to_front_def length_remove1 remove1_idem dest: length_pos_if_in_set)

lemma to_front_filter: "distinct xs \<Longrightarrow> to_front x xs = x # filter (\<lambda>y. y \<noteq> x) xs"
  by (auto simp: to_front_def distinct_remove1_removeAll removeAll_filter_not_eq intro: filter_cong)

lemma set_butlast_distinct: "distinct xs \<Longrightarrow> xs \<noteq> [] \<Longrightarrow> set (butlast xs) = set xs - {last xs}"
  by (cases xs rule: rev_cases) auto

section \<open>Size limits\<close>

text \<open>\<open>size() > n\<close>, on integers so that large limits evaluate.\<close>

definition longer_than :: "'a list \<Rightarrow> int \<Rightarrow> bool" where
  "longer_than xs n \<longleftrightarrow> int (length xs) > n"

section \<open>Association lists\<close>

declare map_of_eq_Some_iff [simp del] Some_eq_map_of_iff [simp del]

lemma card_dom_map_of: "distinct (map fst al) \<Longrightarrow> card (dom (map_of al)) = length al"
  by (metis distinct_card dom_map_of_conv_image_fst length_map list.set_map)

lemma keys_map_of: "set (map fst al) = dom (map_of al)"
  by (simp add: dom_map_of_conv_image_fst)

lemma distinct_keys_update [simp]:
  "distinct (map fst al) \<Longrightarrow> distinct (map fst (AList.update k v al))"
  by (rule distinct_update)

lemma distinct_keys_delete [simp]:
  "distinct (map fst al) \<Longrightarrow> distinct (map fst (AList.delete k al))"
  by (rule distinct_delete)

lemma length_update_alist: "distinct (map fst al) \<Longrightarrow>
    length (AList.update k v al) = (if k \<in> dom (map_of al) then length al else Suc (length al))"
  by (induction al) (auto split: if_splits)

end
