(* ===== verification/Json.thy ===== *)
theory Json
  imports Prelude
begin

text \<open>
  JSON values as \<^verbatim>\<open>nlohmann::json\<close> holds them, with the accessors the modelled code uses. An object
  is a \<^verbatim>\<open>std::map\<close>: its members sorted by key, each key once. A floating-point number is kept as its
  bit pattern. Text parsing and printing are the library's; they are parameters (a \<open>json_lib\<close>) of the
  definitions that use them, with the laws the code relies on stated as \<open>json_lib_ok\<close>.
\<close>

datatype json =
    JNull
  | JBool bool
  | JInt int
  | JFloat "64 word"
  | JStr string
  | JArr "json list"
  | JObj "(string \<times> json) list"

section \<open>Objects\<close>

fun obj_put :: "string \<Rightarrow> 'v \<Rightarrow> (string \<times> 'v) list \<Rightarrow> (string \<times> 'v) list" where
  "obj_put k v [] = [(k, v)]"
| "obj_put k v ((k', v') # ms) =
     (if k = k' then (k, v) # ms
      else if k < k' then (k, v) # (k', v') # ms
      else (k', v') # obj_put k v ms)"

definition obj_erase :: "string \<Rightarrow> (string \<times> 'v) list \<Rightarrow> (string \<times> 'v) list" where
  "obj_erase k ms = filter (\<lambda>m. fst m \<noteq> k) ms"

lemma map_of_obj_put [simp, json_simps]: "map_of (obj_put k v ms) = (map_of ms)(k \<mapsto> v)"
  by (induction ms) auto

lemma map_of_obj_erase [simp, json_simps]: "map_of (obj_erase k ms) = (map_of ms)(k := None)"
  by (induction ms) (auto simp: obj_erase_def)

lemma set_obj_put: "set (obj_put k v ms) \<subseteq> insert (k, v) (set ms)"
  by (induction ms) (auto split: if_splits)

lemma keys_obj_put: "set (map fst (obj_put k v ms)) = insert k (set (map fst ms))"
  unfolding keys_map_of by simp

lemma sorted_obj_put:
  "sorted_wrt (<) (map fst ms) \<Longrightarrow> sorted_wrt (<) (map fst (obj_put k v ms))"
proof (induction ms)
  case (Cons m ms)
  obtain k' v' where m: "m = (k', v')" by force
  have "\<forall>x \<in> insert k (set (map fst ms)). k' < x" if "\<not> k < k'" "k \<noteq> k'"
    using that Cons.prems m by auto
  then show ?case using Cons m keys_obj_put[of k v ms] by fastforce
qed simp

lemma sorted_obj_erase: "sorted_wrt (<) (map fst ms) \<Longrightarrow> sorted_wrt (<) (map fst (obj_erase k ms))"
  by (induction ms) (auto simp: obj_erase_def)

lemma obj_put_present_same:
  "sorted_wrt (<) (map fst ms) \<Longrightarrow> map_of ms k = Some v \<Longrightarrow> obj_put k v ms = ms"
  by (induction ms) (auto split: if_splits dest!: map_of_SomeD dest: less_asym)

lemma sorted_alist_eq:
  assumes "sorted_wrt (<) (map fst xs)" "sorted_wrt (<) (map fst ys)" "map_of xs = map_of ys"
  shows "xs = (ys :: (string \<times> 'v) list)"
proof -
  have "distinct (map fst xs)" "distinct (map fst ys)"
    using assms(1,2) strict_sorted_iff by blast+
  moreover have "set (map fst xs) = set (map fst ys)" using assms(3) keys_map_of by metis
  ultimately have "map fst xs = map fst ys"
    using assms(1,2) strict_sorted_equal by blast
  then show ?thesis
    using assms(3) \<open>distinct (map fst xs)\<close>
  proof (induction xs arbitrary: ys)
    case (Cons p xs)
    then obtain q ys' where ys: "ys = q # ys'" by (cases ys) auto
    have f: "fst q = fst p" "map fst xs = map fst ys'" using Cons.prems(1) ys by auto
    have e: "map_of (p # xs) k = map_of (q # ys') k" for k
      using fun_cong[OF Cons.prems(2), of k] ys by simp
    have "q = p" using e[of "fst p"] f by (cases p, cases q) auto
    moreover have "map_of xs k = map_of ys' k" for k
    proof (cases "k = fst p")
      case True
      then have "k \<notin> set (map fst xs)" "k \<notin> set (map fst ys')" using Cons.prems(3) f by auto
      then show ?thesis by (metis map_of_eq_None_iff list.set_map)
    next
      case False
      with e[of k] f show ?thesis by (cases p, cases q) auto
    qed
    ultimately show ?case using Cons.IH[of ys'] f Cons.prems(3) ys by auto
  qed simp
qed

section \<open>Well-formed values\<close>

text \<open>
  The values \<^verbatim>\<open>nlohmann::json\<close> parses and can print again: integers in the range of
  \<^verbatim>\<open>std::int64_t\<close> or \<^verbatim>\<open>std::uint64_t\<close>, finite floating-point numbers, sorted objects.
\<close>

definition double_finite :: "64 word \<Rightarrow> bool" where
  "double_finite b \<longleftrightarrow> take_bit 11 (drop_bit 52 b) \<noteq> 2047"

fun json_wf :: "json \<Rightarrow> bool" where
  "json_wf (JInt i) \<longleftrightarrow> - (2 ^ 63) \<le> i \<and> i < 2 ^ 64"
| "json_wf (JFloat b) \<longleftrightarrow> double_finite b"
| "json_wf (JArr xs) \<longleftrightarrow> (\<forall>x \<in> set xs. json_wf x)"
| "json_wf (JObj ms) \<longleftrightarrow> sorted_wrt (<) (map fst ms) \<and> (\<forall>m \<in> set ms. json_wf (snd m))"
| "json_wf _ \<longleftrightarrow> True"

lemma json_wf_put [intro]:
  "json_wf (JObj ms) \<Longrightarrow> json_wf v \<Longrightarrow> json_wf (JObj (obj_put k v ms))"
  using set_obj_put[of k v ms] by (auto simp: sorted_obj_put)

lemma json_wf_erase [intro]: "json_wf (JObj ms) \<Longrightarrow> json_wf (JObj (obj_erase k ms))"
  by (auto simp: sorted_obj_erase) (auto simp: obj_erase_def)

lemma json_wf_lookup: "json_wf (JObj ms) \<Longrightarrow> map_of ms k = Some v \<Longrightarrow> json_wf v"
  by (auto dest!: map_of_SomeD)

lemma json_wf_nth: "json_wf (JArr xs) \<Longrightarrow> i < length xs \<Longrightarrow> json_wf (xs ! i)"
  by simp

lemma json_wf_update: "json_wf (JArr xs) \<Longrightarrow> json_wf v \<Longrightarrow> json_wf (JArr (xs[i := v]))"
  using set_update_subset_insert[of xs i v] by auto

section \<open>Accessors\<close>

definition is_object :: "json \<Rightarrow> bool" where
  "is_object j = (case j of JObj _ \<Rightarrow> True | _ \<Rightarrow> False)"

definition is_array :: "json \<Rightarrow> bool" where
  "is_array j = (case j of JArr _ \<Rightarrow> True | _ \<Rightarrow> False)"

definition is_string :: "json \<Rightarrow> bool" where
  "is_string j = (case j of JStr _ \<Rightarrow> True | _ \<Rightarrow> False)"

definition is_boolean :: "json \<Rightarrow> bool" where
  "is_boolean j = (case j of JBool _ \<Rightarrow> True | _ \<Rightarrow> False)"

definition is_number_integer :: "json \<Rightarrow> bool" where
  "is_number_integer j = (case j of JInt _ \<Rightarrow> True | _ \<Rightarrow> False)"

definition is_number :: "json \<Rightarrow> bool" where
  "is_number j = (case j of JInt _ \<Rightarrow> True | JFloat _ \<Rightarrow> True | _ \<Rightarrow> False)"

definition is_null :: "json \<Rightarrow> bool" where
  "is_null j = (case j of JNull \<Rightarrow> True | _ \<Rightarrow> False)"

text \<open>\<open>find\<close> on an object; every other value has no members.\<close>

definition jget :: "json \<Rightarrow> string \<Rightarrow> json option" where
  "jget j k = (case j of JObj ms \<Rightarrow> map_of ms k | _ \<Rightarrow> None)"

definition contains :: "json \<Rightarrow> string \<Rightarrow> bool" where
  "contains j k \<longleftrightarrow> jget j k \<noteq> None"

definition json_size :: "json \<Rightarrow> nat" where
  "json_size j = (case j of JNull \<Rightarrow> 0 | JArr xs \<Rightarrow> length xs | JObj ms \<Rightarrow> length ms | _ \<Rightarrow> 1)"

text \<open>Iteration over the elements: the values of an object, and a scalar as its own only element.\<close>

definition elements :: "json \<Rightarrow> json list" where
  "elements j = (case j of JNull \<Rightarrow> [] | JArr xs \<Rightarrow> xs | JObj ms \<Rightarrow> map snd ms | _ \<Rightarrow> [j])"

text \<open>\<open>operator[](key) = v\<close>: creates an object from null, throws on any other non-object.\<close>

definition jput :: "json \<Rightarrow> string \<Rightarrow> json \<Rightarrow> json outcome" where
  "jput j k v = (case j of JObj ms \<Rightarrow> Inr (JObj (obj_put k v ms)) | JNull \<Rightarrow> Inr (JObj [(k, v)])
                 | _ \<Rightarrow> Inl JsonException)"

text \<open>\<open>get<std::string>()\<close>, \<open>get<bool>()\<close>: throw on any other type.\<close>

definition get_string :: "json \<Rightarrow> string outcome" where
  "get_string j = (case j of JStr s \<Rightarrow> Inr s | _ \<Rightarrow> Inl JsonException)"

definition get_bool :: "json \<Rightarrow> bool outcome" where
  "get_bool j = (case j of JBool b \<Rightarrow> Inr b | _ \<Rightarrow> Inl JsonException)"

text \<open>
  The integral part of a finite double: the 53-bit significand scaled by the exponent and cut off
  toward zero, as \<^verbatim>\<open>static_cast\<close> to an integer type does when the value fits.
\<close>

definition double_trunc :: "64 word \<Rightarrow> int" where
  "double_trunc b =
     (let e = unat (take_bit 11 (drop_bit 52 b));
          f = uint (take_bit 52 b);
          s = (if e = 0 then f else f + 2 ^ 52);
          m = (if e \<ge> 1075 then s * 2 ^ (e - 1075) else s div 2 ^ (1075 - max e 1))
      in if bit b 63 then - m else m)"

text \<open>\<open>get<int>()\<close>: converts any number (and a boolean) without a range check.\<close>

definition get_int :: "json \<Rightarrow> int outcome" where
  "get_int j = (case j of
       JInt i \<Rightarrow> Inr (as_int32 i)
     | JFloat b \<Rightarrow> Inr (as_int32 (double_trunc b))
     | JBool b \<Rightarrow> Inr (if b then 1 else 0)
     | _ \<Rightarrow> Inl JsonException)"

text \<open>\<open>get<long long>()\<close>.\<close>

definition get_int64 :: "json \<Rightarrow> int outcome" where
  "get_int64 j = (case j of
       JInt i \<Rightarrow> Inr (as_int64 i)
     | JFloat b \<Rightarrow> Inr (as_int64 (double_trunc b))
     | JBool b \<Rightarrow> Inr (if b then 1 else 0)
     | _ \<Rightarrow> Inl JsonException)"

text \<open>
  \<open>value(key, default)\<close>: throws when the receiver is not an object, returns the default when the key
  is missing and otherwise converts the member, which throws on a wrong type.
\<close>

definition value_with :: "(json \<Rightarrow> 'a outcome) \<Rightarrow> json \<Rightarrow> string \<Rightarrow> 'a \<Rightarrow> 'a outcome" where
  "value_with conv j k d =
     (case j of
        JObj ms \<Rightarrow> (case map_of ms k of None \<Rightarrow> Inr d | Some v \<Rightarrow> conv v)
      | _ \<Rightarrow> Inl JsonException)"

definition value_string :: "json \<Rightarrow> string \<Rightarrow> string \<Rightarrow> string outcome" where
  "value_string = value_with get_string"

definition value_int :: "json \<Rightarrow> string \<Rightarrow> int \<Rightarrow> int outcome" where
  "value_int = value_with get_int"

definition value_int64 :: "json \<Rightarrow> string \<Rightarrow> int \<Rightarrow> int outcome" where
  "value_int64 = value_with get_int64"

definition value_bool :: "json \<Rightarrow> string \<Rightarrow> bool \<Rightarrow> bool outcome" where
  "value_bool = value_with get_bool"

definition value_json :: "json \<Rightarrow> string \<Rightarrow> json \<Rightarrow> json outcome" where
  "value_json = value_with Inr"

lemma is_object_iff: "is_object j \<longleftrightarrow> (\<exists>ms. j = JObj ms)"
  by (auto simp: is_object_def split: json.splits)

lemma is_array_iff: "is_array j \<longleftrightarrow> (\<exists>xs. j = JArr xs)"
  by (auto simp: is_array_def split: json.splits)

lemma json_type_simps [simp, json_simps]:
  "is_object (JObj ms)" "\<not> is_object (JArr xs)" "is_array (JArr xs)" "\<not> is_array (JObj ms)"
  "is_string (JStr s)" "jget (JObj ms) k = map_of ms k" "jget (JArr xs) k = None"
  by (simp_all add: is_object_def is_array_def is_string_def jget_def)

lemma jget_wf: "json_wf j \<Longrightarrow> jget j k = Some v \<Longrightarrow> json_wf v"
  by (cases j) (auto simp: jget_def dest!: map_of_SomeD)

lemma json_wf_erase_all: "json_wf (JObj ms) \<Longrightarrow> json_wf (JObj (fold obj_erase ks ms))"
  by (induction ks arbitrary: ms) (auto simp del: json_wf.simps)

section \<open>The JSON library\<close>

text \<open>
  \<^verbatim>\<open>json::parse\<close> (\<open>None\<close> for the exception it throws on ill-formed text) and \<^verbatim>\<open>dump\<close>. The code
  relies on printing and parsing being inverse, on parsed values being printable, on a printed
  string being one JSON string literal (a quote, a body in which quotes and backslashes are
  escaped, and a quote), and on the printed form of the empty array.
\<close>

record json_lib =
  jl_parse :: "string \<Rightarrow> json option"
  jl_dump :: "json \<Rightarrow> string"

fun literal_body :: "bool \<Rightarrow> string \<Rightarrow> bool" where
  \<comment> \<open>no unescaped quote, and no escape left open at the end\<close>
  "literal_body escaped [] \<longleftrightarrow> \<not> escaped"
| "literal_body escaped (c # cs) \<longleftrightarrow>
     (if escaped then literal_body False cs
      else if c = backslash then literal_body True cs
      else c \<noteq> quote \<and> literal_body False cs)"

definition json_lib_ok :: "json_lib \<Rightarrow> bool" where
  "json_lib_ok L \<longleftrightarrow>
     (\<forall>j. json_wf j \<longrightarrow> jl_parse L (jl_dump L j) = Some j)
     \<and> (\<forall>s j. jl_parse L s = Some j \<longrightarrow> json_wf j)
     \<and> (\<forall>s. \<exists>body. jl_dump L (JStr s) = quote # body @ [quote] \<and> literal_body False body)
     \<and> jl_dump L (JArr []) = ''[]''"

lemma json_lib_okD:
  assumes "json_lib_ok L"
  shows "json_wf j \<Longrightarrow> jl_parse L (jl_dump L j) = Some j" "jl_parse L s = Some j \<Longrightarrow> json_wf j"
    "\<exists>body. jl_dump L (JStr s) = quote # body @ [quote] \<and> literal_body False body"
    "jl_parse L ''[]'' = Some (JArr [])"
proof -
  show "json_wf j \<Longrightarrow> jl_parse L (jl_dump L j) = Some j" "jl_parse L s = Some j \<Longrightarrow> json_wf j"
    "\<exists>body. jl_dump L (JStr s) = quote # body @ [quote] \<and> literal_body False body"
    using assms by (auto simp: json_lib_ok_def)
  have "jl_dump L (JArr []) = ''[]''" using assms by (simp add: json_lib_ok_def)
  moreover have "jl_parse L (jl_dump L (JArr [])) = Some (JArr [])"
    using assms unfolding json_lib_ok_def by (metis json_wf.simps(3) empty_iff empty_set)
  ultimately show "jl_parse L ''[]'' = Some (JArr [])" by simp
qed

lemma dump_inject:
  "json_lib_ok L \<Longrightarrow> json_wf i \<Longrightarrow> json_wf j \<Longrightarrow> jl_dump L i = jl_dump L j \<longleftrightarrow> i = j"
  by (metis json_lib_okD(1) option.inject)

end
