(* ===== verification/Json_Codec.thy ===== *)
theory Json_Codec
  imports Json
begin

text \<open>
  A concrete printer and parser that satisfy the laws of \<open>json_lib_ok\<close>. The development never relies
  on its format: it shows that the laws can hold and lets the properties be evaluated on concrete
  inputs.
\<close>

fun escape :: "string \<Rightarrow> string" where
  "escape [] = []"
| "escape (c # cs) = (if c = quote \<or> c = backslash then backslash # c # escape cs else c # escape cs)"

definition string_literal :: "string \<Rightarrow> string" where
  "string_literal s = quote # escape s @ [quote]"

fun encode :: "json \<Rightarrow> string" where
  "encode JNull = ''n''"
| "encode (JBool b) = (if b then ''t'' else ''f'')"
| "encode (JInt i) = (if i < 0 then CHR ''-'' # to_string (nat (- i)) @ '';''
                      else CHR ''+'' # to_string (nat i) @ '';'')"
| "encode (JFloat b) = CHR ''d'' # to_string (unat b) @ '';''"
| "encode (JStr s) = string_literal s"
| "encode (JArr xs) = CHR ''['' # concat (map encode xs) @ '']''"
| "encode (JObj ms) = CHR ''{'' # concat (map (\<lambda>m. string_literal (fst m) @ encode (snd m)) ms) @ ''}''"

fun unescape :: "string \<Rightarrow> (string \<times> string) option" where
  "unescape [] = None"
| "unescape (c # cs) =
     (if c = quote then Some ([], cs)
      else if c = backslash then
        (case cs of [] \<Rightarrow> None | e # cs' \<Rightarrow> map_option (\<lambda>(s, r). (e # s, r)) (unescape cs'))
      else map_option (\<lambda>(s, r). (c # s, r)) (unescape cs))"

definition decode_number :: "string \<Rightarrow> (nat \<times> string) option" where
  "decode_number cs =
     (case dropWhile isdigit cs of
        [] \<Rightarrow> None
      | _ # r \<Rightarrow> Some (digits_value (takeWhile isdigit cs), r))"

fun decode :: "nat \<Rightarrow> string \<Rightarrow> (json \<times> string) option"
  and decode_list :: "nat \<Rightarrow> string \<Rightarrow> (json list \<times> string) option"
  and decode_members :: "nat \<Rightarrow> string \<Rightarrow> ((string \<times> json) list \<times> string) option" where
  "decode 0 cs = None"
| "decode (Suc n) [] = None"
| "decode (Suc n) (c # cs) =
     (if c = CHR ''n'' then Some (JNull, cs)
      else if c = CHR ''t'' then Some (JBool True, cs)
      else if c = CHR ''f'' then Some (JBool False, cs)
      else if c = CHR ''-'' then map_option (\<lambda>(k, r). (JInt (- int k), r)) (decode_number cs)
      else if c = CHR ''+'' then map_option (\<lambda>(k, r). (JInt (int k), r)) (decode_number cs)
      else if c = CHR ''d'' then map_option (\<lambda>(k, r). (JFloat (of_nat k), r)) (decode_number cs)
      else if c = quote then map_option (\<lambda>(s, r). (JStr s, r)) (unescape cs)
      else if c = CHR ''['' then map_option (\<lambda>(xs, r). (JArr xs, r)) (decode_list n cs)
      else if c = CHR ''{'' then map_option (\<lambda>(ms, r). (JObj ms, r)) (decode_members n cs)
      else None)"
| "decode_list 0 cs = None"
| "decode_list (Suc n) cs =
     (if cs \<noteq> [] \<and> hd cs = CHR '']'' then Some ([], tl cs)
      else case decode n cs of
        None \<Rightarrow> None
      | Some (x, r) \<Rightarrow> map_option (\<lambda>(xs, r'). (x # xs, r')) (decode_list n r))"
| "decode_members 0 cs = None"
| "decode_members (Suc n) cs =
     (if cs \<noteq> [] \<and> hd cs = CHR ''}'' then Some ([], tl cs)
      else case unescape (tl cs) of
        None \<Rightarrow> None
      | Some (k, r) \<Rightarrow>
          (case decode n r of
             None \<Rightarrow> None
           | Some (v, r') \<Rightarrow> map_option (\<lambda>(ms, r''). ((k, v) # ms, r'')) (decode_members n r')))"

definition ref_parse :: "string \<Rightarrow> json option" where
  "ref_parse s =
     (case decode (length s) s of
        Some (j, []) \<Rightarrow> if json_wf j then Some j else None
      | _ \<Rightarrow> None)"

definition ref_lib :: json_lib where
  "ref_lib = \<lparr>jl_parse = ref_parse, jl_dump = encode\<rparr>"

lemma unescape_escape: "unescape (escape s @ quote # rest) = Some (s, rest)"
  by (induction s) auto

lemma literal_body_escape: "literal_body False (escape s)"
  by (induction s) auto

lemma decode_number_to_string: "decode_number (to_string n @ CHR '';'' # rest) = Some (n, rest)"
proof -
  have "\<not> isdigit (CHR '';'')" by (simp add: isdigit_def code_of_def)
  then have "takeWhile isdigit (to_string n @ CHR '';'' # rest) = to_string n"
    "dropWhile isdigit (to_string n @ CHR '';'' # rest) = CHR '';'' # rest"
    using to_string_digits[of n] by (auto simp: takeWhile_append dropWhile_append)
  then show ?thesis by (simp add: decode_number_def)
qed

lemma encode_nonempty: "encode j \<noteq> []" "hd (encode j) \<noteq> CHR '']''"
  by (cases j; simp add: string_literal_def)+

lemma length_encode_pos: "0 < length (encode j)"
  using encode_nonempty(1) by simp

lemma decode_list_encode:
  assumes "\<And>x n rest. x \<in> set xs \<Longrightarrow> length (encode x) \<le> n \<Longrightarrow> decode n (encode x @ rest) = Some (x, rest)"
    "length (concat (map encode xs)) < n"
  shows "decode_list n (concat (map encode xs) @ CHR '']'' # rest) = Some (xs, rest)"
  using assms
proof (induction xs arbitrary: n)
  case Nil
  then show ?case by (cases n) auto
next
  case (Cons x xs)
  then obtain m where n: "n = Suc m" by (cases n) auto
  have ih: "decode_list m (concat (map encode xs) @ CHR '']'' # rest) = Some (xs, rest)"
  proof (rule Cons.IH)
    show "length (concat (map encode xs)) < m"
      using Cons.prems(2) n length_encode_pos[of x] by (simp del: length_greater_0_conv)
  qed (use Cons.prems in auto)
  have "hd (encode x @ concat (map encode xs) @ CHR '']'' # rest) \<noteq> CHR '']''"
    using encode_nonempty[of x] by simp
  then show ?case using Cons.prems n ih by simp
qed

lemma decode_members_encode:
  assumes "\<And>m n rest. m \<in> set ms \<Longrightarrow> length (encode (snd m)) \<le> n \<Longrightarrow>
      decode n (encode (snd m) @ rest) = Some (snd m, rest)"
    "length (concat (map (\<lambda>m. string_literal (fst m) @ encode (snd m)) ms)) < n"
  shows "decode_members n (concat (map (\<lambda>m. string_literal (fst m) @ encode (snd m)) ms)
      @ CHR ''}'' # rest) = Some (ms, rest)"
  using assms
proof (induction ms arbitrary: n)
  case Nil
  then show ?case by (cases n) auto
next
  case (Cons p ms)
  then obtain m where n: "n = Suc m" by (cases n) auto
  have ih: "decode_members m (concat (map (\<lambda>m. string_literal (fst m) @ encode (snd m)) ms)
      @ CHR ''}'' # rest) = Some (ms, rest)"
  proof (rule Cons.IH)
    show "length (concat (map (\<lambda>m. string_literal (fst m) @ encode (snd m)) ms)) < m"
      using Cons.prems(2) n length_encode_pos[of "snd p"] by (simp del: length_greater_0_conv)
  qed (use Cons.prems in auto)
  have "decode m (encode (snd p) @ r) = Some (snd p, r)" for r
    using Cons.prems n by simp
  then show ?case using n ih by (cases p) (simp add: string_literal_def unescape_escape)
qed

lemma decode_encode: "length (encode j) \<le> n \<Longrightarrow> decode n (encode j @ rest) = Some (j, rest)"
proof (induction j arbitrary: n rest)
  case (JArr xs)
  then obtain m where n: "n = Suc m" by (cases n) auto
  have "decode_list m (concat (map encode xs) @ CHR '']'' # rest) = Some (xs, rest)"
    using JArr n by (intro decode_list_encode) auto
  then show ?case using n by simp
next
  case (JObj ms)
  then obtain m where n: "n = Suc m" by (cases n) auto
  have "decode_members m (concat (map (\<lambda>m. string_literal (fst m) @ encode (snd m)) ms)
      @ CHR ''}'' # rest) = Some (ms, rest)"
  proof (rule decode_members_encode)
    show "decode k (encode (snd p) @ r) = Some (snd p, r)"
      if "p \<in> set ms" "length (encode (snd p)) \<le> k" for p k r
      using JObj(1)[OF that(1) _ that(2)] by (cases p) auto
    show "length (concat (map (\<lambda>m. string_literal (fst m) @ encode (snd m)) ms)) < m"
      using JObj(2) n by simp
  qed
  then show ?case using n by simp
next
  case (JStr s)
  then show ?case by (cases n) (auto simp: string_literal_def unescape_escape)
next
  case (JBool b)
  then show ?case by (cases n; cases b) auto
next
  case (JInt i)
  then show ?case by (cases n; cases "i < 0") (auto simp: decode_number_to_string)
next
  case (JFloat b)
  then show ?case by (cases n) (auto simp: decode_number_to_string)
next
  case JNull
  then show ?case by (cases n) auto
qed

lemma ref_lib_ok: "json_lib_ok ref_lib"
proof -
  have "ref_parse (encode j) = Some j" if "json_wf j" for j
    using decode_encode[of j "length (encode j)" "[]"] that by (simp add: ref_parse_def)
  moreover have "json_wf j" if "ref_parse s = Some j" for s j
    using that by (auto simp: ref_parse_def split: option.splits list.splits if_splits prod.splits)
  ultimately show ?thesis
    using literal_body_escape by (auto simp: json_lib_ok_def ref_lib_def string_literal_def)
qed

end
