(* ===== verification/Canvas_Persistence.thy ===== *)
theory Canvas_Persistence
  imports Json_Codec
begin

text \<open>
  \<^verbatim>\<open>cpp/include/Canvas.hpp\<close>, \<^verbatim>\<open>cpp/src/Canvas.cpp\<close> and \<^verbatim>\<open>cpp/src/service/CanvasPersistenceService.cpp\<close>:
  a canvas and its persistence queue. Producers enqueue events and get tickets; a worker thread
  drains the queue; readers and the unload wait until a ticket is completed. Every operation holds
  the queue's mutex, so each is one step; \<open>std::uint64_t\<close> tickets are natural numbers, and \<open>enqueue\<close>
  refuses a ticket past the largest one.
\<close>

record persistence_entry =
  pe_ticket :: nat
  pe_bytes :: nat
  pe_event :: json
  pe_request_id :: string
  pe_parent_request_id :: string

record canvas =
  cv_canvas_id :: int
  cv_canvas_name :: string
  cv_admin_user_id :: int
  cv_redis_ip :: string
  cv_redis_port :: int
  cv_settings_revision :: int
  cv_unloading :: bool
  cv_pending :: nat
  cv_queued_bytes :: nat
  cv_last_enqueued :: nat
  cv_last_completed :: nat
  cv_queue :: "persistence_entry list"
  cv_worker_running :: bool
  cv_failed :: bool

definition canvas_new :: "int \<Rightarrow> string \<Rightarrow> int \<Rightarrow> canvas" where
  "canvas_new canvas_id redis_ip redis_port =
     \<lparr>cv_canvas_id = canvas_id, cv_canvas_name = [], cv_admin_user_id = 0, cv_redis_ip = redis_ip,
      cv_redis_port = redis_port, cv_settings_revision = 0, cv_unloading = False, cv_pending = 0,
      cv_queued_bytes = 0, cv_last_enqueued = 0, cv_last_completed = 0, cv_queue = [],
      cv_worker_running = False, cv_failed = False\<rparr>"

definition setCanvasName :: "string \<Rightarrow> canvas \<Rightarrow> canvas" where
  "setCanvasName name c = c\<lparr>cv_canvas_name := name\<rparr>"

definition setSettingsRevision :: "int \<Rightarrow> canvas \<Rightarrow> canvas" where
  "setSettingsRevision revision c = c\<lparr>cv_settings_revision := revision\<rparr>"

definition setAdminUserId :: "int \<Rightarrow> canvas \<Rightarrow> canvas" where
  "setAdminUserId user c = c\<lparr>cv_admin_user_id := user\<rparr>"

definition setRedisConfig :: "string \<Rightarrow> int \<Rightarrow> canvas \<Rightarrow> canvas" where
  "setRedisConfig ip port c = c\<lparr>cv_redis_ip := ip, cv_redis_port := port\<rparr>"

definition max_bytes :: nat where
  "max_bytes = 64 * 1024 * 1024"

text \<open>The results are: accepted, whether the caller must start a worker, and the new state.\<close>

definition enqueuePersistence ::
  "json_lib \<Rightarrow> json \<Rightarrow> string \<Rightarrow> string \<Rightarrow> canvas \<Rightarrow> bool \<times> bool \<times> canvas" where
  "enqueuePersistence L event request_id parent_request_id c =
     (let bytes = length (jl_dump L event) + length request_id + length parent_request_id in
      if cv_pending c \<ge> 1024 \<or> bytes > max_bytes \<or> cv_queued_bytes c > max_bytes - bytes then
        (False, False, c)
      else if cv_unloading c \<or> cv_failed c then (False, False, c)
      else if cv_last_enqueued c = uint64_max then (False, False, c)
      else
        (let ticket = cv_last_enqueued c + 1 in
         (True, \<not> cv_worker_running c,
          c\<lparr>cv_last_enqueued := ticket,
            cv_queue := cv_queue c @ [\<lparr>pe_ticket = ticket, pe_bytes = bytes, pe_event = event,
              pe_request_id = request_id, pe_parent_request_id = parent_request_id\<rparr>],
            cv_queued_bytes := cv_queued_bytes c + bytes,
            cv_pending := cv_pending c + 1,
            cv_worker_running := True\<rparr>)))"

definition persistenceBarrier :: "canvas \<Rightarrow> nat" where
  "persistenceBarrier c = cv_last_enqueued c"

definition nextPersistence :: "canvas \<Rightarrow> persistence_entry option \<times> canvas" where
  "nextPersistence c =
     (case cv_queue c of
        [] \<Rightarrow> (None, c\<lparr>cv_worker_running := False\<rparr>)
      | entry # rest \<Rightarrow>
          (Some entry,
           c\<lparr>cv_queued_bytes := cv_queued_bytes c - pe_bytes entry, cv_queue := rest\<rparr>))"

definition cancelPersistenceQueue :: "canvas \<Rightarrow> canvas" where
  "cancelPersistenceQueue c =
     (let pending = (if cv_pending c \<ge> length (cv_queue c) then cv_pending c - length (cv_queue c)
                     else 0);
          c1 = c\<lparr>cv_failed := True, cv_pending := pending, cv_queue := [], cv_queued_bytes := 0,
                 cv_worker_running := False\<rparr>
      in if pending = 0 then c1\<lparr>cv_last_completed := cv_last_enqueued c1\<rparr> else c1)"

definition endPersistence :: "nat \<Rightarrow> bool \<Rightarrow> canvas \<Rightarrow> canvas" where
  "endPersistence ticket succeeded c =
     c\<lparr>cv_failed := (cv_failed c \<or> \<not> succeeded),
       cv_pending := (if cv_pending c > 0 then cv_pending c - 1 else cv_pending c),
       cv_last_completed := max (cv_last_completed c) ticket\<rparr>"

text \<open>The two waits return once their condition holds; the condition is the predicate they test.\<close>

definition waitForPersistenceThrough_done :: "nat \<Rightarrow> canvas \<Rightarrow> bool" where
  "waitForPersistenceThrough_done ticket c \<longleftrightarrow> cv_last_completed c \<ge> ticket"

definition waitForPending_begin :: "canvas \<Rightarrow> nat \<times> canvas" where
  \<comment> \<open>closes the canvas and takes the ticket to wait for\<close>
  "waitForPending_begin c = (cv_last_enqueued c, c\<lparr>cv_unloading := True\<rparr>)"

definition waitForPending_result :: "canvas \<Rightarrow> bool" where
  "waitForPending_result c \<longleftrightarrow> \<not> cv_failed c"

section \<open>The worker\<close>

definition drain_event_type :: "json \<Rightarrow> string outcome" where
  "drain_event_type event =
     (if is_object event then value_string event ''type'' ''unknown'' else Inr ''unknown'')"

text \<open>
  \<open>drain\<close> without concurrent producers. \<open>apply_event\<close> is \<open>CanvasEventMemory::apply\<close>, with \<open>False\<close> also
  for the exceptions the loop catches. \<open>Inl\<close> is the exception of \<open>event.value("type", ...)\<close>, which is
  outside the try block and leaves \<open>drain\<close>.
\<close>

function cp_drain ::
  "(json \<Rightarrow> 'w \<Rightarrow> bool \<times> 'w) \<Rightarrow> canvas \<Rightarrow> 'w \<Rightarrow> (cpp_exn + unit) \<times> canvas \<times> 'w" where
  "cp_drain apply_event c w =
     (case nextPersistence c of
        (None, c1) \<Rightarrow> (Inr (), c1, w)
      | (Some entry, c1) \<Rightarrow>
          (case drain_event_type (pe_event entry) of
             Inl e \<Rightarrow> (Inl e, c1, w)
           | Inr _ \<Rightarrow>
               (let (succeeded, w1) = apply_event (pe_event entry) w
                in cp_drain apply_event (endPersistence (pe_ticket entry) succeeded c1) w1)))"
  by pat_completeness auto
termination
  by (relation "measure (\<lambda>(_, c, _). length (cv_queue c))")
    (auto simp: nextPersistence_def endPersistence_def split: list.splits)

declare cp_drain.simps [simp del]

section \<open>The concurrent system\<close>

text \<open>
  A canvas with any number of producers and worker threads. \<open>ps_workers\<close> counts the live \<open>drain\<close>
  threads, \<open>ps_inflight\<close> lists the entries they are applying, \<open>ps_crashed\<close> the events whose worker
  left \<open>drain\<close> with an exception. \<open>ps_accepted\<close> and \<open>ps_log\<close> record the accepted events and the
  applied ones with their outcome.
\<close>

record psys =
  ps_canvas :: canvas
  ps_workers :: nat
  ps_inflight :: "persistence_entry list"
  ps_crashed :: "json list"
  ps_accepted :: "json list"
  ps_log :: "(json \<times> bool) list"

definition psys_init :: "canvas \<Rightarrow> psys" where
  "psys_init c = \<lparr>ps_canvas = c, ps_workers = 0, ps_inflight = [], ps_crashed = [],
     ps_accepted = [], ps_log = []\<rparr>"

inductive psys_step :: "json_lib \<Rightarrow> psys \<Rightarrow> psys \<Rightarrow> bool" for L where
  enqueue: "enqueuePersistence L e rid pid (ps_canvas s) = (accepted, start, c) \<Longrightarrow>
     psys_step L s (s\<lparr>ps_canvas := c,
       ps_workers := (if start then ps_workers s + 1 else ps_workers s),
       ps_accepted := (if accepted then ps_accepted s @ [e] else ps_accepted s)\<rparr>)"
| take_entry: "length (ps_inflight s) < ps_workers s \<Longrightarrow>
     nextPersistence (ps_canvas s) = (Some entry, c) \<Longrightarrow>
     psys_step L s (s\<lparr>ps_canvas := c, ps_inflight := ps_inflight s @ [entry]\<rparr>)"
| finish_worker: "length (ps_inflight s) < ps_workers s \<Longrightarrow>
     nextPersistence (ps_canvas s) = (None, c) \<Longrightarrow>
     psys_step L s (s\<lparr>ps_canvas := c, ps_workers := ps_workers s - 1\<rparr>)"
| apply_entry: "entry \<in> set (ps_inflight s) \<Longrightarrow> drain_event_type (pe_event entry) = Inr t \<Longrightarrow>
     psys_step L s (s\<lparr>ps_canvas := endPersistence (pe_ticket entry) succeeded (ps_canvas s),
       ps_inflight := remove1 entry (ps_inflight s),
       ps_log := ps_log s @ [(pe_event entry, succeeded)]\<rparr>)"
| crash: "entry \<in> set (ps_inflight s) \<Longrightarrow> drain_event_type (pe_event entry) = Inl x \<Longrightarrow>
     psys_step L s (s\<lparr>ps_workers := ps_workers s - 1,
       ps_inflight := remove1 entry (ps_inflight s),
       ps_crashed := ps_crashed s @ [pe_event entry]\<rparr>)"
| cancel: "psys_step L s (s\<lparr>ps_canvas := cancelPersistenceQueue (ps_canvas s)\<rparr>)"
| unload: "waitForPending_begin (ps_canvas s) = (t, c) \<Longrightarrow> psys_step L s (s\<lparr>ps_canvas := c\<rparr>)"

inductive psys_reachable :: "json_lib \<Rightarrow> psys \<Rightarrow> bool" for L where
  init: "psys_reachable L (psys_init (canvas_new i ip port))"
| step: "psys_reachable L s \<Longrightarrow> psys_step L s s' \<Longrightarrow> psys_reachable L s'"

inductive_cases psys_stepE: "psys_step L s s'"

section \<open>Invariant\<close>

definition tickets_from :: "nat \<Rightarrow> persistence_entry list \<Rightarrow> bool" where
  "tickets_from n es \<longleftrightarrow> map pe_ticket es = [n ..< n + length es]"

text \<open>What always holds: the counters, the bounds, and at most one worker.\<close>

definition ps_counts :: "psys \<Rightarrow> bool" where
  "ps_counts s \<longleftrightarrow>
     cv_pending (ps_canvas s) = length (cv_queue (ps_canvas s)) + length (ps_inflight s)
        + length (ps_crashed s)
     \<and> cv_pending (ps_canvas s) \<le> 1024
     \<and> cv_queued_bytes (ps_canvas s) = sum_list (map pe_bytes (cv_queue (ps_canvas s)))
     \<and> cv_queued_bytes (ps_canvas s) \<le> max_bytes
     \<and> cv_last_enqueued (ps_canvas s) \<le> uint64_max
     \<and> length (ps_inflight s) \<le> ps_workers s \<and> ps_workers s \<le> 1"

text \<open>What holds while nothing has failed: no ticket is lost or out of order.\<close>

definition ps_ordered :: "psys \<Rightarrow> bool" where
  "ps_ordered s \<longleftrightarrow>
     ps_accepted s = map fst (ps_log s) @ map pe_event (ps_inflight s) @ ps_crashed s
        @ map pe_event (cv_queue (ps_canvas s))
     \<and> list_all snd (ps_log s)
     \<and> cv_last_completed (ps_canvas s) = length (ps_log s)
     \<and> cv_last_enqueued (ps_canvas s) = length (ps_accepted s)
     \<and> tickets_from (length (ps_log s) + 1) (ps_inflight s)
     \<and> tickets_from (length (ps_log s) + length (ps_inflight s) + length (ps_crashed s) + 1)
         (cv_queue (ps_canvas s))
     \<and> (cv_worker_running (ps_canvas s) \<longleftrightarrow> ps_workers s = 1 \<or> ps_crashed s \<noteq> [])
     \<and> (ps_crashed s \<noteq> [] \<longrightarrow> ps_workers s = 0)
     \<and> (cv_queue (ps_canvas s) \<noteq> [] \<longrightarrow> cv_worker_running (ps_canvas s))"

definition ps_inv :: "psys \<Rightarrow> bool" where
  "ps_inv s \<longleftrightarrow> ps_counts s \<and> (\<not> cv_failed (ps_canvas s) \<longrightarrow> ps_ordered s)"

lemma tickets_from_Cons [simp]: "tickets_from n (e # es) \<longleftrightarrow> pe_ticket e = n \<and> tickets_from (Suc n) es"
  by (auto simp: tickets_from_def upt_rec[of n])

lemma tickets_from_Nil [simp]: "tickets_from n []"
  by (simp add: tickets_from_def)

lemma tickets_from_snoc [simp]:
  "tickets_from n (es @ [e]) \<longleftrightarrow> tickets_from n es \<and> pe_ticket e = n + length es"
  by (induction es arbitrary: n) auto

lemma ps_inv_init: "ps_inv (psys_init (canvas_new i ip port))"
  by (simp add: ps_inv_def ps_counts_def ps_ordered_def psys_init_def canvas_new_def)

lemma enqueue_rejected: "enqueuePersistence L e rid pid c = (False, start, c') \<Longrightarrow> c' = c \<and> \<not> start"
  by (auto simp: enqueuePersistence_def Let_def split: if_splits)

lemma enqueue_accepted:
  assumes "enqueuePersistence L e rid pid c = (True, start, c')"
  obtains entry where "pe_event entry = e" "pe_ticket entry = cv_last_enqueued c + 1"
    "cv_queued_bytes c + pe_bytes entry \<le> max_bytes" "cv_pending c < 1024"
    "\<not> cv_unloading c" "\<not> cv_failed c" "cv_last_enqueued c \<noteq> uint64_max"
    "start \<longleftrightarrow> \<not> cv_worker_running c"
    "c' = c\<lparr>cv_last_enqueued := cv_last_enqueued c + 1, cv_queue := cv_queue c @ [entry],
       cv_queued_bytes := cv_queued_bytes c + pe_bytes entry, cv_pending := cv_pending c + 1,
       cv_worker_running := True\<rparr>"
proof -
  let ?b = "length (jl_dump L e) + length rid + length pid"
  let ?e = "\<lparr>pe_ticket = cv_last_enqueued c + 1, pe_bytes = ?b, pe_event = e, pe_request_id = rid,
    pe_parent_request_id = pid\<rparr>"
  show thesis
    using assms by (intro that[of ?e]) (auto simp: enqueuePersistence_def Let_def split: if_splits)
qed

lemma ps_inv_enqueue:
  assumes "ps_inv s" "enqueuePersistence L e rid pid (ps_canvas s) = (True, start, c)"
  shows "ps_inv (s\<lparr>ps_canvas := c, ps_workers := (if start then ps_workers s + 1 else ps_workers s),
     ps_accepted := ps_accepted s @ [e]\<rparr>)"
  using assms(2)
proof (rule enqueue_accepted)
  fix entry
  assume en: "pe_event entry = e" "pe_ticket entry = cv_last_enqueued (ps_canvas s) + 1"
    "cv_queued_bytes (ps_canvas s) + pe_bytes entry \<le> max_bytes" "cv_pending (ps_canvas s) < 1024"
    "\<not> cv_unloading (ps_canvas s)" "\<not> cv_failed (ps_canvas s)"
    "cv_last_enqueued (ps_canvas s) \<noteq> uint64_max" "start \<longleftrightarrow> \<not> cv_worker_running (ps_canvas s)"
    "c = ps_canvas s\<lparr>cv_last_enqueued := cv_last_enqueued (ps_canvas s) + 1,
       cv_queue := cv_queue (ps_canvas s) @ [entry],
       cv_queued_bytes := cv_queued_bytes (ps_canvas s) + pe_bytes entry,
       cv_pending := cv_pending (ps_canvas s) + 1, cv_worker_running := True\<rparr>"
  have cnt: "ps_counts s" and ord: "ps_ordered s" using assms(1) en by (auto simp: ps_inv_def)
  have len: "length (ps_accepted s) = length (ps_log s) + length (ps_inflight s)
      + length (ps_crashed s) + length (cv_queue (ps_canvas s))"
    using ord by (simp add: ps_ordered_def)
  have w: "start \<Longrightarrow> ps_workers s = 0 \<and> ps_crashed s = []"
    using ord cnt en(8) by (auto simp: ps_ordered_def ps_counts_def)
  show ?thesis
    unfolding ps_inv_def
  proof (intro conjI impI)
    show "ps_counts (s\<lparr>ps_canvas := c, ps_workers := (if start then ps_workers s + 1 else ps_workers s),
        ps_accepted := ps_accepted s @ [e]\<rparr>)"
      using cnt en w by (auto simp: ps_counts_def)
    show "ps_ordered (s\<lparr>ps_canvas := c, ps_workers := (if start then ps_workers s + 1 else ps_workers s),
        ps_accepted := ps_accepted s @ [e]\<rparr>)"
    proof -
      have o: "ps_accepted s = map fst (ps_log s) @ map pe_event (ps_inflight s) @ ps_crashed s
          @ map pe_event (cv_queue (ps_canvas s))"
        "list_all snd (ps_log s)" "cv_last_completed (ps_canvas s) = length (ps_log s)"
        "cv_last_enqueued (ps_canvas s) = length (ps_accepted s)"
        "tickets_from (length (ps_log s) + 1) (ps_inflight s)"
        "tickets_from (length (ps_log s) + length (ps_inflight s) + length (ps_crashed s) + 1)
          (cv_queue (ps_canvas s))"
        "cv_worker_running (ps_canvas s) \<longleftrightarrow> ps_workers s = 1 \<or> ps_crashed s \<noteq> []"
        "ps_crashed s \<noteq> [] \<longrightarrow> ps_workers s = 0"
        using ord by (auto simp: ps_ordered_def)
      have t: "pe_ticket entry = length (ps_log s) + length (ps_inflight s) + length (ps_crashed s) + 1
          + length (cv_queue (ps_canvas s))" using en(2) o(4) len by simp
      have l: "cv_last_enqueued (ps_canvas s) = length (ps_log s) + (length (ps_inflight s)
          + (length (ps_crashed s) + length (cv_queue (ps_canvas s))))" using o(4) len by simp
      have r: "(start \<longrightarrow> ps_workers s = 0 \<and> ps_crashed s = [])
          \<and> (\<not> start \<longrightarrow> ps_workers s = 1 \<or> ps_crashed s \<noteq> [])"
        using w en(8) o(7) by blast
      have q: "tickets_from (Suc (length (ps_log s))) (ps_inflight s)"
        "tickets_from (Suc (length (ps_log s) + length (ps_inflight s) + length (ps_crashed s)))
          (cv_queue (ps_canvas s))" using o(5,6) by simp_all
      show ?thesis
        unfolding ps_ordered_def
        by (simp add: en(9) o(1) en(1)) (use o(2,3,8) l r q t in auto)
    qed
  qed
qed

lemma ps_workers_bound: "ps_counts s \<Longrightarrow> length (ps_inflight s) \<le> ps_workers s \<and> ps_workers s \<le> 1"
  by (simp add: ps_counts_def)

lemma ps_idle_worker: "ps_counts s \<Longrightarrow> length (ps_inflight s) < ps_workers s \<Longrightarrow>
    ps_inflight s = [] \<and> ps_workers s = 1"
  using ps_workers_bound[of s] by (cases "ps_inflight s") auto

lemma ps_inflight_single: "ps_counts s \<Longrightarrow> e \<in> set (ps_inflight s) \<Longrightarrow>
    ps_inflight s = [e] \<and> ps_workers s = 1"
  using ps_workers_bound[of s] by (cases "ps_inflight s"; cases "tl (ps_inflight s)") auto

lemma ps_inv_take:
  assumes "ps_inv s" "length (ps_inflight s) < ps_workers s"
    "nextPersistence (ps_canvas s) = (Some entry, c)"
  shows "ps_inv (s\<lparr>ps_canvas := c, ps_inflight := ps_inflight s @ [entry]\<rparr>)"
proof -
  obtain rest where q: "cv_queue (ps_canvas s) = entry # rest"
    "c = ps_canvas s\<lparr>cv_queued_bytes := cv_queued_bytes (ps_canvas s) - pe_bytes entry, cv_queue := rest\<rparr>"
    using assms(3) by (auto simp: nextPersistence_def split: list.splits)
  have cnt: "ps_counts s" using assms(1) by (simp add: ps_inv_def)
  note i = ps_idle_worker[OF cnt assms(2)]
  have "ps_counts (s\<lparr>ps_canvas := c, ps_inflight := ps_inflight s @ [entry]\<rparr>)"
    using cnt q i by (simp add: ps_counts_def)
  moreover have "ps_ordered (s\<lparr>ps_canvas := c, ps_inflight := ps_inflight s @ [entry]\<rparr>)"
    if "ps_ordered s"
    using that q i by (auto simp: ps_ordered_def)
  ultimately show ?thesis using assms(1) q(2) by (simp add: ps_inv_def)
qed

lemma ps_inv_finish:
  assumes "ps_inv s" "length (ps_inflight s) < ps_workers s"
    "nextPersistence (ps_canvas s) = (None, c)"
  shows "ps_inv (s\<lparr>ps_canvas := c, ps_workers := ps_workers s - 1\<rparr>)"
proof -
  have q: "cv_queue (ps_canvas s) = []" "c = ps_canvas s\<lparr>cv_worker_running := False\<rparr>"
    using assms(3) by (auto simp: nextPersistence_def split: list.splits)
  have cnt: "ps_counts s" using assms(1) by (simp add: ps_inv_def)
  note i = ps_idle_worker[OF cnt assms(2)]
  have "ps_counts (s\<lparr>ps_canvas := c, ps_workers := ps_workers s - 1\<rparr>)"
    using cnt q i by (simp add: ps_counts_def)
  moreover have "ps_ordered (s\<lparr>ps_canvas := c, ps_workers := ps_workers s - 1\<rparr>)"
    if "ps_ordered s"
    using that q i by (auto simp: ps_ordered_def)
  ultimately show ?thesis using assms(1) q(2) by (simp add: ps_inv_def)
qed

lemma ps_inv_apply:
  assumes "ps_inv s" "entry \<in> set (ps_inflight s)"
  shows "ps_inv (s\<lparr>ps_canvas := endPersistence (pe_ticket entry) ok (ps_canvas s),
     ps_inflight := remove1 entry (ps_inflight s), ps_log := ps_log s @ [(pe_event entry, ok)]\<rparr>)"
    (is "ps_inv ?s'")
proof -
  have cnt: "ps_counts s" using assms(1) by (simp add: ps_inv_def)
  note i = ps_inflight_single[OF cnt assms(2)]
  have "ps_counts ?s'" using cnt i by (simp add: ps_counts_def endPersistence_def)
  moreover have "ps_ordered ?s'" if "ps_ordered s" ok
    using that i by (auto simp: ps_ordered_def endPersistence_def)
  moreover have "cv_failed (ps_canvas ?s') \<longleftrightarrow> cv_failed (ps_canvas s) \<or> \<not> ok"
    by (simp add: endPersistence_def)
  ultimately show ?thesis using assms(1) unfolding ps_inv_def by blast
qed

lemma ps_inv_crash:
  assumes "ps_inv s" "entry \<in> set (ps_inflight s)"
  shows "ps_inv (s\<lparr>ps_workers := ps_workers s - 1, ps_inflight := remove1 entry (ps_inflight s),
     ps_crashed := ps_crashed s @ [pe_event entry]\<rparr>)" (is "ps_inv ?s'")
proof -
  have cnt: "ps_counts s" using assms(1) by (simp add: ps_inv_def)
  note i = ps_inflight_single[OF cnt assms(2)]
  have "ps_counts ?s'" using cnt i by (simp add: ps_counts_def)
  moreover have "ps_ordered ?s'" if "ps_ordered s"
    using that i by (auto simp: ps_ordered_def)
  ultimately show ?thesis using assms(1) by (simp add: ps_inv_def)
qed

lemma cancel_effect:
  "cv_failed (cancelPersistenceQueue c)" "cv_queue (cancelPersistenceQueue c) = []"
  "cv_queued_bytes (cancelPersistenceQueue c) = 0"
  "cv_last_enqueued (cancelPersistenceQueue c) = cv_last_enqueued c"
  "cv_pending (cancelPersistenceQueue c) = cv_pending c - length (cv_queue c)"
  by (auto simp: cancelPersistenceQueue_def Let_def)

lemma ps_inv_step: "psys_step L s s' \<Longrightarrow> ps_inv s \<Longrightarrow> ps_inv s'"
proof (induction rule: psys_step.induct)
  case (enqueue e rid pid s accepted start c)
  show ?case
  proof (cases accepted)
    case True
    with ps_inv_enqueue[OF enqueue(2)] enqueue(1) show ?thesis by simp
  next
    case False
    with enqueue_rejected enqueue show ?thesis by fastforce
  qed
next
  case (take_entry s entry c)
  then show ?case by (intro ps_inv_take)
next
  case (finish_worker s c)
  then show ?case by (intro ps_inv_finish)
next
  case (apply_entry entry s t succeeded)
  then show ?case by (intro ps_inv_apply)
next
  case (crash entry s x)
  then show ?case by (intro ps_inv_crash)
next
  case (cancel s)
  then have "ps_counts s" by (simp add: ps_inv_def)
  then show ?case by (simp add: ps_inv_def ps_counts_def cancel_effect)
next
  case (unload s t c)
  then show ?case by (auto simp: ps_inv_def ps_counts_def ps_ordered_def waitForPending_begin_def)
qed

lemma ps_reachable_inv: "psys_reachable L s \<Longrightarrow> ps_inv s"
  by (induction rule: psys_reachable.induct) (auto intro: ps_inv_init ps_inv_step)

section \<open>Properties\<close>

text \<open>
  C16. A completed wait is a guarantee. In every reachable state of the concurrent system, once
  the wait for a ticket is over and the canvas has not failed, the events accepted up to that
  ticket have all been applied successfully, in the order in which they were accepted, and none of
  them twice.
\<close>

theorem persistence_wait_guarantee:
  assumes "psys_reachable L s" "waitForPersistenceThrough_done t (ps_canvas s)"
    "waitForPending_result (ps_canvas s)"
  shows "take t (map fst (ps_log s)) = take t (ps_accepted s) \<and> list_all snd (ps_log s)
    \<and> length (ps_log s) \<le> length (ps_accepted s)"
proof -
  have ord: "ps_ordered s"
    using ps_reachable_inv[OF assms(1)] assms(3) by (simp add: ps_inv_def waitForPending_result_def)
  have "t \<le> length (ps_log s)"
    using ord assms(2) by (simp add: ps_ordered_def waitForPersistenceThrough_done_def)
  then show ?thesis using ord by (simp add: ps_ordered_def)
qed

text \<open>
  At most one worker drains a canvas. In every reachable state there is at most one live
  worker and it applies at most one entry; the number of outstanding events is the counter
  \<open>pending_persistence_\<close> and at most 1024, and the bytes of the queue are the counter
  \<open>queued_persistence_bytes_\<close> and at most 64 MiB.
\<close>

theorem persistence_single_worker_and_bounds:
  assumes "psys_reachable L s"
  shows "ps_workers s \<le> 1 \<and> length (ps_inflight s) \<le> ps_workers s
    \<and> cv_pending (ps_canvas s) = length (cv_queue (ps_canvas s)) + length (ps_inflight s)
        + length (ps_crashed s)
    \<and> cv_pending (ps_canvas s) \<le> 1024
    \<and> cv_queued_bytes (ps_canvas s) = sum_list (map pe_bytes (cv_queue (ps_canvas s)))
    \<and> cv_queued_bytes (ps_canvas s) \<le> 64 * 1024 * 1024"
  using ps_reachable_inv[OF assms] by (simp add: ps_inv_def ps_counts_def max_bytes_def)

text \<open>A run with two accepted events, the first of which is being applied.\<close>

definition sample_entry :: "nat \<Rightarrow> persistence_entry" where
  "sample_entry ticket = \<lparr>pe_ticket = ticket, pe_bytes = 1, pe_event = JNull, pe_request_id = [],
     pe_parent_request_id = []\<rparr>"

definition sample_two :: psys where
  "sample_two = (psys_init (canvas_new 1 [] 0))\<lparr>
     ps_canvas := (canvas_new 1 [] 0)\<lparr>cv_last_enqueued := 2, cv_queue := [sample_entry 2],
       cv_queued_bytes := 1, cv_pending := 2, cv_worker_running := True\<rparr>,
     ps_workers := 1, ps_inflight := [sample_entry 1], ps_accepted := [JNull, JNull]\<rparr>"

lemma sample_two_reachable: "psys_reachable ref_lib sample_two"
proof -
  let ?c = "canvas_new 1 [] 0"
  let ?s0 = "psys_init ?c"
  let ?c1 = "?c\<lparr>cv_last_enqueued := 1, cv_queue := [sample_entry 1], cv_queued_bytes := 1,
    cv_pending := 1, cv_worker_running := True\<rparr>"
  let ?s1 = "?s0\<lparr>ps_canvas := ?c1, ps_workers := 1, ps_accepted := [JNull]\<rparr>"
  let ?c2 = "?c1\<lparr>cv_last_enqueued := 2, cv_queue := [sample_entry 1, sample_entry 2],
    cv_queued_bytes := 2, cv_pending := 2\<rparr>"
  let ?s2 = "?s1\<lparr>ps_canvas := ?c2, ps_accepted := [JNull, JNull]\<rparr>"
  have "enqueuePersistence ref_lib JNull [] [] (ps_canvas ?s0) = (True, True, ?c1)"
    by (simp add: enqueuePersistence_def psys_init_def canvas_new_def ref_lib_def max_bytes_def
        uint64_max_def sample_entry_def)
  from psys_step.enqueue[OF this] have "psys_step ref_lib ?s0 ?s1" by (simp add: psys_init_def)
  then have r1: "psys_reachable ref_lib ?s1" using psys_reachable.init psys_reachable.step by blast
  have "enqueuePersistence ref_lib JNull [] [] (ps_canvas ?s1) = (True, False, ?c2)"
    by (simp add: enqueuePersistence_def psys_init_def canvas_new_def ref_lib_def max_bytes_def
        uint64_max_def sample_entry_def)
  from psys_step.enqueue[OF this] have "psys_step ref_lib ?s1 ?s2" by (simp add: psys_init_def)
  then have r2: "psys_reachable ref_lib ?s2" using r1 psys_reachable.step by blast
  have "nextPersistence (ps_canvas ?s2) = (Some (sample_entry 1), ps_canvas sample_two)"
    by (simp add: nextPersistence_def canvas_new_def sample_entry_def sample_two_def)
  from psys_step.take_entry[OF _ this] have "psys_step ref_lib ?s2 sample_two"
    by (simp add: psys_init_def sample_two_def)
  with r2 show ?thesis using psys_reachable.step by blast
qed

definition sample_one_done :: psys where
  "sample_one_done = sample_two\<lparr>
     ps_canvas := endPersistence 1 True (ps_canvas sample_two), ps_inflight := [],
     ps_log := [(JNull, True)]\<rparr>"

lemma sample_one_done_reachable: "psys_reachable ref_lib sample_one_done"
proof -
  have "psys_step ref_lib sample_two sample_one_done"
    using psys_step.apply_entry[of "sample_entry 1" sample_two "''unknown''" ref_lib True]
    by (simp add: sample_one_done_def sample_two_def sample_entry_def drain_event_type_def
        is_object_def psys_init_def)
  then show ?thesis using sample_two_reachable psys_reachable.step by blast
qed

theorem persistence_wait_guarantee_witness:
  "waitForPersistenceThrough_done 1 (ps_canvas sample_one_done)
   \<and> take 1 (map fst (ps_log sample_one_done)) = take 1 (ps_accepted sample_one_done)"
proof -
  have w: "waitForPersistenceThrough_done 1 (ps_canvas sample_one_done)"
    "waitForPending_result (ps_canvas sample_one_done)"
    by (simp_all add: waitForPersistenceThrough_done_def waitForPending_result_def
        sample_one_done_def sample_two_def endPersistence_def canvas_new_def)
  with persistence_wait_guarantee[OF sample_one_done_reachable w] show ?thesis by blast
qed

theorem persistence_single_worker_and_bounds_witness:
  "cv_pending (ps_canvas sample_two) = 2 \<and> length (ps_inflight sample_two) = 1
   \<and> ps_workers sample_two \<le> 1"
  using persistence_single_worker_and_bounds[OF sample_two_reachable]
  by (simp add: sample_two_def psys_init_def)

text \<open>
  A cancelled queue strands its waiters. There is a reachable state in which the queue has
  been cancelled while one entry was being applied, nothing is queued, in flight or running any
  more, and yet the completed ticket is behind the last accepted one: a wait for that ticket, and
  the unload, would never return. (\<open>endPersistence\<close> completes only its own ticket, and
  \<open>cancelPersistenceQueue\<close> completes the cancelled ones only when nothing is in flight.)
\<close>

theorem cancel_strands_waiters:
  "\<exists>s. psys_reachable ref_lib s \<and> cv_queue (ps_canvas s) = [] \<and> ps_inflight s = []
     \<and> ps_workers s = 0 \<and> cv_pending (ps_canvas s) = 0
     \<and> \<not> waitForPersistenceThrough_done (persistenceBarrier (ps_canvas s)) (ps_canvas s)"
proof -
  let ?c1 = "cancelPersistenceQueue (ps_canvas sample_two)"
  let ?s1 = "sample_two\<lparr>ps_canvas := ?c1\<rparr>"
  let ?c2 = "endPersistence 1 True ?c1"
  let ?s2 = "?s1\<lparr>ps_canvas := ?c2, ps_inflight := [], ps_log := [(JNull, True)]\<rparr>"
  let ?s3 = "?s2\<lparr>ps_canvas := ?c2\<lparr>cv_worker_running := False\<rparr>, ps_workers := 0\<rparr>"
  have "psys_step ref_lib sample_two ?s1" by (rule psys_step.cancel)
  moreover have "psys_step ref_lib ?s1 ?s2"
    using psys_step.apply_entry[of "sample_entry 1" ?s1 "''unknown''" ref_lib True]
    by (simp add: sample_two_def sample_entry_def drain_event_type_def is_object_def psys_init_def)
  moreover have "psys_step ref_lib ?s2 ?s3"
    using psys_step.finish_worker[of ?s2 "?c2\<lparr>cv_worker_running := False\<rparr>" ref_lib]
    by (simp add: sample_two_def nextPersistence_def endPersistence_def cancel_effect psys_init_def)
  ultimately have "psys_reachable ref_lib ?s3"
    using sample_two_reachable psys_reachable.step by blast
  moreover have "cv_pending ?c2 = 0" "cv_last_completed ?c2 = 1" "cv_last_enqueued ?c2 = 2"
      "cv_queue ?c2 = []"
    by (simp_all add: sample_two_def cancelPersistenceQueue_def endPersistence_def canvas_new_def Let_def)
  ultimately show ?thesis
    by (intro exI[of _ ?s3])
      (simp add: waitForPersistenceThrough_done_def persistenceBarrier_def)
qed

fun apply_all :: "(json \<Rightarrow> 'w \<Rightarrow> bool \<times> 'w) \<Rightarrow> json list \<Rightarrow> 'w \<Rightarrow> bool \<times> 'w" where
  "apply_all f [] w = (True, w)"
| "apply_all f (e # es) w =
     (let (ok, w1) = f e w; (rest, w2) = apply_all f es w1 in (ok \<and> rest, w2))"

definition typed_event :: "json \<Rightarrow> bool" where
  "typed_event e \<longleftrightarrow> (case drain_event_type e of Inl _ \<Rightarrow> False | Inr _ \<Rightarrow> True)"

text \<open>
  C36. Draining finishes and completes every ticket. When the worker finds consecutive tickets
  after the last completed one, all of events with a usable type, \<open>drain\<close> returns with an empty
  queue, no outstanding work, every accepted ticket completed and the worker flag cleared; the
  canvas has failed exactly when it had before or an event could not be applied.
\<close>

theorem drain_completes_every_ticket:
  assumes "tickets_from (cv_last_completed c + 1) (cv_queue c)"
    "cv_last_enqueued c = cv_last_completed c + length (cv_queue c)"
    "cv_pending c = length (cv_queue c)" "list_all (\<lambda>e. typed_event (pe_event e)) (cv_queue c)"
  shows "\<exists>c'. cp_drain f c w = (Inr (), c', snd (apply_all f (map pe_event (cv_queue c)) w))
    \<and> cv_queue c' = [] \<and> cv_pending c' = 0 \<and> cv_last_completed c' = cv_last_enqueued c
    \<and> cv_last_enqueued c' = cv_last_enqueued c \<and> \<not> cv_worker_running c'
    \<and> cv_failed c' = (cv_failed c \<or> \<not> fst (apply_all f (map pe_event (cv_queue c)) w))"
  using assms
proof (induction f c w rule: cp_drain.induct)
  case (1 f c w)
  show ?case
  proof (cases "cv_queue c")
    case Nil
    then show ?thesis using 1(3,4) by (subst cp_drain.simps) (simp add: nextPersistence_def)
  next
    case (Cons e rest)
    let ?c1 = "c\<lparr>cv_queued_bytes := cv_queued_bytes c - pe_bytes e, cv_queue := rest\<rparr>"
    have n: "nextPersistence c = (Some e, ?c1)" using Cons by (simp add: nextPersistence_def)
    obtain t where t: "drain_event_type (pe_event e) = Inr t"
      using 1(5) Cons by (auto simp: typed_event_def split: sum.splits)
    obtain ok w1 where f: "f (pe_event e) w = (ok, w1)" by force
    let ?c2 = "endPersistence (pe_ticket e) ok ?c1"
    have tk: "pe_ticket e = cv_last_completed c + 1" using 1(2) Cons by simp
    have step: "cp_drain f c w = cp_drain f ?c2 w1"
      using n t f by (subst cp_drain.simps) simp
    have c2: "cv_last_completed ?c2 = cv_last_completed c + 1" "cv_queue ?c2 = rest"
        "cv_last_enqueued ?c2 = cv_last_enqueued c" "cv_pending ?c2 = length rest"
        "cv_failed ?c2 = (cv_failed c \<or> \<not> ok)"
      using tk 1(4) Cons by (simp_all add: endPersistence_def)
    have "\<exists>c'. cp_drain f ?c2 w1 = (Inr (), c', snd (apply_all f (map pe_event (cv_queue ?c2)) w1))
      \<and> cv_queue c' = [] \<and> cv_pending c' = 0 \<and> cv_last_completed c' = cv_last_enqueued ?c2
      \<and> cv_last_enqueued c' = cv_last_enqueued ?c2 \<and> \<not> cv_worker_running c'
      \<and> cv_failed c' = (cv_failed ?c2 \<or> \<not> fst (apply_all f (map pe_event (cv_queue ?c2)) w1))"
      using 1(2,3,4,5) Cons c2
      by (intro 1(1)[OF n[symmetric] refl _ f[symmetric]]) (auto simp: t)
    then show ?thesis using step c2 f Cons by (auto simp: case_prod_beta Let_def)
  qed
qed

theorem drain_completes_every_ticket_witness:
  "\<exists>c'. cp_drain (\<lambda>e w. (True, e # w)) ((canvas_new 1 [] 0)\<lparr>cv_last_enqueued := 1, cv_pending := 1,
      cv_queue := [sample_entry 1]\<rparr>) [] = (Inr (), c', [JNull]) \<and> cv_last_completed c' = 1"
proof -
  let ?c = "(canvas_new 1 [] 0)\<lparr>cv_last_enqueued := 1, cv_pending := 1, cv_queue := [sample_entry 1]\<rparr>"
  have "tickets_from (cv_last_completed ?c + 1) (cv_queue ?c)"
    "cv_last_enqueued ?c = cv_last_completed ?c + length (cv_queue ?c)"
    "cv_pending ?c = length (cv_queue ?c)" "list_all (\<lambda>e. typed_event (pe_event e)) (cv_queue ?c)"
    by (simp_all add: canvas_new_def sample_entry_def typed_event_def drain_event_type_def is_object_def)
  from drain_completes_every_ticket[OF this, of "\<lambda>e w. (True, e # w)" "[]"]
  show ?thesis by (auto simp: sample_entry_def)
qed

end
