(* ===== verification/Access_Rules.thy ===== *)
theory Access_Rules
  imports Json_Codec
begin

text \<open>
  The access rules of a canvas: \<^verbatim>\<open>cpp/include/service/CanvasAccessRules.hpp\<close> (who belongs to which
  group), \<^verbatim>\<open>cpp/include/service/CanvasQueryRules.hpp\<close> (who may read and change an item),
  \<^verbatim>\<open>cpp/include/service_memory/CanvasItemRules.hpp\<close> (chat room sequence numbers) and
  \<^verbatim>\<open>cpp/include/CanvasHostElection.hpp\<close>. An \<open>unordered_set\<close> of group names is a set of strings.
\<close>

section \<open>Membership\<close>

definition canvasIsPublic :: "json \<Rightarrow> bool" where
  "canvasIsPublic doc \<longleftrightarrow>
     jget doc ''visibility'' = Some (JStr ''public'') \<and>
     (case jget doc ''canvas-password-hash'' of
        None \<Rightarrow> True
      | Some JNull \<Rightarrow> True
      | Some (JStr s) \<Rightarrow> s = []
      | Some _ \<Rightarrow> False)"

definition canvasHasMember :: "json \<Rightarrow> int \<Rightarrow> bool" where
  "canvasHasMember doc user_id \<longleftrightarrow>
     (case jget doc ''people'' of
        Some (JArr people) \<Rightarrow> list_ex (\<lambda>member. member = JInt user_id) people
      | _ \<Rightarrow> False)"

definition group_has_user :: "json \<Rightarrow> int \<Rightarrow> bool" where
  "group_has_user members user_id \<longleftrightarrow>
     (case members of
        JArr xs \<Rightarrow> list_ex (\<lambda>member. is_number_integer member \<and> get_int member = Inr user_id) xs
      | _ \<Rightarrow> False)"

definition groupsForUser :: "json \<Rightarrow> int \<Rightarrow> string set \<times> bool" where
  "groupsForUser doc user_id =
     (case jget doc ''inner-group'' of
        Some (JObj inner) \<Rightarrow>
          (let own = map fst (filter (\<lambda>(name, members). group_has_user members user_id) inner);
               init = (case jget doc ''init-group'' of
                         Some (JStr name) \<Rightarrow>
                           if canvasIsPublic doc \<and> name \<noteq> [] \<and> name \<noteq> ''admin-group''
                              \<and> map_of inner name \<noteq> None
                           then [name] else []
                       | _ \<Rightarrow> [])
           in (set own \<union> set init, ''admin-group'' \<in> set own))
      | _ \<Rightarrow> ({}, False))"

section \<open>Items\<close>

definition queryPermissionGroups :: "json \<Rightarrow> string set" where
  "queryPermissionGroups item =
     (case jget item ''permission'' of
        Some (JStr s) \<Rightarrow> {s}
      | Some (JArr xs) \<Rightarrow> set (concat (map (\<lambda>v. case v of JStr s \<Rightarrow> [s] | _ \<Rightarrow> []) xs))
      | Some (JObj ms) \<Rightarrow> set (map fst ms)
      | _ \<Rightarrow> {})"

definition queryCanAccess :: "json \<Rightarrow> string set \<Rightarrow> bool \<Rightarrow> bool" where
  "queryCanAccess item groups admin \<longleftrightarrow> admin \<or> queryPermissionGroups item \<inter> groups \<noteq> {}"

definition validQueryItemId :: "string \<Rightarrow> bool" where
  "validQueryItemId ident \<longleftrightarrow> ident \<noteq> [] \<and> \<not> longer_than ident 128 \<and> ident \<noteq> ''__proto__''
     \<and> ident \<noteq> ''prototype'' \<and> ident \<noteq> ''constructor''"

definition queryCommentPermission :: "json \<Rightarrow> string set \<Rightarrow> bool \<Rightarrow> json outcome" where
  "queryCommentPermission target groups admin =
     (if \<not> is_object target then Inl (InvalidArgument ''ITEM_ACCESS_DENIED'')
      else bindE (value_string target ''type'' []) (\<lambda>type.
           if type = ''chat_room'' then Inl (InvalidArgument ''ITEM_ACCESS_DENIED'')
           else bindE (value_string target ''kind'' []) (\<lambda>kind.
             requireE (kind \<noteq> ''host-tombstone'' \<and> queryCanAccess target groups admin)
               ''ITEM_ACCESS_DENIED'' (value_json target ''permission'' (JArr [])))))"

definition queryChatRoomBroadcast :: "string \<Rightarrow> json \<Rightarrow> nat \<Rightarrow> json" where
  "queryChatRoomBroadcast room_id permission next_sequence =
     JObj [(''event'', JObj [
             (''item'', JObj [(''next_sequence'', JInt (int next_sequence)),
                (''permission'', permission), (''type'', JStr ''chat_room'')]),
             (''item_id'', JStr room_id), (''type'', JStr ''item_update'')]),
           (''permission'', permission)]"

definition valid_change :: "string \<Rightarrow> json \<Rightarrow> bool outcome" where
  \<comment> \<open>one element of \<open>automerge_changes\<close>; the exception of \<open>change.value("field", "")\<close> is kept\<close>
  "valid_change kind change =
     (case jget change ''change'' of
        Some (JStr text) \<Rightarrow>
          if longer_than text 1048576 then Inr False
          else bindE (value_string change ''field'' [])
                 (\<lambda>field. Inr (field = (if kind = ''code'' then ''code'' else ''text'')))
      | _ \<Rightarrow> Inr False)"

fun valid_changes :: "string \<Rightarrow> json list \<Rightarrow> json \<Rightarrow> json outcome" where
  "valid_changes kind [] result = Inr result"
| "valid_changes kind (change # changes) result =
     bindE (valid_change kind change)
       (\<lambda>ok. requireE ok ''ITEM_SAVE_INVALID'' (valid_changes kind changes result))"

definition text_kind :: "string \<Rightarrow> bool" where
  "text_kind kind \<longleftrightarrow> kind = ''text'' \<or> kind = ''note'' \<or> kind = ''code''"

definition queryUpdatedItem :: "json \<Rightarrow> json \<Rightarrow> string set \<Rightarrow> bool \<Rightarrow> json outcome" where
  "queryUpdatedItem previous input groups admin =
     requireE (is_object input \<and> json_size input \<noteq> 0) ''ITEM_INVALID''
     (requireE (is_null previous \<or> queryCanAccess previous groups admin) ''ITEM_ACCESS_DENIED''
     (requireE (queryCanAccess input groups admin) ''ITEM_ACCESS_DENIED''
     (requireE (admin \<or> is_null previous
                \<or> queryPermissionGroups previous = queryPermissionGroups input)
        ''ITEM_PERMISSION_DENIED''
     (requireE (admin \<or> \<not> is_null previous \<or> queryPermissionGroups input \<subseteq> groups)
        ''ITEM_PERMISSION_DENIED''
     (bindE (value_string input ''type'' []) (\<lambda>type.
      bindE (if type = ''chat_room'' then Inr ''chat_room''
             else if is_null previous then Inr []
             else value_string previous ''type'' []) (\<lambda>type'.
      requireE (type' \<noteq> ''chat_room'') ''CHAT_QUERY_REQUIRED''
      (bindE (value_string input ''kind'' []) (\<lambda>kind.
       requireE (kind \<noteq> []) ''ITEM_KIND_REQUIRED''
       (if \<not> text_kind kind then Inr input
        else case (jget input ''automerge_snapshot'', jget input ''automerge_changes'') of
          (Some (JStr _), Some (JArr changes)) \<Rightarrow>
            requireE (\<not> longer_than changes 100000) ''ITEM_SAVE_INVALID''
              (valid_changes kind changes input)
        | _ \<Rightarrow> Inl (InvalidArgument ''ITEM_SAVE_INVALID'')))))))))))"

section \<open>Chat rooms\<close>

definition isChatRoomItem :: "json \<Rightarrow> bool" where
  "isChatRoomItem item \<longleftrightarrow> jget item ''type'' = Some (JStr ''chat_room'')"

definition positiveSequence :: "json \<Rightarrow> nat" where
  "positiveSequence value = (case value of JInt i \<Rightarrow> nat i | _ \<Rightarrow> 0)"

definition next_after :: "json \<Rightarrow> nat \<Rightarrow> nat" where
  \<comment> \<open>one message of the loop over the history\<close>
  "next_after message next =
     (case jget message ''sequence'' of
        None \<Rightarrow> next
      | Some s \<Rightarrow>
          (let sequence = positiveSequence s in
           if int sequence < int uint64_max \<and> sequence + 1 > next then sequence + 1 else next))"

definition chatRoomNextSequence :: "json \<Rightarrow> nat" where
  "chatRoomNextSequence item =
     (let next = (case jget item ''next_sequence'' of Some v \<Rightarrow> positiveSequence v | None \<Rightarrow> 1);
          next' = (if next = 0 then 1 else next)
      in case jget item ''data'' of
           Some (JArr messages) \<Rightarrow> fold next_after messages next'
         | _ \<Rightarrow> next')"

definition normalizeChatRoomItem :: "json \<Rightarrow> json" where
  "normalizeChatRoomItem item =
     (if \<not> isChatRoomItem item then item
      else case item of
        JObj ms \<Rightarrow>
          (let ms1 = (case map_of ms ''data'' of
                        Some d \<Rightarrow> if is_array d then ms else obj_put ''data'' (JArr []) ms
                      | None \<Rightarrow> ms)
           in JObj (obj_put ''next_sequence'' (JInt (int (chatRoomNextSequence (JObj ms1)))) ms1))
      | _ \<Rightarrow> item)"

section \<open>Host election\<close>

record canvas_host_candidate =
  hc_peer_id :: string
  hc_is_admin :: bool
  hc_host_protocol :: bool
  hc_groups :: "string list"

definition covers_groups :: "string set \<Rightarrow> canvas_host_candidate \<Rightarrow> bool" where
  "covers_groups required c \<longleftrightarrow> hc_is_admin c \<or> required \<subseteq> set (hc_groups c)"

definition electCanvasHost :: "canvas_host_candidate list \<Rightarrow> string" where
  "electCanvasHost candidates =
     (if \<not> list_all hc_host_protocol candidates then []
      else
        (let required = set (concat (map hc_groups candidates)) in
         fold (\<lambda>c elected. if covers_groups required c \<and> hc_peer_id c > elected then hc_peer_id c
                           else elected) candidates []))"

definition canvasHostMayPersist :: "string \<Rightarrow> string \<Rightarrow> string \<Rightarrow> string \<Rightarrow> bool" where
  "canvasHostMayPersist host_peer term sender_peer supplied_term \<longleftrightarrow>
     host_peer \<noteq> [] \<and> term \<noteq> [] \<and> host_peer = sender_peer \<and> term = supplied_term"

section \<open>Properties\<close>

lemma groupsForUser_cases:
  assumes "groupsForUser doc u = (groups, admin)"
  obtains (none) "groups = {}" "\<not> admin"
  | (some) inner own init where "jget doc ''inner-group'' = Some (JObj inner)"
      "groups = own \<union> init" "admin \<longleftrightarrow> ''admin-group'' \<in> own" "''admin-group'' \<notin> init"
      "own = {g. \<exists>members. (g, members) \<in> set inner \<and> group_has_user members u}"
      "init \<subseteq> dom (map_of inner)" "init \<noteq> {} \<Longrightarrow> canvasIsPublic doc"
      "\<And>g. g \<in> init \<Longrightarrow> jget doc ''init-group'' = Some (JStr g)"
proof (cases "\<exists>inner. jget doc ''inner-group'' = Some (JObj inner)")
  case False
  then have "groups = {}" "\<not> admin"
    using assms by (auto simp: groupsForUser_def split: option.splits json.splits)
  then show thesis by (rule none)
next
  case True
  then obtain inner where i: "jget doc ''inner-group'' = Some (JObj inner)" by blast
  let ?init = "case jget doc ''init-group'' of
      Some (JStr name) \<Rightarrow>
        if canvasIsPublic doc \<and> name \<noteq> [] \<and> name \<noteq> ''admin-group'' \<and> map_of inner name \<noteq> None
        then [name] else []
    | _ \<Rightarrow> []"
  show thesis
  proof (rule some[OF i, of "{g. \<exists>members. (g, members) \<in> set inner \<and> group_has_user members u}"
        "set ?init"])
    show "groups = {g. \<exists>members. (g, members) \<in> set inner \<and> group_has_user members u} \<union> set ?init"
      "admin \<longleftrightarrow> ''admin-group'' \<in> {g. \<exists>members. (g, members) \<in> set inner \<and> group_has_user members u}"
      using assms i by (auto simp: groupsForUser_def Let_def image_iff)
  qed (auto split: option.splits json.splits if_splits)
qed

text \<open>
  Group membership is what the document says. The administrator flag is set exactly when the
  user is in the admin group; every other group the user gets is one that lists the user, or the
  initial group of a public canvas without a password, which is never the admin group; and all of
  them are groups of the canvas.
\<close>

theorem groups_are_listed_or_public_default:
  assumes "groupsForUser doc u = (groups, admin)"
  shows "(admin \<longleftrightarrow> ''admin-group'' \<in> groups)
    \<and> (\<forall>g \<in> groups. (\<exists>inner members. jget doc ''inner-group'' = Some (JObj inner)
          \<and> (g, members) \<in> set inner \<and> group_has_user members u)
        \<or> canvasIsPublic doc \<and> g \<noteq> ''admin-group'' \<and> jget doc ''init-group'' = Some (JStr g))
    \<and> (\<forall>g \<in> groups. \<exists>inner. jget doc ''inner-group'' = Some (JObj inner) \<and> g \<in> fst ` set inner)"
  using assms
proof (cases rule: groupsForUser_cases)
  case (some inner own init)
  have dom: "g \<in> fst ` set inner" if "g \<in> init" for g
    using some(6) that by (auto simp: dom_map_of_conv_image_fst)
  show ?thesis
  proof (intro conjI ballI)
    show "admin \<longleftrightarrow> ''admin-group'' \<in> groups" using some(2,3,4) by blast
    fix g
    assume "g \<in> groups"
    then show "(\<exists>inner members. jget doc ''inner-group'' = Some (JObj inner)
          \<and> (g, members) \<in> set inner \<and> group_has_user members u)
        \<or> canvasIsPublic doc \<and> g \<noteq> ''admin-group'' \<and> jget doc ''init-group'' = Some (JStr g)"
      using some(1,2,4,5,7,8) by auto
    show "\<exists>inner. jget doc ''inner-group'' = Some (JObj inner) \<and> g \<in> fst ` set inner"
      using \<open>g \<in> groups\<close> some(1,2,5) dom by force
  qed
qed simp

definition sample_doc :: json where
  "sample_doc = JObj [(''init-group'', JStr ''guests''), (''inner-group'', JObj [
     (''admin-group'', JArr [JInt 7]), (''guests'', JArr []), (''team'', JArr [JInt 4294967297])]),
     (''people'', JArr [JInt 4294967297]), (''visibility'', JStr ''public'')]"

theorem groups_are_listed_or_public_default_witness:
  "groupsForUser sample_doc 7 = ({''admin-group'', ''guests''}, True)
   \<and> (True \<longleftrightarrow> ''admin-group'' \<in> {''admin-group'', ''guests''})"
proof -
  have e: "groupsForUser sample_doc 7 = ({''admin-group'', ''guests''}, True)" by code_simp
  show ?thesis using e groups_are_listed_or_public_default[OF e] by blast
qed

text \<open>
  Member numbers are narrowed when groups are computed. A group that lists the number
  4294967297 contains user 1 for \<open>groupsForUser\<close>, which converts members to \<^verbatim>\<open>int\<close>, although the
  same number in the list of people is not user 1 for \<open>canvasHasMember\<close>, which compares it as it is.
\<close>

theorem group_members_are_narrowed:
  "''team'' \<in> fst (groupsForUser sample_doc 1) \<and> \<not> canvasHasMember sample_doc 1"
  by code_simp

lemma queryUpdatedItem_Inr:
  assumes "queryUpdatedItem previous input groups admin = Inr item"
  shows "item = input \<and> is_object input \<and> queryCanAccess input groups admin
    \<and> (is_null previous \<or> queryCanAccess previous groups admin)
    \<and> (admin \<or> (if is_null previous then queryPermissionGroups input \<subseteq> groups
         else queryPermissionGroups input = queryPermissionGroups previous))
    \<and> \<not> isChatRoomItem input \<and> \<not> isChatRoomItem previous"
proof -
  have vc: "valid_changes kind cs r = Inr x \<Longrightarrow> x = r" for kind cs r x
    by (induction cs) (auto simp: outcome_iffs)
  have ty: "isChatRoomItem j \<Longrightarrow> value_string j ''type'' [] = Inr ''chat_room''" for j
    by (cases j) (auto simp: isChatRoomItem_def value_string_def value_with_def get_string_def jget_def)
  have np: "is_null previous \<Longrightarrow> \<not> isChatRoomItem previous"
    by (cases previous) (auto simp: is_null_def isChatRoomItem_def jget_def)
  let ?tail = "\<lambda>kind. if \<not> text_kind kind then Inr input
      else case (jget input ''automerge_snapshot'', jget input ''automerge_changes'') of
        (Some (JStr _), Some (JArr changes)) \<Rightarrow>
          requireE (\<not> longer_than changes 100000) ''ITEM_SAVE_INVALID'' (valid_changes kind changes input)
      | _ \<Rightarrow> Inl (InvalidArgument ''ITEM_SAVE_INVALID'')"
  have tail: "x = input" if "?tail kind = Inr x" for kind x
    using that vc by (auto simp: outcome_iffs split: if_splits option.splits json.splits)
  obtain ty ty' kind where u: "is_object input"
    "is_null previous \<or> queryCanAccess previous groups admin" "queryCanAccess input groups admin"
    "admin \<or> is_null previous \<or> queryPermissionGroups previous = queryPermissionGroups input"
    "admin \<or> \<not> is_null previous \<or> queryPermissionGroups input \<subseteq> groups"
    "value_string input ''type'' [] = Inr ty"
    "(if ty = ''chat_room'' then Inr ''chat_room'' else if is_null previous then Inr []
      else value_string previous ''type'' []) = Inr ty'" "ty' \<noteq> ''chat_room''"
    "?tail kind = Inr item"
    using assms unfolding queryUpdatedItem_def outcome_iffs by blast
  have "\<not> isChatRoomItem input" using u(6-8) ty[of input] by auto
  moreover have "\<not> isChatRoomItem previous" using u(6-8) np ty[of previous] by (auto split: if_splits)
  ultimately show ?thesis using u(1-5) tail[OF u(9)] by auto
qed

text \<open>
  No privilege escalation through an update. Whenever \<open>queryUpdatedItem\<close> accepts an update of
  a user who is not an administrator, the user can access both the previous item and the new one,
  the groups that may access an existing item are unchanged, a new item is only visible to groups
  the user is in, and neither is a chat room.
\<close>

theorem updated_item_no_escalation:
  assumes "queryUpdatedItem previous input groups False = Inr item"
  shows "item = input \<and> queryPermissionGroups input \<inter> groups \<noteq> {}
    \<and> (\<not> is_null previous \<longrightarrow> queryPermissionGroups previous \<inter> groups \<noteq> {}
         \<and> queryPermissionGroups input = queryPermissionGroups previous)
    \<and> (is_null previous \<longrightarrow> queryPermissionGroups input \<subseteq> groups)
    \<and> \<not> isChatRoomItem input \<and> \<not> isChatRoomItem previous"
  using queryUpdatedItem_Inr[OF assms] by (auto simp: queryCanAccess_def)

definition sample_item :: json where
  "sample_item = JObj [(''kind'', JStr ''shape''), (''permission'', JArr [JStr ''team''])]"

theorem updated_item_no_escalation_witness:
  "queryUpdatedItem JNull sample_item {''team''} False = Inr sample_item
   \<and> queryPermissionGroups sample_item \<subseteq> {''team''}"
proof -
  have e: "queryUpdatedItem JNull sample_item {''team''} False = Inr sample_item" by code_simp
  have "is_null JNull" by code_simp
  with e updated_item_no_escalation[OF e] show ?thesis by blast
qed

section \<open>Sequence numbers and hosts\<close>

lemma fold_next_after_mono: "n \<le> fold next_after ms n"
proof (induction ms arbitrary: n)
  case (Cons m ms)
  have "n \<le> next_after m n" by (auto simp: next_after_def Let_def split: option.splits)
  with Cons[of "next_after m n"] show ?case by simp
qed simp

lemma fold_next_after_covers:
  "m \<in> set ms \<Longrightarrow> jget m ''sequence'' = Some s \<Longrightarrow> positiveSequence s < uint64_max \<Longrightarrow>
    positiveSequence s < fold next_after ms n"
proof (induction ms arbitrary: n)
  case (Cons x ms)
  show ?case
  proof (cases "m = x")
    case True
    then have "positiveSequence s < next_after x n"
      using Cons.prems by (auto simp: next_after_def Let_def)
    also have "\<dots> \<le> fold next_after ms (next_after x n)" by (rule fold_next_after_mono)
    finally show ?thesis by simp
  qed (use Cons in auto)
qed simp

lemma fold_next_after_bound: "n \<le> uint64_max \<Longrightarrow> fold next_after ms n \<le> uint64_max"
proof (induction ms arbitrary: n)
  case (Cons m ms)
  have "next_after m n \<le> uint64_max"
    using Cons.prems by (auto simp: next_after_def Let_def split: option.splits)
  with Cons.IH show ?case by simp
qed simp

text \<open>
  A chat room's next sequence number is fresh. It is at least 1, it is not below a positive
  stored counter, it fits 64 bits when the stored counter does, and it is greater than every
  sequence number of the history (the largest 64-bit number apart).
\<close>

theorem next_sequence_is_fresh:
  assumes "jget item ''next_sequence'' = Some c" "positiveSequence c \<le> uint64_max"
  shows "1 \<le> chatRoomNextSequence item \<and> positiveSequence c \<le> chatRoomNextSequence item
    \<and> chatRoomNextSequence item \<le> uint64_max
    \<and> (\<forall>messages m s. jget item ''data'' = Some (JArr messages) \<longrightarrow> m \<in> set messages \<longrightarrow>
         jget m ''sequence'' = Some s \<longrightarrow> positiveSequence s < uint64_max \<longrightarrow>
         positiveSequence s < chatRoomNextSequence item)"
proof -
  let ?n = "if positiveSequence c = 0 then 1 else positiveSequence c"
  have n: "1 \<le> ?n" "positiveSequence c \<le> ?n" "?n \<le> uint64_max"
    using assms(2) by (auto simp: uint64_max_def)
  show ?thesis
  proof (cases "\<exists>messages. jget item ''data'' = Some (JArr messages)")
    case True
    then obtain ms where d: "jget item ''data'' = Some (JArr ms)" by blast
    then have e: "chatRoomNextSequence item = fold next_after ms ?n"
      using assms(1) by (simp add: chatRoomNextSequence_def)
    have "1 \<le> fold next_after ms ?n" "positiveSequence c \<le> fold next_after ms ?n"
      using n fold_next_after_mono[of ?n ms] by linarith+
    with e d fold_next_after_covers[of _ ms _ ?n] fold_next_after_bound[OF n(3)] show ?thesis by auto
  next
    case False
    then have "chatRoomNextSequence item = ?n"
      using assms(1) by (auto simp: chatRoomNextSequence_def split: option.splits json.splits)
    then show ?thesis using n False by auto
  qed
qed

theorem next_sequence_is_fresh_witness:
  "chatRoomNextSequence (JObj [(''data'', JArr [JObj [(''sequence'', JInt 5)]]), (''next_sequence'', JInt 2)]) = 6
   \<and> 1 \<le> chatRoomNextSequence (JObj [(''data'', JArr [JObj [(''sequence'', JInt 5)]]), (''next_sequence'', JInt 2)])"
proof -
  let ?i = "JObj [(''data'', JArr [JObj [(''sequence'', JInt 5)]]), (''next_sequence'', JInt 2)]"
  have "jget ?i ''next_sequence'' = Some (JInt 2)" "positiveSequence (JInt 2) \<le> uint64_max"
    by (simp_all add: positiveSequence_def uint64_max_def)
  note t = next_sequence_is_fresh[OF this]
  have "chatRoomNextSequence ?i = 6"
    by (simp add: chatRoomNextSequence_def next_after_def positiveSequence_def uint64_max_def Let_def)
  with t show ?thesis by blast
qed

definition elect_step :: "string set \<Rightarrow> canvas_host_candidate \<Rightarrow> string \<Rightarrow> string" where
  "elect_step required c elected =
     (if covers_groups required c \<and> hc_peer_id c > elected then hc_peer_id c else elected)"

lemma elect_step_fold:
  "elected \<le> fold (elect_step R) cs elected
   \<and> (\<forall>c \<in> set cs. covers_groups R c \<longrightarrow> hc_peer_id c \<le> fold (elect_step R) cs elected)
   \<and> (fold (elect_step R) cs elected = elected
      \<or> (\<exists>c \<in> set cs. covers_groups R c \<and> hc_peer_id c = fold (elect_step R) cs elected))"
proof (induction cs arbitrary: elected)
  case (Cons c cs)
  let ?e = "elect_step R c elected"
  have e: "elected \<le> ?e" "covers_groups R c \<Longrightarrow> hc_peer_id c \<le> ?e"
    "?e = elected \<or> covers_groups R c \<and> hc_peer_id c = ?e"
    by (auto simp: elect_step_def)
  show ?case using Cons.IH[of ?e] e by (auto intro: order_trans)
qed simp

lemma electCanvasHost_eq: "list_all hc_host_protocol cs \<Longrightarrow>
    electCanvasHost cs = fold (elect_step (set (concat (map hc_groups cs)))) cs []"
  by (simp add: electCanvasHost_def elect_step_def[abs_def] Let_def)

lemma elected_bounds:
  assumes "list_all hc_host_protocol cs"
  defines "R \<equiv> set (concat (map hc_groups cs))"
  shows "\<forall>c \<in> set cs. covers_groups R c \<longrightarrow> hc_peer_id c \<le> electCanvasHost cs"
    "electCanvasHost cs = [] \<or> (\<exists>c \<in> set cs. covers_groups R c \<and> hc_peer_id c = electCanvasHost cs)"
  using elect_step_fold[of "[]" R cs] electCanvasHost_eq[OF assms(1)] by (auto simp: R_def)

text \<open>
  The elected host does not depend on the order of the candidates. If a candidate does not
  speak the host protocol nobody is elected; otherwise the elected peer is the largest one that is
  an administrator or belongs to every active group (nobody if there is none), so all peers that
  see the same candidates elect the same host.
\<close>

theorem elected_host_unique:
  "(\<not> list_all hc_host_protocol cs \<longrightarrow> electCanvasHost cs = [])
   \<and> (list_all hc_host_protocol cs \<longrightarrow>
        (\<forall>c \<in> set cs. covers_groups (set (concat (map hc_groups cs))) c \<longrightarrow>
           hc_peer_id c \<le> electCanvasHost cs)
        \<and> (electCanvasHost cs = [] \<or> (\<exists>c \<in> set cs.
             covers_groups (set (concat (map hc_groups cs))) c \<and> hc_peer_id c = electCanvasHost cs)))
   \<and> (set cs = set cs' \<longrightarrow> electCanvasHost cs = electCanvasHost cs')"
proof (intro conjI impI)
  show "electCanvasHost cs = []" if "\<not> list_all hc_host_protocol cs"
    using that by (simp add: electCanvasHost_def)
  assume a: "list_all hc_host_protocol cs"
  note b = elected_bounds[OF a]
  show "\<forall>c \<in> set cs. covers_groups (set (concat (map hc_groups cs))) c \<longrightarrow>
      hc_peer_id c \<le> electCanvasHost cs" by (rule b(1))
  show "electCanvasHost cs = [] \<or> (\<exists>c \<in> set cs.
      covers_groups (set (concat (map hc_groups cs))) c \<and> hc_peer_id c = electCanvasHost cs)"
    by (rule b(2))
next
  assume eq: "set cs = set cs'"
  show "electCanvasHost cs = electCanvasHost cs'"
  proof (cases "list_all hc_host_protocol cs")
    case False
    then have "\<not> list_all hc_host_protocol cs'" using eq by (simp add: list_all_iff)
    with False show ?thesis by (simp add: electCanvasHost_def)
  next
    case True
    then have "list_all hc_host_protocol cs'" using eq by (simp add: list_all_iff)
    note b = elected_bounds[OF True] elected_bounds[OF this]
    have R: "set (concat (map hc_groups cs')) = set (concat (map hc_groups cs))" using eq by simp
    have "electCanvasHost cs \<le> electCanvasHost cs'" using b(2,3) eq unfolding R by auto
    moreover have "electCanvasHost cs' \<le> electCanvasHost cs" using b(1,4) eq unfolding R by auto
    ultimately show ?thesis by simp
  qed
qed

theorem elected_host_unique_witness:
  "electCanvasHost [\<lparr>hc_peer_id = ''a'', hc_is_admin = True, hc_host_protocol = True, hc_groups = []\<rparr>,
      \<lparr>hc_peer_id = ''z'', hc_is_admin = False, hc_host_protocol = True, hc_groups = [''g'']\<rparr>]
   = electCanvasHost [\<lparr>hc_peer_id = ''z'', hc_is_admin = False, hc_host_protocol = True, hc_groups = [''g'']\<rparr>,
      \<lparr>hc_peer_id = ''a'', hc_is_admin = True, hc_host_protocol = True, hc_groups = []\<rparr>]"
  using elected_host_unique[of
      "[\<lparr>hc_peer_id = ''a'', hc_is_admin = True, hc_host_protocol = True, hc_groups = []\<rparr>,
      \<lparr>hc_peer_id = ''z'', hc_is_admin = False, hc_host_protocol = True, hc_groups = [''g'']\<rparr>]"
      "[\<lparr>hc_peer_id = ''z'', hc_is_admin = False, hc_host_protocol = True, hc_groups = [''g'']\<rparr>,
      \<lparr>hc_peer_id = ''a'', hc_is_admin = True, hc_host_protocol = True, hc_groups = []\<rparr>]"]
  by auto

end
