(* ===== verification/Broker_Ops.thy ===== *)
theory Broker_Ops
  imports Access_Rules
begin

text \<open>
  \<^verbatim>\<open>cpp/include/service/CanvasBrokerOperations.hpp\<close>: validation of a canvas item and preparation of a
  batch of operations (translate, create, patch, delete) into a \<open>Mutation\<close>, the new items together
  with the items they replace and the revisions they were read at.

  The arithmetic of doubles is a parameter (\<open>fp_lib\<close>: conversion of an integer, addition), and so is
  the reader of stored items.
\<close>

record fp_lib =
  fp_of_int :: "int \<Rightarrow> 64 word"
  fp_add :: "64 word \<Rightarrow> 64 word \<Rightarrow> 64 word"

definition get_double :: "fp_lib \<Rightarrow> json \<Rightarrow> (64 word) outcome" where
  "get_double F j = (case j of
       JInt i \<Rightarrow> Inr (fp_of_int F i) | JFloat b \<Rightarrow> Inr b | _ \<Rightarrow> Inl JsonException)"

definition number_finite :: "json \<Rightarrow> bool" where
  "number_finite j = (case j of JFloat b \<Rightarrow> double_finite b | _ \<Rightarrow> True)"

definition number_not_positive :: "json \<Rightarrow> bool" where
  \<comment> \<open>\<open>get<double>() <= 0\<close> of a finite number\<close>
  "number_not_positive j = (case j of
       JInt i \<Rightarrow> i \<le> 0 | JFloat b \<Rightarrow> bit b 63 \<or> take_bit 63 b = 0 | _ \<Rightarrow> False)"

section \<open>validate\<close>

definition item_kinds :: "string list" where
  "item_kinds = [''text'', ''note'', ''code'', ''math'', ''shape'', ''table'', ''chart'', ''image'',
     ''link'', ''connector'', ''stroke'', ''pdf'', ''user-group'']"

definition item_fields :: "string list" where
  "item_fields = [''kind'', ''text'', ''code'', ''formula'', ''format'', ''filename'', ''language'',
     ''shapeType'', ''visualStyle'', ''volumeStyle'', ''chartType'', ''color'', ''fill'', ''permission'',
     ''groupId'', ''src'', ''url'', ''title'', ''mediaType'', ''from'', ''to'', ''fromPort'', ''toPort'',
     ''startHead'', ''endHead'', ''brush'', ''embedUrl'', ''videoId'', ''renderMode'', ''label'',
     ''labelMode'', ''groupTitle'', ''thumbnail'', ''cornerStyle'', ''runtimeRole'', ''runtimeResults'',
     ''shadowBlur'', ''shadowOpacity'', ''shadowOffsetX'', ''shadowOffsetY'', ''depth'', ''x'', ''y'',
     ''width'', ''height'', ''rotation'', ''fontSize'', ''strokeWidth'', ''bend'', ''opacity'',
     ''contentScale'', ''contentScaleX'', ''contentScaleY'', ''bendPointCount'', ''headSize'',
     ''vertexCount'', ''fillOpacity'', ''sketchFillOpacity'', ''points'', ''rows'', ''columns'',
     ''simulatePressure'', ''complete'', ''strokeEnabled'', ''shadowEnabled'', ''imageFrameEnabled'',
     ''bendPoints'', ''members'', ''automerge_snapshot'', ''automerge_changes'']"

definition number_fields :: "string list" where
  "number_fields = [''x'', ''y'', ''width'', ''height'', ''rotation'', ''fontSize'', ''strokeWidth'',
     ''depth'', ''shadowBlur'', ''shadowOpacity'', ''shadowOffsetX'', ''shadowOffsetY'', ''bend'',
     ''opacity'', ''contentScale'', ''contentScaleX'', ''contentScaleY'', ''bendPointCount'', ''headSize'',
     ''vertexCount'', ''fillOpacity'', ''sketchFillOpacity'']"

definition size_fields :: "string list" where
  "size_fields = [''width'', ''height'', ''fontSize'', ''strokeWidth'']"

definition result_fields :: "string list" where
  "result_fields = [''runId'', ''codeId'', ''createdAt'', ''output'', ''error'', ''exitCode'',
     ''timedOut'', ''truncated'']"

definition chart_types :: "string list" where
  "chart_types = [''bar'', ''line'', ''area'', ''pie'', ''donut'', ''scatter'']"

definition if_present :: "json \<Rightarrow> string \<Rightarrow> (json \<Rightarrow> bool) \<Rightarrow> bool" where
  "if_present j field P = (case jget j field of None \<Rightarrow> True | Some v \<Rightarrow> P v)"

definition string_at_most :: "int \<Rightarrow> json \<Rightarrow> bool" where
  "string_at_most n j = (case j of JStr s \<Rightarrow> \<not> longer_than s n | _ \<Rightarrow> False)"

fun valid_fields :: "(string \<times> json) list \<Rightarrow> unit outcome" where
  "valid_fields [] = Inr ()"
| "valid_fields ((name, value) # rest) =
     requireE (name \<in> set item_fields) ''ITEM_FIELD_INVALID''
     (requireE (is_number value \<longrightarrow> number_finite value) ''ITEM_NUMBER_INVALID'' (valid_fields rest))"

definition valid_volume_style :: "json \<Rightarrow> bool" where
  "valid_volume_style item =
     if_present item ''volumeStyle'' (\<lambda>v. v = JStr ''solid'' \<or> v = JStr ''wireframe'')"

definition valid_runtime_entry :: "json \<Rightarrow> bool" where
  "valid_runtime_entry e \<longleftrightarrow>
     (case e of
        JObj ms \<Rightarrow>
          (case map_of ms ''runId'' of Some v \<Rightarrow> string_at_most 256 v | None \<Rightarrow> False)
          \<and> (case map_of ms ''codeId'' of Some v \<Rightarrow> string_at_most 128 v | None \<Rightarrow> False)
          \<and> (case map_of ms ''createdAt'' of Some (JInt i) \<Rightarrow> as_int64 i \<ge> 0 | _ \<Rightarrow> False)
          \<and> list_all (\<lambda>m. fst m \<in> set result_fields) ms
          \<and> if_present e ''output'' is_string \<and> if_present e ''error'' is_string
          \<and> if_present e ''exitCode'' is_number_integer
          \<and> if_present e ''timedOut'' is_boolean \<and> if_present e ''truncated'' is_boolean
      | _ \<Rightarrow> False)"

definition valid_runtime :: "json_lib \<Rightarrow> json \<Rightarrow> string \<Rightarrow> unit outcome" where
  "valid_runtime L item kind =
     requireE (if_present item ''runtimeRole'' (\<lambda>v. kind = ''shape''
         \<and> (v = JStr ''executor'' \<or> v = JStr ''output''))) ''ITEM_RUNTIME_ROLE_INVALID''
     (case jget item ''runtimeResults'' of
        None \<Rightarrow> Inr ()
      | Some results \<Rightarrow>
          bindE (value_string item ''runtimeRole'' []) (\<lambda>role.
          requireE (role = ''output'' \<and> is_array results \<and> \<not> longer_than (elements results) 32
              \<and> \<not> longer_than (jl_dump L results) 524288
              \<and> list_all valid_runtime_entry (elements results))
            ''ITEM_RUNTIME_RESULT_INVALID'' (Inr ())))"

definition valid_chart :: "json_lib \<Rightarrow> json \<Rightarrow> unit outcome" where
  "valid_chart L item =
     requireE (case jget item ''chartType'' of Some (JStr t) \<Rightarrow> t \<in> set chart_types | _ \<Rightarrow> False)
       ''ITEM_CHART_TYPE_INVALID''
     (requireE (if_present item ''title'' (string_at_most 480)
         \<and> (case (jget item ''columns'', jget item ''rows'') of
              (Some (JArr columns), Some (JArr rows)) \<Rightarrow>
                longer_than columns 1 \<and> \<not> longer_than columns 12 \<and> rows \<noteq> [] \<and> \<not> longer_than rows 100
                \<and> list_all (string_at_most 4000) columns
                \<and> list_all (\<lambda>row. case row of
                     JArr cells \<Rightarrow> length cells = length columns \<and> list_all (string_at_most 4000) cells
                   | _ \<Rightarrow> False) rows
                \<and> \<not> longer_than (jl_dump L (JArr columns) @ jl_dump L (JArr rows)) 300000
            | _ \<Rightarrow> False))
       ''ITEM_CHART_DATA_INVALID'' (Inr ()))"

definition point_has_xy :: "json \<Rightarrow> bool" where
  "point_has_xy p \<longleftrightarrow>
     (case jget p ''x'' of Some v \<Rightarrow> is_number v | None \<Rightarrow> False)
     \<and> (case jget p ''y'' of Some v \<Rightarrow> is_number v | None \<Rightarrow> False)"

definition valid_bend :: "json \<Rightarrow> unit outcome" where
  "valid_bend item =
     (case jget item ''bendPoints'' of
        None \<Rightarrow> Inr ()
      | Some points \<Rightarrow>
          bindE (value_int item ''bendPointCount'' 1) (\<lambda>count.
          requireE (case points of
                      JArr ps \<Rightarrow> 1 \<le> count \<and> count \<le> 32 \<and> int (length ps) = count \<and> list_all point_has_xy ps
                    | _ \<Rightarrow> False) ''ITEM_BEND_INVALID'' (Inr ())))"

definition valid_stroke :: "json \<Rightarrow> unit outcome" where
  "valid_stroke item =
     requireE (case jget item ''points'' of
                 Some (JArr ps) \<Rightarrow> \<not> longer_than ps 100000 \<and> list_all point_has_xy ps
               | _ \<Rightarrow> False) ''ITEM_STROKE_INVALID'' (Inr ())"

definition broker_validate :: "json_lib \<Rightarrow> json \<Rightarrow> unit outcome" where
  \<comment> \<open>the function \<open>validate\<close>\<close>
  "broker_validate L item =
     (case item of
        JObj ms \<Rightarrow>
          bindE (value_string item ''kind'' []) (\<lambda>kind.
          requireE (kind \<in> set item_kinds) ''ITEM_KIND_INVALID''
          (bindE (valid_fields ms) (\<lambda>_.
           requireE (list_all (\<lambda>f. if_present item f is_number) number_fields) ''ITEM_NUMBER_INVALID''
           (requireE (list_all (\<lambda>f. if_present item f (\<lambda>v. \<not> number_not_positive v)) size_fields)
              ''ITEM_SIZE_INVALID''
           (requireE (valid_volume_style item) ''ITEM_VOLUME_STYLE_INVALID''
           (bindE (valid_runtime L item kind) (\<lambda>_.
            bindE (if kind = ''chart'' then valid_chart L item else Inr ()) (\<lambda>_.
            bindE (valid_bend item) (\<lambda>_.
            if kind = ''stroke'' then valid_stroke item else Inr ())))))))))
      | _ \<Rightarrow> Inl (InvalidArgument ''ITEM_KIND_INVALID''))"

section \<open>prepare\<close>

record mutation =
  mu_items :: "(string \<times> json) list"
  mu_previous :: "(string \<times> json) list"
  mu_expected :: "(string \<times> json) list"
  mu_translations :: "json list"
  mu_only_translations :: bool

definition mutation_empty :: mutation where
  "mutation_empty = \<lparr>mu_items = [], mu_previous = [], mu_expected = [], mu_translations = [],
     mu_only_translations = True\<rparr>"

definition put_item :: "string \<Rightarrow> json \<Rightarrow> mutation \<Rightarrow> mutation" where
  "put_item i item mu = mu\<lparr>mu_items := obj_put i item (mu_items mu)\<rparr>"

definition without_broker_fields :: "json \<Rightarrow> json" where
  "without_broker_fields j = (case j of
      JObj ms \<Rightarrow> JObj (obj_erase ''__broker_revision'' (obj_erase ''__host_version'' ms)) | _ \<Rightarrow> j)"

definition broker_get ::
  "(string \<Rightarrow> json option) \<Rightarrow> string set \<Rightarrow> bool \<Rightarrow> string \<Rightarrow> mutation \<Rightarrow> (json \<times> mutation) outcome"
where
  \<comment> \<open>the lambda \<open>get\<close>\<close>
  "broker_get read groups admin i mu =
     requireE (validQueryItemId i) ''ITEM_ID_INVALID''
     (case map_of (mu_items mu) i of
        Some item \<Rightarrow> Inr (item, mu)
      | None \<Rightarrow>
          (let old = (case read i of Some j \<Rightarrow> j | None \<Rightarrow> JNull) in
           requireE (is_null old \<or> queryCanAccess old groups admin) ''ITEM_ACCESS_DENIED''
           (bindE (if is_null old then Inr (-1) else value_int64 old ''__broker_revision'' 0) (\<lambda>revision.
            bindE (if is_null old then Inr [] else value_string old ''kind'' []) (\<lambda>kind.
              (let item = (if kind = ''host-tombstone'' then JNull else without_broker_fields old)
               in Inr (item, put_item i item (mu\<lparr>mu_previous := obj_put i old (mu_previous mu),
                    mu_expected := obj_put i (JInt revision) (mu_expected mu)\<rparr>))))))))"

definition translate_field :: "fp_lib \<Rightarrow> json \<Rightarrow> string \<Rightarrow> 64 word \<Rightarrow> json outcome" where
  \<comment> \<open>\<open>point[f] = point[f].get<double>() + d\<close>\<close>
  "translate_field F p f d =
     (case p of
        JObj ms \<Rightarrow>
          (case map_of ms f of
             None \<Rightarrow> Inl JsonException
           | Some v \<Rightarrow> bindE (get_double F v) (\<lambda>x. Inr (JObj (obj_put f (JFloat (fp_add F x d)) ms))))
      | _ \<Rightarrow> Inl JsonException)"

fun translate_points ::
  "fp_lib \<Rightarrow> 64 word \<Rightarrow> 64 word \<Rightarrow> json list \<Rightarrow> json list outcome" where
  "translate_points F dx dy [] = Inr []"
| "translate_points F dx dy (p # ps) =
     bindE (translate_field F p ''x'' dx) (\<lambda>p1. bindE (translate_field F p1 ''y'' dy) (\<lambda>p2.
     bindE (translate_points F dx dy ps) (\<lambda>rest. Inr (p2 # rest))))"

definition put_field :: "string \<Rightarrow> json \<Rightarrow> json \<Rightarrow> json" where
  "put_field f v j = (case j of JObj ms \<Rightarrow> JObj (obj_put f v ms) | _ \<Rightarrow> j)"

definition translate_stroke :: "fp_lib \<Rightarrow> 64 word \<Rightarrow> 64 word \<Rightarrow> json \<Rightarrow> json outcome" where
  "translate_stroke F dx dy item =
     (case jget item ''points'' of
        None \<Rightarrow> Inr (put_field ''points'' JNull item)
      | Some JNull \<Rightarrow> Inr item
      | Some (JArr ps) \<Rightarrow>
          bindE (translate_points F dx dy ps) (\<lambda>ps'. Inr (put_field ''points'' (JArr ps') item))
      | Some (JObj ms) \<Rightarrow>
          bindE (translate_points F dx dy (map snd ms))
            (\<lambda>vs. Inr (put_field ''points'' (JObj (zip (map fst ms) vs)) item))
      | Some _ \<Rightarrow> Inl JsonException)"

definition translate_position :: "fp_lib \<Rightarrow> 64 word \<Rightarrow> 64 word \<Rightarrow> json \<Rightarrow> json outcome" where
  "translate_position F dx dy item =
     bindE (value_with (get_double F) item ''x'' 0) (\<lambda>x.
     (let item1 = put_field ''x'' (JFloat (fp_add F x dx)) item in
      bindE (value_with (get_double F) item1 ''y'' 0) (\<lambda>y.
        Inr (put_field ''y'' (JFloat (fp_add F y dy)) item1))))"

definition translate_item ::
  "json_lib \<Rightarrow> fp_lib \<Rightarrow> 64 word \<Rightarrow> 64 word \<Rightarrow> json \<Rightarrow> json outcome" where
  "translate_item L F dx dy item =
     (if is_null item then Inl (InvalidArgument ''ITEM_NOT_FOUND'')
      else bindE (value_string item ''kind'' []) (\<lambda>kind.
        requireE (kind \<noteq> ''connector'') ''ITEM_NOT_FOUND''
        (bindE (value_string item ''type'' []) (\<lambda>type.
         requireE (type \<noteq> ''chat_room'') ''ITEM_NOT_FOUND''
         (bindE (if kind = ''stroke'' then translate_stroke F dx dy item
                 else translate_position F dx dy item) (\<lambda>moved.
          bindE (broker_validate L moved) (\<lambda>_. Inr moved)))))))"

fun translate_ids ::
  "json_lib \<Rightarrow> fp_lib \<Rightarrow> (string \<Rightarrow> json option) \<Rightarrow> string set \<Rightarrow> bool \<Rightarrow> 64 word \<Rightarrow> 64 word
   \<Rightarrow> string list \<Rightarrow> json list \<Rightarrow> mutation \<Rightarrow> mutation outcome" where
  "translate_ids L F read groups admin dx dy unique [] mu = Inr mu"
| "translate_ids L F read groups admin dx dy unique (v # vs) mu =
     (case v of
        JStr i \<Rightarrow>
          requireE (i \<notin> set unique) ''ITEM_TRANSLATION_INVALID''
          (bindE (broker_get read groups admin i mu) (\<lambda>(item, mu1).
           bindE (translate_item L F dx dy item) (\<lambda>moved.
             translate_ids L F read groups admin dx dy (i # unique) vs (put_item i moved mu1))))
      | _ \<Rightarrow> Inl (InvalidArgument ''ITEM_TRANSLATION_INVALID''))"

definition op_translate ::
  "json_lib \<Rightarrow> fp_lib \<Rightarrow> (string \<Rightarrow> json option) \<Rightarrow> string set \<Rightarrow> bool \<Rightarrow> json \<Rightarrow> mutation
   \<Rightarrow> mutation outcome" where
  "op_translate L F read groups admin operation mu =
     bindE (value_json operation ''ids'' (JArr [])) (\<lambda>ids.
     (case (ids, jget operation ''dx'', jget operation ''dy'') of
        (JArr vs, Some jx, Some jy) \<Rightarrow>
          requireE (vs \<noteq> [] \<and> \<not> longer_than vs 10000 \<and> is_number jx \<and> is_number jy)
            ''ITEM_TRANSLATION_INVALID''
          (bindE (get_double F jx) (\<lambda>dx. bindE (get_double F jy) (\<lambda>dy.
           requireE (double_finite dx \<and> double_finite dy) ''ITEM_TRANSLATION_INVALID''
           (bindE (translate_ids L F read groups admin dx dy [] vs mu) (\<lambda>mu1.
            Inr (mu1\<lparr>mu_translations := mu_translations mu1 @
              [JObj [(''dx'', JFloat dx), (''dy'', JFloat dy), (''ids'', ids)]]\<rparr>))))))
      | _ \<Rightarrow> Inl (InvalidArgument ''ITEM_TRANSLATION_INVALID'')))"

fun unset_fields :: "json list \<Rightarrow> json \<Rightarrow> json outcome" where
  "unset_fields [] item = Inr item"
| "unset_fields (f # fs) item =
     (case f of
        JStr name \<Rightarrow>
          requireE (take 2 name \<noteq> ''__'') ''ITEM_PATCH_INVALID''
            (case item of
               JObj ms \<Rightarrow> unset_fields fs (JObj (obj_erase name ms))
             | _ \<Rightarrow> Inl JsonException)
      | _ \<Rightarrow> Inl (InvalidArgument ''ITEM_PATCH_INVALID''))"

definition update_object :: "json \<Rightarrow> json \<Rightarrow> json outcome" where
  \<comment> \<open>\<open>item.update(patch)\<close>\<close>
  "update_object item patch =
     (case (item, patch) of
        (JObj ms, JObj ps) \<Rightarrow> Inr (JObj (fold (\<lambda>(k, v). obj_put k v) ps ms))
      | _ \<Rightarrow> Inl JsonException)"

fun merge_changes :: "json list \<Rightarrow> string list \<Rightarrow> json list outcome" where
  "merge_changes [] seen = Inr []"
| "merge_changes (c # cs) seen =
     (case jget c ''change'' of
        Some (JStr s) \<Rightarrow>
          if s \<in> set seen then merge_changes cs seen
          else bindE (merge_changes cs (s # seen)) (\<lambda>rest. Inr (c # rest))
      | _ \<Rightarrow> Inl JsonException)"

definition merge_automerge :: "json \<Rightarrow> json \<Rightarrow> json outcome" where
  "merge_automerge old item =
     (let item1 = (case jget old ''automerge_snapshot'' of
                     Some s \<Rightarrow> put_field ''automerge_snapshot'' s item | None \<Rightarrow> item)
      in bindE (value_json old ''automerge_changes'' (JArr [])) (\<lambda>a.
         bindE (value_json item1 ''automerge_changes'' (JArr [])) (\<lambda>b.
         bindE (merge_changes (elements a @ elements b) []) (\<lambda>merged.
           Inr (put_field ''automerge_changes'' (JArr merged) item1)))))"

definition patched_item ::
  "json_lib \<Rightarrow> string set \<Rightarrow> bool \<Rightarrow> json \<Rightarrow> json \<Rightarrow> json outcome" where
  "patched_item L groups admin operation old =
     bindE (value_json operation ''patch'' (JObj [])) (\<lambda>patch.
     bindE (value_json operation ''unset'' (JArr [])) (\<lambda>unset.
     requireE (is_object patch \<and> is_array unset) ''ITEM_PATCH_INVALID''
     (bindE (update_object (if is_null old then JObj [] else old) patch) (\<lambda>item1.
      bindE (unset_fields (elements unset) item1) (\<lambda>item.
      bindE (if is_null old then Inr True
             else bindE (value_string old ''kind'' []) (\<lambda>k1.
                  bindE (value_string item ''kind'' []) (\<lambda>k2. Inr (k1 = k2)))) (\<lambda>same_kind.
      requireE same_kind ''ITEM_KIND_INVALID''
      (bindE (broker_validate L item) (\<lambda>_.
       bindE (queryUpdatedItem old item groups admin) (\<lambda>item2.
       bindE (value_string item2 ''kind'' []) (\<lambda>kind.
       if \<not> is_null old \<and> text_kind kind then merge_automerge old item2 else Inr item2))))))))))"

definition op_change ::
  "json_lib \<Rightarrow> (string \<Rightarrow> json option) \<Rightarrow> string set \<Rightarrow> bool \<Rightarrow> string \<Rightarrow> json \<Rightarrow> mutation
   \<Rightarrow> (bool \<times> mutation) outcome" where
  \<comment> \<open>delete, create and patch; the flag says whether the size of the batch is checked afterwards,
     which the \<open>continue\<close> of a delete skips\<close>
  "op_change L read groups admin action operation mu =
     bindE (value_string operation ''id'' []) (\<lambda>i.
     bindE (broker_get read groups admin i (mu\<lparr>mu_only_translations := False\<rparr>)) (\<lambda>(old, mu1).
     if action = ''delete'' then
       bindE (if is_null old then Inr [] else value_string old ''type'' []) (\<lambda>type.
       requireE (type \<noteq> ''chat_room'') ''CHAT_QUERY_REQUIRED'' (Inr (False, put_item i JNull mu1)))
     else
       requireE (action = ''create'' \<or> action = ''patch'') ''QUERY_ACTION_INVALID''
       (requireE (action = ''create'' \<longrightarrow> is_null old) ''ITEM_ALREADY_EXISTS''
       (requireE (action = ''patch'' \<longrightarrow> \<not> is_null old) ''ITEM_NOT_FOUND''
       (bindE (patched_item L groups admin operation old) (\<lambda>item.
         Inr (True, put_item i item mu1)))))))"

fun broker_operations ::
  "json_lib \<Rightarrow> fp_lib \<Rightarrow> (string \<Rightarrow> json option) \<Rightarrow> string set \<Rightarrow> bool \<Rightarrow> json list \<Rightarrow> mutation
   \<Rightarrow> mutation outcome" where
  "broker_operations L F read groups admin [] mu = Inr mu"
| "broker_operations L F read groups admin (operation # rest) mu =
     requireE (is_object operation) ''QUERY_ACTION_INVALID''
     (bindE (value_string operation ''action'' []) (\<lambda>action.
      bindE (if action = ''translate'' then
               bindE (op_translate L F read groups admin operation mu) (\<lambda>mu1. Inr (True, mu1))
             else op_change L read groups admin action operation mu) (\<lambda>(checked, mu1).
      requireE (checked \<longrightarrow> \<not> longer_than (mu_items mu1) 20000) ''QUERY_BATCH_INVALID''
        (broker_operations L F read groups admin rest mu1))))"

definition valid_endpoint ::
  "(string \<Rightarrow> json option) \<Rightarrow> string set \<Rightarrow> bool \<Rightarrow> mutation \<Rightarrow> string \<Rightarrow> bool outcome" where
  "valid_endpoint read groups admin mu i =
     (let endpoint = (case map_of (mu_items mu) i of
                        Some e \<Rightarrow> e
                      | None \<Rightarrow> (case read i of Some e \<Rightarrow> e | None \<Rightarrow> JNull))
      in if is_null endpoint \<or> \<not> queryCanAccess endpoint groups admin then Inr False
         else bindE (value_string endpoint ''kind'' [])
                (\<lambda>kind. Inr (kind \<noteq> ''connector'' \<and> kind \<noteq> ''host-tombstone'')))"

fun valid_connectors ::
  "(string \<Rightarrow> json option) \<Rightarrow> string set \<Rightarrow> bool \<Rightarrow> mutation \<Rightarrow> (string \<times> json) list \<Rightarrow> unit outcome" where
  "valid_connectors read groups admin mu [] = Inr ()"
| "valid_connectors read groups admin mu ((i, item) # rest) =
     (if is_null item then valid_connectors read groups admin mu rest
      else bindE (value_string item ''kind'' []) (\<lambda>kind.
        if kind \<noteq> ''connector'' then valid_connectors read groups admin mu rest
        else bindE (value_string item ''from'' []) (\<lambda>from. bindE (value_string item ''to'' []) (\<lambda>to.
          requireE (from \<noteq> to \<and> validQueryItemId from \<and> validQueryItemId to) ''ITEM_CONNECTOR_INVALID''
          (bindE (valid_endpoint read groups admin mu from) (\<lambda>ok1.
           requireE ok1 ''ITEM_CONNECTOR_INVALID''
           (bindE (valid_endpoint read groups admin mu to) (\<lambda>ok2.
            requireE ok2 ''ITEM_CONNECTOR_INVALID'' (valid_connectors read groups admin mu rest)))))))))"

definition broker_prepare ::
  "json_lib \<Rightarrow> fp_lib \<Rightarrow> json \<Rightarrow> (string \<Rightarrow> json option) \<Rightarrow> string set \<Rightarrow> bool \<Rightarrow> mutation outcome"
where
  \<comment> \<open>the function \<open>prepare\<close>\<close>
  "broker_prepare L F operations read groups admin =
     (case operations of
        JArr ops \<Rightarrow>
          requireE (ops \<noteq> [] \<and> \<not> longer_than ops 512) ''QUERY_BATCH_INVALID''
          (bindE (broker_operations L F read groups admin ops mutation_empty) (\<lambda>mu.
           bindE (valid_connectors read groups admin mu (mu_items mu)) (\<lambda>_.
           requireE (\<not> longer_than (jl_dump L (JObj (mu_items mu))) (8 * 1024 * 1024))
             ''QUERY_BATCH_TOO_LARGE'' (Inr mu))))
      | _ \<Rightarrow> Inl (InvalidArgument ''QUERY_BATCH_INVALID''))"

section \<open>What a prepared batch guarantees\<close>

definition stored_item :: "(string \<Rightarrow> json option) \<Rightarrow> string \<Rightarrow> json" where
  "stored_item read i = (case read i of Some j \<Rightarrow> j | None \<Rightarrow> JNull)"

definition read_revision :: "json \<Rightarrow> int outcome" where
  "read_revision stored = (if is_null stored then Inr (-1) else value_int64 stored ''__broker_revision'' 0)"

definition item_allowed :: "string set \<Rightarrow> bool \<Rightarrow> json \<Rightarrow> json \<Rightarrow> bool" where
  "item_allowed groups admin stored item \<longleftrightarrow> is_null item
     \<or> queryCanAccess item groups admin
       \<and> (admin \<or> queryPermissionGroups item = queryPermissionGroups stored
          \<or> queryPermissionGroups item \<subseteq> groups)"

definition entry_ok ::
  "(string \<Rightarrow> json option) \<Rightarrow> string set \<Rightarrow> bool \<Rightarrow> mutation \<Rightarrow> string \<Rightarrow> json \<Rightarrow> bool" where
  "entry_ok read groups admin mu i item \<longleftrightarrow> validQueryItemId i
     \<and> map_of (mu_previous mu) i = Some (stored_item read i)
     \<and> (is_null (stored_item read i) \<or> queryCanAccess (stored_item read i) groups admin)
     \<and> (\<exists>r. read_revision (stored_item read i) = Inr r \<and> map_of (mu_expected mu) i = Some (JInt r))
     \<and> item_allowed groups admin (stored_item read i) item"

definition mu_inv :: "(string \<Rightarrow> json option) \<Rightarrow> string set \<Rightarrow> bool \<Rightarrow> mutation \<Rightarrow> bool" where
  "mu_inv read groups admin mu \<longleftrightarrow>
     dom (map_of (mu_previous mu)) = dom (map_of (mu_items mu))
     \<and> dom (map_of (mu_expected mu)) = dom (map_of (mu_items mu))
     \<and> (\<forall>i item. map_of (mu_items mu) i = Some item \<longrightarrow> entry_ok read groups admin mu i item)"

lemma perms_cong: "jget a ''permission'' = jget b ''permission'' \<Longrightarrow>
    queryPermissionGroups a = queryPermissionGroups b"
  by (simp add: queryPermissionGroups_def)

lemma item_allowed_cong: "queryPermissionGroups a = queryPermissionGroups b \<Longrightarrow> \<not> is_null b \<Longrightarrow>
    item_allowed groups admin stored b \<Longrightarrow> item_allowed groups admin stored a"
  by (simp add: item_allowed_def queryCanAccess_def)

lemma put_field_simps [simp]:
  "f \<noteq> g \<Longrightarrow> jget (put_field f v j) g = jget j g"
  "is_null (put_field f v j) = is_null j" "is_object (put_field f v j) = is_object j"
  by (auto simp: put_field_def jget_def is_null_def is_object_def split: json.splits)

lemma mu_inv_empty: "mu_inv read groups admin mutation_empty"
  by (simp add: mu_inv_def mutation_empty_def)

lemma mu_inv_put:
  assumes "mu_inv read groups admin mu" "map_of (mu_items mu) i \<noteq> None"
    "item_allowed groups admin (stored_item read i) item"
  shows "mu_inv read groups admin (put_item i item mu)"
  using assms by (auto simp: mu_inv_def put_item_def entry_ok_def)

lemma without_broker_fields_simps [simp]:
  "jget (without_broker_fields j) ''permission'' = jget j ''permission''"
  by (auto simp: without_broker_fields_def jget_def split: json.splits)

lemma broker_get_inv:
  assumes "broker_get read groups admin i mu = Inr (item, mu')" "mu_inv read groups admin mu"
  shows "mu_inv read groups admin mu' \<and> map_of (mu_items mu') i = Some item"
proof (cases "map_of (mu_items mu) i")
  case (Some x)
  then show ?thesis using assms by (simp add: broker_get_def outcome_iffs)
next
  case None
  let ?old = "stored_item read i"
  have s0: "(case read i of Some j \<Rightarrow> j | None \<Rightarrow> JNull) = ?old" by (simp add: stored_item_def)
  have r0: "(if is_null ?old then Inr (-1) else value_int64 ?old ''__broker_revision'' 0) = read_revision ?old"
    by (simp add: read_revision_def)
  obtain r kind where g: "validQueryItemId i"
      "is_null ?old \<or> queryCanAccess ?old groups admin" "read_revision ?old = Inr r"
      "item = (if kind = ''host-tombstone'' then JNull else without_broker_fields ?old)"
      "mu' = put_item i item (mu\<lparr>mu_previous := obj_put i ?old (mu_previous mu),
         mu_expected := obj_put i (JInt r) (mu_expected mu)\<rparr>)"
    using assms(1) None unfolding broker_get_def s0 Let_def r0 outcome_iffs by (auto simp: outcome_iffs)
  have "queryPermissionGroups (without_broker_fields ?old) = queryPermissionGroups ?old"
    by (rule perms_cong) simp
  moreover have "is_null (without_broker_fields ?old) = is_null ?old"
    by (auto simp: without_broker_fields_def is_null_def split: json.splits)
  ultimately have al: "item_allowed groups admin ?old item"
    using g(2,4) by (auto simp: item_allowed_def queryCanAccess_def is_null_def)
  have "entry_ok read groups admin mu' j x" if "map_of (mu_items mu') j = Some x" for j x
    using that assms(2) g al None by (cases "j = i") (auto simp: entry_ok_def mu_inv_def put_item_def)
  then show ?thesis using assms(2) g(5) by (auto simp: mu_inv_def put_item_def)
qed

lemma translate_item_perms:
  assumes "translate_item L F dx dy item = Inr moved"
  shows "jget moved ''permission'' = jget item ''permission'' \<and> \<not> is_null item"
proof -
  have "jget x ''permission'' = jget item ''permission''" if "translate_stroke F dx dy item = Inr x" for x
    using that by (auto simp: translate_stroke_def outcome_iffs split: option.splits json.splits)
  moreover have "jget x ''permission'' = jget item ''permission''"
    if "translate_position F dx dy item = Inr x" for x
    using that by (auto simp: translate_position_def outcome_iffs Let_def)
  ultimately show ?thesis
    using assms by (auto simp: translate_item_def outcome_iffs split: if_splits)
qed

lemma translate_ids_inv:
  assumes "translate_ids L F read groups admin dx dy unique vs mu = Inr mu'"
    "mu_inv read groups admin mu"
  shows "mu_inv read groups admin mu'"
  using assms
proof (induction L F read groups admin dx dy unique vs mu rule: translate_ids.induct)
  case (2 L F read groups admin dx dy unique v vs mu)
  from 2(2) obtain i item mu1 moved where v: "v = JStr i"
      "broker_get read groups admin i mu = Inr (item, mu1)" "translate_item L F dx dy item = Inr moved"
      "translate_ids L F read groups admin dx dy (i # unique) vs (put_item i moved mu1) = Inr mu'"
    by (auto simp: outcome_iffs split: json.splits)
  note g = broker_get_inv[OF v(2) 2(3)]
  note t = translate_item_perms[OF v(3)]
  have "item_allowed groups admin (stored_item read i) item"
    using g by (auto simp: mu_inv_def entry_ok_def)
  then have "item_allowed groups admin (stored_item read i) moved"
    using t perms_cong[of moved item] item_allowed_cong by blast
  with g have inv: "mu_inv read groups admin (put_item i moved mu1)" by (intro mu_inv_put) auto
  show ?case by (rule 2(1)[OF v(1) v(4) inv])
qed simp

lemma queryUpdatedItem_perms:
  assumes "queryUpdatedItem old item groups admin = Inr x"
  shows "x = item \<and> is_object item \<and> queryCanAccess item groups admin
    \<and> (admin \<or> (if is_null old then queryPermissionGroups item \<subseteq> groups
         else queryPermissionGroups item = queryPermissionGroups old))"
  using queryUpdatedItem_Inr[OF assms] by blast

lemma merge_automerge_perms: "merge_automerge old item = Inr x \<Longrightarrow>
    jget x ''permission'' = jget item ''permission'' \<and> is_null x = is_null item"
  by (auto simp: merge_automerge_def Let_def outcome_iffs split: option.splits)

lemma patched_item_allowed:
  assumes "patched_item L groups admin operation old = Inr item"
    "item_allowed groups admin stored old"
  shows "item_allowed groups admin stored item"
proof -
  obtain i2 kind where i2: "\<exists>x. queryUpdatedItem old x groups admin = Inr i2"
    "(if \<not> is_null old \<and> text_kind kind then merge_automerge old i2 else Inr i2) = Inr item"
    using assms(1) unfolding patched_item_def outcome_iffs by blast
  then obtain x where "queryUpdatedItem old x groups admin = Inr i2" by blast
  from queryUpdatedItem_perms[OF this]
  have q: "is_object i2" "queryCanAccess i2 groups admin"
    "admin \<or> (if is_null old then queryPermissionGroups i2 \<subseteq> groups
       else queryPermissionGroups i2 = queryPermissionGroups old)" by auto
  have n2: "\<not> is_null i2" using q(1) by (auto simp: is_object_iff is_null_def)
  have al: "item_allowed groups admin stored i2"
    using q assms(2) by (auto simp: item_allowed_def split: if_splits)
  show ?thesis
  proof (cases "\<not> is_null old \<and> text_kind kind")
    case True
    then have "merge_automerge old i2 = Inr item" using i2(2) by simp
    from merge_automerge_perms[OF this] al n2 perms_cong[of item i2] show ?thesis
      using item_allowed_cong by blast
  next
    case False
    with i2(2) al show ?thesis by auto
  qed
qed

lemma op_change_inv:
  assumes "op_change L read groups admin action operation mu = Inr (b, mu')" "mu_inv read groups admin mu"
  shows "mu_inv read groups admin mu'"
proof -
  have inv0: "mu_inv read groups admin (mu\<lparr>mu_only_translations := False\<rparr>)"
    using assms(2) by (simp add: mu_inv_def entry_ok_def)
  obtain i old mu1 where g: "broker_get read groups admin i (mu\<lparr>mu_only_translations := False\<rparr>) = Inr (old, mu1)"
    and c: "mu' = put_item i JNull mu1 \<or>
      (\<exists>item. patched_item L groups admin operation old = Inr item \<and> mu' = put_item i item mu1)"
  proof -
    obtain i old mu1 where g: "broker_get read groups admin i (mu\<lparr>mu_only_translations := False\<rparr>) = Inr (old, mu1)"
      and r: "(if action = ''delete'' then
       bindE (if is_null old then Inr [] else value_string old ''type'' []) (\<lambda>type.
       requireE (type \<noteq> ''chat_room'') ''CHAT_QUERY_REQUIRED'' (Inr (False, put_item i JNull mu1)))
     else
       requireE (action = ''create'' \<or> action = ''patch'') ''QUERY_ACTION_INVALID''
       (requireE (action = ''create'' \<longrightarrow> is_null old) ''ITEM_ALREADY_EXISTS''
       (requireE (action = ''patch'' \<longrightarrow> \<not> is_null old) ''ITEM_NOT_FOUND''
       (bindE (patched_item L groups admin operation old) (\<lambda>item.
         Inr (True, put_item i item mu1)))))) = Inr (b, mu')"
      using assms(1) unfolding op_change_def outcome_iffs split_paired_Ex prod.case by blast
    have "mu' = put_item i JNull mu1 \<or>
      (\<exists>item. patched_item L groups admin operation old = Inr item \<and> mu' = put_item i item mu1)"
    proof (cases "action = ''delete''")
      case True
      show ?thesis using r unfolding if_P[OF True] outcome_iffs by blast
    next
      case False
      show ?thesis using r unfolding if_not_P[OF False] outcome_iffs by blast
    qed
    with g that show thesis by blast
  qed
  note gi = broker_get_inv[OF g inv0]
  have old: "item_allowed groups admin (stored_item read i) old"
    using gi by (auto simp: mu_inv_def entry_ok_def)
  have "item_allowed groups admin (stored_item read i) JNull" by (simp add: item_allowed_def is_null_def)
  then show ?thesis using c gi patched_item_allowed[OF _ old] by (auto intro!: mu_inv_put)
qed

lemma op_translate_inv:
  assumes "op_translate L F read groups admin operation mu = Inr mu'" "mu_inv read groups admin mu"
  shows "mu_inv read groups admin mu'"
proof -
  obtain ids where ids: "(case (ids, jget operation ''dx'', jget operation ''dy'') of
        (JArr vs, Some jx, Some jy) \<Rightarrow>
          requireE (vs \<noteq> [] \<and> \<not> longer_than vs 10000 \<and> is_number jx \<and> is_number jy)
            ''ITEM_TRANSLATION_INVALID''
          (bindE (get_double F jx) (\<lambda>dx. bindE (get_double F jy) (\<lambda>dy.
           requireE (double_finite dx \<and> double_finite dy) ''ITEM_TRANSLATION_INVALID''
           (bindE (translate_ids L F read groups admin dx dy [] vs mu) (\<lambda>mu1.
            Inr (mu1\<lparr>mu_translations := mu_translations mu1 @
              [JObj [(''dx'', JFloat dx), (''dy'', JFloat dy), (''ids'', ids)]]\<rparr>))))))
      | _ \<Rightarrow> Inl (InvalidArgument ''ITEM_TRANSLATION_INVALID'')) = Inr mu'"
    using assms(1) unfolding op_translate_def outcome_iffs by blast
  then obtain vs jx jy where "ids = JArr vs" "jget operation ''dx'' = Some jx" "jget operation ''dy'' = Some jy"
    by (cases ids; cases "jget operation ''dx''"; cases "jget operation ''dy''") simp_all
  with ids obtain dx dy mu1 t where "translate_ids L F read groups admin dx dy [] vs mu = Inr mu1"
    "mu' = mu1\<lparr>mu_translations := t\<rparr>"
    by (auto simp: outcome_iffs)
  with translate_ids_inv[OF this(1) assms(2)] show ?thesis by (simp add: mu_inv_def entry_ok_def)
qed

lemma broker_operations_inv:
  "broker_operations L F read groups admin ops mu = Inr mu' \<Longrightarrow> mu_inv read groups admin mu \<Longrightarrow>
    mu_inv read groups admin mu'"
proof (induction ops arbitrary: mu)
  case (Cons op ops)
  then obtain b mu1 where s: "broker_operations L F read groups admin ops mu1 = Inr mu'"
    and c: "op_translate L F read groups admin op mu = Inr mu1
      \<or> (\<exists>action. op_change L read groups admin action op mu = Inr (b, mu1))"
    by (auto simp: outcome_iffs split: if_splits)
  have "mu_inv read groups admin mu1"
    using c op_translate_inv op_change_inv Cons.prems(2) by blast
  with Cons.IH[OF s] show ?case .
qed simp

text \<open>
  C17. A prepared batch respects access rights and records what it was based on. For every item
  of an accepted batch: its id is valid; the recorded previous item is the stored one and was
  accessible to the user; the expected revision is the one the stored item carries (-1 if there is
  none); and the new item, unless it is a deletion, is accessible to the user and, for a user who
  is not an administrator, is either visible to exactly the groups of the stored item or only to
  groups the user is in.
\<close>

theorem prepared_batch_respects_rights:
  assumes "broker_prepare L F operations read groups admin = Inr mu"
    "map_of (mu_items mu) i = Some item"
  shows "validQueryItemId i
    \<and> map_of (mu_previous mu) i = Some (stored_item read i)
    \<and> (is_null (stored_item read i) \<or> queryCanAccess (stored_item read i) groups admin)
    \<and> (\<exists>r. read_revision (stored_item read i) = Inr r \<and> map_of (mu_expected mu) i = Some (JInt r))
    \<and> (is_null item \<or> queryCanAccess item groups admin
        \<and> (admin \<or> queryPermissionGroups item = queryPermissionGroups (stored_item read i)
           \<or> queryPermissionGroups item \<subseteq> groups))"
proof -
  obtain ops where "broker_operations L F read groups admin ops mutation_empty = Inr mu"
    using assms(1) by (auto simp: broker_prepare_def outcome_iffs split: json.splits)
  from broker_operations_inv[OF this mu_inv_empty] assms(2) show ?thesis
    by (auto simp: mu_inv_def entry_ok_def item_allowed_def)
qed

definition sample_fp :: fp_lib where
  "sample_fp = \<lparr>fp_of_int = of_int, fp_add = (+)\<rparr>"

definition sample_ops :: json where
  "sample_ops = JArr [JObj [(''action'', JStr ''create''), (''id'', JStr ''n''), (''patch'', sample_item)]]"

theorem prepared_batch_respects_rights_witness:
  "\<exists>mu. broker_prepare ref_lib sample_fp sample_ops (\<lambda>_. None) {''team''} False = Inr mu
    \<and> map_of (mu_items mu) ''n'' = Some sample_item \<and> map_of (mu_expected mu) ''n'' = Some (JInt (-1))
    \<and> queryPermissionGroups sample_item \<inter> {''team''} \<noteq> {}"
proof -
  have e: "broker_prepare ref_lib sample_fp sample_ops (\<lambda>_. None) {''team''} False
      = Inr \<lparr>mu_items = [(''n'', sample_item)], mu_previous = [(''n'', JNull)],
          mu_expected = [(''n'', JInt (-1))], mu_translations = [], mu_only_translations = False\<rparr>"
    by code_simp
  have i: "map_of (mu_items \<lparr>mu_items = [(''n'', sample_item)], mu_previous = [(''n'', JNull)],
      mu_expected = [(''n'', JInt (-1))], mu_translations = [], mu_only_translations = False\<rparr>) ''n''
      = Some sample_item" by simp
  have "\<not> is_null sample_item" by code_simp
  with prepared_batch_respects_rights[OF e i] e show ?thesis
    by (auto simp: queryCanAccess_def)
qed

end
