(* ===== verification/Lru_Memory.thy ===== *)
theory Lru_Memory
  imports Prelude
begin

text \<open>
  \<^verbatim>\<open>cpp/include/memory/LruMemory.hpp\<close>: a bounded recency store of opaque values. \<open>lm_order\<close> is
  the list \<open>order_\<close> (front is the most recent key), \<open>lm_values\<close> the hash map \<open>values_\<close>; the list
  iterator kept in an \<open>Entry\<close> is the position of the key in \<open>lm_order\<close>. Every operation holds the
  object's mutex for its whole body, so each is one atomic step.
\<close>

record 'v lru_memory =
  lm_capacity :: nat
  lm_order :: "string list"
  lm_values :: "(string \<times> 'v) list"

definition lm_new :: "nat \<Rightarrow> 'v lru_memory" where
  "lm_new capacity = \<lparr>lm_capacity = capacity, lm_order = [], lm_values = []\<rparr>"

definition lm_get :: "'v lru_memory \<Rightarrow> string \<Rightarrow> 'v option \<times> 'v lru_memory" where
  "lm_get m key =
     (case map_of (lm_values m) key of
        None \<Rightarrow> (None, m)
      | Some value \<Rightarrow> (Some value, m\<lparr>lm_order := to_front key (lm_order m)\<rparr>))"

definition lm_add :: "'v lru_memory \<Rightarrow> string \<Rightarrow> 'v \<Rightarrow> 'v lru_memory" where
  "lm_add m key value =
     (if lm_capacity m = 0 then m
      else case map_of (lm_values m) key of
        Some _ \<Rightarrow> m\<lparr>lm_values := AList.update key value (lm_values m),
                  lm_order := to_front key (lm_order m)\<rparr>
      | None \<Rightarrow>
          let m' = m\<lparr>lm_order := key # lm_order m,
                     lm_values := AList.update key value (lm_values m)\<rparr>
          in if length (lm_values m') > lm_capacity m'
             then m'\<lparr>lm_values := AList.delete (last (lm_order m')) (lm_values m'),
                     lm_order := butlast (lm_order m')\<rparr>
             else m')"

definition lm_remove :: "'v lru_memory \<Rightarrow> string \<Rightarrow> 'v lru_memory" where
  "lm_remove m key =
     (case map_of (lm_values m) key of
        None \<Rightarrow> m
      | Some _ \<Rightarrow> m\<lparr>lm_order := remove1 key (lm_order m),
                    lm_values := AList.delete key (lm_values m)\<rparr>)"

section \<open>Invariant\<close>

text \<open>The list and the map hold the same keys, each once, and never more than the capacity.\<close>

definition lm_inv :: "'v lru_memory \<Rightarrow> bool" where
  "lm_inv m \<longleftrightarrow> distinct (lm_order m) \<and> distinct (map fst (lm_values m))
     \<and> set (lm_order m) = dom (map_of (lm_values m)) \<and> length (lm_order m) \<le> lm_capacity m"

definition lm_lookup :: "'v lru_memory \<Rightarrow> string \<Rightarrow> 'v option" where
  "lm_lookup m = map_of (lm_values m)"

lemma lm_inv_length: "lm_inv m \<Longrightarrow> length (lm_values m) = length (lm_order m)"
  by (metis card_dom_map_of distinct_card lm_inv_def)

lemma lm_inv_new [simp]: "lm_inv (lm_new c)"
  by (simp add: lm_inv_def lm_new_def)

lemma lm_inv_get [simp]: "lm_inv m \<Longrightarrow> lm_inv (snd (lm_get m k))"
  by (auto simp: lm_inv_def lm_get_def length_to_front split: option.splits)

lemma lm_inv_remove [simp]: "lm_inv m \<Longrightarrow> lm_inv (lm_remove m k)"
  by (auto simp: lm_inv_def lm_remove_def delete_conv' length_remove1 split: option.splits)

lemma lm_inv_add [simp]:
  assumes "lm_inv m"
  shows "lm_inv (lm_add m k v)"
proof (cases "k \<in> dom (map_of (lm_values m))")
  case True
  then show ?thesis using assms
    by (auto simp: lm_inv_def lm_add_def update_conv' length_to_front)
next
  case False
  let ?ord = "k # lm_order m" and ?vals = "AList.update k v (lm_values m)"
  from False assms have k: "k \<notin> set (lm_order m)" and none: "map_of (lm_values m) k = None"
    by (auto simp: lm_inv_def)
  with assms have d: "distinct ?ord" and dv: "distinct (map fst ?vals)"
    and keys: "set ?ord = dom (map_of ?vals)"
    by (auto simp: lm_inv_def update_conv' dom_def)
  have len: "length ?vals = length ?ord"
    using dv d keys by (metis card_dom_map_of distinct_card)
  show ?thesis
  proof (cases "length ?vals > lm_capacity m \<and> lm_capacity m \<noteq> 0")
    case True
    have "set (butlast ?ord) = dom (map_of (AList.delete (last ?ord) ?vals))"
      using set_butlast_distinct[OF d] keys by (auto simp: delete_conv' simp del: last.simps)
    moreover have "length (butlast ?ord) \<le> lm_capacity m"
      using assms by (simp add: lm_inv_def)
    ultimately show ?thesis
      using True none d dv
      by (simp add: lm_inv_def lm_add_def Let_def distinct_butlast del: last.simps butlast.simps)
  next
    case False
    then show ?thesis using none d dv keys len assms
      by (auto simp: lm_inv_def lm_add_def Let_def)
  qed
qed

section \<open>Contents\<close>

lemma lm_lookup_new [simp]: "lm_lookup (lm_new c) = Map.empty"
  by (simp add: lm_lookup_def lm_new_def)

lemma lm_get_value [simp]: "fst (lm_get m k) = lm_lookup m k"
  by (auto simp: lm_get_def lm_lookup_def split: option.splits)

lemma lm_get_lookup [simp]: "lm_lookup (snd (lm_get m k)) = lm_lookup m"
  by (auto simp: lm_get_def lm_lookup_def split: option.splits)

lemma lm_remove_lookup [simp]: "lm_lookup (lm_remove m k) = (lm_lookup m)(k := None)"
  by (auto simp: lm_remove_def lm_lookup_def delete_conv' fun_eq_iff split: option.splits)

lemma lm_capacity_simps [simp]:
  "lm_capacity (snd (lm_get m k)) = lm_capacity m"
  "lm_capacity (lm_add m k v) = lm_capacity m"
  "lm_capacity (lm_remove m k) = lm_capacity m"
  "lm_capacity (lm_new c) = c"
  by (auto simp: lm_get_def lm_add_def lm_remove_def lm_new_def Let_def split: option.splits)

lemma finite_lm_lookup [simp]: "finite (dom (lm_lookup m))"
  by (simp add: lm_lookup_def finite_dom_map_of)

lemma card_lm_lookup: "lm_inv m \<Longrightarrow> card (dom (lm_lookup m)) = length (lm_order m)"
  by (metis distinct_card lm_inv_def lm_lookup_def)

lemma card_lm_lookup_le: "lm_inv m \<Longrightarrow> card (dom (lm_lookup m)) \<le> lm_capacity m"
  by (simp add: card_lm_lookup) (simp add: lm_inv_def)

text \<open>While there is room (or the key is present), adding a key drops nothing.\<close>

lemma lm_add_lookup_room:
  assumes "lm_inv m" "k \<in> dom (lm_lookup m) \<or> card (dom (lm_lookup m)) < lm_capacity m"
  shows "lm_lookup (lm_add m k v) = (lm_lookup m)(k \<mapsto> v)"
proof -
  have "lm_capacity m \<noteq> 0"
    using assms card_lm_lookup_le[OF assms(1)] card_gt_0_iff[of "dom (lm_lookup m)"] by auto
  moreover have "length (AList.update k v (lm_values m)) \<le> lm_capacity m"
    if "map_of (lm_values m) k = None"
    using assms that by (auto simp: lm_lookup_def lm_inv_def length_update_alist card_dom_map_of)
  ultimately show ?thesis
    by (auto simp: lm_add_def lm_lookup_def Let_def update_conv' split: option.splits)
qed

lemma lm_add_lookup_le: "k' \<noteq> k \<Longrightarrow> lm_lookup (lm_add m k v) k' = Some x \<Longrightarrow> lm_lookup m k' = Some x"
  by (auto simp: lm_add_def lm_lookup_def Let_def update_conv' delete_conv'
      split: option.splits if_splits)

section \<open>The recency-list specification\<close>

text \<open>
  Abstractly the store is the list of its bindings, most recent first, and the three operations
  are the textbook LRU operations on that list.
\<close>

definition lm_abs :: "'v lru_memory \<Rightarrow> (string \<times> 'v) list" where
  "lm_abs m = map (\<lambda>k. (k, the (lm_lookup m k))) (lm_order m)"

definition spec_get :: "string \<Rightarrow> (string \<times> 'v) list \<Rightarrow> (string \<times> 'v) list" where
  "spec_get k xs =
     (case map_of xs k of None \<Rightarrow> xs | Some v \<Rightarrow> (k, v) # filter (\<lambda>p. fst p \<noteq> k) xs)"

definition spec_add :: "nat \<Rightarrow> string \<Rightarrow> 'v \<Rightarrow> (string \<times> 'v) list \<Rightarrow> (string \<times> 'v) list" where
  "spec_add c k v xs = take c ((k, v) # filter (\<lambda>p. fst p \<noteq> k) xs)"

definition spec_remove :: "string \<Rightarrow> (string \<times> 'v) list \<Rightarrow> (string \<times> 'v) list" where
  "spec_remove k xs = filter (\<lambda>p. fst p \<noteq> k) xs"

lemma filter_lm_abs: "filter (\<lambda>p. fst p \<noteq> k) (lm_abs m)
    = map (\<lambda>k'. (k', the (lm_lookup m k'))) (filter (\<lambda>k'. k' \<noteq> k) (lm_order m))"
  by (simp add: lm_abs_def filter_map comp_def)

lemma map_of_lm_abs: "lm_inv m \<Longrightarrow> map_of (lm_abs m) = lm_lookup m"
  by (rule ext) (auto simp: lm_abs_def lm_inv_def lm_lookup_def map_of_map_keys dom_def
      restrict_map_def map_of_eq_None_iff)

lemma lm_abs_get: "lm_inv m \<Longrightarrow> lm_abs (snd (lm_get m k)) = spec_get k (lm_abs m)"
  unfolding spec_get_def map_of_lm_abs filter_lm_abs
  by (auto simp: lm_get_def lm_abs_def lm_lookup_def lm_inv_def to_front_filter
      split: option.splits)

lemma lm_abs_remove: "lm_inv m \<Longrightarrow> lm_abs (lm_remove m k) = spec_remove k (lm_abs m)"
proof (cases "map_of (lm_values m) k")
  case None
  assume "lm_inv m"
  with None have "k \<notin> set (lm_order m)" by (auto simp: lm_inv_def)
  then have "filter (\<lambda>k'. k' \<noteq> k) (lm_order m) = lm_order m"
    by (auto intro: filter_True)
  with None show ?thesis
    by (simp add: spec_remove_def filter_lm_abs) (simp add: lm_remove_def lm_abs_def)
next
  case (Some v)
  assume "lm_inv m"
  with Some show ?thesis
    unfolding spec_remove_def filter_lm_abs
    by (auto simp: lm_remove_def lm_abs_def lm_lookup_def lm_inv_def
        delete_conv' distinct_remove1_removeAll removeAll_filter_not_eq
        intro!: map_cong filter_cong)
qed

lemma map_lm_abs_update: "k \<notin> set ks \<Longrightarrow>
    map (\<lambda>k'. (k', the (map_of (AList.update k v al) k'))) ks
    = map (\<lambda>k'. (k', the (map_of al k'))) ks"
  by (auto simp: update_conv')

lemma lm_abs_add_present:
  assumes "lm_inv m" "k \<in> dom (lm_lookup m)"
  shows "lm_abs (lm_add m k v) = (k, v) # filter (\<lambda>p. fst p \<noteq> k) (lm_abs m)"
proof -
  have "lm_capacity m \<noteq> 0"
    using assms card_lm_lookup_le[OF assms(1)] card_gt_0_iff[of "dom (lm_lookup m)"] by auto
  with assms show ?thesis
    unfolding filter_lm_abs
    by (auto simp: lm_abs_def lm_add_def lm_lookup_def lm_inv_def to_front_filter update_conv')
qed

lemma lm_abs_add_absent:
  assumes "lm_inv m" "k \<notin> dom (lm_lookup m)" "lm_capacity m \<noteq> 0"
  shows "lm_abs (lm_add m k v) = take (lm_capacity m) ((k, v) # lm_abs m)"
proof -
  let ?ord = "k # lm_order m" and ?vals = "AList.update k v (lm_values m)"
  let ?b = "\<lambda>al k'. (k', the (map_of al k'))"
  from assms have k: "k \<notin> set (lm_order m)" and none: "map_of (lm_values m) k = None"
    and d: "distinct ?ord" and le: "length (lm_order m) \<le> lm_capacity m"
    by (auto simp: lm_inv_def lm_lookup_def)
  have len: "length ?vals = Suc (length (lm_order m))"
    using assms none lm_inv_length[OF assms(1)]
    by (auto simp: lm_inv_def length_update_alist)
  have full: "map (?b ?vals) ?ord = (k, v) # lm_abs m"
    using k by (simp add: map_lm_abs_update lm_abs_def lm_lookup_def update_conv')
  show ?thesis
  proof (cases "length (lm_order m) = lm_capacity m")
    case True
    have "lm_add m k v = m\<lparr>lm_values := AList.delete (last ?ord) ?vals,
        lm_order := butlast ?ord\<rparr>"
      using none len True assms(3) by (simp add: lm_add_def Let_def del: last.simps butlast.simps)
    then have "lm_abs (lm_add m k v)
        = map (?b (AList.delete (last ?ord) ?vals)) (butlast ?ord)"
      by (simp add: lm_abs_def lm_lookup_def del: last.simps butlast.simps)
    also have "\<dots> = map (?b ?vals) (butlast ?ord)"
      using set_butlast_distinct[OF d] by (auto simp: delete_conv' simp del: last.simps butlast.simps)
    also have "\<dots> = take (lm_capacity m) (map (?b ?vals) ?ord)"
      by (simp add: butlast_conv_take True take_map del: butlast.simps list.simps(9))
    finally show ?thesis by (simp only: full)
  next
    case False
    with le have "lm_abs (lm_add m k v) = map (?b ?vals) ?ord"
      using none len assms(3) by (simp add: lm_abs_def lm_lookup_def lm_add_def Let_def)
    moreover have "length ((k, v) # lm_abs m) \<le> lm_capacity m"
      using False le by (simp add: lm_abs_def)
    ultimately show ?thesis by (simp only: full take_all)
  qed
qed

lemma filter_lm_abs_absent:
  "lm_inv m \<Longrightarrow> k \<notin> dom (lm_lookup m) \<Longrightarrow> filter (\<lambda>p. fst p \<noteq> k) (lm_abs m) = lm_abs m"
  by (auto simp: lm_abs_def lm_inv_def lm_lookup_def intro!: filter_True)

lemma lm_abs_add:
  assumes "lm_inv m"
  shows "lm_abs (lm_add m k v) = spec_add (lm_capacity m) k v (lm_abs m)"
proof (cases "k \<in> dom (lm_lookup m)")
  case True
  have "length (lm_abs (lm_add m k v)) \<le> lm_capacity m"
    using lm_inv_add[OF assms] by (simp add: lm_inv_def lm_abs_def)
  with lm_abs_add_present[OF assms True, of v] show ?thesis
    by (simp only: spec_add_def take_all)
next
  case False
  show ?thesis
  proof (cases "lm_capacity m = 0")
    case True
    with assms show ?thesis
      by (simp add: lm_add_def spec_add_def lm_abs_def lm_inv_def)
  next
    case nz: False
    show ?thesis
      by (simp only: spec_add_def lm_abs_add_absent[OF assms False nz]
          filter_lm_abs_absent[OF assms False])
  qed
qed

section \<open>The interface its clients rely on\<close>

text \<open>
  What \<open>RegionLru\<close> uses of the store: a lookup function, reads that change nothing observable,
  and insertions that evict nothing as long as the store has room.
\<close>

locale bounded_store =
  fixes lookup :: "'m \<Rightarrow> string \<Rightarrow> 'v option"
    and cap :: "'m \<Rightarrow> nat"
    and invar :: "'m \<Rightarrow> bool"
    and get :: "'m \<Rightarrow> string \<Rightarrow> 'v option \<times> 'm"
    and add :: "'m \<Rightarrow> string \<Rightarrow> 'v \<Rightarrow> 'm"
    and remove :: "'m \<Rightarrow> string \<Rightarrow> 'm"
  assumes get_fst: "fst (get m k) = lookup m k"
    and get_lookup: "lookup (snd (get m k)) = lookup m"
    and get_cap: "cap (snd (get m k)) = cap m"
    and get_invar: "invar m \<Longrightarrow> invar (snd (get m k))"
    and remove_lookup: "lookup (remove m k) = (lookup m)(k := None)"
    and remove_cap: "cap (remove m k) = cap m"
    and remove_invar: "invar m \<Longrightarrow> invar (remove m k)"
    and add_invar: "invar m \<Longrightarrow> invar (add m k v)"
    and add_cap: "cap (add m k v) = cap m"
    and add_room: "invar m \<Longrightarrow> k \<in> dom (lookup m) \<or> card (dom (lookup m)) < cap m
                    \<Longrightarrow> lookup (add m k v) = (lookup m)(k \<mapsto> v)"
    and card_le: "invar m \<Longrightarrow> card (dom (lookup m)) \<le> cap m"
    and finite_lookup: "finite (dom (lookup m))"
begin

text \<open>A sweep of reads over any keys leaves the contents alone.\<close>

fun get_all :: "'m \<Rightarrow> string list \<Rightarrow> 'm" where
  "get_all m [] = m"
| "get_all m (k # ks) = get_all (snd (get m k)) ks"

lemma get_all_keeps:
  "lookup (get_all m ks) = lookup m \<and> cap (get_all m ks) = cap m
   \<and> (invar m \<longrightarrow> invar (get_all m ks))"
  by (induction ks arbitrary: m) (auto simp: get_lookup get_cap get_invar)

text \<open>Replacing one key by another in a full store keeps every other binding.\<close>

lemma replace_lookup:
  assumes "invar m" "victim \<in> dom (lookup m)" "k \<notin> dom (lookup m)"
  shows "lookup (add (remove m victim) k v) = ((lookup m)(victim := None))(k \<mapsto> v)"
proof -
  have "card (dom (lookup m) - {victim}) < card (dom (lookup m))"
    using assms(2) by (intro psubset_card_mono) (auto simp: finite_lookup)
  with card_le[OF assms(1)] have "card (dom (lookup (remove m victim))) < cap (remove m victim)"
    by (simp add: remove_lookup remove_cap)
  then show ?thesis
    using add_room[OF remove_invar[OF assms(1)]] by (simp add: remove_lookup)
qed

end

interpretation lm: bounded_store lm_lookup lm_capacity lm_inv lm_get lm_add lm_remove
  by unfold_locales
    (simp_all add: lm_add_lookup_room card_lm_lookup_le)

lemmas [lru_simps] = lm_get_value lm_get_lookup lm_remove_lookup lm_capacity_simps

text \<open>
  LruMemory refines the textbook LRU list: for a store that satisfies its representation
  invariant, reading, adding (with eviction of the least recent binding when the capacity is
  exceeded) and removing a key act on the recency-ordered list of bindings exactly as the
  specification operations do, and keep the invariant.
\<close>

theorem lru_refines_recency_list:
  assumes "lm_inv m"
  shows "lm_abs (snd (lm_get m k)) = spec_get k (lm_abs m)
    \<and> lm_abs (lm_add m k v) = spec_add (lm_capacity m) k v (lm_abs m)
    \<and> lm_abs (lm_remove m k) = spec_remove k (lm_abs m)
    \<and> lm_inv (snd (lm_get m k)) \<and> lm_inv (lm_add m k v) \<and> lm_inv (lm_remove m k)"
  using assms by (simp add: lm_abs_get lm_abs_add lm_abs_remove)

definition lm_example :: "nat lru_memory" where
  "lm_example = lm_add (lm_add (lm_new 2) ''a'' 1) ''b'' 2"

theorem lru_refines_recency_list_witness:
  "lm_inv lm_example
   \<and> lm_abs (lm_add lm_example ''c'' 3) = spec_add 2 ''c'' 3 (lm_abs lm_example)
   \<and> lm_abs (lm_add lm_example ''c'' 3) = [(''c'', 3), (''b'', 2)]"
proof -
  have inv: "lm_inv lm_example" by (simp add: lm_example_def)
  have cap: "lm_capacity lm_example = 2" by (simp add: lm_example_def)
  have "lm_abs (lm_add lm_example ''c'' 3) = [(''c'', 3), (''b'', 2)]"
    by code_simp
  with inv cap lru_refines_recency_list[OF inv, of "''c''" 3] show ?thesis by simp
qed

end
