(* ===== verification/Region_Lru.thy ===== *)
theory Region_Lru
  imports Lru_Memory
begin

text \<open>
  \<^verbatim>\<open>cpp/src/memory/MemoryClass.cpp\<close>, class \<open>RegionLru\<close>: the write-back cache of one document.
  A region is a canonical path of the document and its value a serialized JSON text.
  \<open>rl_lru\<close> is the list \<open>lru_\<close> (with \<open>lru_positions_\<close>, the position of each key in it) and
  \<open>rl_dirty\<close> lists \<open>dirty_regions_\<close> in the iteration order of that unordered set.

  The cache writes regions back through a callback. \<open>None\<close> stands for an exception thrown by
  the callback, which leaves the operation with the state it had reached; \<open>Some b\<close> is its
  return value. The state \<open>'w\<close> of the world is threaded through it.
\<close>

type_synonym 'w region_writer = "string \<Rightarrow> string \<Rightarrow> string \<Rightarrow> 'w \<Rightarrow> bool option \<times> 'w"

record cache_lookup =
  cl_value :: "string option"
  cl_admit_on_miss :: bool

record region_lru =
  rl_capacity :: nat
  rl_maximum_bytes :: nat
  rl_entries :: "string lru_memory"
  rl_admission :: "nat lru_memory"
  rl_lru :: "string list"
  rl_dirty :: "string list"

definition kFirstAccess :: nat where
  "kFirstAccess = 1"

definition kUncacheable :: nat where
  "kUncacheable = 2"

definition rl_new :: "nat \<Rightarrow> nat \<Rightarrow> region_lru" where
  "rl_new capacity maximum_bytes =
     \<lparr>rl_capacity = capacity, rl_maximum_bytes = maximum_bytes, rl_entries = lm_new capacity,
      rl_admission = lm_new capacity, rl_lru = [], rl_dirty = []\<rparr>"

definition rl_touch :: "string \<Rightarrow> region_lru \<Rightarrow> region_lru" where
  "rl_touch region r = r\<lparr>rl_lru := to_front region (rl_lru r)\<rparr>"

definition rl_erase :: "string \<Rightarrow> region_lru \<Rightarrow> region_lru" where
  "rl_erase region r =
     r\<lparr>rl_entries := lm_remove (rl_entries r) region,
       rl_dirty := removeAll region (rl_dirty r),
       rl_lru := remove1 region (rl_lru r)\<rparr>"

definition rl_entry :: "string \<Rightarrow> region_lru \<Rightarrow> string option \<times> region_lru" where
  \<comment> \<open>\<open>entries_.get(region)\<close>, which also moves the entry to the front of \<open>entries_\<close>\<close>
  "rl_entry region r =
     (let (value, e) = lm_get (rl_entries r) region in (value, r\<lparr>rl_entries := e\<rparr>))"

definition rl_hit :: "string \<Rightarrow> region_lru \<Rightarrow> string option \<times> region_lru" where
  \<comment> \<open>\<open>entries_.get(region)\<close> followed by \<open>touch(region)\<close> when the region is cached\<close>
  "rl_hit region r =
     (case rl_entry region r of
        (None, r1) \<Rightarrow> (None, r1)
      | (Some cached, r1) \<Rightarrow> (Some cached, rl_touch region r1))"

definition rl_lookup :: "string \<Rightarrow> region_lru \<Rightarrow> cache_lookup \<times> region_lru" where
  "rl_lookup region r =
     (if rl_capacity r = 0 then (\<lparr>cl_value = None, cl_admit_on_miss = False\<rparr>, r)
      else case rl_hit region r of
        (Some cached, r1) \<Rightarrow> (\<lparr>cl_value = Some cached, cl_admit_on_miss = False\<rparr>, r1)
      | (None, r1) \<Rightarrow>
          (let (state, a) = lm_get (rl_admission r1) region; r2 = r1\<lparr>rl_admission := a\<rparr>
           in case state of
                Some st \<Rightarrow>
                  if st = kUncacheable then (\<lparr>cl_value = None, cl_admit_on_miss = False\<rparr>, r2)
                  else (\<lparr>cl_value = None, cl_admit_on_miss = True\<rparr>,
                        r2\<lparr>rl_admission := lm_remove (rl_admission r2) region\<rparr>)
              | None \<Rightarrow>
                  (\<lparr>cl_value = None, cl_admit_on_miss = False\<rparr>,
                   r2\<lparr>rl_admission := lm_add (rl_admission r2) region kFirstAccess\<rparr>)))"

definition rl_get :: "string \<Rightarrow> region_lru \<Rightarrow> string option \<times> region_lru" where
  "rl_get region r =
     (if rl_capacity r = 0 then (None, r) else rl_hit region r)"

text \<open>\<open>add\<close>: the eviction of the least recent region when a new one needs its place.\<close>

definition rl_make_room ::
  "'w region_writer \<Rightarrow> string \<Rightarrow> bool \<Rightarrow> region_lru \<Rightarrow> 'w \<Rightarrow> bool option \<times> region_lru \<times> 'w" where
  "rl_make_room writer document_key already_cached r w =
     (if \<not> already_cached \<and> length (rl_lru r) \<ge> rl_capacity r then
        let victim = last (rl_lru r) in
        if victim \<in> set (rl_dirty r) then
          let (victim_json, r1) = rl_entry victim r in
          case victim_json of
            None \<Rightarrow> (Some False, r1, w)
          | Some json \<Rightarrow>
              (case writer document_key victim json w of
                 (Some True, w1) \<Rightarrow> (Some True, rl_erase victim r1, w1)
               | (res, w1) \<Rightarrow> (res, r1, w1))
        else (Some True, rl_erase victim r, w)
      else (Some True, r, w))"

definition rl_insert :: "string \<Rightarrow> string \<Rightarrow> bool \<Rightarrow> region_lru \<Rightarrow> region_lru" where
  "rl_insert region value_json dirty r =
     (let r1 = r\<lparr>rl_admission := lm_remove (rl_admission r) region,
                rl_entries := lm_add (rl_entries r) region value_json\<rparr>;
          r2 = rl_touch region r1
      in r2\<lparr>rl_dirty := (if dirty then List.insert region (rl_dirty r2)
                          else removeAll region (rl_dirty r2))\<rparr>)"

definition rl_uncacheable ::
  "'w region_writer \<Rightarrow> string \<Rightarrow> string \<Rightarrow> string \<Rightarrow> bool \<Rightarrow> bool \<Rightarrow> region_lru \<Rightarrow> 'w
   \<Rightarrow> bool option \<times> region_lru \<times> 'w" where
  "rl_uncacheable writer document_key region value_json dirty already_cached r w =
     (case (if already_cached \<and> dirty then writer document_key region value_json w
            else (Some True, w)) of
        (Some True, w1) \<Rightarrow>
          (let r1 = (if already_cached then rl_erase region r else r)
           in (Some True, r1\<lparr>rl_admission := lm_add (rl_admission r1) region kUncacheable\<rparr>, w1))
      | (res, w1) \<Rightarrow> (res, r, w1))"

definition rl_add ::
  "'w region_writer \<Rightarrow> string \<Rightarrow> string \<Rightarrow> string \<Rightarrow> bool \<Rightarrow> region_lru \<Rightarrow> 'w
   \<Rightarrow> bool option \<times> region_lru \<times> 'w" where
  "rl_add writer document_key region value_json dirty r w =
     (if rl_capacity r = 0 then (Some True, r, w)
      else
        let (current, r1) = rl_hit region r;
            already_cached = (current \<noteq> None)
        in if length value_json > rl_maximum_bytes r1 then
             rl_uncacheable writer document_key region value_json dirty already_cached r1 w
           else
             (case rl_make_room writer document_key already_cached r1 w of
                (Some True, r2, w1) \<Rightarrow> (Some True, rl_insert region value_json dirty r2, w1)
              | res \<Rightarrow> res))"

definition rl_remove :: "string \<Rightarrow> region_lru \<Rightarrow> region_lru" where
  "rl_remove region r =
     (let r1 = rl_erase region r
      in r1\<lparr>rl_admission := lm_remove (rl_admission r1) region\<rparr>)"

definition rl_update ::
  "'w region_writer \<Rightarrow> string \<Rightarrow> string \<Rightarrow> string \<Rightarrow> region_lru \<Rightarrow> 'w
   \<Rightarrow> bool option \<times> region_lru \<times> 'w" where
  "rl_update writer document_key region value_json r w =
     (case rl_entry region r of
        (None, r1) \<Rightarrow> (Some False, r1, w)
      | (Some _, r1) \<Rightarrow> rl_add writer document_key region value_json True r1 w)"

definition rl_markClean :: "string \<Rightarrow> region_lru \<Rightarrow> bool \<times> region_lru" where
  "rl_markClean region r =
     (case rl_hit region r of
        (None, r1) \<Rightarrow> (False, r1)
      | (Some _, r1) \<Rightarrow> (True, r1\<lparr>rl_dirty := removeAll region (rl_dirty r1)\<rparr>))"

fun rl_collect :: "string list \<Rightarrow> region_lru \<Rightarrow> (string \<times> string) list \<times> region_lru" where
  "rl_collect [] r = ([], r)"
| "rl_collect (region # regions) r =
     (case rl_hit region r of
        (None, r1) \<Rightarrow> rl_collect regions r1
      | (Some item, r1) \<Rightarrow>
          (let (result, r2) = rl_collect regions r1 in ((region, item) # result, r2)))"

definition rl_dirtyRegions :: "region_lru \<Rightarrow> (string \<times> string) list \<times> region_lru" where
  "rl_dirtyRegions r = rl_collect (rl_dirty r) r"

fun rl_write_pending ::
  "'w region_writer \<Rightarrow> string \<Rightarrow> (string \<times> string) list \<Rightarrow> region_lru \<Rightarrow> 'w
   \<Rightarrow> bool option \<times> region_lru \<times> 'w" where
  "rl_write_pending writer document_key [] r w = (Some True, r, w)"
| "rl_write_pending writer document_key ((region, value_json) # pending) r w =
     (case writer document_key region value_json w of
        (Some True, w1) \<Rightarrow>
          rl_write_pending writer document_key pending
            (r\<lparr>rl_dirty := removeAll region (rl_dirty r)\<rparr>) w1
      | (res, w1) \<Rightarrow> (res, r, w1))"

definition rl_flush ::
  "'w region_writer \<Rightarrow> string \<Rightarrow> region_lru \<Rightarrow> 'w \<Rightarrow> bool option \<times> region_lru \<times> 'w" where
  "rl_flush writer document_key r w =
     (let (pending, r1) = rl_dirtyRegions r in rl_write_pending writer document_key pending r1 w)"

section \<open>Invariant\<close>

text \<open>
  The two recency lists agree on their keys, every dirty region is cached, and the inner store
  has the capacity of the cache, so that it never evicts on its own.
\<close>

definition rl_cached :: "region_lru \<Rightarrow> string \<Rightarrow> string option" where
  "rl_cached r = lm_lookup (rl_entries r)"

definition rl_inv :: "region_lru \<Rightarrow> bool" where
  "rl_inv r \<longleftrightarrow> lm_inv (rl_entries r) \<and> lm_inv (rl_admission r)
     \<and> lm_capacity (rl_entries r) = rl_capacity r \<and> lm_capacity (rl_admission r) = rl_capacity r
     \<and> distinct (rl_lru r) \<and> set (rl_lru r) = dom (rl_cached r)
     \<and> distinct (rl_dirty r) \<and> set (rl_dirty r) \<subseteq> dom (rl_cached r)"

lemma rl_inv_new [simp]: "rl_inv (rl_new c b)"
  by (simp add: rl_inv_def rl_new_def rl_cached_def)

lemma rl_entry_eq: "rl_entry k r
    = (rl_cached r k, r\<lparr>rl_entries := snd (lm_get (rl_entries r) k)\<rparr>)"
  by (simp add: rl_entry_def rl_cached_def split_beta)

lemma rl_cached_entry [simp]:
  "rl_cached (r\<lparr>rl_entries := snd (lm_get (rl_entries r) k)\<rparr>) = rl_cached r"
  by (simp add: rl_cached_def)

lemma rl_cached_simps [simp]:
  "rl_cached (rl_touch k r) = rl_cached r"
  "rl_cached (rl_erase k r) = (rl_cached r)(k := None)"
  "rl_cached (r\<lparr>rl_admission := a\<rparr>) = rl_cached r"
  "rl_cached (r\<lparr>rl_dirty := ds\<rparr>) = rl_cached r"
  by (simp_all add: rl_cached_def rl_touch_def rl_erase_def)

lemma rl_dirty_simps [simp]:
  "rl_dirty (rl_touch k r) = rl_dirty r"
  "rl_dirty (rl_erase k r) = removeAll k (rl_dirty r)"
  by (simp_all add: rl_touch_def rl_erase_def)

lemma rl_capacity_basic [simp]:
  "rl_capacity (rl_touch k r) = rl_capacity r"
  "rl_capacity (rl_erase k r) = rl_capacity r"
  "rl_maximum_bytes (rl_touch k r) = rl_maximum_bytes r"
  "rl_maximum_bytes (rl_erase k r) = rl_maximum_bytes r"
  by (simp_all add: rl_touch_def rl_erase_def)

lemma rl_inv_entry [simp]: "rl_inv r \<Longrightarrow> rl_inv (r\<lparr>rl_entries := snd (lm_get (rl_entries r) k)\<rparr>)"
  by (simp add: rl_inv_def rl_cached_def)

lemma rl_inv_touch [simp]: "rl_inv r \<Longrightarrow> rl_cached r k \<noteq> None \<Longrightarrow> rl_inv (rl_touch k r)"
  by (auto simp: rl_inv_def rl_touch_def rl_cached_def)

lemma rl_hit_value [simp]: "fst (rl_hit k r) = rl_cached r k"
  by (simp add: rl_hit_def rl_entry_eq split: option.splits)

lemma rl_hit_state [simp]:
  "rl_cached (snd (rl_hit k r)) = rl_cached r"
  "rl_dirty (snd (rl_hit k r)) = rl_dirty r"
  "rl_capacity (snd (rl_hit k r)) = rl_capacity r"
  "rl_maximum_bytes (snd (rl_hit k r)) = rl_maximum_bytes r"
  "rl_admission (snd (rl_hit k r)) = rl_admission r"
  by (auto simp: rl_hit_def rl_entry_eq split: option.splits) (simp_all add: rl_touch_def)

lemma rl_inv_hit [simp]: "rl_inv r \<Longrightarrow> rl_inv (snd (rl_hit k r))"
  by (auto simp: rl_hit_def rl_entry_eq split: option.splits)

lemma rl_inv_erase [simp]: "rl_inv r \<Longrightarrow> rl_inv (rl_erase k r)"
  by (auto simp: rl_inv_def rl_erase_def rl_cached_def distinct_removeAll)

lemma rl_inv_admission:
  "rl_inv r \<Longrightarrow> lm_inv a \<Longrightarrow> lm_capacity a = rl_capacity r \<Longrightarrow> rl_inv (r\<lparr>rl_admission := a\<rparr>)"
  by (auto simp: rl_inv_def rl_cached_def)

lemma rl_inv_dirty_remove [simp]:
  "rl_inv r \<Longrightarrow> rl_inv (r\<lparr>rl_dirty := removeAll k (rl_dirty r)\<rparr>)"
  by (auto simp: rl_inv_def rl_cached_def distinct_removeAll)

lemma rl_inv_adm:
  "rl_inv r \<Longrightarrow> lm_inv (rl_admission r) \<and> lm_capacity (rl_admission r) = rl_capacity r"
  by (simp add: rl_inv_def)

lemma rl_inv_length_lru: "rl_inv r \<Longrightarrow> length (rl_lru r) = card (dom (rl_cached r))"
  by (metis distinct_card rl_inv_def)

lemma rl_inv_bound: "rl_inv r \<Longrightarrow> length (rl_lru r) \<le> rl_capacity r"
  using card_lm_lookup_le[of "rl_entries r"]
  by (metis rl_cached_def rl_inv_def rl_inv_length_lru)

lemma rl_insert_effect:
  assumes "rl_inv r" "rl_capacity r \<noteq> 0"
    "k \<in> dom (rl_cached r) \<or> length (rl_lru r) < rl_capacity r"
  shows "rl_cached (rl_insert k v d r) = (rl_cached r)(k \<mapsto> v)"
    and "set (rl_dirty (rl_insert k v d r)) = (if d then insert k (set (rl_dirty r))
           else set (rl_dirty r) - {k})"
    and "rl_inv (rl_insert k v d r)"
proof -
  have room: "lm_lookup (lm_add (rl_entries r) k v) = (lm_lookup (rl_entries r))(k \<mapsto> v)"
    using assms(3) rl_inv_length_lru[OF assms(1)] assms(1)
    by (intro lm_add_lookup_room) (auto simp: rl_inv_def rl_cached_def)
  then show c: "rl_cached (rl_insert k v d r) = (rl_cached r)(k \<mapsto> v)"
    by (simp add: rl_insert_def Let_def rl_cached_def rl_touch_def)
  show s: "set (rl_dirty (rl_insert k v d r)) = (if d then insert k (set (rl_dirty r))
           else set (rl_dirty r) - {k})"
    by (simp add: rl_insert_def Let_def rl_touch_def)
  have "rl_entries (rl_insert k v d r) = lm_add (rl_entries r) k v"
       "rl_admission (rl_insert k v d r) = lm_remove (rl_admission r) k"
       "rl_lru (rl_insert k v d r) = to_front k (rl_lru r)"
       "rl_capacity (rl_insert k v d r) = rl_capacity r"
       "distinct (rl_dirty (rl_insert k v d r))"
    using assms(1)
    by (auto simp: rl_insert_def Let_def rl_touch_def rl_inv_def distinct_removeAll)
  then show "rl_inv (rl_insert k v d r)"
    using assms(1) c s by (auto simp: rl_inv_def)
qed

lemma rl_inv_last: "rl_inv r \<Longrightarrow> rl_lru r \<noteq> [] \<Longrightarrow> last (rl_lru r) \<in> dom (rl_cached r)"
  by (metis last_in_set rl_inv_def)

text \<open>
  What \<open>rl_make_room\<close> does: nothing, or it drops the victim, after writing it back when it is
  dirty; when it fails, the cached values and the dirty set are unchanged.
\<close>

lemma rl_make_room_cases:
  assumes "rl_inv r" "rl_capacity r \<noteq> 0" "rl_make_room writer d already r w = (res, r', w')"
  obtains (room) "res = Some True" "r' = r" "w' = w" "already \<or> length (rl_lru r) < rl_capacity r"
  | (clean) victim where "res = Some True" "r' = rl_erase victim r" "w' = w"
      "victim \<in> dom (rl_cached r)" "victim \<notin> set (rl_dirty r)" "\<not> already"
      "length (rl_lru r') < rl_capacity r"
  | (written) victim json where "res = Some True" "writer d victim json w = (Some True, w')"
      "rl_cached r victim = Some json" "victim \<in> set (rl_dirty r)" "\<not> already"
      "r' = rl_erase victim (r\<lparr>rl_entries := snd (lm_get (rl_entries r) victim)\<rparr>)"
      "length (rl_lru r') < rl_capacity r"
  | (failed) victim json where "res \<noteq> Some True" "writer d victim json w = (res, w')"
      "rl_cached r victim = Some json" "victim \<in> set (rl_dirty r)" "\<not> already"
      "r' = r\<lparr>rl_entries := snd (lm_get (rl_entries r) victim)\<rparr>"
proof (cases "\<not> already \<and> length (rl_lru r) \<ge> rl_capacity r")
  case False
  then show thesis using assms(3) by (intro room) (auto simp: rl_make_room_def)
next
  case True
  let ?v = "last (rl_lru r)"
  from True assms(2) have ne: "rl_lru r \<noteq> []" by auto
  with assms(1) have dom: "?v \<in> dom (rl_cached r)" by (rule rl_inv_last)
  have full: "length (rl_lru r) \<le> rl_capacity r" by (rule rl_inv_bound[OF assms(1)])
  have less: "length (remove1 ?v (rl_lru r)) < rl_capacity r"
    using ne full assms(2) by (auto simp: length_remove1)
  show thesis
  proof (cases "?v \<in> set (rl_dirty r)")
    case d: False
    with True assms(3) dom less show thesis
      by (intro clean[of ?v]) (auto simp: rl_make_room_def Let_def rl_erase_def)
  next
    case d: True
    from dom obtain j where j: "rl_cached r ?v = Some j" by auto
    obtain b w1 where wr: "writer d ?v j w = (b, w1)" by force
    show thesis
    proof (cases "b = Some True")
      case True
      with \<open>\<not> already \<and> _\<close> d j wr assms(3) less show thesis
        by (intro written[of ?v j]) (auto simp: rl_make_room_def Let_def rl_entry_eq rl_erase_def)
    next
      case False
      with \<open>\<not> already \<and> _\<close> d j wr assms(3) show thesis
        by (intro failed[of ?v j])
          (auto simp: rl_make_room_def Let_def rl_entry_eq split: option.splits bool.splits)
    qed
  qed
qed

lemma rl_make_room_inv:
  assumes "rl_inv r" "rl_capacity r \<noteq> 0" "rl_make_room writer d already r w = (res, r', w')"
  shows "rl_inv r'" "rl_capacity r' = rl_capacity r" "rl_maximum_bytes r' = rl_maximum_bytes r"
    "res = Some True \<Longrightarrow> already \<or> length (rl_lru r') < rl_capacity r'"
    "already \<Longrightarrow> r' = r"
  using assms(1) rl_inv_bound[OF assms(1)]
  by (cases rule: rl_make_room_cases[OF assms]; auto)+

lemma rl_add_eq: "rl_capacity r \<noteq> 0 \<Longrightarrow> rl_add writer d k v dirty r w =
    (if length v > rl_maximum_bytes r
     then rl_uncacheable writer d k v dirty (rl_cached r k \<noteq> None) (snd (rl_hit k r)) w
     else (case rl_make_room writer d (rl_cached r k \<noteq> None) (snd (rl_hit k r)) w of
             (Some True, r2, w1) \<Rightarrow> (Some True, rl_insert k v dirty r2, w1)
           | res \<Rightarrow> res))"
  by (simp add: rl_add_def case_prod_beta Let_def)

lemma rl_add_zero: "rl_capacity r = 0 \<Longrightarrow> rl_add writer d k v dirty r w = (Some True, r, w)"
  by (simp add: rl_add_def)

lemma rl_add_same:
  assumes "rl_capacity r = 0 \<or> length v > rl_maximum_bytes r" "rl_cached r k = None"
    "rl_add writer d k v False r w = (res, r', w')"
  shows "w' = w \<and> rl_cached r' = rl_cached r \<and> rl_dirty r' = rl_dirty r"
proof (cases "rl_capacity r = 0")
  case True
  with assms(3) show ?thesis by (simp add: rl_add_zero)
next
  case False
  with assms show ?thesis by (auto simp: rl_add_eq rl_uncacheable_def)
qed

lemma rl_insert_capacity [simp]:
  "rl_capacity (rl_insert k v d r) = rl_capacity r"
  "rl_maximum_bytes (rl_insert k v d r) = rl_maximum_bytes r"
  by (simp_all add: rl_insert_def Let_def)

lemma rl_uncacheable_inv:
  assumes "rl_inv r" "rl_uncacheable writer d k v dirty already r w = (res, r', w')"
  shows "rl_inv r' \<and> rl_capacity r' = rl_capacity r \<and> rl_maximum_bytes r' = rl_maximum_bytes r"
proof -
  have "rl_inv (r1\<lparr>rl_admission := lm_add (rl_admission r1) k kUncacheable\<rparr>)" if "rl_inv r1" for r1
    using rl_inv_adm[OF that] by (auto intro!: rl_inv_admission that)
  with assms show ?thesis
    by (auto simp: rl_uncacheable_def Let_def split: option.splits bool.splits prod.splits if_splits)
qed

lemma rl_add_inv:
  assumes "rl_inv r" "rl_add writer d k v dirty r w = (res, r', w')"
  shows "rl_inv r' \<and> rl_capacity r' = rl_capacity r \<and> rl_maximum_bytes r' = rl_maximum_bytes r"
proof (cases "rl_capacity r = 0 \<or> length v > rl_maximum_bytes r")
  case True
  then consider "rl_capacity r = 0" | "rl_capacity r \<noteq> 0" "length v > rl_maximum_bytes r" by auto
  then show ?thesis
  proof cases
    case 1
    with assms show ?thesis by (simp add: rl_add_def)
  next
    case 2
    with assms rl_uncacheable_inv[of "snd (rl_hit k r)"] show ?thesis by (simp add: rl_add_eq)
  qed
next
  case False
  let ?already = "rl_cached r k \<noteq> None" and ?r1 = "snd (rl_hit k r)"
  obtain b r3 w3 where room: "rl_make_room writer d ?already ?r1 w = (b, r3, w3)"
    by (metis prod_cases3)
  have i1: "rl_inv ?r1" and nz: "rl_capacity ?r1 \<noteq> 0" using False assms(1) by simp_all
  note mr = rl_make_room_inv[OF i1 nz room]
  show ?thesis
  proof (cases "b = Some True")
    case True
    have "k \<in> dom (rl_cached r3) \<or> length (rl_lru r3) < rl_capacity r3"
      using mr(4)[OF True] mr(5) by auto
    with mr nz have "rl_inv (rl_insert k v dirty r3)" by (intro rl_insert_effect) auto
    with True room False assms(2) mr show ?thesis by (auto simp: rl_add_eq)
  next
    case fail: False
    with False room assms(2) mr show ?thesis
      by (auto simp: rl_add_eq split: option.splits bool.splits)
  qed
qed

lemma rl_collect_value: "fst (rl_collect ks r) =
    map (\<lambda>k. (k, the (rl_cached r k))) (filter (\<lambda>k. rl_cached r k \<noteq> None) ks)"
  by (induction ks arbitrary: r) (auto simp: case_prod_beta Let_def split: option.splits)

lemma rl_collect_state [simp]:
  "rl_cached (snd (rl_collect ks r)) = rl_cached r \<and> rl_dirty (snd (rl_collect ks r)) = rl_dirty r
   \<and> rl_capacity (snd (rl_collect ks r)) = rl_capacity r
   \<and> rl_maximum_bytes (snd (rl_collect ks r)) = rl_maximum_bytes r
   \<and> (rl_inv r \<longrightarrow> rl_inv (snd (rl_collect ks r)))"
proof (induction ks arbitrary: r)
  case (Cons k ks)
  then show ?case
    by (simp add: case_prod_beta Let_def split: option.splits)
qed simp

lemma rl_dirtyRegions_value: "rl_inv r \<Longrightarrow>
    fst (rl_dirtyRegions r) = map (\<lambda>k. (k, the (rl_cached r k))) (rl_dirty r)"
  unfolding rl_dirtyRegions_def rl_collect_value
  by (rule arg_cong[where f = "map _"], rule filter_True) (auto simp: rl_inv_def)

lemma rl_dirtyRegions_state [simp]:
  "rl_cached (snd (rl_dirtyRegions r)) = rl_cached r"
  "rl_dirty (snd (rl_dirtyRegions r)) = rl_dirty r"
  "rl_capacity (snd (rl_dirtyRegions r)) = rl_capacity r"
  "rl_maximum_bytes (snd (rl_dirtyRegions r)) = rl_maximum_bytes r"
  "rl_inv r \<Longrightarrow> rl_inv (snd (rl_dirtyRegions r))"
  by (simp_all add: rl_dirtyRegions_def)

lemma rl_write_pending_state:
  assumes "rl_write_pending writer d pending r w = (res, r', w')"
  shows "rl_cached r' = rl_cached r" "rl_capacity r' = rl_capacity r"
    "rl_maximum_bytes r' = rl_maximum_bytes r" "rl_inv r \<Longrightarrow> rl_inv r'"
    "set (rl_dirty r') \<subseteq> set (rl_dirty r)"
    "set (rl_dirty r) - fst ` set pending \<subseteq> set (rl_dirty r')"
    "res = Some True \<Longrightarrow> set (rl_dirty r') = set (rl_dirty r) - fst ` set pending"
proof -
  have "rl_cached r' = rl_cached r \<and> rl_capacity r' = rl_capacity r
    \<and> rl_maximum_bytes r' = rl_maximum_bytes r \<and> (rl_inv r \<longrightarrow> rl_inv r')
    \<and> set (rl_dirty r') \<subseteq> set (rl_dirty r) \<and> set (rl_dirty r) - fst ` set pending \<subseteq> set (rl_dirty r')
    \<and> (res = Some True \<longrightarrow> set (rl_dirty r') = set (rl_dirty r) - fst ` set pending)"
    using assms
  proof (induction pending arbitrary: r w)
    case (Cons p pending)
    obtain k v where p: "p = (k, v)" by force
    obtain b w1 where wr: "writer d k v w = (b, w1)" by force
    show ?case
    proof (cases "b = Some True")
      case True
      let ?r = "r\<lparr>rl_dirty := removeAll k (rl_dirty r)\<rparr>"
      have "rl_write_pending writer d pending ?r w1 = (res, r', w')"
        using Cons.prems p wr True by simp
      from Cons.IH[OF this] p show ?thesis by auto
    next
      case False
      then have "r' = r" "res \<noteq> Some True"
        using Cons.prems p wr by (auto split: option.splits bool.splits)
      then show ?thesis by auto
    qed
  qed simp
  then show "rl_cached r' = rl_cached r" "rl_capacity r' = rl_capacity r"
    "rl_maximum_bytes r' = rl_maximum_bytes r" "rl_inv r \<Longrightarrow> rl_inv r'"
    "set (rl_dirty r') \<subseteq> set (rl_dirty r)"
    "set (rl_dirty r) - fst ` set pending \<subseteq> set (rl_dirty r')"
    "res = Some True \<Longrightarrow> set (rl_dirty r') = set (rl_dirty r) - fst ` set pending"
    by blast+
qed

lemma rl_flush_eq: "rl_flush writer d r w =
    rl_write_pending writer d (fst (rl_dirtyRegions r)) (snd (rl_dirtyRegions r)) w"
  by (simp add: rl_flush_def case_prod_beta Let_def)

lemma rl_flush_state:
  assumes "rl_inv r" "rl_flush writer d r w = (res, r', w')"
  shows "rl_cached r' = rl_cached r" "rl_inv r'" "rl_capacity r' = rl_capacity r"
    "rl_maximum_bytes r' = rl_maximum_bytes r" "set (rl_dirty r') \<subseteq> set (rl_dirty r)"
    "res = Some True \<Longrightarrow> rl_dirty r' = []"
proof -
  note st = rl_write_pending_state[OF assms(2)[unfolded rl_flush_eq]]
  show "rl_cached r' = rl_cached r" "rl_inv r'" "rl_capacity r' = rl_capacity r"
    "rl_maximum_bytes r' = rl_maximum_bytes r" "set (rl_dirty r') \<subseteq> set (rl_dirty r)"
    using st assms(1) by simp_all
  show "rl_dirty r' = []" if "res = Some True"
    using st(7)[OF that] by (simp add: rl_dirtyRegions_value[OF assms(1)] image_image)
qed

lemma rl_get_state [simp]:
  "rl_cached (snd (rl_get k r)) = rl_cached r"
  "rl_dirty (snd (rl_get k r)) = rl_dirty r"
  "rl_capacity (snd (rl_get k r)) = rl_capacity r"
  "rl_maximum_bytes (snd (rl_get k r)) = rl_maximum_bytes r"
  "rl_inv r \<Longrightarrow> rl_inv (snd (rl_get k r))"
  by (simp_all add: rl_get_def)

lemma rl_cached_capacity: "rl_inv r \<Longrightarrow> rl_cached r k \<noteq> None \<Longrightarrow> rl_capacity r \<noteq> 0"
  using rl_inv_bound[of r] by (cases "rl_lru r") (auto simp: rl_inv_def)

lemma rl_get_value: "rl_inv r \<Longrightarrow> fst (rl_get k r) = rl_cached r k"
  using rl_cached_capacity[of r k] by (cases "rl_cached r k") (auto simp: rl_get_def)

lemma rl_lookup_state [simp]:
  "rl_cached (snd (rl_lookup k r)) = rl_cached r"
  "rl_dirty (snd (rl_lookup k r)) = rl_dirty r"
  "rl_capacity (snd (rl_lookup k r)) = rl_capacity r"
  "rl_maximum_bytes (snd (rl_lookup k r)) = rl_maximum_bytes r"
  by (auto simp: rl_lookup_def Let_def case_prod_beta split: option.splits)

lemma rl_lookup_inv [simp]: "rl_inv r \<Longrightarrow> rl_inv (snd (rl_lookup k r))"
  using rl_inv_adm[of "snd (rl_hit k r)"]
  by (auto simp: rl_lookup_def Let_def case_prod_beta intro!: rl_inv_admission split: option.splits)

lemma rl_lookup_value: "rl_inv r \<Longrightarrow> cl_value (fst (rl_lookup k r)) = rl_cached r k"
  using rl_cached_capacity[of r k]
  by (auto simp: rl_lookup_def Let_def case_prod_beta split: option.splits)

lemma rl_lookup_admit: "cl_admit_on_miss (fst (rl_lookup k r)) \<Longrightarrow> rl_cached r k = None"
  by (auto simp: rl_lookup_def Let_def case_prod_beta split: option.splits if_splits)

lemma rl_remove_state [simp]:
  "rl_cached (rl_remove k r) = (rl_cached r)(k := None)"
  "rl_dirty (rl_remove k r) = removeAll k (rl_dirty r)"
  "rl_capacity (rl_remove k r) = rl_capacity r"
  "rl_maximum_bytes (rl_remove k r) = rl_maximum_bytes r"
  by (simp_all add: rl_remove_def Let_def)

lemma rl_remove_inv [simp]: "rl_inv r \<Longrightarrow> rl_inv (rl_remove k r)"
  using rl_inv_adm[OF rl_inv_erase[of r k]]
  by (auto simp: rl_remove_def Let_def intro!: rl_inv_admission)

lemma rl_markClean_state [simp]:
  "rl_cached (snd (rl_markClean k r)) = rl_cached r"
  "rl_capacity (snd (rl_markClean k r)) = rl_capacity r"
  "rl_maximum_bytes (snd (rl_markClean k r)) = rl_maximum_bytes r"
  "rl_inv r \<Longrightarrow> rl_inv (snd (rl_markClean k r))"
  using rl_inv_dirty_remove[OF rl_inv_hit[of r k], of k]
  by (auto simp: rl_markClean_def case_prod_beta split: option.splits)

lemma rl_update_inv:
  assumes "rl_inv r" "rl_update writer d k v r w = (res, r', w')"
  shows "rl_inv r' \<and> rl_capacity r' = rl_capacity r \<and> rl_maximum_bytes r' = rl_maximum_bytes r"
proof (cases "rl_cached r k")
  case None
  with assms show ?thesis by (auto simp: rl_update_def rl_entry_eq)
next
  case (Some c)
  let ?r = "r\<lparr>rl_entries := snd (lm_get (rl_entries r) k)\<rparr>"
  have "rl_add writer d k v True ?r w = (res, r', w')"
    using assms(2) Some by (simp add: rl_update_def rl_entry_eq)
  from rl_add_inv[OF rl_inv_entry[OF assms(1)] this] show ?thesis by simp
qed

text \<open>
  Admission on the second access: of two lookups of a region that is neither cached nor known to
  be too large, the first only records the access and the second asks for the value.
\<close>

lemma rl_second_access_admits:
  assumes "rl_inv r" "rl_capacity r \<noteq> 0" "rl_cached r k = None" "lm_lookup (rl_admission r) k = None"
  shows "fst (rl_lookup k r) = \<lparr>cl_value = None, cl_admit_on_miss = False\<rparr>"
    and "card (dom (lm_lookup (rl_admission r))) < rl_capacity r \<Longrightarrow>
      fst (rl_lookup k (snd (rl_lookup k r))) = \<lparr>cl_value = None, cl_admit_on_miss = True\<rparr>"
proof -
  let ?r1 = "snd (rl_lookup k r)"
  show "fst (rl_lookup k r) = \<lparr>cl_value = None, cl_admit_on_miss = False\<rparr>"
    using assms by (simp add: rl_lookup_def Let_def case_prod_beta)
  have adm: "rl_admission ?r1 = lm_add (snd (lm_get (rl_admission r) k)) k kFirstAccess"
    using assms by (simp add: rl_lookup_def Let_def case_prod_beta)
  assume "card (dom (lm_lookup (rl_admission r))) < rl_capacity r"
  then have "lm_lookup (rl_admission ?r1) = (lm_lookup (rl_admission r))(k \<mapsto> kFirstAccess)"
    using lm_add_lookup_room[of "snd (lm_get (rl_admission r) k)" k kFirstAccess]
      rl_inv_adm[OF assms(1)] by (simp add: adm)
  then show "fst (rl_lookup k ?r1) = \<lparr>cl_value = None, cl_admit_on_miss = True\<rparr>"
    using assms by (simp add: rl_lookup_def[of k ?r1] Let_def case_prod_beta kFirstAccess_def
        kUncacheable_def)
qed

section \<open>Write-back transparency\<close>

text \<open>
  What the cache together with the storage holds for a region of a document. \<open>stored\<close> reads the
  storage; \<open>overlay\<close> says what writing back a cached text makes of the stored value (the cached part
  replaces its counterpart, what is not cached stays), and \<open>core\<close> is the cacheable part of a stored
  value. A dirty region is seen through the overlay of its cached text, any other region as stored.
  A cache is coherent when its clean texts are the cacheable parts of the stored values.
\<close>

definition rl_view ::
  "(string \<Rightarrow> 's option \<Rightarrow> 's) \<Rightarrow> ('w \<Rightarrow> string \<Rightarrow> string \<Rightarrow> 's option) \<Rightarrow> string \<Rightarrow> region_lru \<Rightarrow> 'w
   \<Rightarrow> string \<Rightarrow> 's option"
where
  "rl_view overlay stored d r w k =
     (if k \<in> set (rl_dirty r) then map_option (\<lambda>v. overlay v (stored w d k)) (rl_cached r k)
      else stored w d k)"

definition rl_coherent ::
  "('s \<Rightarrow> string) \<Rightarrow> ('w \<Rightarrow> string \<Rightarrow> string \<Rightarrow> 's option) \<Rightarrow> string \<Rightarrow> region_lru \<Rightarrow> 'w \<Rightarrow> bool" where
  "rl_coherent core stored d r w \<longleftrightarrow>
     (\<forall>k v. rl_cached r k = Some v \<longrightarrow> k \<notin> set (rl_dirty r) \<longrightarrow> map_option core (stored w d k) = Some v)"

definition rl_ok :: "(string \<Rightarrow> bool) \<Rightarrow> (string \<Rightarrow> bool) \<Rightarrow> region_lru \<Rightarrow> bool" where
  "rl_ok region_ok value_ok r \<longleftrightarrow>
     rl_inv r \<and> (\<forall>k v. rl_cached r k = Some v \<longrightarrow> region_ok k \<and> value_ok v)"

text \<open>
  The interface to the storage behind the cache. A write that reports success overlays its text on
  the stored value; a write that fails or whose outcome is unknown has done so or has changed
  nothing; no write of one region touches another region. Overlaying a text twice is overlaying it
  once, and the text is the cacheable part of the result. \<open>region_ok\<close> and \<open>value_ok\<close> say which regions
  and texts the cache is used with.
\<close>

locale region_backend =
  fixes writer :: "'w region_writer"
    and stored :: "'w \<Rightarrow> string \<Rightarrow> string \<Rightarrow> 's option"
    and overlay :: "string \<Rightarrow> 's option \<Rightarrow> 's"
    and core :: "'s \<Rightarrow> string"
    and region_ok :: "string \<Rightarrow> bool"
    and value_ok :: "string \<Rightarrow> bool"
  assumes write_ok: "region_ok k \<Longrightarrow> value_ok v \<Longrightarrow> writer d k v w = (Some True, w')
                      \<Longrightarrow> stored w' d k = Some (overlay v (stored w d k))"
    and write_unknown: "region_ok k \<Longrightarrow> value_ok v \<Longrightarrow> writer d k v w = (res, w')
                      \<Longrightarrow> stored w' d k = stored w d k \<or> stored w' d k = Some (overlay v (stored w d k))"
    and write_frame: "region_ok k \<Longrightarrow> region_ok k' \<Longrightarrow> value_ok v \<Longrightarrow> writer d k v w = (res, w')
                      \<Longrightarrow> (d', k') \<noteq> (d, k) \<Longrightarrow> stored w' d' k' = stored w d' k'"
    and overlay_idem: "value_ok v \<Longrightarrow> overlay v (Some (overlay v s)) = overlay v s"
    and core_overlay: "value_ok v \<Longrightarrow> core (overlay v s) = v"
begin

abbreviation "view \<equiv> rl_view overlay stored"
abbreviation "ok \<equiv> rl_ok region_ok value_ok"
abbreviation "coherent \<equiv> rl_coherent core stored"

lemma write_own: "region_ok k \<Longrightarrow> value_ok v \<Longrightarrow> writer d k v w = (res, w') \<Longrightarrow>
    overlay v (stored w' d k) = overlay v (stored w d k)"
  using write_unknown[of k v d w res w'] overlay_idem[of v] by auto

lemma view_cached:
  assumes "ok r" "coherent d r w" "rl_cached r k = Some v"
  shows "map_option core (view d r w k) = Some v"
  using assms core_overlay[of v] by (auto simp: rl_view_def rl_coherent_def rl_ok_def)

lemma ok_inv: "ok r \<Longrightarrow> rl_inv r"
  by (simp add: rl_ok_def)

lemma write_pending_view:
  assumes "rl_write_pending writer d pending r w = (res, r', w')"
    "ok r" "\<And>k v. (k, v) \<in> set pending \<Longrightarrow> rl_cached r k = Some v \<and> k \<in> set (rl_dirty r)"
    "distinct (map fst pending)"
  shows "(\<forall>k. region_ok k \<longrightarrow> view d r' w' k = view d r w k)
    \<and> (coherent d r w \<longrightarrow> coherent d r' w')
    \<and> (\<forall>d' k. d' \<noteq> d \<longrightarrow> region_ok k \<longrightarrow> stored w' d' k = stored w d' k)"
  using assms
proof (induction pending arbitrary: r w)
  case (Cons p pending)
  obtain k v where p: "p = (k, v)" by force
  obtain b w1 where wr: "writer d k v w = (b, w1)" by force
  have kv: "rl_cached r k = Some v" "k \<in> set (rl_dirty r)" "region_ok k" "value_ok v"
    using Cons.prems(2) Cons.prems(3)[of k v] p by (auto simp: rl_ok_def)
  have frame: "stored w1 d' k' = stored w d' k'" if "(d', k') \<noteq> (d, k)" "region_ok k'" for d' k'
    using write_frame[OF kv(3) that(2) kv(4) wr that(1)] .
  show ?case
  proof (cases "b = Some True")
    case True
    let ?r = "r\<lparr>rl_dirty := removeAll k (rl_dirty r)\<rparr>"
    have st: "stored w1 d k = Some (overlay v (stored w d k))"
      using write_ok[OF kv(3,4)] wr True by simp
    have v1: "view d ?r w1 k' = view d r w k'" if "region_ok k'" for k'
      using st kv frame[of d k'] that by (cases "k' = k") (auto simp: rl_view_def)
    have c1: "coherent d ?r w1" if "coherent d r w"
      unfolding rl_coherent_def
    proof (intro allI impI)
      fix k' v'
      assume a: "rl_cached ?r k' = Some v'" "k' \<notin> set (rl_dirty ?r)"
      then have "region_ok k'" using Cons.prems(2) by (simp add: rl_ok_def)
      with a that st kv core_overlay[OF kv(4)] frame[of d k']
      show "map_option core (stored w1 d k') = Some v'"
        by (cases "k' = k") (auto simp: rl_coherent_def)
    qed
    have rest: "rl_write_pending writer d pending ?r w1 = (res, r', w')"
      using Cons.prems(1) p wr True by simp
    have okr: "ok ?r" using Cons.prems(2) by (simp add: rl_ok_def)
    have pend: "rl_cached ?r k' = Some v' \<and> k' \<in> set (rl_dirty ?r)"
      if "(k', v') \<in> set pending" for k' v'
    proof -
      have "k' \<noteq> k" using that Cons.prems(4) p by force
      with that Cons.prems(3)[of k' v'] show ?thesis by simp
    qed
    have dist: "distinct (map fst pending)" using Cons.prems(4) by simp
    note ih = Cons.IH[OF rest okr pend dist]
    have "view d r' w' k' = view d r w k'" if "region_ok k'" for k'
      using ih v1[OF that] that by metis
    moreover have "coherent d r' w'" if "coherent d r w"
      using ih c1[OF that] by blast
    moreover have "stored w' d' k' = stored w d' k'" if "d' \<noteq> d" "region_ok k'" for d' k'
      using ih frame[of d' k'] that by simp
    ultimately show ?thesis by blast
  next
    case False
    then have "r' = r" "w' = w1"
      using Cons.prems(1) p wr by (auto split: option.splits bool.splits)
    moreover have "map_option core (stored w1 d k') = Some v'"
      if "coherent d r w" "rl_cached r k' = Some v'" "k' \<notin> set (rl_dirty r)" for k' v'
    proof -
      have "k' \<noteq> k" "region_ok k'" using that kv(2) Cons.prems(2) by (auto simp: rl_ok_def)
      then show ?thesis using that frame[of d k'] by (simp add: rl_coherent_def)
    qed
    moreover have "view d r w1 k' = view d r w k'" if "region_ok k'" for k'
      using that kv write_own[OF kv(3,4) wr] frame[of d k']
      by (cases "k' = k") (auto simp: rl_view_def)
    ultimately show ?thesis
      using frame by (auto simp: rl_coherent_def)
  qed
qed simp

lemma flush_view:
  assumes "ok r" "rl_flush writer d r w = (res, r', w')"
  shows "ok r'" "region_ok k \<Longrightarrow> view d r' w' k = view d r w k"
    "coherent d r w \<Longrightarrow> coherent d r' w'"
    "d' \<noteq> d \<Longrightarrow> region_ok k \<Longrightarrow> stored w' d' k = stored w d' k"
    "res = Some True \<Longrightarrow> rl_dirty r' = []"
    "res = Some True \<Longrightarrow> region_ok k \<Longrightarrow> stored w' d k = view d r w k"
proof -
  let ?r = "snd (rl_dirtyRegions r)"
  have inv: "rl_inv r" using assms(1) by (rule ok_inv)
  have ok: "ok ?r" using assms(1) by (simp add: rl_ok_def)
  have dist: "distinct (map fst (fst (rl_dirtyRegions r)))"
    using inv by (simp add: rl_dirtyRegions_value comp_def rl_inv_def)
  have pend: "rl_cached ?r k = Some v \<and> k \<in> set (rl_dirty ?r)"
    if "(k, v) \<in> set (fst (rl_dirtyRegions r))" for k v
    using that inv by (auto simp: rl_dirtyRegions_value rl_inv_def)
  note wp = write_pending_view[OF assms(2)[unfolded rl_flush_eq] ok pend dist]
  note st = rl_flush_state[OF inv assms(2)]
  show "ok r'" using st assms(1) by (simp add: rl_ok_def)
  show vw: "region_ok k \<Longrightarrow> view d r' w' k = view d r w k" for k using wp by (simp add: rl_view_def)
  show "coherent d r w \<Longrightarrow> coherent d r' w'" using wp by (simp add: rl_coherent_def)
  show "d' \<noteq> d \<Longrightarrow> region_ok k \<Longrightarrow> stored w' d' k = stored w d' k" using wp by simp
  show cl: "rl_dirty r' = []" if "res = Some True" using st(6) that .
  show "res = Some True \<Longrightarrow> region_ok k \<Longrightarrow> stored w' d k = view d r w k"
    using vw[of k] cl by (simp add: rl_view_def)
qed

lemma make_room_view:
  assumes "ok r" "rl_capacity r \<noteq> 0" "rl_make_room writer d already r w = (res, r', w')"
  shows "ok r'" "region_ok k \<Longrightarrow> view d r' w' k = view d r w k"
    "coherent d r w \<Longrightarrow> coherent d r' w'"
    "rl_cached r' \<subseteq>\<^sub>m rl_cached r" "set (rl_dirty r') \<subseteq> set (rl_dirty r)"
    "d' \<noteq> d \<Longrightarrow> region_ok k \<Longrightarrow> stored w' d' k = stored w d' k"
proof -
  have inv: "rl_inv r" using assms(1) by (rule ok_inv)
  note inv' = rl_make_room_inv[OF inv assms(2,3)]
  have "ok r' \<and> (\<forall>k. region_ok k \<longrightarrow> view d r' w' k = view d r w k)
    \<and> (coherent d r w \<longrightarrow> coherent d r' w')
    \<and> rl_cached r' \<subseteq>\<^sub>m rl_cached r \<and> set (rl_dirty r') \<subseteq> set (rl_dirty r)
    \<and> (\<forall>d' k. d' \<noteq> d \<longrightarrow> region_ok k \<longrightarrow> stored w' d' k = stored w d' k)"
    using inv assms(2,3)
  proof (cases rule: rl_make_room_cases)
    case room
    then show ?thesis using assms(1) by simp
  next
    case (clean victim)
    then show ?thesis using assms(1) inv'
      by (auto simp: rl_ok_def rl_view_def rl_coherent_def map_le_def split: if_splits)
  next
    case (written victim json)
    have vj: "region_ok victim" "value_ok json" using written(3) assms(1) by (auto simp: rl_ok_def)
    have st: "stored w' d victim = Some (overlay json (stored w d victim))"
      using write_ok[OF vj written(2)] .
    have frame: "stored w' d' k' = stored w d' k'" if "(d', k') \<noteq> (d, victim)" "region_ok k'" for d' k'
      using write_frame[OF vj(1) that(2) vj(2) written(2) that(1)] .
    have c: "rl_cached r' = (rl_cached r)(victim := None)"
        "set (rl_dirty r') = set (rl_dirty r) - {victim}"
      using written(6) by simp_all
    have "view d r' w' k = view d r w k" if "region_ok k" for k
      using st frame[OF _ that, of d] written(3,4) c by (cases "k = victim") (auto simp: rl_view_def)
    moreover have "coherent d r' w'" if "coherent d r w"
      using that frame c assms(1) by (auto simp: rl_coherent_def rl_ok_def)
    ultimately show ?thesis using assms(1) inv'(1) c frame
      by (auto simp: rl_ok_def map_le_def)
  next
    case (failed victim json)
    have vj: "region_ok victim" "value_ok json" using failed(3) assms(1) by (auto simp: rl_ok_def)
    have frame: "stored w' d' k' = stored w d' k'" if "(d', k') \<noteq> (d, victim)" "region_ok k'" for d' k'
      using write_frame[OF vj(1) that(2) vj(2) failed(2) that(1)] .
    have c: "rl_cached r' = rl_cached r" "rl_dirty r' = rl_dirty r"
      using failed(6) by simp_all
    have "view d r' w' k = view d r w k" if "region_ok k" for k
      using frame[OF _ that, of d] write_own[OF vj failed(2)] failed(3,4) c
      by (cases "k = victim") (auto simp: rl_view_def)
    moreover have "coherent d r' w'" if "coherent d r w"
      unfolding rl_coherent_def
    proof (intro allI impI)
      fix k' v'
      assume a: "rl_cached r' k' = Some v'" "k' \<notin> set (rl_dirty r')"
      then have "k' \<noteq> victim" "region_ok k'" using c failed(4) assms(1) by (auto simp: rl_ok_def)
      then show "map_option core (stored w' d k') = Some v'"
        using that a c frame[of d k'] by (simp add: rl_coherent_def)
    qed
    ultimately show ?thesis using assms(1) inv'(1) c frame by (auto simp: rl_ok_def)
  qed
  then show "ok r'" "region_ok k \<Longrightarrow> view d r' w' k = view d r w k"
    "coherent d r w \<Longrightarrow> coherent d r' w'"
    "rl_cached r' \<subseteq>\<^sub>m rl_cached r" "set (rl_dirty r') \<subseteq> set (rl_dirty r)"
    "d' \<noteq> d \<Longrightarrow> region_ok k \<Longrightarrow> stored w' d' k = stored w d' k" by blast+
qed

lemma admit_view:
  assumes "ok r" "region_ok k" "value_ok v" "rl_cached r k = None"
    "rl_add writer d k v False r w = (res, r', w')"
  shows "ok r'" "region_ok k' \<Longrightarrow> view d r' w' k' = view d r w k'"
    "coherent d r w \<Longrightarrow> map_option core (stored w d k) = Some v \<Longrightarrow> coherent d r' w'"
    "d' \<noteq> d \<Longrightarrow> region_ok k' \<Longrightarrow> stored w' d' k' = stored w d' k'"
proof -
  have inv: "rl_inv r" using assms(1) by (rule ok_inv)
  have kd: "k \<notin> set (rl_dirty r)" using inv assms(4) by (auto simp: rl_inv_def)
  let ?r1 = "snd (rl_hit k r)"
  have "ok r' \<and> (\<forall>k'. region_ok k' \<longrightarrow> view d r' w' k' = view d r w k')
    \<and> (coherent d r w \<longrightarrow> map_option core (stored w d k) = Some v \<longrightarrow> coherent d r' w')
    \<and> (\<forall>d' k'. d' \<noteq> d \<longrightarrow> region_ok k' \<longrightarrow> stored w' d' k' = stored w d' k')"
  proof (cases "rl_capacity r = 0 \<or> length v > rl_maximum_bytes r")
    case True
    then have "w' = w" "rl_cached r' = rl_cached r" "rl_dirty r' = rl_dirty r"
      using rl_add_same[OF True assms(4,5)] by simp_all
    then show ?thesis using rl_add_inv[OF inv assms(5)] assms(1)
      by (auto simp: rl_view_def rl_coherent_def rl_ok_def)
  next
    case False
    obtain b r3 w3 where room: "rl_make_room writer d False ?r1 w = (b, r3, w3)"
      by (metis prod_cases3)
    have i1: "rl_inv ?r1" and nz: "rl_capacity ?r1 \<noteq> 0" using False inv by simp_all
    note mr = rl_make_room_inv[OF i1 nz room]
    have ok1: "ok ?r1" using assms(1) i1 by (simp add: rl_ok_def)
    note step = make_room_view[OF ok1 nz room]
    have k3: "rl_cached r3 k = None" "k \<notin> set (rl_dirty r3)"
      using step(4,5) assms(4) kd by (auto simp: map_le_def dom_def)
    show ?thesis
    proof (cases "b = Some True")
      case True
      then have eq: "r' = rl_insert k v False r3" "w' = w3"
        using False assms(4,5) room by (simp_all add: rl_add_eq)
      have "k \<in> dom (rl_cached r3) \<or> length (rl_lru r3) < rl_capacity r3"
        using mr(4)[OF True] by simp
      note ins = rl_insert_effect[OF mr(1) _ this, of v False]
      have c: "rl_cached r' = (rl_cached r3)(k \<mapsto> v)" "set (rl_dirty r') = set (rl_dirty r3)"
        using ins(1,2) mr(2) nz k3 eq by simp_all
      have "ok r'" using step(1) assms(2,3) c(1) rl_add_inv[OF inv assms(5)] by (auto simp: rl_ok_def)
      moreover have "view d r' w' k' = view d r w k'" if "region_ok k'" for k'
        using step(2)[OF that] k3
        by (cases "k' = k") (simp_all add: rl_view_def c eq(2) split: if_splits)
      moreover have "coherent d r' w'" if "coherent d r w" "map_option core (stored w d k) = Some v"
      proof -
        have "stored w3 d k = stored w d k" using step(2)[OF assms(2)] k3 kd by (simp add: rl_view_def)
        with that have k: "map_option core (stored w3 d k) = Some v" by simp
        have "coherent d r3 w3" using step(3) that(1) by (simp add: rl_coherent_def)
        then show ?thesis using k k3 by (simp add: rl_coherent_def c eq(2))
      qed
      ultimately show ?thesis using step(6) eq by simp
    next
      case fail: False
      then have "r' = r3" "w' = w3"
        using False assms(4,5) room by (auto simp: rl_add_eq split: option.splits bool.splits)
      with step show ?thesis by (simp add: rl_view_def rl_coherent_def)
    qed
  qed
  then show "ok r'" "region_ok k' \<Longrightarrow> view d r' w' k' = view d r w k'"
    "coherent d r w \<Longrightarrow> map_option core (stored w d k) = Some v \<Longrightarrow> coherent d r' w'"
    "d' \<noteq> d \<Longrightarrow> region_ok k' \<Longrightarrow> stored w' d' k' = stored w d' k'" by blast+
qed

lemma update_absent: "rl_cached r k = None \<Longrightarrow> rl_update writer d k v r w
    = (Some False, r\<lparr>rl_entries := snd (lm_get (rl_entries r) k)\<rparr>, w)"
  by (simp add: rl_update_def rl_entry_eq)

lemma update_cached:
  assumes "rl_cached r k \<noteq> None" "rl_inv r"
  defines "r1 \<equiv> snd (rl_hit k (r\<lparr>rl_entries := snd (lm_get (rl_entries r) k)\<rparr>))"
  shows "rl_update writer d k v r w =
    (if length v > rl_maximum_bytes r then rl_uncacheable writer d k v True True r1 w
     else (Some True, rl_insert k v True r1, w))"
    and "rl_inv r1" "rl_cached r1 = rl_cached r" "rl_dirty r1 = rl_dirty r"
    "rl_capacity r1 = rl_capacity r" "rl_capacity r \<noteq> 0"
proof -
  show nz: "rl_capacity r \<noteq> 0"
  proof -
    have "k \<in> set (rl_lru r)" using assms(1,2) by (auto simp: rl_inv_def)
    then show ?thesis
      using rl_inv_bound[OF assms(2)] by (cases "rl_lru r") auto
  qed
  show "rl_inv r1" "rl_cached r1 = rl_cached r" "rl_dirty r1 = rl_dirty r"
    "rl_capacity r1 = rl_capacity r"
    using assms(2) by (simp_all add: r1_def)
  obtain c where c: "rl_cached r k = Some c" using assms(1) by auto
  then show "rl_update writer d k v r w =
    (if length v > rl_maximum_bytes r then rl_uncacheable writer d k v True True r1 w
     else (Some True, rl_insert k v True r1, w))"
    using nz by (simp add: rl_update_def rl_entry_eq rl_add_eq rl_make_room_def r1_def)
qed

lemma update_view:
  assumes "ok r" "value_ok v" "rl_update writer d k v r w = (res, r', w')"
  shows "ok r'" "region_ok k' \<Longrightarrow> k' \<noteq> k \<Longrightarrow> view d r' w' k' = view d r w k'"
    "res = Some True \<Longrightarrow> view d r' w' k = Some (overlay v (stored w d k))"
    "coherent d r w \<Longrightarrow> res = Some True \<or> length v \<le> rl_maximum_bytes r \<Longrightarrow> coherent d r' w'"
    "d' \<noteq> d \<Longrightarrow> region_ok k' \<Longrightarrow> stored w' d' k' = stored w d' k'"
proof -
  have inv: "rl_inv r" using assms(1) by (rule ok_inv)
  let ?r1 = "snd (rl_hit k (r\<lparr>rl_entries := snd (lm_get (rl_entries r) k)\<rparr>))"
  have "ok r' \<and> (\<forall>k'. region_ok k' \<longrightarrow> k' \<noteq> k \<longrightarrow> view d r' w' k' = view d r w k')
    \<and> (res = Some True \<longrightarrow> view d r' w' k = Some (overlay v (stored w d k)))
    \<and> (coherent d r w \<longrightarrow> res = Some True \<or> length v \<le> rl_maximum_bytes r \<longrightarrow> coherent d r' w')
    \<and> (\<forall>d' k'. d' \<noteq> d \<longrightarrow> region_ok k' \<longrightarrow> stored w' d' k' = stored w d' k')"
  proof (cases "rl_cached r k")
    case None
    then show ?thesis using assms(1,3) inv
      by (auto simp: update_absent rl_ok_def rl_view_def rl_coherent_def)
  next
    case (Some c)
    then have ne: "rl_cached r k \<noteq> None" by simp
    note up = update_cached[OF ne inv]
    have rk: "region_ok k" using Some assms(1) by (simp add: rl_ok_def)
    show ?thesis
    proof (cases "length v > rl_maximum_bytes r")
      case False
      then have eq: "res = Some True" "r' = rl_insert k v True ?r1" "w' = w"
        using assms(3) by (simp_all add: up(1))
      have "k \<in> dom (rl_cached ?r1) \<or> length (rl_lru ?r1) < rl_capacity ?r1"
        using ne by (auto simp: up(3))
      note ins = rl_insert_effect[OF up(2) _ this, of v True]
      have c: "rl_cached r' = (rl_cached r)(k \<mapsto> v)" "set (rl_dirty r') = insert k (set (rl_dirty r))"
          "rl_inv r'"
        using ins up(3-6) eq by simp_all
      then show ?thesis using eq assms(1,2) rk by (auto simp: rl_ok_def rl_view_def rl_coherent_def)
    next
      case True
      obtain b w1 where wr: "writer d k v w = (b, w1)" by force
      have frame: "stored w1 d' k' = stored w d' k'" if "(d', k') \<noteq> (d, k)" "region_ok k'" for d' k'
        using write_frame[OF rk that(2) assms(2) wr that(1)] .
      have unc: "rl_uncacheable writer d k v True True ?r1 w = (res, r', w')"
        using True assms(3) by (simp add: up(1))
      note i' = rl_uncacheable_inv[OF up(2) unc]
      show ?thesis
      proof (cases "b = Some True")
        case t: True
        then have eq: "res = Some True" "w' = w1" "rl_cached r' = (rl_cached r)(k := None)"
            "set (rl_dirty r') = set (rl_dirty r) - {k}"
          using unc wr up(3,4) by (auto simp: rl_uncacheable_def Let_def)
        have st: "stored w1 d k = Some (overlay v (stored w d k))"
          using write_ok[OF rk assms(2)] wr t by simp
        show ?thesis using eq st frame i' assms(1)
          by (auto simp: rl_ok_def rl_view_def rl_coherent_def)
      next
        case f: False
        then have eq: "res = b" "w' = w1" "r' = ?r1"
          using unc wr by (auto simp: rl_uncacheable_def split: option.splits bool.splits)
        then show ?thesis using f True frame up(2-4) assms(1)
          by (auto simp: rl_ok_def rl_view_def)
      qed
    qed
  qed
  then show "ok r'" "region_ok k' \<Longrightarrow> k' \<noteq> k \<Longrightarrow> view d r' w' k' = view d r w k'"
    "res = Some True \<Longrightarrow> view d r' w' k = Some (overlay v (stored w d k))"
    "coherent d r w \<Longrightarrow> res = Some True \<or> length v \<le> rl_maximum_bytes r \<Longrightarrow> coherent d r' w'"
    "d' \<noteq> d \<Longrightarrow> region_ok k' \<Longrightarrow> stored w' d' k' = stored w d' k'"
    by blast+
qed

end

end
