(* ===== verification/Cache_Manager.thy ===== *)
theory Cache_Manager
  imports Region_Lru
begin

text \<open>
  \<^verbatim>\<open>cpp/src/memory/MemoryClass.cpp\<close>, class \<open>CacheManager\<close>: one \<open>RegionLru\<close> per document, at most
  \<open>maximum_documents_\<close> of them. A document that needs a cache while all places are taken evicts the
  least recently used document whose stripe lock can be taken and whose dirty regions can be
  written back.

  \<open>try_lock\<close> stands for the outcome of \<open>std::try_to_lock\<close> on the stripe of a victim. The pointer
  that \<open>find\<close> and \<open>cacheForLookup\<close> return is the cache held in \<open>caches_\<close>, so an operation on it is an
  update of the entry of the document; \<open>Some False\<close> as the result of \<open>cacheForLookup\<close> is the null
  pointer and \<open>None\<close> an exception of the writer.
\<close>

record cache_manager =
  cm_maximum_bytes :: nat
  cm_maximum_documents :: nat
  cm_maximum_regions :: nat
  cm_caches :: "(string \<times> region_lru) list"
  cm_lru :: "string list"

definition cm_new :: "nat \<Rightarrow> nat \<Rightarrow> nat \<Rightarrow> cache_manager" where
  "cm_new maximum_documents regions_per_document maximum_bytes =
     \<lparr>cm_maximum_bytes = maximum_bytes, cm_maximum_documents = maximum_documents,
      cm_maximum_regions = regions_per_document, cm_caches = [], cm_lru = []\<rparr>"

definition cm_touch :: "string \<Rightarrow> cache_manager \<Rightarrow> cache_manager" where
  "cm_touch document_key m = m\<lparr>cm_lru := to_front document_key (cm_lru m)\<rparr>"

definition cm_find :: "string \<Rightarrow> cache_manager \<Rightarrow> region_lru option \<times> cache_manager" where
  "cm_find document_key m =
     (case map_of (cm_caches m) document_key of
        None \<Rightarrow> (None, m)
      | Some r \<Rightarrow> (Some r, cm_touch document_key m))"

definition cm_store :: "string \<Rightarrow> region_lru \<Rightarrow> cache_manager \<Rightarrow> cache_manager" where
  \<comment> \<open>the state after a method of the cache of a document has changed it\<close>
  "cm_store document_key r m = m\<lparr>cm_caches := AList.update document_key r (cm_caches m)\<rparr>"

definition cm_drop :: "string \<Rightarrow> cache_manager \<Rightarrow> cache_manager" where
  \<comment> \<open>\<open>caches_.erase\<close> and the removal of the recency list node\<close>
  "cm_drop document_key m =
     m\<lparr>cm_caches := AList.delete document_key (cm_caches m),
       cm_lru := remove1 document_key (cm_lru m)\<rparr>"

fun cm_evict ::
  "(string \<Rightarrow> bool) \<Rightarrow> 'w region_writer \<Rightarrow> string list \<Rightarrow> cache_manager \<Rightarrow> 'w
   \<Rightarrow> bool option \<times> cache_manager \<times> 'w" where
  "cm_evict try_lock writer [] m w = (Some False, m, w)"
| "cm_evict try_lock writer (candidate # rest) m w =
     (case map_of (cm_caches m) candidate of
        None \<Rightarrow> cm_evict try_lock writer rest m w
      | Some victim \<Rightarrow>
          if \<not> try_lock candidate then cm_evict try_lock writer rest m w
          else
            (case rl_flush (\<lambda>_ id value. writer candidate id value) candidate victim w of
               (Some True, victim', w1) \<Rightarrow>
                 (Some True, cm_drop candidate (cm_store candidate victim' m), w1)
             | (Some False, victim', w1) \<Rightarrow>
                 cm_evict try_lock writer rest (cm_store candidate victim' m) w1
             | (None, victim', w1) \<Rightarrow> (None, cm_store candidate victim' m, w1)))"

definition cm_create :: "string \<Rightarrow> cache_manager \<Rightarrow> cache_manager" where
  "cm_create document_key m =
     cm_touch document_key
       (cm_store document_key (rl_new (cm_maximum_regions m) (cm_maximum_bytes m)) m)"

definition cm_cacheForLookup ::
  "(string \<Rightarrow> bool) \<Rightarrow> 'w region_writer \<Rightarrow> string \<Rightarrow> cache_manager \<Rightarrow> 'w
   \<Rightarrow> bool option \<times> cache_manager \<times> 'w" where
  "cm_cacheForLookup try_lock writer document_key m w =
     (if map_of (cm_caches m) document_key \<noteq> None then (Some True, cm_touch document_key m, w)
      else if cm_maximum_documents m = 0 then (Some False, m, w)
      else if length (cm_caches m) \<ge> cm_maximum_documents m then
        (case cm_evict try_lock writer (rev (cm_lru m)) m w of
           (Some True, m1, w1) \<Rightarrow> (Some True, cm_create document_key m1, w1)
         | res \<Rightarrow> res)
      else (Some True, cm_create document_key m, w))"

definition cm_lookup ::
  "(string \<Rightarrow> bool) \<Rightarrow> 'w region_writer \<Rightarrow> string \<Rightarrow> string \<Rightarrow> cache_manager \<Rightarrow> 'w
   \<Rightarrow> cache_lookup option \<times> cache_manager \<times> 'w" where
  "cm_lookup try_lock writer document_key region m w =
     (let miss = \<lparr>cl_value = None, cl_admit_on_miss = False\<rparr> in
      if cm_maximum_regions m = 0 then (Some miss, m, w)
      else case cm_cacheForLookup try_lock writer document_key m w of
        (None, m1, w1) \<Rightarrow> (None, m1, w1)
      | (Some False, m1, w1) \<Rightarrow> (Some miss, m1, w1)
      | (Some True, m1, w1) \<Rightarrow>
          (let (l, r) = rl_lookup region (the (map_of (cm_caches m1) document_key))
           in (Some l, cm_store document_key r m1, w1)))"

definition cm_get :: "string \<Rightarrow> string \<Rightarrow> cache_manager \<Rightarrow> string option \<times> cache_manager" where
  "cm_get document_key region m =
     (case cm_find document_key m of
        (None, m1) \<Rightarrow> (None, m1)
      | (Some r, m1) \<Rightarrow> (let (v, r') = rl_get region r in (v, cm_store document_key r' m1)))"

definition cm_admit ::
  "(string \<Rightarrow> bool) \<Rightarrow> 'w region_writer \<Rightarrow> string \<Rightarrow> string \<Rightarrow> string \<Rightarrow> cache_manager \<Rightarrow> 'w
   \<Rightarrow> bool option \<times> cache_manager \<times> 'w" where
  "cm_admit try_lock writer document_key region value_json m w =
     (if cm_maximum_regions m = 0 then (Some False, m, w)
      else case cm_cacheForLookup try_lock writer document_key m w of
        (Some True, m1, w1) \<Rightarrow>
          (let (res, r, w2) = rl_add writer document_key region value_json False
                 (the (map_of (cm_caches m1) document_key)) w1
           in (res, cm_store document_key r m1, w2))
      | res \<Rightarrow> res)"

definition cm_update ::
  "'w region_writer \<Rightarrow> string \<Rightarrow> string \<Rightarrow> string \<Rightarrow> cache_manager \<Rightarrow> 'w
   \<Rightarrow> bool option \<times> cache_manager \<times> 'w" where
  "cm_update writer document_key region value_json m w =
     (case cm_find document_key m of
        (None, m1) \<Rightarrow> (Some False, m1, w)
      | (Some r, m1) \<Rightarrow>
          (let (res, r', w1) = rl_update writer document_key region value_json r w
           in (res, cm_store document_key r' m1, w1)))"

definition cm_markClean :: "string \<Rightarrow> string \<Rightarrow> cache_manager \<Rightarrow> bool \<times> cache_manager" where
  "cm_markClean document_key region m =
     (case cm_find document_key m of
        (None, m1) \<Rightarrow> (False, m1)
      | (Some r, m1) \<Rightarrow> (let (b, r') = rl_markClean region r in (b, cm_store document_key r' m1)))"

definition cm_dirtyRegions ::
  "string \<Rightarrow> cache_manager \<Rightarrow> (string \<times> string) list \<times> cache_manager" where
  "cm_dirtyRegions document_key m =
     (case cm_find document_key m of
        (None, m1) \<Rightarrow> ([], m1)
      | (Some r, m1) \<Rightarrow> (let (p, r') = rl_dirtyRegions r in (p, cm_store document_key r' m1)))"

definition cm_flush ::
  "'w region_writer \<Rightarrow> string \<Rightarrow> cache_manager \<Rightarrow> 'w \<Rightarrow> bool option \<times> cache_manager \<times> 'w" where
  "cm_flush writer document_key m w =
     (case cm_find document_key m of
        (None, m1) \<Rightarrow> (Some True, m1, w)
      | (Some r, m1) \<Rightarrow>
          (let (res, r', w1) = rl_flush writer document_key r w
           in (res, cm_store document_key r' m1, w1)))"

definition cm_removeRegion :: "string \<Rightarrow> string \<Rightarrow> cache_manager \<Rightarrow> cache_manager" where
  "cm_removeRegion document_key region m =
     (case cm_find document_key m of
        (None, m1) \<Rightarrow> m1
      | (Some r, m1) \<Rightarrow> cm_store document_key (rl_remove region r) m1)"

definition cm_removeDocument :: "string \<Rightarrow> cache_manager \<Rightarrow> cache_manager" where
  "cm_removeDocument document_key m =
     (if map_of (cm_caches m) document_key = None then m else cm_drop document_key m)"

section \<open>Invariant\<close>

definition cm_cache :: "cache_manager \<Rightarrow> string \<Rightarrow> region_lru option" where
  "cm_cache m = map_of (cm_caches m)"

text \<open>
  The recency list holds the documents of the map, each once, there are at most
  \<open>maximum_documents_\<close> of them, and every document cache has the configured capacity and satisfies
  its own invariant.
\<close>

definition cm_inv :: "cache_manager \<Rightarrow> bool" where
  "cm_inv m \<longleftrightarrow> distinct (map fst (cm_caches m)) \<and> distinct (cm_lru m)
     \<and> set (cm_lru m) = dom (cm_cache m)
     \<and> length (cm_caches m) \<le> cm_maximum_documents m
     \<and> (\<forall>d r. cm_cache m d = Some r \<longrightarrow> rl_inv r \<and> rl_capacity r = cm_maximum_regions m
              \<and> rl_maximum_bytes r = cm_maximum_bytes m)"

abbreviation same_config :: "cache_manager \<Rightarrow> cache_manager \<Rightarrow> bool" where
  "same_config m m' \<equiv> cm_maximum_bytes m' = cm_maximum_bytes m
     \<and> cm_maximum_documents m' = cm_maximum_documents m
     \<and> cm_maximum_regions m' = cm_maximum_regions m"

lemma cm_inv_new [simp]: "cm_inv (cm_new nd nr nb)"
  by (simp add: cm_inv_def cm_new_def cm_cache_def)

lemma cm_cache_simps [simp, cm_simps]:
  "cm_cache (cm_touch d m) = cm_cache m"
  "cm_cache (cm_store d r m) = (cm_cache m)(d \<mapsto> r)"
  "cm_cache (cm_drop d m) = (cm_cache m)(d := None)"
  "cm_cache (cm_new nd nr nb) = Map.empty"
  "cm_cache (cm_create d m)
     = (cm_cache m)(d \<mapsto> rl_new (cm_maximum_regions m) (cm_maximum_bytes m))"
  by (simp_all add: cm_cache_def cm_touch_def cm_store_def cm_drop_def cm_new_def cm_create_def
      update_conv' delete_conv')

lemma cm_config_simps [simp, cm_simps]:
  "same_config m (cm_touch d m)" "same_config m (cm_store d r m)" "same_config m (cm_drop d m)"
  "same_config m (cm_create d m)"
  by (simp_all add: cm_touch_def cm_store_def cm_drop_def cm_create_def)

lemma cm_find_eq: "cm_find d m
    = (cm_cache m d, if cm_cache m d = None then m else cm_touch d m)"
  by (auto simp: cm_find_def cm_cache_def split: option.splits)

lemma cm_length_caches: "cm_inv m \<Longrightarrow> length (cm_caches m) = card (dom (cm_cache m))"
  by (simp add: cm_inv_def cm_cache_def card_dom_map_of)

lemma cm_inv_touch [simp]: "cm_inv m \<Longrightarrow> cm_cache m d \<noteq> None \<Longrightarrow> cm_inv (cm_touch d m)"
  by (auto simp: cm_inv_def cm_touch_def cm_cache_def)

lemma cm_inv_store:
  assumes "cm_inv m" "cm_cache m d \<noteq> None" "rl_inv r" "rl_capacity r = cm_maximum_regions m"
    "rl_maximum_bytes r = cm_maximum_bytes m"
  shows "cm_inv (cm_store d r m)"
proof -
  have "length (AList.update d r (cm_caches m)) = length (cm_caches m)"
    using assms(1,2) by (auto simp: cm_inv_def cm_cache_def length_update_alist)
  with assms show ?thesis
    by (auto simp: cm_inv_def cm_store_def cm_cache_def update_conv' split: if_splits)
qed

lemma cm_inv_drop [simp]:
  assumes "cm_inv m"
  shows "cm_inv (cm_drop d m)"
proof -
  have "length (AList.delete d (cm_caches m)) \<le> length (cm_caches m)"
    by (simp add: length_delete_le)
  with assms show ?thesis
    by (auto simp: cm_inv_def cm_drop_def cm_cache_def delete_conv' split: if_splits)
qed

lemma cm_drop_length:
  assumes "cm_inv m" "cm_cache m d \<noteq> None"
  shows "length (cm_caches (cm_drop d m)) < length (cm_caches m)"
proof -
  have "finite (dom (cm_cache m))" by (simp add: cm_cache_def finite_dom_map_of)
  moreover have "d \<in> dom (cm_cache m)" using assms(2) by auto
  ultimately have "card (dom (cm_cache m) - {d}) < card (dom (cm_cache m))"
    by (rule card_Diff1_less)
  then show ?thesis
    using cm_length_caches[OF assms(1)] cm_length_caches[OF cm_inv_drop[OF assms(1)], of d]
    by simp
qed

lemma cm_inv_create:
  assumes "cm_inv m" "cm_cache m d = None" "length (cm_caches m) < cm_maximum_documents m"
  shows "cm_inv (cm_create d m)"
proof -
  have "length (AList.update d r (cm_caches m)) = Suc (length (cm_caches m))" for r
    using assms(1,2) by (auto simp: cm_inv_def cm_cache_def length_update_alist)
  then have "length (cm_caches (cm_create d m)) \<le> cm_maximum_documents m"
    using assms(3) by (simp add: cm_create_def cm_touch_def cm_store_def)
  moreover have "cm_lru (cm_create d m) = to_front d (cm_lru m)"
    by (simp add: cm_create_def cm_touch_def cm_store_def)
  moreover have "distinct (map fst (cm_caches (cm_create d m)))"
    using assms(1) by (simp add: cm_create_def cm_touch_def cm_store_def cm_inv_def)
  ultimately show ?thesis
    using assms(1) by (auto simp: cm_inv_def rl_new_def[symmetric])
      (simp_all add: rl_new_def)
qed

lemma cm_cacheE:
  assumes "cm_inv m" "cm_cache m d = Some r"
  shows "rl_inv r" "rl_capacity r = cm_maximum_regions m" "rl_maximum_bytes r = cm_maximum_bytes m"
  using assms by (auto simp: cm_inv_def)

lemma cm_inv_store_same:
  assumes "cm_inv m" "cm_cache m d = Some r"
    "rl_inv r' \<and> rl_capacity r' = rl_capacity r \<and> rl_maximum_bytes r' = rl_maximum_bytes r"
  shows "cm_inv (cm_store d r' (cm_touch d m))" "cm_inv (cm_store d r' m)"
  using assms cm_cacheE[OF assms(1,2)] by (auto intro!: cm_inv_store)

text \<open>The writer handed to the flush of a victim addresses the victim's own document.\<close>

lemma rl_write_pending_victim:
  "rl_write_pending (\<lambda>_. writer d) d pending r w = rl_write_pending writer d pending r w"
  by (induction pending arbitrary: r w) (auto split: prod.splits option.splits bool.splits)

lemma rl_flush_victim [simp]:
  "rl_flush (\<lambda>_ id value. writer d id value) d r w = rl_flush writer d r w"
  by (simp add: rl_flush_eq rl_write_pending_victim)

section \<open>Write-back transparency\<close>

definition cm_view ::
  "(string \<Rightarrow> 's option \<Rightarrow> 's) \<Rightarrow> ('w \<Rightarrow> string \<Rightarrow> string \<Rightarrow> 's option) \<Rightarrow> cache_manager \<Rightarrow> 'w
   \<Rightarrow> string \<Rightarrow> string \<Rightarrow> 's option" where
  "cm_view overlay stored m w d k =
     (case cm_cache m d of None \<Rightarrow> stored w d k | Some r \<Rightarrow> rl_view overlay stored d r w k)"

definition cm_coherent ::
  "('s \<Rightarrow> string) \<Rightarrow> ('w \<Rightarrow> string \<Rightarrow> string \<Rightarrow> 's option) \<Rightarrow> cache_manager \<Rightarrow> 'w \<Rightarrow> bool" where
  "cm_coherent core stored m w \<longleftrightarrow> (\<forall>d r. cm_cache m d = Some r \<longrightarrow> rl_coherent core stored d r w)"

definition cm_ok :: "(string \<Rightarrow> bool) \<Rightarrow> (string \<Rightarrow> bool) \<Rightarrow> cache_manager \<Rightarrow> bool" where
  "cm_ok region_ok value_ok m \<longleftrightarrow>
     cm_inv m \<and> (\<forall>d r. cm_cache m d = Some r \<longrightarrow> rl_ok region_ok value_ok r)"

lemma cm_ok_new [simp]: "cm_ok region_ok value_ok (cm_new nd nr nb)"
  by (simp add: cm_ok_def)

lemma rl_new_view [simp]:
  "rl_view overlay stored d (rl_new c b) w = stored w d" "rl_coherent core stored d (rl_new c b) w"
  "rl_ok region_ok value_ok (rl_new c b)"
  by (auto simp: rl_view_def rl_coherent_def rl_ok_def fun_eq_iff)
    (simp_all add: rl_new_def rl_cached_def)

lemma cm_view_touch [simp]: "cm_view overlay stored (cm_touch d m) = cm_view overlay stored m"
  by (intro ext) (simp add: cm_view_def)

lemma cm_coherent_touch [simp]: "cm_coherent core stored (cm_touch d m) = cm_coherent core stored m"
  by (intro ext) (simp add: cm_coherent_def)

lemma cm_ok_touch [simp]: "cm_ok ro vo m \<Longrightarrow> cm_cache m d \<noteq> None \<Longrightarrow> cm_ok ro vo (cm_touch d m)"
  by (simp add: cm_ok_def)

lemma cm_ok_inv: "cm_ok ro vo m \<Longrightarrow> cm_inv m"
  by (simp add: cm_ok_def)

lemma cm_ok_cache: "cm_ok ro vo m \<Longrightarrow> cm_cache m d = Some r \<Longrightarrow> rl_ok ro vo r"
  by (simp add: cm_ok_def)

text \<open>
  One document's cache and the storage change together; the other documents keep their caches and
  their stored values.
\<close>

lemma cm_store_view:
  assumes "cm_ok ro vo m" "cm_cache m d = Some r" "rl_ok ro vo r'"
    "rl_capacity r' = rl_capacity r" "rl_maximum_bytes r' = rl_maximum_bytes r"
    "\<forall>d' k. d' \<noteq> d \<longrightarrow> ro k \<longrightarrow> stored w' d' k = stored w d' k"
  shows "cm_ok ro vo (cm_store d r' m)"
    "cm_view overlay stored (cm_store d r' m) w' d k = rl_view overlay stored d r' w' k"
    "d' \<noteq> d \<Longrightarrow> ro k \<Longrightarrow> cm_view overlay stored (cm_store d r' m) w' d' k = cm_view overlay stored m w d' k"
    "cm_coherent core stored m w \<Longrightarrow> rl_coherent core stored d r' w' \<Longrightarrow>
       cm_coherent core stored (cm_store d r' m) w'"
proof -
  have "rl_inv r' \<and> rl_capacity r' = rl_capacity r \<and> rl_maximum_bytes r' = rl_maximum_bytes r"
    using assms(3-5) by (simp add: rl_ok_def)
  from cm_inv_store_same(2)[OF cm_ok_inv[OF assms(1)] assms(2) this]
  show "cm_ok ro vo (cm_store d r' m)"
    using assms(1,3) by (auto simp: cm_ok_def)
  show "cm_view overlay stored (cm_store d r' m) w' d k = rl_view overlay stored d r' w' k"
    by (simp add: cm_view_def)
  show "cm_view overlay stored (cm_store d r' m) w' d' k = cm_view overlay stored m w d' k" if "d' \<noteq> d" "ro k"
    using that assms(6) by (simp add: cm_view_def rl_view_def split: option.splits)
  show "cm_coherent core stored (cm_store d r' m) w'"
    if "cm_coherent core stored m w" "rl_coherent core stored d r' w'"
    unfolding cm_coherent_def
  proof (intro allI impI)
    fix d' r2
    assume c: "cm_cache (cm_store d r' m) d' = Some r2"
    show "rl_coherent core stored d' r2 w'"
    proof (cases "d' = d")
      case False
      with c have c2: "cm_cache m d' = Some r2" by simp
      have "rl_coherent core stored d' r2 w" using that(1) c2 by (simp add: cm_coherent_def)
      with cm_ok_cache[OF assms(1) c2] assms(6) False show ?thesis
        by (simp add: rl_coherent_def rl_ok_def)
    qed (use c that in simp)
  qed
qed

lemma cm_drop_clean_view:
  assumes "cm_cache m d = Some r" "rl_dirty r = []"
  shows "cm_view overlay stored (cm_drop d m) w d' k = cm_view overlay stored m w d' k"
  using assms by (simp add: cm_view_def rl_view_def)

lemma cm_drop_ok:
  "cm_ok ro vo m \<Longrightarrow> cm_ok ro vo (cm_drop d m)"
  "cm_coherent core stored m w \<Longrightarrow> cm_coherent core stored (cm_drop d m) w"
  by (simp_all add: cm_ok_def cm_coherent_def)

lemma cm_create_view:
  assumes "cm_ok ro vo m" "cm_cache m d = None" "length (cm_caches m) < cm_maximum_documents m"
  shows "cm_ok ro vo (cm_create d m)" "cm_view overlay stored (cm_create d m) = cm_view overlay stored m"
    "cm_coherent core stored m w \<Longrightarrow> cm_coherent core stored (cm_create d m) w"
  using assms cm_inv_create[of m d]
  by (auto simp: cm_ok_def cm_view_def cm_coherent_def fun_eq_iff)

context region_backend
begin

abbreviation "mview \<equiv> cm_view overlay stored"
abbreviation "mok \<equiv> cm_ok region_ok value_ok"
abbreviation "mcoherent \<equiv> cm_coherent core stored"

lemma evict_view:
  assumes "mok m" "cm_evict try_lock writer cs m w = (res, m', w')"
  shows "mok m' \<and> same_config m m' \<and> dom (cm_cache m') \<subseteq> dom (cm_cache m)
    \<and> (\<forall>d k. region_ok k \<longrightarrow> mview m' w' d k = mview m w d k)
    \<and> (mcoherent m w \<longrightarrow> mcoherent m' w')
    \<and> (res = Some True \<longrightarrow> length (cm_caches m') < cm_maximum_documents m')"
  using assms
proof (induction cs arbitrary: m w)
  case (Cons c cs)
  show ?case
  proof (cases "cm_cache m c")
    case None
    then have "cm_evict try_lock writer cs m w = (res, m', w')"
      using Cons.prems(2) by (simp add: cm_cache_def)
    from Cons.IH[OF Cons.prems(1) this] show ?thesis .
  next
    case (Some r)
    then have c: "map_of (cm_caches m) c = Some r" by (simp add: cm_cache_def)
    show ?thesis
    proof (cases "try_lock c")
      case False
      then have "cm_evict try_lock writer cs m w = (res, m', w')"
        using Cons.prems(2) c by simp
      from Cons.IH[OF Cons.prems(1) this] show ?thesis .
    next
      case True
      obtain b r1 w1 where fl: "rl_flush writer c r w = (b, r1, w1)" by (metis prod_cases3)
      note okr = cm_ok_cache[OF Cons.prems(1) Some]
      note fv = flush_view[OF okr fl]
      note fs = rl_flush_state[OF ok_inv[OF okr] fl]
      let ?m = "cm_store c r1 m"
      have fr: "\<forall>d' k. d' \<noteq> c \<longrightarrow> region_ok k \<longrightarrow> stored w1 d' k = stored w d' k"
        using fv(4) by blast
      note sv = cm_store_view[OF Cons.prems(1) Some fv(1) fs(3,4) fr]
      have v: "mview ?m w1 d k = mview m w d k" if "region_ok k" for d k
        using sv(2)[of overlay k] sv(3)[of d k] fv(2)[OF that] Some that
        by (cases "d = c") (simp_all add: cm_view_def)
      have co: "mcoherent ?m w1" if "mcoherent m w"
        using sv(4)[of core] fv(3) that Some by (simp add: cm_coherent_def)
      have dm: "dom (cm_cache ?m) \<subseteq> dom (cm_cache m)" using Some by auto
      consider "b = Some True" | "b = Some False" | "b = None" by (metis (full_types) not_Some_eq)
      then show ?thesis
      proof cases
        case 1
        then have eq: "res = Some True" "m' = cm_drop c ?m" "w' = w1"
          using Cons.prems(2) c True fl by simp_all
        have "length (cm_caches m') < length (cm_caches ?m)"
          unfolding eq(2) using sv(1) by (intro cm_drop_length) (auto simp: cm_ok_def)
        moreover have "length (cm_caches ?m) \<le> cm_maximum_documents ?m"
          using sv(1) by (simp add: cm_ok_def cm_inv_def del: cm_config_simps)
        moreover have "mview m' w' d k = mview ?m w1 d k" for d k
          unfolding eq using fs(6)[OF 1] by (intro cm_drop_clean_view[of _ _ r1]) simp_all
        ultimately show ?thesis
          using cm_drop_ok(1)[OF sv(1)] cm_drop_ok(2)[of core stored ?m w1 c] v co dm eq
          by (auto split: if_splits)
      next
        case 2
        then have "cm_evict try_lock writer cs ?m w1 = (res, m', w')"
          using Cons.prems(2) c True fl by simp
        note ih = Cons.IH[OF sv(1) this]
        have "dom (cm_cache m') \<subseteq> dom (cm_cache m)" using ih dm by blast
        with ih v co show ?thesis by (elim conjE) simp
      next
        case 3
        then have "res = None" "m' = ?m" "w' = w1" using Cons.prems(2) c True fl by simp_all
        then show ?thesis using sv(1) v co dm by (simp del: cm_cache_simps)
      qed
    qed
  qed
qed auto

lemma cacheForLookup_view:
  assumes "mok m" "cm_cacheForLookup try_lock writer d m w = (res, m', w')"
  shows "mok m'" "same_config m m'" "region_ok k \<Longrightarrow> mview m' w' d' k = mview m w d' k"
    "mcoherent m w \<Longrightarrow> mcoherent m' w'" "res = Some True \<Longrightarrow> cm_cache m' d \<noteq> None"
proof -
  have "mok m' \<and> same_config m m' \<and> (\<forall>d' k. region_ok k \<longrightarrow> mview m' w' d' k = mview m w d' k)
    \<and> (mcoherent m w \<longrightarrow> mcoherent m' w') \<and> (res = Some True \<longrightarrow> cm_cache m' d \<noteq> None)"
  proof (cases "cm_cache m d = None \<and> cm_maximum_documents m \<noteq> 0
                \<and> cm_maximum_documents m \<le> length (cm_caches m)")
    case True
    then have d: "map_of (cm_caches m) d = None" by (simp add: cm_cache_def)
    obtain b m1 w1 where ev: "cm_evict try_lock writer (rev (cm_lru m)) m w = (b, m1, w1)"
      by (metis prod_cases3)
    note e = evict_view[OF assms(1) ev]
    show ?thesis
    proof (cases "b = Some True")
      case t: True
      then have eq: "res = Some True" "m' = cm_create d m1" "w' = w1"
        using assms(2) ev True d by (simp_all add: cm_cacheForLookup_def)
      have d1: "cm_cache m1 d = None" using True e by auto
      from e have l1: "length (cm_caches m1) < cm_maximum_documents m1" and ok1: "mok m1"
        using t by blast+
      note cv = cm_create_view[OF ok1 d1 l1]
      have sc: "same_config m m'" using e eq(2) by simp
      have vw: "mview m' w' = mview m1 w1" using cv(2)[of overlay stored] eq by simp
      show ?thesis using cv(1) cv(3)[of core stored w1] e eq sc vw by simp
    next
      case False
      then have "res = b" "m' = m1" "w' = w1"
        using assms(2) ev True d
        by (auto simp: cm_cacheForLookup_def split: option.splits bool.splits)
      then show ?thesis using e False by blast
    qed
  next
    case False
    then show ?thesis
      using assms cm_create_view(1,3)[OF assms(1)] cm_create_view(2)[OF assms(1), of d overlay stored]
      by (auto simp: cm_cacheForLookup_def cm_cache_def[symmetric] split: if_splits)
  qed
  then show "mok m'" "same_config m m'" "region_ok k \<Longrightarrow> mview m' w' d' k = mview m w d' k"
    "mcoherent m w \<Longrightarrow> mcoherent m' w'" "res = Some True \<Longrightarrow> cm_cache m' d \<noteq> None" by blast+
qed

lemma view_cong_region: "rl_cached r' = rl_cached r \<Longrightarrow> rl_dirty r' = rl_dirty r \<Longrightarrow>
    view d r' w k = view d r w k \<and> coherent d r' w = coherent d r w"
  by (simp add: rl_view_def rl_coherent_def)

text \<open>A method of a document's cache that touches neither its values nor its dirty set.\<close>

lemma store_same_view:
  assumes "mok m" "cm_cache m d = Some r" "rl_inv r'" "rl_cached r' = rl_cached r"
    "rl_dirty r' = rl_dirty r" "rl_capacity r' = rl_capacity r"
    "rl_maximum_bytes r' = rl_maximum_bytes r"
  shows "mok (cm_store d r' m)"
    "region_ok k \<Longrightarrow> mview (cm_store d r' m) w d' k = mview m w d' k"
    "mcoherent m w \<Longrightarrow> mcoherent (cm_store d r' m) w"
proof -
  have ok: "ok r'" using cm_ok_cache[OF assms(1,2)] assms(3,4) by (simp add: rl_ok_def)
  have fr: "\<forall>d' k. d' \<noteq> d \<longrightarrow> region_ok k \<longrightarrow> stored w d' k = stored w d' k" by simp
  note sv = cm_store_view[where stored = stored and w = w and w' = w, OF assms(1,2) ok assms(6,7) fr]
  note vc = view_cong_region[OF assms(4,5), of d w]
  show "mok (cm_store d r' m)" by (rule sv(1))
  show "region_ok k \<Longrightarrow> mview (cm_store d r' m) w d' k = mview m w d' k"
    using sv(2)[of overlay k] sv(3)[of d' k] vc[of k] assms(2) by (cases "d' = d") (auto simp: cm_view_def)
  show "mcoherent m w \<Longrightarrow> mcoherent (cm_store d r' m) w"
    using sv(4)[of core] vc assms(2) by (simp add: cm_coherent_def)
qed

lemma cm_find_ok:
  assumes "mok m" "cm_find d m = (c, m1)"
  shows "mok m1" "mview m1 = mview m" "mcoherent m1 = mcoherent m" "cm_cache m1 = cm_cache m"
    "c = cm_cache m d" "same_config m m1"
  using assms by (auto simp: cm_find_eq)

lemma uncached_view: "ok r \<Longrightarrow> rl_cached r k = None \<Longrightarrow> view d r w k = stored w d k"
  by (auto simp: rl_view_def rl_ok_def rl_inv_def)

lemma evict_false: "cm_cache m d = None \<Longrightarrow> cm_evict try_lock writer cs m w = (res, m', w') \<Longrightarrow>
    cm_cache m' d = None"
proof (induction cs arbitrary: m w)
  case (Cons c cs)
  obtain b r1 w1 where fl: "rl_flush writer c (the (cm_cache m c)) w = (b, r1, w1)"
    by (metis prod_cases3)
  show ?case
  proof (cases "cm_cache m c = None \<or> \<not> try_lock c")
    case True
    then show ?thesis using Cons by (auto simp: cm_cache_def split: option.splits)
  next
    case False
    then obtain r where r: "map_of (cm_caches m) c = Some r" "cm_cache m c = Some r"
      by (auto simp: cm_cache_def)
    have "d \<noteq> c" using Cons.prems(1) r by auto
    then have n: "cm_cache (cm_store c r1 m) d = None" using Cons.prems(1) by simp
    show ?thesis
      using Cons.prems(2) r False fl Cons.IH[OF n] n \<open>d \<noteq> c\<close>
      by (auto split: option.splits bool.splits)
  qed
qed auto

lemma cacheForLookup_null:
  assumes "mok m" "cm_cacheForLookup try_lock writer d m w = (Some False, m', w')"
  shows "cm_cache m' d = None"
  using assms evict_false[of m d try_lock "rev (cm_lru m)" w]
  by (auto simp: cm_cacheForLookup_def cm_cache_def[symmetric]
      split: if_splits prod.splits option.splits bool.splits)

lemma lookup_view:
  assumes "mok m" "cm_lookup try_lock writer d reg m w = (res, m', w')"
  shows "mok m'" "same_config m m'" "region_ok k \<Longrightarrow> mview m' w' d' k = mview m w d' k"
    "mcoherent m w \<Longrightarrow> mcoherent m' w'"
    "mcoherent m w \<Longrightarrow> res = Some l \<Longrightarrow> cl_value l = Some v \<Longrightarrow> map_option core (mview m w d reg) = Some v"
    "res = Some l \<Longrightarrow> cl_value l = Some v \<Longrightarrow> region_ok reg \<and> value_ok v"
    "res = Some l \<Longrightarrow> cl_admit_on_miss l \<Longrightarrow> (\<exists>r. cm_cache m' d = Some r \<and> rl_cached r reg = None)"
    "res = Some l \<Longrightarrow> cl_value l = None \<Longrightarrow> mview m' w' d reg = stored w' d reg"
proof -
  obtain b m1 w1 where cf: "cm_cacheForLookup try_lock writer d m w = (b, m1, w1)"
    by (metis prod_cases3)
  note cv = cacheForLookup_view[OF assms(1) cf]
  have "mok m' \<and> same_config m m' \<and> (\<forall>d' k. region_ok k \<longrightarrow> mview m' w' d' k = mview m w d' k)
    \<and> (mcoherent m w \<longrightarrow> mcoherent m' w')
    \<and> (\<forall>l v. res = Some l \<longrightarrow> cl_value l = Some v \<longrightarrow>
        region_ok reg \<and> value_ok v \<and> (mcoherent m w \<longrightarrow> map_option core (mview m w d reg) = Some v))
    \<and> (\<forall>l. res = Some l \<longrightarrow> cl_admit_on_miss l \<longrightarrow>
        (\<exists>r. cm_cache m' d = Some r \<and> rl_cached r reg = None))
    \<and> (\<forall>l. res = Some l \<longrightarrow> cl_value l = None \<longrightarrow> mview m' w' d reg = stored w' d reg)"
  proof (cases "cm_maximum_regions m = 0 \<or> b \<noteq> Some True")
    case True
    then consider "cm_maximum_regions m = 0" | "cm_maximum_regions m \<noteq> 0" "b = None \<or> b = Some False"
      by (cases b) auto
    then show ?thesis
    proof cases
      case 1
      have "mview m w d reg = stored w d reg"
      proof (cases "cm_cache m d")
        case (Some r)
        have "rl_cached r reg = None"
          using 1 cm_cacheE[OF cm_ok_inv[OF assms(1)] Some] rl_cached_capacity by fastforce
        then show ?thesis using Some uncached_view[OF cm_ok_cache[OF assms(1) Some]]
          by (simp add: cm_view_def)
      qed (simp add: cm_view_def)
      then show ?thesis using 1 assms by (auto simp: cm_lookup_def Let_def)
    next
      case 2
      have "mview m1 w1 d reg = stored w1 d reg" if "b = Some False"
        using cacheForLookup_null[OF assms(1)] cf that by (simp add: cm_view_def)
      then show ?thesis using 2 assms cf cv by (auto simp: cm_lookup_def Let_def)
    qed
  next
    case False
    then obtain r where r: "cm_cache m1 d = Some r" using cv(5) by auto
    have eq: "res = Some (fst (rl_lookup reg r))" "m' = cm_store d (snd (rl_lookup reg r)) m1" "w' = w1"
      using assms(2) False cf r by (auto simp: cm_lookup_def Let_def case_prod_beta cm_cache_def)
    note okr = cm_ok_cache[OF cv(1) r]
    have inv: "rl_inv (snd (rl_lookup reg r))" using okr by (simp add: rl_ok_def)
    note sv = store_same_view[OF cv(1) r inv rl_lookup_state]
    have "region_ok reg \<and> value_ok v \<and> (mcoherent m w \<longrightarrow> map_option core (mview m w d reg) = Some v)"
      if "cl_value (fst (rl_lookup reg r)) = Some v" for v
    proof -
      have c: "rl_cached r reg = Some v" using rl_lookup_value[OF ok_inv[OF okr], of reg] that by simp
      with okr have rk: "region_ok reg" "value_ok v" by (auto simp: rl_ok_def)
      have "map_option core (mview m w d reg) = Some v" if "mcoherent m w"
      proof -
        have "coherent d r w1" using cv(4)[OF that] r by (simp add: cm_coherent_def)
        from view_cached[OF okr this c] cv(3)[OF rk(1), of d] r show ?thesis
          by (simp add: cm_view_def)
      qed
      with rk show ?thesis by blast
    qed
    moreover have "\<exists>r'. cm_cache m' d = Some r' \<and> rl_cached r' reg = None"
      if "cl_admit_on_miss (fst (rl_lookup reg r))"
      using rl_lookup_admit[OF that] eq(2) by simp
    moreover have "mview m' w' d reg = stored w' d reg" if "cl_value (fst (rl_lookup reg r)) = None"
      using that rl_lookup_value[OF ok_inv[OF okr], of reg] eq(2)
        uncached_view[OF cm_ok_cache[OF sv(1), of d]] by (simp add: cm_view_def)
    ultimately show ?thesis using sv cv eq by simp
  qed
  then show "mok m'" "same_config m m'" "region_ok k \<Longrightarrow> mview m' w' d' k = mview m w d' k"
    "mcoherent m w \<Longrightarrow> mcoherent m' w'"
    "mcoherent m w \<Longrightarrow> res = Some l \<Longrightarrow> cl_value l = Some v \<Longrightarrow> map_option core (mview m w d reg) = Some v"
    "res = Some l \<Longrightarrow> cl_value l = Some v \<Longrightarrow> region_ok reg \<and> value_ok v"
    "res = Some l \<Longrightarrow> cl_admit_on_miss l \<Longrightarrow> (\<exists>r. cm_cache m' d = Some r \<and> rl_cached r reg = None)"
    "res = Some l \<Longrightarrow> cl_value l = None \<Longrightarrow> mview m' w' d reg = stored w' d reg"
    by blast+
qed

lemma get_view:
  assumes "mok m" "cm_get d reg m = (res, m')"
  shows "mok m'" "same_config m m'" "region_ok k \<Longrightarrow> mview m' w d' k = mview m w d' k"
    "mcoherent m w \<Longrightarrow> mcoherent m' w"
    "mcoherent m w \<Longrightarrow> res = Some v \<Longrightarrow> map_option core (mview m w d reg) = Some v"
    "res = Some v \<Longrightarrow> region_ok reg \<and> value_ok v"
    "res = Some v \<Longrightarrow> (\<exists>r. cm_cache m' d = Some r \<and> rl_cached r reg = Some v)"
proof -
  obtain c m1 where f: "cm_find d m = (c, m1)" by force
  note fo = cm_find_ok[OF assms(1) f]
  have "mok m' \<and> same_config m m' \<and> (\<forall>d' k w. region_ok k \<longrightarrow> mview m' w d' k = mview m w d' k)
    \<and> (\<forall>w. mcoherent m w \<longrightarrow> mcoherent m' w)
    \<and> (\<forall>v. res = Some v \<longrightarrow> region_ok reg \<and> value_ok v
        \<and> (\<forall>w. mcoherent m w \<longrightarrow> map_option core (mview m w d reg) = Some v)
        \<and> (\<exists>r. cm_cache m' d = Some r \<and> rl_cached r reg = Some v))"
  proof (cases c)
    case None
    then show ?thesis using assms f fo by (simp add: cm_get_def)
  next
    case (Some r)
    then have r: "cm_cache m1 d = Some r" using fo by simp
    note okr = cm_ok_cache[OF fo(1) r]
    have inv: "rl_inv (snd (rl_get reg r))" using okr by (simp add: rl_ok_def)
    note sv = store_same_view[OF fo(1) r inv rl_get_state(1-4)]
    have eq: "res = rl_cached r reg" "m' = cm_store d (snd (rl_get reg r)) m1"
      using assms(2) f Some rl_get_value[OF ok_inv[OF okr], of reg]
      by (auto simp: cm_get_def case_prod_beta Let_def)
    have "region_ok reg \<and> value_ok v \<and> (\<forall>w. mcoherent m w \<longrightarrow> map_option core (mview m w d reg) = Some v)"
      if "rl_cached r reg = Some v" for v
    proof (intro conjI allI impI)
      show "region_ok reg" "value_ok v" using that okr by (auto simp: rl_ok_def)
      fix w
      assume "mcoherent m w"
      then have "coherent d r w" using fo(4) r by (simp add: cm_coherent_def)
      from view_cached[OF okr this that] fo(4) r show "map_option core (mview m w d reg) = Some v"
        by (simp add: cm_view_def)
    qed
    then show ?thesis using sv fo eq by simp
  qed
  then show "mok m'" "same_config m m'" "region_ok k \<Longrightarrow> mview m' w d' k = mview m w d' k"
    "mcoherent m w \<Longrightarrow> mcoherent m' w"
    "mcoherent m w \<Longrightarrow> res = Some v \<Longrightarrow> map_option core (mview m w d reg) = Some v"
    "res = Some v \<Longrightarrow> region_ok reg \<and> value_ok v"
    "res = Some v \<Longrightarrow> (\<exists>r. cm_cache m' d = Some r \<and> rl_cached r reg = Some v)" by blast+
qed

lemma admit_region_view:
  assumes "mok m" "cm_admit try_lock writer d reg v m w = (res, m', w')"
    "region_ok reg" "value_ok v" "\<forall>r. cm_cache m d = Some r \<longrightarrow> rl_cached r reg = None"
  shows "mok m'" "same_config m m'" "region_ok k \<Longrightarrow> mview m' w' d' k = mview m w d' k"
    "mcoherent m w \<Longrightarrow> map_option core (stored w d reg) = Some v \<Longrightarrow> cm_cache m d \<noteq> None \<Longrightarrow> mcoherent m' w'"
proof -
  obtain b m1 w1 where cf: "cm_cacheForLookup try_lock writer d m w = (b, m1, w1)"
    by (metis prod_cases3)
  note cv = cacheForLookup_view[OF assms(1) cf]
  have hit: "m1 = cm_touch d m" "w1 = w" if "cm_cache m d \<noteq> None"
    using cf that by (auto simp: cm_cacheForLookup_def cm_cache_def)
  have "mok m' \<and> same_config m m' \<and> (\<forall>d' k. region_ok k \<longrightarrow> mview m' w' d' k = mview m w d' k)
    \<and> (mcoherent m w \<longrightarrow> map_option core (stored w d reg) = Some v \<longrightarrow> cm_cache m d \<noteq> None \<longrightarrow> mcoherent m' w')"
  proof (cases "cm_maximum_regions m = 0 \<or> b \<noteq> Some True")
    case True
    then consider "cm_maximum_regions m = 0" | "cm_maximum_regions m \<noteq> 0" "b = None \<or> b = Some False"
      by (cases b) auto
    then show ?thesis using assms cf cv by cases (auto simp: cm_admit_def)
  next
    case False
    then obtain r where r: "cm_cache m1 d = Some r" using cv(5) by auto
    obtain x r2 w2 where ad: "rl_add writer d reg v False r w1 = (x, r2, w2)" by (metis prod_cases3)
    have eq: "res = x" "m' = cm_store d r2 m1" "w' = w2"
      using assms(2) False cf r ad by (auto simp: cm_admit_def cm_cache_def)
    note okr = cm_ok_cache[OF cv(1) r]
    have abs: "rl_cached r reg = None"
    proof (cases "cm_cache m d")
      case None
      then have "r = rl_new (cm_maximum_regions m1) (cm_maximum_bytes m1)"
        using cf r False
        by (auto simp: cm_cacheForLookup_def cm_cache_def[symmetric]
            split: if_splits prod.splits option.splits bool.splits)
      then show ?thesis by (simp add: rl_new_def rl_cached_def)
    next
      case (Some r0)
      with hit r assms(5) show ?thesis by simp
    qed
    note av = admit_view[OF okr assms(3,4) abs ad]
    have st: "rl_capacity r2 = rl_capacity r" "rl_maximum_bytes r2 = rl_maximum_bytes r"
      using rl_add_inv[OF ok_inv[OF okr] ad] by auto
    have fr: "\<forall>d' k. d' \<noteq> d \<longrightarrow> region_ok k \<longrightarrow> stored w2 d' k = stored w1 d' k"
      using av(4) by blast
    note sv = cm_store_view[OF cv(1) r av(1) st fr]
    have "mview m' w' d' k = mview m w d' k" if "region_ok k" for d' k
      using sv(2)[of overlay k] sv(3)[of d' k] av(2)[OF that] cv(3)[OF that, of d'] r that eq
      by (cases "d' = d") (simp_all add: cm_view_def)
    moreover have "mcoherent m' w'"
      if "mcoherent m w" "map_option core (stored w d reg) = Some v" "cm_cache m d \<noteq> None"
    proof -
      have c1: "mcoherent m1 w1" using cv(4) that(1) .
      then have "coherent d r w1" using r by (simp add: cm_coherent_def)
      with av(3) hit(2)[OF that(3)] that(2) have "coherent d r2 w2" by simp
      with sv(4)[OF c1] eq show ?thesis by simp
    qed
    ultimately show ?thesis using sv(1) cv(2) eq by simp
  qed
  then show "mok m'" "same_config m m'" "region_ok k \<Longrightarrow> mview m' w' d' k = mview m w d' k"
    "mcoherent m w \<Longrightarrow> map_option core (stored w d reg) = Some v \<Longrightarrow> cm_cache m d \<noteq> None \<Longrightarrow> mcoherent m' w'"
    by blast+
qed

lemma update_region_view:
  assumes "mok m" "cm_update writer d reg v m w = (res, m', w')" "value_ok v"
  shows "mok m'" "same_config m m'"
    "region_ok k \<Longrightarrow> (d', k) \<noteq> (d, reg) \<Longrightarrow> mview m' w' d' k = mview m w d' k"
    "res = Some True \<Longrightarrow> mview m' w' d reg = Some (overlay v (stored w d reg))"
    "mcoherent m w \<Longrightarrow> res = Some True \<or> length v \<le> cm_maximum_bytes m \<Longrightarrow> mcoherent m' w'"
proof -
  obtain c m1 where f: "cm_find d m = (c, m1)" by force
  note fo = cm_find_ok[OF assms(1) f]
  have "mok m' \<and> same_config m m'
    \<and> (\<forall>d' k. region_ok k \<longrightarrow> (d', k) \<noteq> (d, reg) \<longrightarrow> mview m' w' d' k = mview m w d' k)
    \<and> (res = Some True \<longrightarrow> mview m' w' d reg = Some (overlay v (stored w d reg)))
    \<and> (mcoherent m w \<longrightarrow> res = Some True \<or> length v \<le> cm_maximum_bytes m \<longrightarrow> mcoherent m' w')"
  proof (cases c)
    case None
    then show ?thesis using assms f fo by (auto simp: cm_update_def)
  next
    case (Some r)
    then have r: "cm_cache m1 d = Some r" using fo by simp
    note okr = cm_ok_cache[OF fo(1) r]
    obtain x r2 w2 where up: "rl_update writer d reg v r w = (x, r2, w2)" by (metis prod_cases3)
    have eq: "res = x" "m' = cm_store d r2 m1" "w' = w2"
      using assms(2) f Some up by (auto simp: cm_update_def)
    note uv = update_view[OF okr assms(3) up]
    have st: "rl_capacity r2 = rl_capacity r" "rl_maximum_bytes r2 = rl_maximum_bytes r"
      using rl_update_inv[OF ok_inv[OF okr] up] by auto
    have fr: "\<forall>d' k. d' \<noteq> d \<longrightarrow> region_ok k \<longrightarrow> stored w2 d' k = stored w d' k"
      using uv(5) by blast
    note sv = cm_store_view[OF fo(1) r uv(1) st fr]
    have mb: "rl_maximum_bytes r = cm_maximum_bytes m"
      using cm_cacheE(3)[OF cm_ok_inv[OF fo(1)] r] fo(6) by simp
    have "mview m' w' d' k = mview m w d' k" if "region_ok k" "(d', k) \<noteq> (d, reg)" for d' k
      using sv(2)[of overlay k] sv(3)[of d' k] uv(2)[OF that(1)] r that fo(2) fo(4) eq
      by (cases "d' = d") (simp_all add: cm_view_def)
    moreover have "mview m' w' d reg = Some (overlay v (stored w d reg))" if "res = Some True"
      using sv(2)[of overlay reg] uv(3) that eq by simp
    moreover have "mcoherent m' w'"
      if "mcoherent m w" "res = Some True \<or> length v \<le> cm_maximum_bytes m"
    proof -
      have c1: "mcoherent m1 w" using that fo(3) by simp
      then have "coherent d r w" using r by (simp add: cm_coherent_def)
      from sv(4)[OF c1 uv(4)[OF this]] eq that(2) mb show ?thesis by simp
    qed
    ultimately show ?thesis using sv(1) fo(6) eq by simp
  qed
  then show "mok m'" "same_config m m'"
    "region_ok k \<Longrightarrow> (d', k) \<noteq> (d, reg) \<Longrightarrow> mview m' w' d' k = mview m w d' k"
    "res = Some True \<Longrightarrow> mview m' w' d reg = Some (overlay v (stored w d reg))"
    "mcoherent m w \<Longrightarrow> res = Some True \<or> length v \<le> cm_maximum_bytes m \<Longrightarrow> mcoherent m' w'"
    by (elim conjE, simp)+
qed

lemma flush_document_view:
  assumes "mok m" "cm_flush writer d m w = (res, m', w')"
  shows "mok m'" "same_config m m'" "region_ok k \<Longrightarrow> mview m' w' d' k = mview m w d' k"
    "mcoherent m w \<Longrightarrow> mcoherent m' w'"
    "res = Some True \<Longrightarrow> region_ok k \<Longrightarrow> stored w' d k = mview m w d k"
    "res = Some True \<Longrightarrow> cm_cache m' d = Some r \<Longrightarrow> rl_dirty r = []"
proof -
  obtain c m1 where f: "cm_find d m = (c, m1)" by force
  note fo = cm_find_ok[OF assms(1) f]
  have "mok m' \<and> same_config m m' \<and> (\<forall>d' k. region_ok k \<longrightarrow> mview m' w' d' k = mview m w d' k)
    \<and> (mcoherent m w \<longrightarrow> mcoherent m' w')
    \<and> (res = Some True \<longrightarrow> (\<forall>k. region_ok k \<longrightarrow> stored w' d k = mview m w d k))
    \<and> (\<forall>r. res = Some True \<longrightarrow> cm_cache m' d = Some r \<longrightarrow> rl_dirty r = [])"
  proof (cases c)
    case None
    then show ?thesis using assms f fo by (auto simp: cm_flush_def cm_view_def)
  next
    case (Some r)
    then have r: "cm_cache m1 d = Some r" using fo by simp
    note okr = cm_ok_cache[OF fo(1) r]
    obtain x r2 w2 where fl: "rl_flush writer d r w = (x, r2, w2)" by (metis prod_cases3)
    have eq: "res = x" "m' = cm_store d r2 m1" "w' = w2"
      using assms(2) f Some fl by (auto simp: cm_flush_def)
    note fv = flush_view[OF okr fl]
    note fs = rl_flush_state[OF ok_inv[OF okr] fl]
    have fr: "\<forall>d' k. d' \<noteq> d \<longrightarrow> region_ok k \<longrightarrow> stored w2 d' k = stored w d' k"
      using fv(4) by blast
    note sv = cm_store_view[OF fo(1) r fv(1) fs(3,4) fr]
    have "mview m' w' d' k = mview m w d' k" if "region_ok k" for d' k
      using sv(2)[of overlay k] sv(3)[of d' k] fv(2)[OF that] r that fo(2) fo(4) eq
      by (cases "d' = d") (simp_all add: cm_view_def)
    moreover have "mcoherent m' w'" if "mcoherent m w"
    proof -
      have c1: "mcoherent m1 w" using that fo(3) by simp
      then have "coherent d r w" using r by (simp add: cm_coherent_def)
      from sv(4)[OF c1 fv(3)[OF this]] eq show ?thesis by simp
    qed
    moreover have "stored w' d k = mview m w d k" if "res = Some True" "region_ok k" for k
      using fv(6) that eq r fo(4) by (simp add: cm_view_def)
    ultimately show ?thesis using sv(1) fo(6) eq fs(6) by simp
  qed
  then show "mok m'" "same_config m m'" "region_ok k \<Longrightarrow> mview m' w' d' k = mview m w d' k"
    "mcoherent m w \<Longrightarrow> mcoherent m' w'"
    "res = Some True \<Longrightarrow> region_ok k \<Longrightarrow> stored w' d k = mview m w d k"
    "res = Some True \<Longrightarrow> cm_cache m' d = Some r \<Longrightarrow> rl_dirty r = []" by blast+
qed

end

end
