(* ===== verification/Json_Path.thy ===== *)
theory Json_Path
  imports Json
begin

text \<open>
  \<^verbatim>\<open>cpp/src/memory/MemoryClass.cpp\<close>, the JSON path functions. A path string is parsed into segments;
  the struct \<open>JsonPathSegment\<close>, whose flag says whether its key or its index counts, is the datatype
  of the two cases. Values are found and replaced along the segments.
\<close>

datatype json_path_segment = Key string | Index nat

section \<open>Parsing\<close>

fun scan_literal :: "bool \<Rightarrow> string \<Rightarrow> (string \<times> string) option" where
  \<comment> \<open>the loop that looks for the closing quote: the text up to and with it, and what follows\<close>
  "scan_literal escaped [] = None"
| "scan_literal escaped (c # cs) =
     (if escaped then map_option (\<lambda>(b, r). (c # b, r)) (scan_literal False cs)
      else if c = backslash then map_option (\<lambda>(b, r). (c # b, r)) (scan_literal True cs)
      else if c = quote then Some ([c], cs)
      else map_option (\<lambda>(b, r). (c # b, r)) (scan_literal False cs))"

definition key_char :: "char \<Rightarrow> bool" where
  "key_char c \<longleftrightarrow> c \<noteq> CHR ''.'' \<and> c \<noteq> CHR ''[''"

definition reserved_char :: "char \<Rightarrow> bool" where
  "reserved_char c \<longleftrightarrow> c \<in> set ''*:?@()''"

lemma scan_literal_length: "scan_literal e cs = Some (b, r) \<Longrightarrow> length r < length cs"
  by (induction e cs arbitrary: b r rule: scan_literal.induct) (fastforce split: if_splits)+

lemma drop_digits_length: "dropWhile P cs = c # r \<Longrightarrow> length r < length cs"
  by (metis Suc_le_lessD length_Cons length_dropWhile_le)

function parse_segments :: "json_lib \<Rightarrow> string \<Rightarrow> json_path_segment list option" where
  "parse_segments L cs =
     (case cs of
        [] \<Rightarrow> Some []
      | c # rest \<Rightarrow>
          if c = CHR ''.'' then
            (let key = takeWhile key_char rest in
             if key = [] then None
             else if list_ex reserved_char key then None
             else map_option ((#) (Key key)) (parse_segments L (dropWhile key_char rest)))
          else if c \<noteq> CHR ''['' then None
          else if rest \<noteq> [] \<and> hd rest = quote then
            (case scan_literal False (tl rest) of
               Some (body, close # after) \<Rightarrow>
                 if close \<noteq> CHR '']'' then None
                 else (case jl_parse L (quote # body) of
                         Some (JStr key) \<Rightarrow> map_option ((#) (Key key)) (parse_segments L after)
                       | _ \<Rightarrow> None)
             | _ \<Rightarrow> None)
          else
            (case dropWhile isdigit rest of
               close # after \<Rightarrow>
                 (let digits = takeWhile isdigit rest in
                  if digits = [] \<or> close \<noteq> CHR '']'' then None
                  else if digits_value digits > uint64_max then None
                  else map_option ((#) (Index (digits_value digits))) (parse_segments L after))
             | [] \<Rightarrow> None))"
  by pat_completeness auto
termination
proof (relation "measure (\<lambda>(L, cs). length cs)", goal_cases)
  case (2 L cs c rest)
  then show ?case by (auto simp: less_Suc_eq_le length_dropWhile_le)
next
  case (3 L cs c rest p body r close after j key)
  then have "length (close # after) < length (tl rest)" using scan_literal_length by fastforce
  then show ?case using 3 by auto
next
  case (4 L cs c rest close after)
  then show ?case using drop_digits_length by fastforce
qed simp

declare parse_segments.simps [simp del]

definition parseJsonPath :: "json_lib \<Rightarrow> string \<Rightarrow> json_path_segment list option" where
  "parseJsonPath L path =
     (if path = [] \<or> hd path \<noteq> CHR ''$'' then None else parse_segments L (tl path))"

definition canonical_segment :: "json_lib \<Rightarrow> json_path_segment \<Rightarrow> string" where
  "canonical_segment L s =
     (case s of
        Index i \<Rightarrow> ''['' @ to_string i @ '']''
      | Key k \<Rightarrow> ''['' @ jl_dump L (JStr k) @ '']'')"

definition canonical :: "json_lib \<Rightarrow> json_path_segment list \<Rightarrow> string" where
  "canonical L segments = ''$'' @ concat (map (canonical_segment L) segments)"

section \<open>Finding and replacing values\<close>

fun findJsonPathValue :: "json \<Rightarrow> json_path_segment list \<Rightarrow> json option" where
  "findJsonPathValue current [] = Some current"
| "findJsonPathValue current (Index i # segments) =
     (case current of
        JArr xs \<Rightarrow> if i \<ge> length xs then None else findJsonPathValue (xs ! i) segments
      | _ \<Rightarrow> None)"
| "findJsonPathValue current (Key k # segments) =
     (case current of
        JObj ms \<Rightarrow> (case map_of ms k of None \<Rightarrow> None | Some v \<Rightarrow> findJsonPathValue v segments)
      | _ \<Rightarrow> None)"

fun setJsonPathValue :: "json \<Rightarrow> json_path_segment list \<Rightarrow> json \<Rightarrow> json option" where
  "setJsonPathValue root [] value = Some value"
| "setJsonPathValue root [Index i] value =
     (case root of JArr xs \<Rightarrow> if i \<ge> length xs then None else Some (JArr (xs[i := value]))
      | _ \<Rightarrow> None)"
| "setJsonPathValue root [Key k] value =
     (case root of JObj ms \<Rightarrow> Some (JObj (obj_put k value ms)) | _ \<Rightarrow> None)"
| "setJsonPathValue root (Index i # s # segments) value =
     (case root of
        JArr xs \<Rightarrow> if i \<ge> length xs then None
          else map_option (\<lambda>x. JArr (xs[i := x])) (setJsonPathValue (xs ! i) (s # segments) value)
      | _ \<Rightarrow> None)"
| "setJsonPathValue root (Key k # s # segments) value =
     (case root of
        JObj ms \<Rightarrow>
          (case map_of ms k of
             None \<Rightarrow> None
           | Some v \<Rightarrow>
               map_option (\<lambda>x. JObj (obj_put k x ms)) (setJsonPathValue v (s # segments) value))
      | _ \<Rightarrow> None)"

definition path_result :: "json_lib \<Rightarrow> json \<Rightarrow> json_path_segment list \<Rightarrow> string" where
  \<comment> \<open>the function \<open>result\<close>\<close>
  "path_result L value path =
     (case findJsonPathValue value path of
        Some found \<Rightarrow> jl_dump L (JArr [found])
      | None \<Rightarrow> ''[]'')"

section \<open>Round trip of canonical paths\<close>

lemma scan_literal_body:
  "literal_body e body \<Longrightarrow> scan_literal e (body @ quote # rest) = Some (body @ [quote], rest)"
  by (induction e body rule: literal_body.induct) (auto split: if_splits)

lemma takeWhile_digits: "\<forall>c \<in> set ds. isdigit c \<Longrightarrow> \<not> isdigit x \<Longrightarrow>
    takeWhile isdigit (ds @ x # rest) = ds \<and> dropWhile isdigit (ds @ x # rest) = x # rest"
  by (induction ds) auto

lemma not_isdigit_bracket [simp]: "\<not> isdigit (CHR '']'')" "\<not> isdigit quote"
  by (simp_all add: isdigit_def code_of_def)

definition segment_ok :: "json_path_segment \<Rightarrow> bool" where
  "segment_ok s = (case s of Index i \<Rightarrow> i \<le> uint64_max | Key _ \<Rightarrow> True)"

lemma parse_canonical_segment:
  assumes "json_lib_ok L" "segment_ok s"
  shows "parse_segments L (canonical_segment L s @ rest) = map_option ((#) s) (parse_segments L rest)"
proof (cases s)
  case (Key k)
  obtain body where b: "jl_dump L (JStr k) = quote # body @ [quote]" "literal_body False body"
    using json_lib_okD(3)[OF assms(1)] by blast
  have "scan_literal False (body @ quote # CHR '']'' # rest) = Some (body @ [quote], CHR '']'' # rest)"
    using scan_literal_body[OF b(2)] by simp
  moreover have "jl_parse L (quote # body @ [quote]) = Some (JStr k)"
    using json_lib_okD(1)[OF assms(1), of "JStr k"] b(1) by simp
  ultimately show ?thesis
    using Key b(1) by (subst parse_segments.simps) (simp add: canonical_segment_def)
next
  case (Index i)
  have d: "\<forall>c \<in> set (to_string i). isdigit c" by (rule to_string_digits)
  have nq: "hd (to_string i @ CHR '']'' # rest) \<noteq> quote"
    using d by (cases "to_string i") auto
  have le: "\<not> uint64_max < i" using assms(2) Index by (simp add: segment_ok_def)
  show ?thesis
    using Index nq takeWhile_digits[OF d not_isdigit_bracket(1), of rest] le
    by (subst parse_segments.simps) (simp add: canonical_segment_def Let_def)
qed

lemma parse_canonical:
  assumes "json_lib_ok L" "list_all segment_ok segs"
  shows "parseJsonPath L (canonical L segs) = Some segs"
proof -
  have "parse_segments L (concat (map (canonical_segment L) segs)) = Some segs"
    using assms(2)
  proof (induction segs)
    case Nil
    then show ?case by (simp add: parse_segments.simps)
  next
    case (Cons s segs)
    then show ?case by (simp add: parse_canonical_segment[OF assms(1)])
  qed
  then show ?thesis by (simp add: parseJsonPath_def canonical_def)
qed

lemma parse_segments_ok: "parse_segments L cs = Some segs \<Longrightarrow> list_all segment_ok segs"
proof (induction L cs arbitrary: segs rule: parse_segments.induct)
  case (1 L cs)
  show ?case
  proof (cases cs)
    case Nil
    with 1(4) show ?thesis by (simp add: parse_segments.simps)
  next
    case (Cons c rest)
    note e = 1(4)[unfolded parse_segments.simps[of L cs]]
    consider (dot) "c = CHR ''.''" | (quoted) "c = CHR ''[''" "rest \<noteq> [] \<and> hd rest = quote"
      | (index) "c = CHR ''[''" "\<not> (rest \<noteq> [] \<and> hd rest = quote)"
      | (bad) "c \<noteq> CHR ''.''" "c \<noteq> CHR ''[''" by blast
    then show ?thesis
    proof cases
      case dot
      with e 1(1)[OF Cons] Cons show ?thesis
        by (auto simp: Let_def segment_ok_def split: if_splits)
    next
      case quoted
      with e 1(2)[OF Cons] Cons show ?thesis
        by (auto simp: segment_ok_def split: if_splits option.splits list.splits json.splits)
    next
      case index
      with e 1(3)[OF Cons] Cons show ?thesis
        by (auto simp: Let_def segment_ok_def split: if_splits list.splits)
    next
      case bad
      with e Cons show ?thesis by simp
    qed
  qed
qed

lemma parseJsonPath_ok: "parseJsonPath L path = Some segs \<Longrightarrow> list_all segment_ok segs"
  by (auto simp: parseJsonPath_def parse_segments_ok split: if_splits)

lemma canonical_inject:
  assumes "json_lib_ok L" "list_all segment_ok p" "list_all segment_ok q"
  shows "canonical L p = canonical L q \<longleftrightarrow> p = q"
  using parse_canonical[OF assms(1,2)] parse_canonical[OF assms(1,3)] by (metis option.inject)

section \<open>Laws of finding and replacing\<close>

text \<open>Two paths diverge when neither is a prefix of the other.\<close>

fun diverge :: "json_path_segment list \<Rightarrow> json_path_segment list \<Rightarrow> bool" where
  "diverge (s # p) (t # q) \<longleftrightarrow> s \<noteq> t \<or> diverge p q"
| "diverge _ _ \<longleftrightarrow> False"

lemma diverge_same_length: "length p = length q \<Longrightarrow> p \<noteq> q \<Longrightarrow> diverge p q"
  by (induction p q rule: diverge.induct) auto

lemma set_Key_Cons_iff: "setJsonPathValue j (Key k # s # p) v = Some j' \<longleftrightarrow>
    (\<exists>ms x x'. j = JObj ms \<and> map_of ms k = Some x \<and> setJsonPathValue x (s # p) v = Some x'
       \<and> j' = JObj (obj_put k x' ms))"
  by (auto split: json.splits option.splits)

lemma set_Index_Cons_iff: "setJsonPathValue j (Index i # s # p) v = Some j' \<longleftrightarrow>
    (\<exists>xs x'. j = JArr xs \<and> i < length xs \<and> setJsonPathValue (xs ! i) (s # p) v = Some x'
       \<and> j' = JArr (xs[i := x']))"
  by (auto split: json.splits if_splits)

lemma find_set_same: "setJsonPathValue j p v = Some j' \<Longrightarrow> findJsonPathValue j' p = Some v"
  by (induction j p v arbitrary: j' rule: setJsonPathValue.induct)
    (auto split: json.splits if_splits option.splits)

lemma find_set_diverge:
  "setJsonPathValue j p v = Some j' \<Longrightarrow> diverge p q \<Longrightarrow> findJsonPathValue j' q = findJsonPathValue j q"
proof (induction j p v arbitrary: j' q rule: setJsonPathValue.induct)
  case (2 root i val)
  then show ?case by (cases q rule: list.exhaust; cases "hd q") (auto split: json.splits if_splits)
next
  case (3 root k val)
  then show ?case by (cases q rule: list.exhaust; cases "hd q") (auto split: json.splits if_splits)
next
  case (4 root i s segments val)
  then obtain xs x' where r: "root = JArr xs" "i < length xs"
      "setJsonPathValue (xs ! i) (s # segments) val = Some x'" "j' = JArr (xs[i := x'])"
    using set_Index_Cons_iff by blast
  obtain t q' where q: "q = t # q'" using 4(3) by (cases q) auto
  have "findJsonPathValue x' q' = findJsonPathValue (xs ! i) q'" if "t = Index i"
    using 4(1)[OF r(1) _ r(3)] 4(3) q r(2) that by simp
  then show ?case using q r by (cases t) (auto simp: nth_list_update)
next
  case (5 root k s segments val)
  then obtain ms x x' where r: "root = JObj ms" "map_of ms k = Some x"
      "setJsonPathValue x (s # segments) val = Some x'" "j' = JObj (obj_put k x' ms)"
    using set_Key_Cons_iff by blast
  obtain t q' where q: "q = t # q'" using 5(3) by (cases q) auto
  have "findJsonPathValue x' q' = findJsonPathValue x q'" if "t = Key k"
    using 5(1)[OF r(1,2) r(3)] 5(3) q that by simp
  then show ?case using q r by (cases t) auto
qed auto

lemma set_wf: "setJsonPathValue j p v = Some j' \<Longrightarrow> json_wf j \<Longrightarrow> json_wf v \<Longrightarrow> json_wf j'"
proof (induction j p v arbitrary: j' rule: setJsonPathValue.induct)
  case (2 root i val)
  then show ?case by (auto split: json.splits if_splits intro: json_wf_update)
next
  case (3 root k val)
  then show ?case by (auto split: json.splits if_splits intro: json_wf_put)
next
  case (4 root i s segments val)
  then obtain xs x' where r: "root = JArr xs" "i < length xs"
      "setJsonPathValue (xs ! i) (s # segments) val = Some x'" "j' = JArr (xs[i := x'])"
    using set_Index_Cons_iff by blast
  have "json_wf x'" using 4(1)[OF r(1) _ r(3)] 4(3,4) r(1,2) by simp
  then show ?case using json_wf_update 4(3) r by blast
next
  case (5 root k s segments val)
  then obtain ms x x' where r: "root = JObj ms" "map_of ms k = Some x"
      "setJsonPathValue x (s # segments) val = Some x'" "j' = JObj (obj_put k x' ms)"
    using set_Key_Cons_iff by blast
  have "json_wf x'" using 5(1)[OF r(1,2) r(3)] json_wf_lookup 5(3,4) r(1,2) by blast
  then show ?case using json_wf_put 5(3) r by blast
qed auto

lemma find_wf: "findJsonPathValue j p = Some v \<Longrightarrow> json_wf j \<Longrightarrow> json_wf v"
proof (induction j p rule: findJsonPathValue.induct)
  case (3 current k segments)
  then show ?case
    by (auto split: json.splits option.splits simp del: json_wf.simps dest: json_wf_lookup)
qed (auto split: json.splits if_splits)

lemma set_found_same:
  "findJsonPathValue j p = Some v \<Longrightarrow> json_wf j \<Longrightarrow> setJsonPathValue j p v = Some j"
proof (induction j p v rule: setJsonPathValue.induct)
  case (3 root k val)
  then show ?case by (auto split: json.splits option.splits simp: obj_put_present_same)
next
  case (5 root k s segments val)
  then obtain ms w where r: "root = JObj ms" "map_of ms k = Some w"
    by (auto split: json.splits option.splits)
  have "setJsonPathValue w (s # segments) val = Some w"
    using 5 r json_wf_lookup by (auto simp del: json_wf.simps)
  with r 5 show ?case by (auto simp: obj_put_present_same)
qed (auto split: json.splits if_splits)

lemma set_succeeds_if_found:
  "findJsonPathValue j p \<noteq> None \<Longrightarrow> \<exists>j'. setJsonPathValue j p v = Some j'"
  by (induction j p v rule: setJsonPathValue.induct)
    (auto split: json.splits if_splits option.splits)

text \<open>A value found through a prefix is found in the value of the prefix.\<close>

lemma find_append: "findJsonPathValue j (p @ q) =
    (case findJsonPathValue j p of None \<Rightarrow> None | Some x \<Rightarrow> findJsonPathValue x q)"
  by (induction j p rule: findJsonPathValue.induct) (auto split: json.splits option.splits)

lemma diverge_append: "diverge p q \<Longrightarrow> diverge (p @ r) q"
  by (induction p q rule: diverge.induct) auto

text \<open>Setting below a prefix sets inside the value of the prefix.\<close>

lemma set_append:
  assumes "setJsonPathValue j (p @ q) v = Some j'" "q \<noteq> []"
  shows "\<exists>x x'. findJsonPathValue j p = Some x \<and> setJsonPathValue x q v = Some x'
    \<and> findJsonPathValue j' p = Some x'"
  using assms(1)
proof (induction p arbitrary: j j')
  case (Cons s p)
  obtain t r where t: "p @ q = t # r" using assms(2) by (cases "p @ q") auto
  show ?case
  proof (cases s)
    case (Key k)
    then obtain ms y y' where y: "j = JObj ms" "map_of ms k = Some y"
        "setJsonPathValue y (p @ q) v = Some y'" "j' = JObj (obj_put k y' ms)"
      using Cons.prems t set_Key_Cons_iff[of j k t r v j'] by auto
    with Cons.IH[OF y(3)] Key show ?thesis by simp
  next
    case (Index i)
    then obtain xs y' where y: "j = JArr xs" "i < length xs"
        "setJsonPathValue (xs ! i) (p @ q) v = Some y'" "j' = JArr (xs[i := y'])"
      using Cons.prems t set_Index_Cons_iff[of j i t r v j'] by auto
    with Cons.IH[OF y(3)] Index show ?thesis by simp
  qed
qed auto

end
