(* ===== verification/Memory_Class.thy ===== *)
theory Memory_Class
  imports Cache_Manager Json_Path Json_Codec
begin

text \<open>
  \<^verbatim>\<open>cpp/src/memory/MemoryClass.cpp\<close>, \<open>MemoryClass\<close>: RedisJSON documents behind the write-back region
  cache. The first \<open>region_depth\<close> segments of a path name its region; the values of the fields that
  \<open>remote_fields\<close> names for a region stay in Redis and are not cached.

  The Redis transport is a parameter: \<open>me_exec\<close> is \<open>RedisMemory::execute\<close>, a function from a command
  to a reply (\<open>None\<close> for a transport failure) and the new state of the server. \<open>me_lib\<close> is the JSON
  library. Every operation holds the stripe lock of its document for its whole body and so is one
  step; its result is \<open>None\<close> when an exception leaves it.
\<close>

section \<open>State and transport\<close>

type_synonym 'w executor = "string list \<Rightarrow> 'w \<Rightarrow> string option \<times> 'w"

record mc_options =
  mo_maximum_documents :: nat
  mo_entries_per_document :: nat
  mo_maximum_entry_bytes :: nat
  mo_region_depth :: nat
  mo_remote_fields :: "json \<Rightarrow> string list"

definition default_options :: mc_options where
  "default_options = \<lparr>mo_maximum_documents = 256, mo_entries_per_document = 64,
     mo_maximum_entry_bytes = 256 * 1024, mo_region_depth = 0, mo_remote_fields = (\<lambda>_. [])\<rparr>"

record 'w mc_env =
  me_lib :: json_lib
  me_exec :: "'w executor"
  me_options :: mc_options

definition createState :: "mc_options \<Rightarrow> cache_manager" where
  "createState options = cm_new (mo_maximum_documents options) (mo_entries_per_document options)
     (mo_maximum_entry_bytes options)"

fun starts_with :: "string \<Rightarrow> string \<Rightarrow> bool" where
  "starts_with [] s \<longleftrightarrow> True"
| "starts_with (c # cs) [] \<longleftrightarrow> False"
| "starts_with (c # cs) (d # ds) \<longleftrightarrow> c = d \<and> starts_with cs ds"

fun has_substring :: "string \<Rightarrow> string \<Rightarrow> bool" where
  \<comment> \<open>\<open>find(text) != npos\<close>\<close>
  "has_substring t [] \<longleftrightarrow> t = []"
| "has_substring t (c # cs) \<longleftrightarrow> starts_with t (c # cs) \<or> has_substring t cs"

definition reply_error :: "string option \<Rightarrow> bool" where
  \<comment> \<open>the function \<open>error\<close>\<close>
  "reply_error reply \<longleftrightarrow>
     (case reply of None \<Rightarrow> True | Some r \<Rightarrow> r = [] \<or> hd r = CHR 0x01)"

definition wrongtype :: "string option \<Rightarrow> bool" where
  "wrongtype reply \<longleftrightarrow> (case reply of None \<Rightarrow> False | Some r \<Rightarrow> has_substring ''WRONGTYPE'' r)"

definition stoll :: "string \<Rightarrow> int option" where
  \<comment> \<open>\<open>std::stoll\<close>: leading blanks, a sign, digits; \<open>None\<close> for its exceptions\<close>
  "stoll s =
     (let t = dropWhile isspace s;
          negative = (t \<noteq> [] \<and> hd t = CHR ''-'');
          u = (if t \<noteq> [] \<and> (hd t = CHR ''-'' \<or> hd t = CHR ''+'') then tl t else t);
          digits = takeWhile isdigit u;
          n = int (digits_value digits);
          v = (if negative then - n else n)
      in if digits = [] \<or> v < - (2 ^ 63) \<or> v \<ge> 2 ^ 63 then None else Some v)"

section \<open>Impl\<close>

definition mc_remote :: "mc_options \<Rightarrow> json \<Rightarrow> string list" where
  "mc_remote options value = mo_remote_fields options value"

definition mc_project :: "mc_options \<Rightarrow> json \<Rightarrow> json" where
  "mc_project options value =
     (case value of
        JObj ms \<Rightarrow> JObj (fold obj_erase (mc_remote options value) ms)
      | _ \<Rightarrow> value)"

definition mc_excluded :: "mc_options \<Rightarrow> json \<Rightarrow> json_path_segment list \<Rightarrow> bool" where
  "mc_excluded options value relative \<longleftrightarrow>
     (let fields = mc_remote options value in
      fields \<noteq> [] \<and>
      (case relative of [] \<Rightarrow> True | Index _ # _ \<Rightarrow> False | Key k # _ \<Rightarrow> k \<in> set fields))"

definition mc_raw :: "'w mc_env \<Rightarrow> string \<Rightarrow> string \<Rightarrow> 'w \<Rightarrow> json option \<times> 'w" where
  "mc_raw E key path w =
     (let (reply, w1) = me_exec E [''JSON.GET'', key, path] w in
      if reply_error reply then (None, w1)
      else (case jl_parse (me_lib E) (the reply) of
              Some (JArr (match # _)) \<Rightarrow> (Some match, w1)
            | _ \<Rightarrow> (None, w1)))"

definition merge_field :: "json \<Rightarrow> string \<Rightarrow> (string \<times> json) list \<Rightarrow> (string \<times> json) list" where
  "merge_field original field ms =
     (if map_of ms field = None then
        (case jget original field of None \<Rightarrow> ms | Some v \<Rightarrow> obj_put field v ms)
      else ms)"

definition mc_merge :: "mc_options \<Rightarrow> json \<Rightarrow> json \<Rightarrow> json" where
  "mc_merge options cached original =
     (case (cached, original) of
        (JObj ms, JObj _) \<Rightarrow> JObj (fold (merge_field original) (mc_remote options cached) ms)
      | _ \<Rightarrow> cached)"

definition mc_writeBack :: "'w mc_env \<Rightarrow> 'w region_writer" where
  "mc_writeBack E key path value w =
     (case jl_parse (me_lib E) value of
        None \<Rightarrow> (None, w)
      | Some parsed \<Rightarrow>
          (let set_value = (\<lambda>v w1. let (reply, w2) =
                 me_exec E [''JSON.SET'', key, path, jl_dump (me_lib E) v] w1
                 in (Some (reply = Some ''OK''), w2))
           in if mc_remote (me_options E) parsed \<noteq> [] then
                (case mc_raw E key path w of
                   (None, w1) \<Rightarrow> (Some False, w1)
                 | (Some current, w1) \<Rightarrow> set_value (mc_merge (me_options E) parsed current) w1)
              else set_value parsed w))"

definition mc_region ::
  "'w mc_env \<Rightarrow> string \<Rightarrow> (string \<times> json_path_segment list) option" where
  "mc_region E path =
     (case parseJsonPath (me_lib E) path of
        None \<Rightarrow> None
      | Some segments \<Rightarrow>
          (let depth = mo_region_depth (me_options E) in
           if length segments < depth then None
           else Some (canonical (me_lib E) (take depth segments), drop depth segments)))"

definition mc_invalidate :: "'w mc_env \<Rightarrow> string \<Rightarrow> string \<Rightarrow> cache_manager \<Rightarrow> cache_manager" where
  "mc_invalidate E key path m =
     (case mc_region E path of
        None \<Rightarrow> cm_removeDocument key m
      | Some (parent, _) \<Rightarrow> cm_removeRegion key parent m)"

fun mc_overlay ::
  "'w mc_env \<Rightarrow> (string \<times> string) list \<Rightarrow> json \<Rightarrow> json option" where
  \<comment> \<open>the loop of \<open>document\<close> over the dirty regions; \<open>None\<close> also for its exceptions, which it catches\<close>
  "mc_overlay E [] value = Some value"
| "mc_overlay E ((path, serialized) # rest) value =
     (case jl_parse (me_lib E) serialized of
        None \<Rightarrow> None
      | Some updated \<Rightarrow>
          (let segments = (case parseJsonPath (me_lib E) path of Some s \<Rightarrow> s | None \<Rightarrow> []);
               updated' = (case findJsonPathValue value segments of
                             Some original \<Rightarrow> mc_merge (me_options E) updated original
                           | None \<Rightarrow> updated)
           in case setJsonPathValue value segments updated' of
                None \<Rightarrow> None
              | Some value' \<Rightarrow> mc_overlay E rest value'))"

definition mc_document ::
  "'w mc_env \<Rightarrow> string \<Rightarrow> cache_manager \<Rightarrow> 'w \<Rightarrow> string option \<times> cache_manager \<times> 'w" where
  "mc_document E key m w =
     (let (reply0, w0) = me_exec E [''JSON.GET'', key] w;
          (reply, w1) = (if wrongtype reply0 then me_exec E [''GET'', key] w0 else (reply0, w0))
      in if reply_error reply then (None, m, w1)
         else case jl_parse (me_lib E) (the reply) of
           None \<Rightarrow> (None, m, w1)
         | Some value \<Rightarrow>
             (let (dirty, m1) = cm_dirtyRegions key m in
              (map_option (jl_dump (me_lib E)) (mc_overlay E dirty value), m1, w1)))"

section \<open>Public operations\<close>

definition mc_ping :: "'w mc_env \<Rightarrow> 'w \<Rightarrow> bool \<times> 'w" where
  "mc_ping E w = (let (reply, w1) = me_exec E [''PING''] w in (reply = Some ''PONG'', w1))"

definition mc_get_reply :: "'w mc_env \<Rightarrow> string \<Rightarrow> string \<Rightarrow> 'w \<Rightarrow> string option \<times> 'w" where
  \<comment> \<open>\<open>reply = execute(JSON.GET key path); return error(reply) ? nullopt : reply\<close>\<close>
  "mc_get_reply E key path w =
     (let (reply, w1) = me_exec E [''JSON.GET'', key, path] w
      in (if reply_error reply then None else reply, w1))"

definition mc_read_path ::
  "'w mc_env \<Rightarrow> (string \<Rightarrow> bool) \<Rightarrow> string \<Rightarrow> string \<Rightarrow> cache_manager \<Rightarrow> 'w
   \<Rightarrow> string option option \<times> cache_manager \<times> 'w" where
  "mc_read_path E try_lock key path m w =
     (case mc_region E path of
        None \<Rightarrow>
          (case parseJsonPath (me_lib E) path of
             Some segments \<Rightarrow>
               (case mc_document E key m w of
                  (None, m1, w1) \<Rightarrow> (Some None, m1, w1)
                | (Some doc, m1, w1) \<Rightarrow>
                    (case jl_parse (me_lib E) doc of
                       None \<Rightarrow> (None, m1, w1)
                     | Some j \<Rightarrow> (Some (Some (path_result (me_lib E) j segments)), m1, w1)))
           | None \<Rightarrow>
               (case cm_flush (mc_writeBack E) key m w of
                  (None, m1, w1) \<Rightarrow> (None, m1, w1)
                | (Some False, m1, w1) \<Rightarrow> (Some None, m1, w1)
                | (Some True, m1, w1) \<Rightarrow>
                    (let (reply, w2) = mc_get_reply E key path w1 in (Some reply, m1, w2))))
      | Some (parent, relative) \<Rightarrow>
          (case cm_lookup try_lock (mc_writeBack E) key parent m w of
             (None, m1, w1) \<Rightarrow> (None, m1, w1)
           | (Some lookup, m1, w1) \<Rightarrow>
               (case cl_value lookup of
                  Some cached \<Rightarrow>
                    (case jl_parse (me_lib E) cached of
                       None \<Rightarrow> (None, m1, w1)
                     | Some value \<Rightarrow>
                         if \<not> mc_excluded (me_options E) value relative then
                           (Some (Some (path_result (me_lib E) value relative)), m1, w1)
                         else
                           (case mc_raw E key parent w1 of
                              (None, w2) \<Rightarrow> (Some None, m1, w2)
                            | (Some current, w2) \<Rightarrow>
                                (Some (Some (path_result (me_lib E)
                                   (mc_merge (me_options E) value current) relative)), m1, w2)))
                | None \<Rightarrow>
                    if cl_admit_on_miss lookup then
                      (case mc_raw E key parent w1 of
                         (None, w2) \<Rightarrow>
                           (let (reply, w3) = mc_get_reply E key path w2 in (Some reply, m1, w3))
                       | (Some value, w2) \<Rightarrow>
                           (case cm_admit try_lock (mc_writeBack E) key parent
                                   (jl_dump (me_lib E) (mc_project (me_options E) value)) m1 w2 of
                              (None, m2, w3) \<Rightarrow> (None, m2, w3)
                            | (Some _, m2, w3) \<Rightarrow>
                                (Some (Some (path_result (me_lib E) value relative)), m2, w3)))
                    else
                      (let (reply, w2) = mc_get_reply E key path w1 in (Some reply, m1, w2)))))"

definition mc_read ::
  "'w mc_env \<Rightarrow> (string \<Rightarrow> bool) \<Rightarrow> string \<Rightarrow> cache_manager \<Rightarrow> 'w
   \<Rightarrow> string option option \<times> cache_manager \<times> 'w" where
  "mc_read E try_lock key m w =
     (if mo_region_depth (me_options E) = 0 then
        (case mc_read_path E try_lock key ''$'' m w of
           (Some (Some text), m1, w1) \<Rightarrow>
             (Some (case jl_parse (me_lib E) text of
                      Some j \<Rightarrow> (case elements j of [] \<Rightarrow> None
                                 | match # _ \<Rightarrow> Some (jl_dump (me_lib E) match))
                    | None \<Rightarrow> None), m1, w1)
         | res \<Rightarrow> res)
      else (let (text, m1, w1) = mc_document E key m w in (Some text, m1, w1)))"

definition mc_write_through ::
  "'w mc_env \<Rightarrow> string \<Rightarrow> json \<Rightarrow> string \<Rightarrow> cache_manager \<Rightarrow> 'w
   \<Rightarrow> bool option \<times> cache_manager \<times> 'w" where
  "mc_write_through E key value path m w =
     (let set_command = [''JSON.SET'', key, path, jl_dump (me_lib E) value];
          finish = (\<lambda>reply w1. if reply = Some ''OK'' then (Some True, mc_invalidate E key path m, w1)
                               else (Some False, m, w1));
          (reply, w1) = me_exec E set_command w
      in if path = ''$'' \<and> wrongtype reply then
           (let (deleted, w2) = me_exec E [''DEL'', key] w1 in
            if reply_error deleted then (Some False, m, w2)
            else (let (reply2, w3) = me_exec E set_command w2 in finish reply2 w3))
         else finish reply w1)"

definition mc_write ::
  "'w mc_env \<Rightarrow> string \<Rightarrow> json \<Rightarrow> string \<Rightarrow> cache_manager \<Rightarrow> 'w
   \<Rightarrow> bool option \<times> cache_manager \<times> 'w" where
  "mc_write E key value path m w =
     (let flushed = (\<lambda>m1. case cm_flush (mc_writeBack E) key m1 w of
                       (Some True, m2, w2) \<Rightarrow> mc_write_through E key value path m2 w2
                     | res \<Rightarrow> res)
      in case mc_region E path of
        None \<Rightarrow> flushed m
      | Some (parent, relative) \<Rightarrow>
          (case cm_get key parent m of
             (None, m1) \<Rightarrow> mc_write_through E key value path m1 w
           | (Some cached, m1) \<Rightarrow>
               (case jl_parse (me_lib E) cached of
                  None \<Rightarrow> (None, m1, w)
                | Some updated \<Rightarrow>
                    if (\<not> mc_excluded (me_options E) updated relative \<or> relative = [])
                       \<and> \<not> (relative = [] \<and> is_object value
                            \<and> list_ex (contains value) (mc_remote (me_options E) updated))
                    then
                      (case setJsonPathValue updated relative value of
                         None \<Rightarrow> (Some False, m1, w)
                       | Some updated' \<Rightarrow>
                           cm_update (mc_writeBack E) key parent
                             (jl_dump (me_lib E) (mc_project (me_options E) updated')) m1 w)
                    else flushed m1)))"

definition mc_flush ::
  "'w mc_env \<Rightarrow> string \<Rightarrow> cache_manager \<Rightarrow> 'w \<Rightarrow> bool option \<times> cache_manager \<times> 'w" where
  "mc_flush E key m w = cm_flush (mc_writeBack E) key m w"

definition reply_negative :: "string option \<Rightarrow> bool" where
  \<comment> \<open>\<open>error(reply)\<close>, or \<open>std::stoll(*reply)\<close> negative or throwing\<close>
  "reply_negative reply \<longleftrightarrow> reply_error reply
     \<or> (case stoll (the reply) of None \<Rightarrow> True | Some n \<Rightarrow> n < 0)"

definition is_index :: "json_path_segment \<Rightarrow> bool" where
  "is_index s = (case s of Index _ \<Rightarrow> True | Key _ \<Rightarrow> False)"

definition mc_erase ::
  "'w mc_env \<Rightarrow> string \<Rightarrow> string \<Rightarrow> cache_manager \<Rightarrow> 'w \<Rightarrow> bool option \<times> cache_manager \<times> 'w" where
  "mc_erase E key path m w =
     (let inside = (path \<noteq> ''$'' \<and>
            (case mc_region E path of Some (_, relative) \<Rightarrow> relative \<noteq> [] | None \<Rightarrow> False));
          shifts_array = (case parseJsonPath (me_lib E) path of
                            Some segments \<Rightarrow> list_ex is_index segments | None \<Rightarrow> False);
          flush_if = (\<lambda>b m1 w1. if b then cm_flush (mc_writeBack E) key m1 w1 else (Some True, m1, w1))
      in case flush_if inside m w of
           (Some True, m1, w1) \<Rightarrow>
             (case flush_if shifts_array m1 w1 of
                (Some True, m2, w2) \<Rightarrow>
                  (let (reply, w3) = me_exec E (if path = ''$'' then [''DEL'', key]
                                                else [''JSON.DEL'', key, path]) w2
                   in if reply_negative reply then (Some False, m2, w3)
                      else (Some True,
                            mc_invalidate E key (if shifts_array then ''$'' else path) m2, w3))
              | res \<Rightarrow> res)
         | res \<Rightarrow> res)"

definition mc_executeAtomic ::
  "'w mc_env \<Rightarrow> string \<Rightarrow> string list \<Rightarrow> string list \<Rightarrow> cache_manager \<Rightarrow> 'w
   \<Rightarrow> string option option \<times> cache_manager \<times> 'w" where
  "mc_executeAtomic E key command changed_paths m w =
     (case cm_flush (mc_writeBack E) key m w of
        (None, m1, w1) \<Rightarrow> (None, m1, w1)
      | (Some False, m1, w1) \<Rightarrow> (Some None, m1, w1)
      | (Some True, m1, w1) \<Rightarrow>
          (let (reply, w2) = me_exec E command w1
           in (Some (if reply_error reply then None else reply),
               fold (mc_invalidate E key) changed_paths m1, w2)))"

fun split_words :: "string \<Rightarrow> string \<Rightarrow> string list" where
  \<comment> \<open>\<open>while (stream >> key)\<close>; the second argument is the word being read, reversed\<close>
  "split_words [] word = (if word = [] then [] else [rev word])"
| "split_words (c # cs) word =
     (if isspace c then (if word = [] then split_words cs [] else rev word # split_words cs [])
      else split_words cs (c # word))"

definition mc_erasePattern ::
  "'w mc_env \<Rightarrow> string \<Rightarrow> cache_manager \<Rightarrow> 'w \<Rightarrow> bool \<times> cache_manager \<times> 'w" where
  "mc_erasePattern E pattern m w =
     (let (keys, w1) = me_exec E [''KEYS'', pattern] w in
      case keys of
        None \<Rightarrow> (False, m, w1)
      | Some text \<Rightarrow>
          if text \<noteq> [] \<and> hd text = CHR 0x01 then (False, m, w1)
          else
            (let names = split_words text [] in
             if names = [] then (True, m, w1)
             else
               (let (reply, w2) = me_exec E (''DEL'' # names) w1 in
                if reply_negative reply then (False, m, w2)
                else (True, fold cm_removeDocument names m, w2))))"

end
