(* ===== verification/Memory_Backend.thy ===== *)
theory Memory_Backend
  imports Memory_Class
begin

text \<open>
  The contract between \<open>MemoryClass\<close> and RedisJSON, and the proof that the write-back of a region,
  which merges the remote fields of the stored value into the cached one, implements the storage
  interface \<open>region_backend\<close> that the caches rely on.
\<close>

section \<open>Projection and merging of remote fields\<close>

text \<open>
  The fields that stay remote are a function of the rest of the value: setting or removing one of
  them does not change which fields are remote.
\<close>

definition remote_stable :: "mc_options \<Rightarrow> bool" where
  "remote_stable options \<longleftrightarrow>
     (\<forall>ms f v. f \<in> set (mc_remote options (JObj ms)) \<longrightarrow>
        mc_remote options (JObj (obj_put f v ms)) = mc_remote options (JObj ms)
        \<and> mc_remote options (JObj (obj_erase f ms)) = mc_remote options (JObj ms))"

lemma fold_obj_erase: "fold obj_erase fs ms = filter (\<lambda>m. fst m \<notin> set fs) ms"
  by (induction fs arbitrary: ms) (auto simp: obj_erase_def filter_filter conj_commute)

lemma filter_obj_put: "f \<in> F \<Longrightarrow> filter (\<lambda>m. fst m \<notin> F) (obj_put f v ms) = filter (\<lambda>m. fst m \<notin> F) ms"
  by (induction ms) auto

lemma filter_merge_fields:
  "set fs \<subseteq> F \<Longrightarrow> filter (\<lambda>m. fst m \<notin> F) (fold (merge_field original) fs ms)
     = filter (\<lambda>m. fst m \<notin> F) ms"
  by (induction fs arbitrary: ms)
    (auto simp: merge_field_def filter_obj_put split: option.splits)

lemma remote_stable_put: "remote_stable options \<Longrightarrow> f \<in> set (mc_remote options (JObj ms)) \<Longrightarrow>
    mc_remote options (JObj (obj_put f v ms)) = mc_remote options (JObj ms)"
  by (simp add: remote_stable_def)

lemma remote_stable_erase: "remote_stable options \<Longrightarrow> f \<in> set (mc_remote options (JObj ms)) \<Longrightarrow>
    mc_remote options (JObj (obj_erase f ms)) = mc_remote options (JObj ms)"
  by (simp add: remote_stable_def)

lemma remote_merge_fields:
  assumes "remote_stable options" "set fs \<subseteq> set (mc_remote options (JObj ms))"
  shows "mc_remote options (JObj (fold (merge_field original) fs ms)) = mc_remote options (JObj ms)"
  using assms(2)
proof (induction fs arbitrary: ms)
  case (Cons f fs)
  have "mc_remote options (JObj (merge_field original f ms)) = mc_remote options (JObj ms)"
    using Cons.prems remote_stable_put[OF assms(1)]
    by (auto simp: merge_field_def split: option.splits)
  with Cons show ?case by simp
qed simp

lemma remote_erase_fields:
  assumes "remote_stable options" "set fs \<subseteq> set (mc_remote options (JObj ms))"
  shows "mc_remote options (JObj (fold obj_erase fs ms)) = mc_remote options (JObj ms)"
  using assms(2)
proof (induction fs arbitrary: ms)
  case (Cons f fs)
  then have "mc_remote options (JObj (obj_erase f ms)) = mc_remote options (JObj ms)"
    using remote_stable_erase[OF assms(1)] by auto
  with Cons show ?case by simp
qed simp

lemma mc_project_object: "mc_project options (JObj ms)
    = JObj (filter (\<lambda>m. fst m \<notin> set (mc_remote options (JObj ms))) ms)"
  by (simp add: mc_project_def fold_obj_erase)

lemma remote_project: "remote_stable options \<Longrightarrow>
    mc_remote options (mc_project options j) = mc_remote options j"
  using remote_erase_fields[of options] by (cases j) (simp_all add: mc_project_def)

lemma project_idem: "remote_stable options \<Longrightarrow>
    mc_project options (mc_project options j) = mc_project options j"
  using remote_project[of options j]
  by (cases j) (simp_all add: mc_project_object, simp_all add: mc_project_def)

lemma project_merge:
  assumes "remote_stable options"
  shows "mc_project options (mc_merge options c orig) = mc_project options c"
proof (cases "\<exists>ms os. c = JObj ms \<and> orig = JObj os")
  case True
  then obtain ms os where c: "c = JObj ms" "orig = JObj os" by blast
  then show ?thesis
    using remote_merge_fields[OF assms subset_refl, of orig ms]
    by (simp add: mc_merge_def mc_project_object filter_merge_fields)
next
  case False
  then have "mc_merge options c orig = c" by (cases c; cases orig) (auto simp: mc_merge_def)
  then show ?thesis by simp
qed

lemma project_wf: "json_wf j \<Longrightarrow> json_wf (mc_project options j)"
  using json_wf_erase_all by (cases j) (auto simp: mc_project_def simp del: json_wf.simps)

lemma merge_fields_wf: "json_wf (JObj ms) \<Longrightarrow> json_wf orig \<Longrightarrow>
    json_wf (JObj (fold (merge_field orig) fs ms))"
proof (induction fs arbitrary: ms)
  case (Cons f fs)
  have "json_wf (JObj (merge_field orig f ms))"
    using Cons.prems jget_wf[of orig f]
    by (auto simp: merge_field_def simp del: json_wf.simps split: option.splits)
  with Cons show ?case by simp
qed simp

lemma merge_wf: "json_wf c \<Longrightarrow> json_wf orig \<Longrightarrow> json_wf (mc_merge options c orig)"
  using merge_fields_wf
  by (cases c; cases orig) (auto simp: mc_merge_def simp del: json_wf.simps)

lemma merge_no_remote: "mc_remote options c = [] \<Longrightarrow> mc_merge options c orig = c"
  by (cases c; cases orig) (simp_all add: mc_merge_def)

lemma map_of_merge_fields: "map_of (fold (merge_field orig) fs ms) k =
    (if map_of ms k = None \<and> k \<in> set fs then jget orig k else map_of ms k)"
  by (induction fs arbitrary: ms) (auto simp: merge_field_def split: option.splits)

lemma map_of_filter_notin [simp]:
  "map_of (filter (\<lambda>m. fst m \<notin> F) ms) k = (if k \<in> F then None else map_of ms k)"
  by (induction ms) auto

text \<open>Merging the remote fields back into the projection of a value restores the value.\<close>

lemma merge_project_same:
  assumes "remote_stable options" "json_wf j"
  shows "mc_merge options (mc_project options j) j = j"
proof (cases j)
  case (JObj ms)
  let ?F = "mc_remote options j"
  let ?ps = "filter (\<lambda>m. fst m \<notin> set ?F) ms"
  have p: "mc_project options j = JObj ?ps" using JObj by (simp add: mc_project_object)
  have r: "mc_remote options (JObj ?ps) = ?F" using remote_project[OF assms(1), of j] p by simp
  let ?r = "fold (merge_field j) ?F ?ps"
  have m: "mc_merge options (mc_project options j) j = JObj ?r"
    using p r JObj by (simp add: mc_merge_def)
  have "json_wf (JObj ?r)" using merge_wf[OF project_wf[OF assms(2)] assms(2)] m by metis
  then have "?r = ms"
    using assms(2) JObj by (intro sorted_alist_eq ext) (auto simp: map_of_merge_fields)
  then show ?thesis using m JObj by simp
qed (simp_all add: mc_merge_def mc_project_def)

lemma jget_projected: "mc_project options v = v \<Longrightarrow> f \<in> set (mc_remote options v) \<Longrightarrow> jget v f = None"
proof (cases v)
  case (JObj ms)
  assume p: "mc_project options v = v" and f: "f \<in> set (mc_remote options v)"
  from p JObj have "ms = filter (\<lambda>m. fst m \<notin> set (mc_remote options v)) ms"
    by (simp add: mc_project_object)
  then have "map_of ms f = None" using map_of_filter_notin[of "set (mc_remote options v)" ms f] f by simp
  with JObj show ?thesis by simp
qed (simp_all add: jget_def)

lemma merge_cong:
  "(\<And>f. f \<in> set (mc_remote options v) \<Longrightarrow> jget c f = jget c' f) \<Longrightarrow> is_object c \<Longrightarrow> is_object c' \<Longrightarrow>
    mc_merge options v c = mc_merge options v c'"
  by (cases v) (auto simp: mc_merge_def is_object_iff merge_field_def fun_eq_iff intro!: fold_cong)

lemma merge_idem:
  assumes "mc_project options v = v"
  shows "mc_merge options v (mc_merge options v c) = mc_merge options v c"
proof (cases "\<exists>ms os. v = JObj ms \<and> c = JObj os")
  case True
  then obtain ms os where v: "v = JObj ms" "c = JObj os" by blast
  then have m: "mc_merge options v c = JObj (fold (merge_field c) (mc_remote options v) ms)"
    by (simp add: mc_merge_def)
  have "jget (mc_merge options v c) f = jget c f" if "f \<in> set (mc_remote options v)" for f
    using jget_projected[OF assms that] that v(1) m by (simp add: map_of_merge_fields)
  then show ?thesis using m v by (intro merge_cong) auto
next
  case False
  then have mv: "mc_merge options v c = v" by (cases v; cases c) (auto simp: mc_merge_def)
  show ?thesis
  proof (cases v)
    case (JObj ms)
    have "mc_merge options v v = mc_merge options v (JObj [])"
      using JObj jget_projected[OF assms] by (intro merge_cong) auto
    also have "\<dots> = v"
    proof -
      have "fold (merge_field (JObj [])) fs ms = ms" for fs
        by (induction fs) (auto simp: merge_field_def)
      then show ?thesis using JObj by (simp add: mc_merge_def)
    qed
    finally show ?thesis using mv by simp
  qed (use mv in \<open>simp_all add: mc_merge_def\<close>)
qed

section \<open>The RedisJSON contract\<close>

text \<open>
  What setting a value at a path makes of a document: at the root it creates or replaces the
  document, elsewhere it needs a document that has the parent of the path.
\<close>

definition json_set_effect :: "json option \<Rightarrow> json_path_segment list \<Rightarrow> json \<Rightarrow> json option" where
  "json_set_effect document segments value =
     (if segments = [] then Some value
      else case document of None \<Rightarrow> None | Some j \<Rightarrow> setJsonPathValue j segments value)"

definition json_matches :: "json option \<Rightarrow> json list" where
  "json_matches found = (case found of None \<Rightarrow> [] | Some v \<Rightarrow> [v])"

text \<open>
  The documented behaviour of the commands \<^verbatim>\<open>JSON.GET\<close> and \<^verbatim>\<open>JSON.SET\<close> that the code relies on, for
  paths of names and indices; \<open>doc\<close> reads the document the server holds under a key.
  A read changes no document and, when it is answered, returns the array of the matches. A write
  that is answered with \<^verbatim>\<open>OK\<close> has set the value; a write that is not (an error, a lost connection)
  has either set it or changed nothing. Either command may fail at any time.
\<close>

definition redis_json_ok :: "'w mc_env \<Rightarrow> ('w \<Rightarrow> string \<Rightarrow> json option) \<Rightarrow> bool" where
  "redis_json_ok E doc \<longleftrightarrow>
     json_lib_ok (me_lib E)
     \<and> (\<forall>w key j. doc w key = Some j \<longrightarrow> json_wf j)
     \<and> (\<forall>w key path p reply w'.
          parseJsonPath (me_lib E) path = Some p \<longrightarrow>
          me_exec E [''JSON.GET'', key, path] w = (reply, w') \<longrightarrow>
          doc w' = doc w \<and>
          (\<not> reply_error reply \<longrightarrow>
             (\<exists>j. doc w key = Some j \<and>
                jl_parse (me_lib E) (the reply) = Some (JArr (json_matches (findJsonPathValue j p))))))
     \<and> (\<forall>w key path p text v reply w'.
          parseJsonPath (me_lib E) path = Some p \<longrightarrow> jl_parse (me_lib E) text = Some v \<longrightarrow>
          me_exec E [''JSON.SET'', key, path, text] w = (reply, w') \<longrightarrow>
          (\<forall>key'. key' \<noteq> key \<longrightarrow> doc w' key' = doc w key')
          \<and> (doc w' key = doc w key \<and> reply \<noteq> Some ''OK''
             \<or> (\<exists>j. json_set_effect (doc w key) p v = Some j \<and> doc w' key = Some j)))"

definition mc_stored ::
  "'w mc_env \<Rightarrow> ('w \<Rightarrow> string \<Rightarrow> json option) \<Rightarrow> 'w \<Rightarrow> string \<Rightarrow> string \<Rightarrow> json option" where
  \<comment> \<open>the value the server holds for a region of a document\<close>
  "mc_stored E doc w key region =
     (case (doc w key, parseJsonPath (me_lib E) region) of
        (Some j, Some p) \<Rightarrow> findJsonPathValue j p
      | _ \<Rightarrow> None)"

definition mc_written :: "'w mc_env \<Rightarrow> string \<Rightarrow> json option \<Rightarrow> json" where
  \<comment> \<open>what the write-back of a cached text makes of the stored value\<close>
  "mc_written E text current =
     (case jl_parse (me_lib E) text of
        None \<Rightarrow> JNull
      | Some v \<Rightarrow> (case current of None \<Rightarrow> v | Some c \<Rightarrow> mc_merge (me_options E) v c))"

definition mc_core :: "'w mc_env \<Rightarrow> json \<Rightarrow> string" where
  \<comment> \<open>the text that is cached for a stored value\<close>
  "mc_core E value = jl_dump (me_lib E) (mc_project (me_options E) value)"

definition mc_region_ok :: "'w mc_env \<Rightarrow> string \<Rightarrow> bool" where
  "mc_region_ok E region \<longleftrightarrow>
     (case parseJsonPath (me_lib E) region of
        None \<Rightarrow> False
      | Some p \<Rightarrow> length p = mo_region_depth (me_options E) \<and> canonical (me_lib E) p = region)"

definition mc_value_ok :: "'w mc_env \<Rightarrow> string \<Rightarrow> bool" where
  "mc_value_ok E text \<longleftrightarrow>
     (case jl_parse (me_lib E) text of
        None \<Rightarrow> False
      | Some j \<Rightarrow> jl_dump (me_lib E) j = text \<and> mc_project (me_options E) j = j)"

locale redis_json =
  fixes E :: "'w mc_env" and doc :: "'w \<Rightarrow> string \<Rightarrow> json option"
  assumes contract: "redis_json_ok E doc"
    and stable: "remote_stable (me_options E)"
begin

abbreviation "lib \<equiv> me_lib E"
abbreviation "opts \<equiv> me_options E"

lemma lib_ok: "json_lib_ok lib"
  using contract by (simp add: redis_json_ok_def)

lemmas dump_parse = json_lib_okD(1)[OF lib_ok] and parse_wf = json_lib_okD(2)[OF lib_ok]

lemma doc_wf: "doc w key = Some j \<Longrightarrow> json_wf j"
  using contract unfolding redis_json_ok_def by blast

lemma get_law:
  assumes "parseJsonPath lib path = Some p" "me_exec E [''JSON.GET'', key, path] w = (reply, w')"
  shows "doc w' = doc w"
    "\<not> reply_error reply \<Longrightarrow> \<exists>j. doc w key = Some j \<and>
       jl_parse lib (the reply) = Some (JArr (json_matches (findJsonPathValue j p)))"
  using contract assms unfolding redis_json_ok_def by blast+

lemma set_law:
  assumes "parseJsonPath lib path = Some p" "json_wf v"
    "me_exec E [''JSON.SET'', key, path, jl_dump lib v] w = (reply, w')"
  shows "key' \<noteq> key \<Longrightarrow> doc w' key' = doc w key'"
    "reply = Some ''OK'' \<Longrightarrow> \<exists>j. json_set_effect (doc w key) p v = Some j \<and> doc w' key = Some j"
    "doc w' key = doc w key \<or> (\<exists>j. json_set_effect (doc w key) p v = Some j \<and> doc w' key = Some j)"
  using contract assms(1,3) dump_parse[OF assms(2)] unfolding redis_json_ok_def by blast+

lemma raw_law:
  assumes "parseJsonPath lib path = Some p" "mc_raw E key path w = (res, w')"
  shows "doc w' = doc w"
    "res = Some v \<Longrightarrow> \<exists>j. doc w key = Some j \<and> findJsonPathValue j p = Some v"
proof -
  obtain reply w1 where g: "me_exec E [''JSON.GET'', key, path] w = (reply, w1)" by force
  note law = get_law[OF assms(1) g]
  have "w' = w1" using assms(2) g by (auto simp: mc_raw_def split: if_splits option.splits json.splits list.splits)
  with law(1) show "doc w' = doc w" by simp
  assume v: "res = Some v"
  then have ne: "\<not> reply_error reply" using assms(2) g by (auto simp: mc_raw_def)
  from law(2)[OF this] obtain j where j: "doc w key = Some j"
    "jl_parse lib (the reply) = Some (JArr (json_matches (findJsonPathValue j p)))" by blast
  with v assms(2) g ne have "findJsonPathValue j p = Some v"
    by (auto simp: mc_raw_def json_matches_def split: option.splits)
  with j show "\<exists>j. doc w key = Some j \<and> findJsonPathValue j p = Some v" by blast
qed

lemma region_okE:
  assumes "mc_region_ok E region"
  obtains p where "parseJsonPath lib region = Some p" "length p = mo_region_depth opts"
    "canonical lib p = region"
  using assms by (auto simp: mc_region_ok_def split: option.splits)

lemma value_okE:
  assumes "mc_value_ok E v"
  obtains j where "jl_parse lib v = Some j" "jl_dump lib j = v" "mc_project opts j = j" "json_wf j"
  using assms parse_wf by (auto simp: mc_value_ok_def split: option.splits)

lemma value_ok_dump: "json_wf j \<Longrightarrow> mc_value_ok E (jl_dump lib (mc_project opts j))"
  using dump_parse[OF project_wf, of j opts] project_idem[OF stable]
  by (simp add: mc_value_ok_def)

lemma region_ok_canonical:
  assumes "mc_region E path = Some (parent, relative)"
  obtains p where "parseJsonPath lib path = Some (p @ relative)" "parent = canonical lib p"
    "parseJsonPath lib parent = Some p" "mc_region_ok E parent"
proof -
  obtain segs where segs: "parseJsonPath lib path = Some segs"
    "\<not> length segs < mo_region_depth opts"
    "parent = canonical lib (take (mo_region_depth opts) segs)"
    "relative = drop (mo_region_depth opts) segs"
    using assms by (auto simp: mc_region_def Let_def split: option.splits if_splits)
  have "list_all segment_ok (take (mo_region_depth opts) segs)"
    using parseJsonPath_ok[OF segs(1)] by (auto simp: list_all_iff dest: in_set_takeD)
  with parse_canonical[OF lib_ok] segs
  have "parseJsonPath lib parent = Some (take (mo_region_depth opts) segs)" by simp
  then show thesis
    using segs by (intro that[of "take (mo_region_depth opts) segs"]) (auto simp: mc_region_ok_def)
qed

text \<open>What a set at one region does to the value found at a region.\<close>

lemma set_effect_find:
  assumes "json_set_effect d p v = Some j"
  shows "findJsonPathValue j p = Some v"
    "length q = length p \<Longrightarrow> q \<noteq> p \<Longrightarrow> \<exists>i. d = Some i \<and> findJsonPathValue j q = findJsonPathValue i q"
proof -
  show "findJsonPathValue j p = Some v"
    using assms find_set_same by (auto simp: json_set_effect_def split: if_splits option.splits)
  show "\<exists>i. d = Some i \<and> findJsonPathValue j q = findJsonPathValue i q"
    if "length q = length p" "q \<noteq> p"
  proof -
    have "p \<noteq> []" using that by auto
    with assms obtain i where i: "d = Some i" "setJsonPathValue i p v = Some j"
      by (auto simp: json_set_effect_def split: option.splits)
    have "diverge p q" using that by (intro diverge_same_length) auto
    from find_set_diverge[OF i(2) this] i(1) show ?thesis by blast
  qed
qed

lemma writeBack_cases:
  assumes "mc_region_ok E k" "mc_value_ok E v" "mc_writeBack E d k v w = (res, w')"
  obtains (not_written) "res \<noteq> Some True" "doc w' = doc w"
  | (set) p j reply w1 where "parseJsonPath lib k = Some p" "json_wf j" "doc w1 = doc w"
      "mc_written E v (mc_stored E doc w d k) = j"
      "me_exec E [''JSON.SET'', d, k, jl_dump lib j] w1 = (reply, w')"
      "res = Some (reply = Some ''OK'')"
proof -
  obtain p where p: "parseJsonPath lib k = Some p" using assms(1) by (rule region_okE)
  obtain j where j: "jl_parse lib v = Some j" "jl_dump lib j = v" "mc_project opts j = j" "json_wf j"
    using assms(2) by (rule value_okE)
  show thesis
  proof (cases "mc_remote opts j = []")
    case True
    obtain reply w2 where ex: "me_exec E [''JSON.SET'', d, k, jl_dump lib j] w = (reply, w2)" by force
    show thesis
      using True j ex assms(3)
      by (intro set[OF p j(4)])
        (auto simp: mc_writeBack_def Let_def mc_written_def merge_no_remote split: option.splits)
  next
    case False
    obtain cur w1 where raw: "mc_raw E d k w = (cur, w1)" by force
    note rl = raw_law[OF p raw]
    show thesis
    proof (cases cur)
      case None
      then show thesis using False j raw assms(3) rl(1)
        by (intro not_written) (auto simp: mc_writeBack_def Let_def)
    next
      case (Some c)
      let ?j = "mc_merge opts j c"
      obtain x where x: "doc w d = Some x" "findJsonPathValue x p = Some c" using rl(2) Some by blast
      then have "json_wf c" using find_wf doc_wf by blast
      then have wf: "json_wf ?j" using merge_wf j(4) by blast
      have wr: "mc_written E v (mc_stored E doc w d k) = ?j"
        using x p j(1) by (simp add: mc_written_def mc_stored_def)
      obtain reply w2 where ex: "me_exec E [''JSON.SET'', d, k, jl_dump lib ?j] w1 = (reply, w2)" by force
      show thesis
        using False j ex assms(3) raw Some rl(1)
        by (intro set[OF p wf _ wr]) (auto simp: mc_writeBack_def Let_def)
    qed
  qed
qed

lemma stored_same: "doc w' d = doc w d \<Longrightarrow> mc_stored E doc w' d k = mc_stored E doc w d k"
  by (simp add: mc_stored_def)

lemma write_ok_law:
  assumes "mc_region_ok E k" "mc_value_ok E v" "mc_writeBack E d k v w = (Some True, w')"
  shows "mc_stored E doc w' d k = Some (mc_written E v (mc_stored E doc w d k))"
  using assms
proof (cases rule: writeBack_cases)
  case (set p j reply w1)
  from set_law(2)[OF set(1,2,5)] set(6) obtain x
    where x: "json_set_effect (doc w1 d) p j = Some x" "doc w' d = Some x" by auto
  show ?thesis using x set(1,4) set_effect_find(1)[OF x(1)] by (simp add: mc_stored_def)
qed simp

lemma write_unknown_law:
  assumes "mc_region_ok E k" "mc_value_ok E v" "mc_writeBack E d k v w = (res, w')"
  shows "mc_stored E doc w' d k = mc_stored E doc w d k
    \<or> mc_stored E doc w' d k = Some (mc_written E v (mc_stored E doc w d k))"
  using assms
proof (cases rule: writeBack_cases)
  case not_written
  then show ?thesis by (simp add: mc_stored_def)
next
  case (set p j reply w1)
  from set_law(3)[OF set(1,2,5)] show ?thesis
  proof
    assume "doc w' d = doc w1 d"
    then show ?thesis using set(3) by (simp add: mc_stored_def)
  next
    assume "\<exists>x. json_set_effect (doc w1 d) p j = Some x \<and> doc w' d = Some x"
    then obtain x where x: "json_set_effect (doc w1 d) p j = Some x" "doc w' d = Some x" by blast
    then show ?thesis using set(1,4) set_effect_find(1)[OF x(1)] by (simp add: mc_stored_def)
  qed
qed

text \<open>Setting the value of one region leaves the values of all other regions.\<close>

lemma set_region_frame:
  assumes "mc_region_ok E k" "mc_region_ok E k'" "parseJsonPath lib k = Some p" "json_wf j"
    "me_exec E [''JSON.SET'', d, k, jl_dump lib j] w = (reply, w')" "(d', k') \<noteq> (d, k)"
  shows "mc_stored E doc w' d' k' = mc_stored E doc w d' k'"
proof -
  obtain q where q: "parseJsonPath lib k' = Some q" "length q = mo_region_depth opts"
    "canonical lib q = k'" using assms(2) by (rule region_okE)
  have p: "length p = mo_region_depth opts" "canonical lib p = k"
    using assms(1,3) by (auto simp: mc_region_ok_def)
  note law = set_law[OF assms(3,4,5)]
  show ?thesis
  proof (cases "d' = d \<and> doc w' d \<noteq> doc w d")
    case False
    then show ?thesis using law(1) by (cases "d' = d") (auto intro: stored_same)
  next
    case True
    then have "q \<noteq> p" using assms(6) p q by auto
    from True law(3) obtain x where x: "json_set_effect (doc w d) p j = Some x" "doc w' d = Some x" by blast
    obtain i where "doc w d = Some i" "findJsonPathValue x q = findJsonPathValue i q"
      using set_effect_find(2)[OF x(1)] q p \<open>q \<noteq> p\<close> by auto
    then show ?thesis using True x q by (simp add: mc_stored_def)
  qed
qed

lemma write_frame_law:
  assumes "mc_region_ok E k" "mc_region_ok E k'" "mc_value_ok E v"
    "mc_writeBack E d k v w = (res, w')" "(d', k') \<noteq> (d, k)"
  shows "mc_stored E doc w' d' k' = mc_stored E doc w d' k'"
  using assms(1,3,4)
proof (cases rule: writeBack_cases)
  case not_written
  then show ?thesis by (simp add: mc_stored_def)
next
  case (set p j reply w1)
  from set_region_frame[OF assms(1,2) set(1,2,5) assms(5)] set(3) show ?thesis
    by (simp add: mc_stored_def)
qed

lemma written_idem: "mc_value_ok E v \<Longrightarrow> mc_written E v (Some (mc_written E v s)) = mc_written E v s"
proof -
  assume "mc_value_ok E v"
  then obtain j where j: "jl_parse lib v = Some j" "mc_project opts j = j" by (rule value_okE)
  have "mc_merge opts j j = j"
    using merge_idem[OF j(2), of JNull] by (cases j) (simp_all add: mc_merge_def)
  with j show ?thesis by (auto simp: mc_written_def merge_idem split: option.splits)
qed

lemma core_written: "mc_value_ok E v \<Longrightarrow> mc_core E (mc_written E v s) = v"
proof -
  assume "mc_value_ok E v"
  then obtain j where j: "jl_parse lib v = Some j" "jl_dump lib j = v" "mc_project opts j = j"
    by (rule value_okE)
  then show ?thesis
    by (auto simp: mc_written_def mc_core_def project_merge[OF stable] split: option.splits)
qed

end

sublocale redis_json \<subseteq> wb: region_backend "mc_writeBack E" "mc_stored E doc" "mc_written E"
    "mc_core E" "mc_region_ok E" "mc_value_ok E"
  by unfold_locales
    (fact write_ok_law, fact write_unknown_law, fact write_frame_law, fact written_idem,
      fact core_written)

end
