(* ===== verification/Redis_Lua.thy ===== *)
theory Redis_Lua
  imports Complex_Main Memory_Backend "HOL-Library.Multiset"
begin

text \<open>
  What the Lua scripts of \<^verbatim>\<open>cpp/src/service_memory/CanvasServiceMemory.cpp\<close> run on: RedisJSON
  commands on the document of \<^verbatim>\<open>KEYS[1]\<close>, Lua numbers, and cjson. A script is a function from its
  arguments and the document to a reply and the new document; a reply \<open>None\<close> is a raised Lua error,
  which keeps the changes made before it. An argument string is represented by what it spells: a path
  by its segments, a JSON text by its value.

  RedisJSON and the Lua runtime are parameters (\<open>rj_lib\<close> and \<open>lua_lib\<close>); what the scripts rely on of
  them is \<open>rj_ok\<close> and \<open>lua_ok\<close>.
\<close>

section \<open>RedisJSON on one document\<close>

record rj_lib =
  rj_get :: "json \<Rightarrow> json_path_segment list \<Rightarrow> json option"
  rj_set :: "json \<Rightarrow> json_path_segment list \<Rightarrow> json \<Rightarrow> json"
  rj_del :: "json \<Rightarrow> json_path_segment list \<Rightarrow> json"
  rj_arrlen :: "json \<Rightarrow> json_path_segment list \<Rightarrow> nat option option"
  rj_arrappend :: "json \<Rightarrow> json_path_segment list \<Rightarrow> json \<Rightarrow> json option"
  rj_slice :: "json \<Rightarrow> json_path_segment list \<Rightarrow> json \<Rightarrow> json \<Rightarrow> json list option"

definition set_nx :: "rj_lib \<Rightarrow> json \<Rightarrow> json_path_segment list \<Rightarrow> json \<Rightarrow> json" where
  "set_nx R d p v = (if rj_get R d p = None then rj_set R d p v else d)"

definition set_xx :: "rj_lib \<Rightarrow> json \<Rightarrow> json_path_segment list \<Rightarrow> json \<Rightarrow> json" where
  "set_xx R d p v = (if rj_get R d p \<noteq> None then rj_set R d p v else d)"

definition put_at :: "json \<Rightarrow> json_path_segment list \<Rightarrow> json \<Rightarrow> json" where
  "put_at d p v = (case setJsonPathValue d p v of Some d' \<Rightarrow> d' | None \<Rightarrow> d)"

definition delete_at :: "json \<Rightarrow> json_path_segment list \<Rightarrow> json" where
  \<comment> \<open>for a path that ends in a name\<close>
  "delete_at d p =
     (case (findJsonPathValue d (butlast p), last p) of
        (Some (JObj ms), Key k) \<Rightarrow> put_at d (butlast p) (JObj (obj_erase k ms))
      | _ \<Rightarrow> d)"

definition append_at :: "json \<Rightarrow> json_path_segment list \<Rightarrow> json \<Rightarrow> json" where
  "append_at d p v =
     (case findJsonPathValue d p of Some (JArr xs) \<Rightarrow> put_at d p (JArr (xs @ [v])) | _ \<Rightarrow> d)"

definition array_length :: "json option \<Rightarrow> nat option" where
  "array_length found = (case found of Some (JArr xs) \<Rightarrow> Some (length xs) | _ \<Rightarrow> None)"

definition slice_at :: "json option \<Rightarrow> int \<Rightarrow> int \<Rightarrow> json list" where
  "slice_at found a b = (case found of Some (JArr xs) \<Rightarrow> take (nat (b - a)) (drop (nat a) xs) | _ \<Rightarrow> [])"

text \<open>
  A path of names and indices matches at most one value. \<^verbatim>\<open>JSON.SET\<close> replaces it, or adds it to the
  object that is its parent, and does nothing when there is no parent; \<^verbatim>\<open>JSON.DEL\<close> removes a member;
  \<^verbatim>\<open>JSON.ARRLEN\<close> and \<^verbatim>\<open>JSON.ARRAPPEND\<close> work on the array at the path and report nil for a value that
  is not one; a path that ends in a slice \<open>[a:b]\<close> of non-negative bounds reads the elements from \<open>a\<close> up
  to but without \<open>b\<close>.
\<close>

definition rj_ok :: "rj_lib \<Rightarrow> bool" where
  "rj_ok R \<longleftrightarrow>
     (\<forall>d p. rj_get R d p = findJsonPathValue d p)
     \<and> (\<forall>d p v. rj_set R d p v = put_at d p v)
     \<and> (\<forall>d p k. rj_del R d (p @ [Key k]) = delete_at d (p @ [Key k]))
     \<and> (\<forall>d p. rj_arrlen R d p = Some (array_length (findJsonPathValue d p)))
     \<and> (\<forall>d p v. rj_arrappend R d p v = Some (append_at d p v))
     \<and> (\<forall>d p a b. 0 \<le> a \<longrightarrow> a \<le> b \<longrightarrow>
          rj_slice R d p (JInt a) (JInt b) = Some (slice_at (findJsonPathValue d p) a b))"

definition ref_rj :: rj_lib where
  "ref_rj = \<lparr>rj_get = findJsonPathValue, rj_set = put_at, rj_del = delete_at,
     rj_arrlen = (\<lambda>d p. Some (array_length (findJsonPathValue d p))),
     rj_arrappend = (\<lambda>d p v. Some (append_at d p v)),
     rj_slice = (\<lambda>d p a b. case (a, b) of
        (JInt i, JInt j) \<Rightarrow> Some (slice_at (findJsonPathValue d p) i j) | _ \<Rightarrow> None)\<rparr>"

lemma ref_rj_ok: "rj_ok ref_rj"
  by (simp add: rj_ok_def ref_rj_def)

section \<open>Lua and cjson\<close>

text \<open>
  A Lua number is a double; finite doubles are rationals, and arithmetic rounds. \<open>lua_spell\<close> is the
  JSON number that \<^verbatim>\<open>tostring\<close> and \<^verbatim>\<open>cjson.encode\<close> print for a number, with 14 significant digits,
  and \<open>lua_text\<close> that text; \<open>lua_pairs\<close> the order in which \<^verbatim>\<open>pairs\<close> visits a table; \<open>lua_sort\<close> is
  \<^verbatim>\<open>table.sort\<close> by a number, which need not be stable; \<open>cj_encode\<close> is the text of \<^verbatim>\<open>cjson.encode\<close> and
  \<open>cj_recode\<close> the value of that text.
\<close>

record lua_lib =
  lua_round :: "rat \<Rightarrow> rat"
  lua_double :: "64 word \<Rightarrow> rat"
  lua_strtod :: "string \<Rightarrow> rat option"
  lua_spell :: "rat \<Rightarrow> json"
  lua_text :: "rat \<Rightarrow> string"
  lua_pairs :: "(string \<times> json) list \<Rightarrow> (string \<times> json) list"
  lua_sort :: "(rat \<times> json) list \<Rightarrow> (rat \<times> json) list"
  cj_encode :: "json \<Rightarrow> string"
  cj_recode :: "json \<Rightarrow> json"

fun lua_plain :: "json \<Rightarrow> bool" where
  \<comment> \<open>values that survive cjson: no empty array, integers that are printed in full\<close>
  "lua_plain JNull \<longleftrightarrow> True"
| "lua_plain (JBool b) \<longleftrightarrow> True"
| "lua_plain (JInt i) \<longleftrightarrow> \<bar>i\<bar> < 10 ^ 14"
| "lua_plain (JFloat b) \<longleftrightarrow> False"
| "lua_plain (JStr s) \<longleftrightarrow> True"
| "lua_plain (JArr xs) \<longleftrightarrow> xs \<noteq> [] \<and> (\<forall>x \<in> set xs. lua_plain x)"
| "lua_plain (JObj ms) \<longleftrightarrow> sorted_wrt (<) (map fst ms) \<and> (\<forall>m \<in> set ms. lua_plain (snd m))"

definition lua_ok :: "json_lib \<Rightarrow> lua_lib \<Rightarrow> bool" where
  "lua_ok L U \<longleftrightarrow>
     (\<forall>i. \<bar>i\<bar> \<le> 2 ^ 53 \<longrightarrow> lua_round U (rat_of_int i) = rat_of_int i)
     \<and> (\<forall>i. \<bar>i\<bar> < 10 ^ 14 \<longrightarrow> lua_spell U (rat_of_int i) = JInt i)
     \<and> (\<forall>i. 0 \<le> i \<longrightarrow> i < 10 ^ 14 \<longrightarrow> lua_text U (rat_of_int i) = to_string (nat i))
     \<and> (\<forall>rows. mset (lua_sort U rows) = mset rows \<and> sorted (map fst (lua_sort U rows)))
     \<and> (\<forall>ms. distinct (map fst ms) \<longrightarrow>
          distinct (map fst (lua_pairs U ms)) \<and> set (lua_pairs U ms) = set ms)
     \<and> (\<forall>j. lua_plain j \<longrightarrow> jl_parse L (cj_encode U j) = Some j \<and> cj_recode U j = j)"

definition tonumber :: "lua_lib \<Rightarrow> json option \<Rightarrow> rat option" where
  "tonumber U j =
     (case j of
        Some (JInt i) \<Rightarrow> Some (lua_round U (rat_of_int i))
      | Some (JFloat b) \<Rightarrow> Some (lua_double U b)
      | Some (JStr s) \<Rightarrow> lua_strtod U s
      | _ \<Rightarrow> None)"

definition number_or :: "rat \<Rightarrow> rat option \<Rightarrow> rat" where
  "number_or x n = (case n of None \<Rightarrow> x | Some y \<Rightarrow> y)"

definition equals_number :: "lua_lib \<Rightarrow> rat \<Rightarrow> json \<Rightarrow> bool" where
  \<comment> \<open>\<open>==\<close> of a number and a decoded value\<close>
  "equals_number U x j =
     (case j of
        JInt i \<Rightarrow> x = lua_round U (rat_of_int i)
      | JFloat b \<Rightarrow> x = lua_double U b
      | _ \<Rightarrow> False)"

definition lua_add :: "lua_lib \<Rightarrow> rat \<Rightarrow> rat \<Rightarrow> rat" where
  "lua_add U x y = lua_round U (x + y)"

definition truthy :: "json option \<Rightarrow> bool" where
  \<comment> \<open>\<open>cjson.null\<close> counts as true\<close>
  "truthy j \<longleftrightarrow> j \<noteq> None \<and> j \<noteq> Some (JBool False)"

definition lua_field :: "json \<Rightarrow> string \<Rightarrow> json option option" where
  \<comment> \<open>indexing; \<open>None\<close> for the error on a value that cannot be indexed\<close>
  "lua_field j k =
     (case j of
        JObj ms \<Rightarrow> Some (map_of ms k)
      | JArr _ \<Rightarrow> Some None
      | JStr _ \<Rightarrow> Some None
      | _ \<Rightarrow> None)"

definition is_table :: "json \<Rightarrow> bool" where
  "is_table j = (case j of JArr _ \<Rightarrow> True | JObj _ \<Rightarrow> True | _ \<Rightarrow> False)"

definition ipairs :: "json \<Rightarrow> json list" where
  "ipairs j = (case j of JArr xs \<Rightarrow> xs | _ \<Rightarrow> [])"

definition table_count :: "json \<Rightarrow> nat option" where
  \<comment> \<open>the number of entries that \<open>pairs\<close> visits\<close>
  "table_count j = (case j of JArr xs \<Rightarrow> Some (length xs) | JObj ms \<Rightarrow> Some (length ms) | _ \<Rightarrow> None)"

type_synonym script_result = "string option \<times> json"

section \<open>A runtime that satisfies the laws\<close>

definition ref_lua :: lua_lib where
  "ref_lua = \<lparr>lua_round = (\<lambda>x. x), lua_double = (\<lambda>b. rat_of_int (double_trunc b)),
     lua_strtod = (\<lambda>s. if s \<noteq> [] \<and> list_all isdigit s then Some (rat_of_int (int (digits_value s))) else None),
     lua_spell = (\<lambda>x. JInt (floor x)), lua_text = (\<lambda>x. to_string (nat (floor x))),
     lua_pairs = (\<lambda>ms. ms), lua_sort = sort_key fst, cj_encode = encode, cj_recode = (\<lambda>j. j)\<rparr>"

lemma lua_plain_wf: "lua_plain j \<Longrightarrow> json_wf j"
  by (induction j) auto

lemma ref_lua_ok: "lua_ok ref_lib ref_lua"
proof -
  have "jl_parse ref_lib (encode j) = Some j" if "lua_plain j" for j
    using json_lib_okD(1)[OF ref_lib_ok lua_plain_wf[OF that]] by (simp add: ref_lib_def)
  then show ?thesis by (simp add: lua_ok_def ref_lua_def)
qed

section \<open>Laws of the document operations\<close>

lemma set_key_iff: "setJsonPathValue d (p @ [Key k]) v = None \<longleftrightarrow> (\<forall>ms. findJsonPathValue d p \<noteq> Some (JObj ms))"
proof (induction p arbitrary: d)
  case Nil
  then show ?case by (cases d) auto
next
  case (Cons s p)
  obtain t r where t: "p @ [Key k] = t # r" by (cases "p @ [Key k]") auto
  show ?case
  proof (cases s)
    case (Key k')
    show ?thesis
      using Cons.IH t Key by (auto split: json.splits option.splits simp del: setJsonPathValue.simps)
        (auto split: json.splits option.splits)
  next
    case (Index i)
    show ?thesis
      using Cons.IH t Index by (auto split: json.splits option.splits simp del: setJsonPathValue.simps)
        (auto split: json.splits option.splits)
  qed
qed

lemma set_key_found:
  assumes "findJsonPathValue d p = Some (JObj ms)"
  obtains d' where "setJsonPathValue d (p @ [Key k]) v = Some d'"
    "findJsonPathValue d' p = Some (JObj (obj_put k v ms))"
proof -
  obtain d' where d': "setJsonPathValue d (p @ [Key k]) v = Some d'"
    using set_key_iff[of d p k v] assms by (cases "setJsonPathValue d (p @ [Key k]) v") auto
  from set_append[OF this] assms have "findJsonPathValue d' p = Some (JObj (obj_put k v ms))" by auto
  with d' that show thesis by blast
qed

lemma find_put_diverge [simp]: "diverge p q \<Longrightarrow> findJsonPathValue (put_at d p v) q = findJsonPathValue d q"
  by (auto simp: put_at_def find_set_diverge split: option.splits)

lemma put_key:
  assumes "findJsonPathValue d p = Some (JObj ms)"
  shows "findJsonPathValue (put_at d (p @ [Key k]) v) (p @ [Key k]) = Some v"
    "findJsonPathValue (put_at d (p @ [Key k]) v) p = Some (JObj (obj_put k v ms))"
proof -
  obtain d' where d': "setJsonPathValue d (p @ [Key k]) v = Some d'"
    "findJsonPathValue d' p = Some (JObj (obj_put k v ms))"
    by (rule set_key_found[OF assms])
  show "findJsonPathValue (put_at d (p @ [Key k]) v) (p @ [Key k]) = Some v"
    "findJsonPathValue (put_at d (p @ [Key k]) v) p = Some (JObj (obj_put k v ms))"
    using d' find_set_same[OF d'(1)] by (simp_all add: put_at_def)
qed

lemma put_key_no_parent:
  "(\<forall>ms. findJsonPathValue d p \<noteq> Some (JObj ms)) \<Longrightarrow> put_at d (p @ [Key k]) v = d"
  using set_key_iff[of d p k v] by (simp add: put_at_def)

lemma delete_key:
  assumes "findJsonPathValue d p = Some (JObj ms)"
  shows "findJsonPathValue (delete_at d (p @ [Key k])) (p @ [Key k]) = None"
    "findJsonPathValue (delete_at d (p @ [Key k])) p = Some (JObj (obj_erase k ms))"
proof -
  obtain d' where d': "setJsonPathValue d p (JObj (obj_erase k ms)) = Some d'"
    using set_succeeds_if_found[of d p] assms by force
  have e: "delete_at d (p @ [Key k]) = d'" using assms d' by (simp add: delete_at_def put_at_def)
  have f: "findJsonPathValue d' p = Some (JObj (obj_erase k ms))" by (rule find_set_same[OF d'])
  then show "findJsonPathValue (delete_at d (p @ [Key k])) p = Some (JObj (obj_erase k ms))"
    "findJsonPathValue (delete_at d (p @ [Key k])) (p @ [Key k]) = None"
    using e by (simp_all add: find_append)
qed

lemma diverge_snoc_cases: "diverge (p @ [s]) q \<Longrightarrow> diverge p q \<or> (\<exists>t r. q = p @ t # r \<and> t \<noteq> s)"
proof (induction p arbitrary: q)
  case Nil
  then show ?case by (cases q) auto
next
  case (Cons x p)
  then show ?case by (cases q) auto
qed

lemma delete_key_diverge:
  assumes "diverge (p @ [Key k]) q"
  shows "findJsonPathValue (delete_at d (p @ [Key k])) q = findJsonPathValue d q"
proof (cases "\<exists>ms. findJsonPathValue d p = Some (JObj ms)")
  case False
  then show ?thesis by (auto simp: delete_at_def split: option.splits json.splits)
next
  case True
  then obtain ms where ms: "findJsonPathValue d p = Some (JObj ms)" by blast
  then have e: "delete_at d (p @ [Key k]) = put_at d p (JObj (obj_erase k ms))"
    by (simp add: delete_at_def)
  consider "diverge p q" | k' r where "q = p @ k' # r" "k' \<noteq> Key k"
    using diverge_snoc_cases[OF assms] by blast
  then show ?thesis
  proof cases
    case 1
    then show ?thesis using e by simp
  next
    case 2
    have "findJsonPathValue (put_at d p (JObj (obj_erase k ms))) p = Some (JObj (obj_erase k ms))"
      using delete_key(2)[OF ms, of k] e by simp
    then show ?thesis using 2 e ms by (cases k') (simp_all add: find_append)
  qed
qed

section \<open>The interface of the scripts\<close>

locale lua_scripts =
  fixes L :: json_lib and R :: rj_lib and U :: lua_lib
  assumes rj: "rj_ok R" and lua: "lua_ok L U"
begin

lemma rj_simps:
  "rj_get R d p = findJsonPathValue d p" "rj_set R d p v = put_at d p v"
  "rj_del R d (p @ [Key k]) = delete_at d (p @ [Key k])"
  "rj_arrlen R d p = Some (array_length (findJsonPathValue d p))"
  "rj_arrappend R d p v = Some (append_at d p v)"
  "0 \<le> a \<Longrightarrow> a \<le> b \<Longrightarrow> rj_slice R d p (JInt a) (JInt b) = Some (slice_at (findJsonPathValue d p) a b)"
  using rj by (simp_all add: rj_ok_def)

lemma round_exact: "\<bar>i\<bar> \<le> 2 ^ 53 \<Longrightarrow> lua_round U (rat_of_int i) = rat_of_int i"
  using lua by (simp add: lua_ok_def)

lemma spell_exact: "\<bar>i\<bar> < 10 ^ 14 \<Longrightarrow> lua_spell U (rat_of_int i) = JInt i"
  using lua by (simp add: lua_ok_def)

lemma tonumber_exact: "\<bar>i\<bar> \<le> 2 ^ 53 \<Longrightarrow> tonumber U (Some (JInt i)) = Some (rat_of_int i)"
  by (simp add: tonumber_def round_exact)

lemma add_exact: "\<bar>i + j\<bar> \<le> 2 ^ 53 \<Longrightarrow> lua_add U (rat_of_int i) (rat_of_int j) = rat_of_int (i + j)"
  using round_exact[of "i + j"] by (simp add: lua_add_def)

lemma succ_exact: "\<bar>i + 1\<bar> \<le> 2 ^ 53 \<Longrightarrow> lua_add U (rat_of_int i) 1 = rat_of_int (i + 1)"
  using add_exact[of i 1] by simp

lemma text_exact: "0 \<le> i \<Longrightarrow> i < 10 ^ 14 \<Longrightarrow> lua_text U (rat_of_int i) = to_string (nat i)"
  using lua by (simp add: lua_ok_def)

lemma sort_perm: "mset (lua_sort U rows) = mset rows" "sorted (map fst (lua_sort U rows))"
  using lua by (simp_all add: lua_ok_def)

lemma pairs_perm:
  assumes "distinct (map fst ms)"
  shows "distinct (map fst (lua_pairs U ms))" "set (lua_pairs U ms) = set ms"
  using lua assms by (simp_all add: lua_ok_def)

lemma encode_parse: "lua_plain j \<Longrightarrow> jl_parse L (cj_encode U j) = Some j"
  using lua by (simp add: lua_ok_def)

lemma recode_plain: "lua_plain j \<Longrightarrow> cj_recode U j = j"
  using lua by (simp add: lua_ok_def)

end

interpretation ref_scripts: lua_scripts ref_lib ref_rj ref_lua
  by unfold_locales (rule ref_rj_ok, rule ref_lua_ok)

end
