(* ===== verification/Broker_Sync.thy ===== *)
theory Broker_Sync
  imports Redis_Lua
begin

text \<open>
  \<^verbatim>\<open>cpp/src/service_memory/CanvasServiceMemory.cpp\<close>, the script of \<open>applyBrokerBatch\<close>: the atomic step
  that applies a prepared batch to a canvas. The member \<^verbatim>\<open>__broker_sync\<close> of the document holds the
  revision of the canvas and, for every client, a receipt of its last batch.
\<close>

section \<open>The script\<close>

definition sync_path :: "json_path_segment list" where
  "sync_path = [Key ''__broker_sync'']"

definition revision_path :: "json_path_segment list" where
  "revision_path = [Key ''__broker_sync'', Key ''revision'']"

definition clients_path :: "json_path_segment list" where
  "clients_path = [Key ''__broker_sync'', Key ''clients'']"

definition receipt_path :: "string \<Rightarrow> json_path_segment list" where
  "receipt_path client = [Key ''__broker_sync'', Key ''clients'', Key client]"

definition item_path :: "string \<Rightarrow> json_path_segment list" where
  "item_path i = [Key ''items'', Key i]"

definition item_revision_path :: "string \<Rightarrow> json_path_segment list" where
  "item_revision_path i = [Key ''items'', Key i, Key ''__broker_revision'']"

definition ensure_sync :: "rj_lib \<Rightarrow> json \<Rightarrow> json" where
  "ensure_sync R d =
     (if truthy (rj_get R d sync_path) then d
      else rj_set R d sync_path (JObj [(''clients'', JObj []), (''revision'', JInt 0)]))"

definition last_count :: "lua_lib \<Rightarrow> json option \<Rightarrow> rat option" where
  \<comment> \<open>\<open>previous and tonumber(previous.count) or 0\<close>; \<open>None\<close> for a Lua error\<close>
  "last_count U previous =
     (if truthy previous then
        (case lua_field (the previous) ''count'' of
           None \<Rightarrow> None
         | Some c \<Rightarrow> Some (number_or 0 (tonumber U c)))
      else Some 0)"

definition item_revision :: "lua_lib \<Rightarrow> json option \<Rightarrow> rat option" where
  "item_revision U current =
     (if truthy current then
        (case lua_field (the current) ''__broker_revision'' of
           None \<Rightarrow> None
         | Some r \<Rightarrow> Some (number_or 0 (tonumber U r)))
      else Some (-1))"

fun revisions_match :: "rj_lib \<Rightarrow> lua_lib \<Rightarrow> json \<Rightarrow> (string \<times> json) list \<Rightarrow> bool option" where
  "revisions_match R U d [] = Some True"
| "revisions_match R U d ((i, wanted) # rest) =
     (case item_revision U (rj_get R d (item_path i)) of
        None \<Rightarrow> None
      | Some actual \<Rightarrow>
          if \<not> equals_number U actual wanted then Some False else revisions_match R U d rest)"

definition client_total :: "rj_lib \<Rightarrow> json \<Rightarrow> nat option" where
  "client_total R d =
     (let clients = rj_get R d clients_path in
      if truthy clients then table_count (the clients) else Some 0)"

definition apply_change :: "rj_lib \<Rightarrow> json \<Rightarrow> string \<times> json \<Rightarrow> json \<Rightarrow> json" where
  "apply_change R revision change d =
     (case change of (i, item) \<Rightarrow>
        if item = JNull then rj_del R d (item_path i)
        else rj_set R (rj_set R d (item_path i) item) (item_revision_path i) revision)"

definition broker_error :: "lua_lib \<Rightarrow> string \<Rightarrow> string" where
  "broker_error U code = cj_encode U (JObj [(''error'', JStr code)])"

definition broker_duplicate :: "lua_lib \<Rightarrow> json option \<Rightarrow> rat \<Rightarrow> rat \<Rightarrow> string" where
  "broker_duplicate U recorded revision accepted =
     cj_encode U (JObj ([(''accepted_count'', lua_spell U accepted), (''duplicate'', JBool True)]
       @ (case recorded of None \<Rightarrow> [] | Some r \<Rightarrow> [(''revision'', r)])
       @ [(''server_revision'', lua_spell U revision)]))"

definition broker_accepted :: "lua_lib \<Rightarrow> rat \<Rightarrow> rat \<Rightarrow> string" where
  "broker_accepted U revision cnt =
     cj_encode U (JObj [(''accepted_count'', lua_spell U cnt), (''duplicate'', JBool False),
       (''revision'', lua_spell U revision), (''server_revision'', lua_spell U revision)])"

definition broker_receipt :: "lua_lib \<Rightarrow> rat \<Rightarrow> rat \<Rightarrow> string \<Rightarrow> string \<Rightarrow> json" where
  "broker_receipt U cnt revision digest request =
     cj_recode U (JObj [(''count'', lua_spell U cnt), (''digest'', JStr digest),
       (''request_id'', JStr request), (''revision'', lua_spell U revision)])"

definition broker_apply ::
  "rj_lib \<Rightarrow> lua_lib \<Rightarrow> string \<Rightarrow> rat \<Rightarrow> string \<Rightarrow> string \<Rightarrow> (string \<times> json) list \<Rightarrow> rat \<Rightarrow> json
   \<Rightarrow> script_result" where
  \<comment> \<open>from \<open>revision=revision+1\<close> to the end\<close>
  "broker_apply R U client cnt request digest changes revision0 d =
     (let revision = lua_add U revision0 1 in
      if revision \<ge> 9007199254740991 then (Some (broker_error U ''CANVAS_REVISION_LIMIT''), d)
      else
        (let d1 = fold (apply_change R (lua_spell U revision)) (lua_pairs U changes) d;
             d2 = rj_set R d1 revision_path (lua_spell U revision);
             d3 = rj_set R d2 (receipt_path client) (broker_receipt U cnt revision digest request)
         in (Some (broker_accepted U revision cnt), d3)))"

definition broker_check ::
  "rj_lib \<Rightarrow> lua_lib \<Rightarrow> string \<Rightarrow> rat \<Rightarrow> string \<Rightarrow> string \<Rightarrow> (string \<times> json) list \<Rightarrow> (string \<times> json) list
   \<Rightarrow> bool \<Rightarrow> rat \<Rightarrow> json \<Rightarrow> script_result" where
  \<comment> \<open>the loop over the expected revisions and the limit on clients\<close>
  "broker_check R U client cnt request digest changes expected known revision d =
     (case revisions_match R U d (lua_pairs U expected) of
        None \<Rightarrow> (None, d)
      | Some False \<Rightarrow> (Some (broker_error U ''CANVAS_WRITE_CONFLICT''), d)
      | Some True \<Rightarrow>
          if known then broker_apply R U client cnt request digest changes revision d
          else (case client_total R d of
                  None \<Rightarrow> (None, d)
                | Some n \<Rightarrow>
                    if n \<ge> 4096 then (Some (broker_error U ''CANVAS_CLIENT_LIMIT''), d)
                    else broker_apply R U client cnt request digest changes revision d))"

definition broker_script ::
  "rj_lib \<Rightarrow> lua_lib \<Rightarrow> string \<Rightarrow> int \<Rightarrow> string \<Rightarrow> string \<Rightarrow> (string \<times> json) list \<Rightarrow> (string \<times> json) list
   \<Rightarrow> json \<Rightarrow> script_result" where
  "broker_script R U client argument request digest changes expected document =
     (let d = ensure_sync R document;
          cnt = lua_round U (rat_of_int argument);
          previous = rj_get R d (receipt_path client);
          revision = number_or 0 (tonumber U (rj_get R d revision_path))
      in case last_count U previous of
           None \<Rightarrow> (None, d)
         | Some latest \<Rightarrow>
             if cnt = latest \<and> truthy previous then
               (if jget (the previous) ''digest'' \<noteq> Some (JStr digest)
                   \<or> jget (the previous) ''request_id'' \<noteq> Some (JStr request)
                then (Some (broker_error U ''CLIENT_REQUEST_MISMATCH''), d)
                else (Some (broker_duplicate U (jget (the previous) ''revision'') revision latest), d))
             else if cnt \<noteq> lua_add U latest 1 then
               (Some (cj_encode U (JObj [(''accepted_count'', lua_spell U latest),
                  (''error'', JStr ''CLIENT_SEQUENCE_CONFLICT'')])), d)
             else broker_check R U client cnt request digest changes expected (truthy previous) revision d)"

definition broker_eval ::
  "rj_lib \<Rightarrow> lua_lib \<Rightarrow> string \<Rightarrow> int \<Rightarrow> string \<Rightarrow> string \<Rightarrow> (string \<times> json) list \<Rightarrow> (string \<times> json) list
   \<Rightarrow> json option \<Rightarrow> string option \<times> json option" where
  \<comment> \<open>the script with its check that the canvas exists\<close>
  "broker_eval R U client argument request digest changes expected stored =
     (case stored of
        None \<Rightarrow> (Some (broker_error U ''CANVAS_NOT_READY''), None)
      | Some d \<Rightarrow> apsnd Some (broker_script R U client argument request digest changes expected d))"

section \<open>What a batch does to the document\<close>

text \<open>A canvas document that has items and a sync record with the given revision.\<close>

definition sync_ready :: "json \<Rightarrow> int \<Rightarrow> bool" where
  "sync_ready d revision \<longleftrightarrow>
     (\<exists>items. findJsonPathValue d [Key ''items''] = Some (JObj items))
     \<and> findJsonPathValue d revision_path = Some (JInt revision)
     \<and> (\<exists>clients. findJsonPathValue d clients_path = Some (JObj clients))"

definition stamped :: "json \<Rightarrow> json \<Rightarrow> json option" where
  \<comment> \<open>what is stored for a changed item\<close>
  "stamped revision item =
     (case item of
        JNull \<Rightarrow> None
      | JObj ms \<Rightarrow> Some (JObj (obj_put ''__broker_revision'' revision ms))
      | _ \<Rightarrow> Some item)"

lemmas sync_paths = sync_path_def revision_path_def clients_path_def receipt_path_def item_path_def
  item_revision_path_def

lemma sync_readyE:
  assumes "sync_ready d n"
  obtains items clients sync where "findJsonPathValue d [Key ''items''] = Some (JObj items)"
    "findJsonPathValue d sync_path = Some (JObj sync)"
    "findJsonPathValue d revision_path = Some (JInt n)"
    "findJsonPathValue d clients_path = Some (JObj clients)"
    "map_of sync ''revision'' = Some (JInt n)" "map_of sync ''clients'' = Some (JObj clients)"
proof -
  obtain items clients where h: "findJsonPathValue d [Key ''items''] = Some (JObj items)"
    "findJsonPathValue d revision_path = Some (JInt n)"
    "findJsonPathValue d clients_path = Some (JObj clients)"
    using assms by (auto simp: sync_ready_def)
  moreover obtain sync where "findJsonPathValue d sync_path = Some (JObj sync)"
    "map_of sync ''revision'' = Some (JInt n)" "map_of sync ''clients'' = Some (JObj clients)"
    using h by (auto simp: sync_paths split: json.splits option.splits)
  ultimately show thesis using that by blast
qed

context lua_scripts
begin

lemma ensure_ready: "sync_ready d n \<Longrightarrow> ensure_sync R d = d"
  by (auto elim!: sync_readyE simp: ensure_sync_def rj_simps truthy_def)

lemma change_one:
  assumes "findJsonPathValue d [Key ''items''] = Some (JObj items)"
  shows "\<exists>items'. findJsonPathValue (apply_change R r (i, item) d) [Key ''items''] = Some (JObj items')"
    "findJsonPathValue (apply_change R r (i, item) d) (item_path i) = stamped r item"
    "j \<noteq> i \<Longrightarrow> findJsonPathValue (apply_change R r (i, item) d) (item_path j)
       = findJsonPathValue d (item_path j)"
    "a \<noteq> ''items'' \<Longrightarrow> findJsonPathValue (apply_change R r (i, item) d) (Key a # q)
       = findJsonPathValue d (Key a # q)"
proof -
  let ?p = "[Key ''items''] @ [Key i]"
  let ?d = "apply_change R r (i, item) d"
  have p: "item_path i = ?p" "item_revision_path i = ?p @ [Key ''__broker_revision'']"
    by (simp_all add: sync_paths)
  have "(\<exists>items'. findJsonPathValue ?d [Key ''items''] = Some (JObj items'))
    \<and> findJsonPathValue ?d ?p = stamped r item
    \<and> (\<forall>q. diverge ?p q \<longrightarrow> findJsonPathValue ?d q = findJsonPathValue d q)"
  proof (cases "item = JNull")
    case True
    then have e: "?d = delete_at d ?p" by (simp add: apply_change_def p rj_simps del: append.simps)
    show ?thesis unfolding e using delete_key[OF assms, of i] delete_key_diverge[of "[Key ''items'']" i _ d] True
      by (auto simp: stamped_def simp del: append.simps)
  next
    case False
    let ?d1 = "put_at d ?p item"
    have e: "?d = put_at ?d1 (?p @ [Key ''__broker_revision'']) r"
      using False by (simp add: apply_change_def p rj_simps del: append.simps)
    note f1 = put_key[OF assms, of i item]
    have div: "diverge (?p @ [Key ''__broker_revision'']) q" if "diverge ?p q" for q
      using that by (rule diverge_append)
    show ?thesis
    proof (cases "\<exists>ms. item = JObj ms")
      case True
      then obtain ms where ms: "item = JObj ms" by blast
      note f2 = put_key[OF f1(1)[unfolded ms], of "''__broker_revision''" r]
      have "findJsonPathValue ?d ?p = stamped r item" unfolding e using f2(2) ms by (simp add: stamped_def)
      moreover have "\<exists>items'. findJsonPathValue ?d [Key ''items''] = Some (JObj items')"
        using calculation ms by (auto simp: stamped_def split: json.splits option.splits)
      ultimately show ?thesis unfolding e using div by auto
    next
      case nobj: False
      then have "put_at ?d1 (?p @ [Key ''__broker_revision'']) r = ?d1"
        using f1(1) by (intro put_key_no_parent) auto
      moreover have "stamped r item = Some item" using nobj False by (cases item) (auto simp: stamped_def)
      ultimately show ?thesis unfolding e using f1 by auto
    qed
  qed
  then show "\<exists>items'. findJsonPathValue ?d [Key ''items''] = Some (JObj items')"
    "findJsonPathValue ?d (item_path i) = stamped r item"
    "j \<noteq> i \<Longrightarrow> findJsonPathValue ?d (item_path j) = findJsonPathValue d (item_path j)"
    "a \<noteq> ''items'' \<Longrightarrow> findJsonPathValue ?d (Key a # q) = findJsonPathValue d (Key a # q)"
    by (simp_all add: item_path_def del: findJsonPathValue.simps)
qed

lemma change_all:
  assumes "findJsonPathValue d [Key ''items''] = Some (JObj items)" "distinct (map fst cs)"
  shows "(\<exists>items'. findJsonPathValue (fold (apply_change R r) cs d) [Key ''items''] = Some (JObj items'))
    \<and> (\<forall>i item. (i, item) \<in> set cs \<longrightarrow>
         findJsonPathValue (fold (apply_change R r) cs d) (item_path i) = stamped r item)
    \<and> (\<forall>i. i \<notin> fst ` set cs \<longrightarrow>
         findJsonPathValue (fold (apply_change R r) cs d) (item_path i) = findJsonPathValue d (item_path i))
    \<and> (\<forall>a q. a \<noteq> ''items'' \<longrightarrow>
         findJsonPathValue (fold (apply_change R r) cs d) (Key a # q) = findJsonPathValue d (Key a # q))"
  using assms
proof (induction cs arbitrary: d items)
  case (Cons c cs)
  obtain i item where c: "c = (i, item)" by (cases c)
  let ?d = "apply_change R r (i, item) d"
  obtain items' where it: "findJsonPathValue ?d [Key ''items''] = Some (JObj items')"
    using change_one(1)[OF Cons.prems(1)] by blast
  note one = change_one(2-4)[OF Cons.prems(1), where i = i and item = item and r = r]
  have d: "distinct (map fst cs)" "i \<notin> fst ` set cs" using Cons.prems(2) c by auto
  note IH = Cons.IH[OF it d(1)]
  have f: "fold (apply_change R r) (c # cs) d = fold (apply_change R r) cs ?d" using c by simp
  show ?case unfolding f
  proof (intro conjI allI impI)
    fix j x
    assume "(j, x) \<in> set (c # cs)"
    then show "findJsonPathValue (fold (apply_change R r) cs ?d) (item_path j) = stamped r x"
      using IH one(1) d(2) c by auto
  next
    fix j
    assume "j \<notin> fst ` set (c # cs)"
    then show "findJsonPathValue (fold (apply_change R r) cs ?d) (item_path j) = findJsonPathValue d (item_path j)"
      using IH one(2)[of j] c by auto
  qed (use IH one(3) in auto)
qed auto

end

definition receipt_json :: "int \<Rightarrow> int \<Rightarrow> string \<Rightarrow> string \<Rightarrow> json" where
  "receipt_json cnt revision digest request =
     JObj [(''count'', JInt cnt), (''digest'', JStr digest), (''request_id'', JStr request),
       (''revision'', JInt revision)]"

definition batch_accepted :: "json_lib \<Rightarrow> string option \<Rightarrow> bool" where
  "batch_accepted L reply \<longleftrightarrow>
     (case reply of
        None \<Rightarrow> False
      | Some t \<Rightarrow> (case jl_parse L t of None \<Rightarrow> False | Some r \<Rightarrow> jget r ''duplicate'' = Some (JBool False)))"

text \<open>The effect of an accepted batch, as a relation between the documents before and after.\<close>

definition batch_effect ::
  "string \<Rightarrow> int \<Rightarrow> string \<Rightarrow> string \<Rightarrow> (string \<times> json) list \<Rightarrow> int \<Rightarrow> json \<Rightarrow> json \<Rightarrow> bool" where
  "batch_effect client cnt request digest changes n d d' \<longleftrightarrow>
     sync_ready d' (n + 1)
     \<and> (\<forall>i item. (i, item) \<in> set changes \<longrightarrow>
          findJsonPathValue d' (item_path i) = stamped (JInt (n + 1)) item)
     \<and> (\<forall>i. i \<notin> fst ` set changes \<longrightarrow> findJsonPathValue d' (item_path i) = findJsonPathValue d (item_path i))
     \<and> findJsonPathValue d' (receipt_path client) = Some (receipt_json cnt (n + 1) digest request)
     \<and> (\<forall>other. other \<noteq> client \<longrightarrow>
          findJsonPathValue d' (receipt_path other) = findJsonPathValue d (receipt_path other))
     \<and> (\<forall>cs. findJsonPathValue d clients_path = Some (JObj cs) \<longrightarrow> findJsonPathValue d' clients_path
          = Some (JObj (obj_put client (receipt_json cnt (n + 1) digest request) cs)))"

context lua_scripts
begin

lemma receipt_plain:
  "\<bar>c\<bar> < 10 ^ 14 \<Longrightarrow> \<bar>n\<bar> < 10 ^ 14 \<Longrightarrow>
    broker_receipt U (rat_of_int c) (rat_of_int n) digest request = receipt_json c n digest request"
  by (simp add: broker_receipt_def spell_exact receipt_json_def recode_plain)

lemma apply_effect:
  assumes r: "sync_ready d n" "0 \<le> n" "n + 1 < 10 ^ 14" and c: "0 \<le> c" "c < 10 ^ 14"
    and dist: "distinct (map fst changes)"
  shows "\<exists>d'. broker_apply R U client (rat_of_int c) request digest changes (rat_of_int n) d
      = (Some (broker_accepted U (rat_of_int (n + 1)) (rat_of_int c)), d')
    \<and> batch_effect client c request digest changes n d d'"
proof -
  obtain items clients sync where h: "findJsonPathValue d [Key ''items''] = Some (JObj items)"
    "findJsonPathValue d sync_path = Some (JObj sync)" "findJsonPathValue d clients_path = Some (JObj clients)"
    using r(1) by (elim sync_readyE)
  let ?r = "JInt (n + 1)"
  let ?rec = "receipt_json c (n + 1) digest request"
  have rev: "lua_add U (rat_of_int n) 1 = rat_of_int (n + 1)" using r by (intro succ_exact) auto
  have sp: "lua_spell U (rat_of_int (n + 1)) = ?r" using r by (intro spell_exact) auto
  have "n + 1 < 9007199254740991" using r(3) by simp
  then have lim: "\<not> rat_of_int (n + 1) \<ge> 9007199254740991"
    using of_int_less_iff[of "n + 1" 9007199254740991, where ?'a = rat] by simp
  define d1 where "d1 = fold (apply_change R ?r) (lua_pairs U changes) d"
  define d2 where "d2 = put_at d1 revision_path ?r"
  define d3 where "d3 = put_at d2 (receipt_path client) ?rec"
  note all = change_all[OF h(1) pairs_perm(1)[OF dist], of ?r, folded d1_def, unfolded pairs_perm(2)[OF dist]]
  have d1: "findJsonPathValue d1 sync_path = Some (JObj sync)"
    "findJsonPathValue d1 clients_path = Some (JObj clients)"
    "findJsonPathValue d1 (receipt_path x) = findJsonPathValue d (receipt_path x)" for x
    using all h by (simp_all add: sync_paths del: findJsonPathValue.simps)
  have div: "diverge revision_path (Key ''items'' # q)" "diverge revision_path clients_path"
    "diverge revision_path (receipt_path x)" "diverge (receipt_path client) (Key ''items'' # q)"
    "diverge (receipt_path client) revision_path" "x \<noteq> client \<Longrightarrow> diverge (receipt_path client) (receipt_path x)"
    for q x by (simp_all add: sync_paths)
  have paths: "revision_path = sync_path @ [Key ''revision'']" "receipt_path client = clients_path @ [Key client]"
    by (simp_all add: sync_paths)
  have d2: "findJsonPathValue d2 revision_path = Some ?r" "findJsonPathValue d2 clients_path = Some (JObj clients)"
    "findJsonPathValue d2 (receipt_path x) = findJsonPathValue d (receipt_path x)"
    "findJsonPathValue d2 (Key ''items'' # q) = findJsonPathValue d1 (Key ''items'' # q)" for q x
    using put_key(1)[OF d1(1), of "''revision''" ?r] d1 div
    by (simp_all add: d2_def paths(1)[symmetric] del: findJsonPathValue.simps)
  have d3: "findJsonPathValue d3 revision_path = Some ?r"
    "findJsonPathValue d3 clients_path = Some (JObj (obj_put client ?rec clients))"
    "findJsonPathValue d3 (receipt_path client) = Some ?rec"
    "x \<noteq> client \<Longrightarrow> findJsonPathValue d3 (receipt_path x) = findJsonPathValue d (receipt_path x)"
    "findJsonPathValue d3 (Key ''items'' # q) = findJsonPathValue d1 (Key ''items'' # q)" for q x
    using put_key[OF d2(2), of client ?rec] d2 div
    by (simp_all add: d3_def paths(2)[symmetric] del: findJsonPathValue.simps)
  have "batch_effect client c request digest changes n d d3"
    unfolding batch_effect_def sync_ready_def using all d3 h(3)
    by (simp add: item_path_def del: findJsonPathValue.simps) 
  moreover have "broker_apply R U client (rat_of_int c) request digest changes (rat_of_int n) d
      = (Some (broker_accepted U (rat_of_int (n + 1)) (rat_of_int c)), d3)"
    using lim r c unfolding broker_apply_def Let_def rev sp
    by (simp add: receipt_plain rj_simps d1_def d2_def d3_def del: of_int_add)
  ultimately show ?thesis by blast
qed

end

text \<open>The receipt a canvas holds for a client: none, or that of its last batch.\<close>

definition last_receipt :: "json \<Rightarrow> string \<Rightarrow> int \<Rightarrow> int \<Rightarrow> string \<Rightarrow> string \<Rightarrow> bool" where
  "last_receipt d client k n digest request \<longleftrightarrow>
     (if k = 0 then findJsonPathValue d (receipt_path client) = None
      else 1 \<le> k \<and> k < 10 ^ 14 \<and> \<bar>n\<bar> < 10 ^ 14 \<and>
        findJsonPathValue d (receipt_path client) = Some (receipt_json k n digest request))"

lemma receipt_simps [simp]:
  "jget (receipt_json k n digest request) ''digest'' = Some (JStr digest)"
  "jget (receipt_json k n digest request) ''request_id'' = Some (JStr request)"
  "jget (receipt_json k n digest request) ''revision'' = Some (JInt n)"
  "lua_field (receipt_json k n digest request) ''count'' = Some (Some (JInt k))"
  "receipt_json k n digest request \<noteq> JBool False"
  by (simp_all add: receipt_json_def jget_def lua_field_def)

context lua_scripts
begin

lemma error_reply: "\<not> batch_accepted L (Some (broker_error U code))"
  by (simp add: batch_accepted_def broker_error_def encode_parse jget_def)

lemma conflict_reply: "\<bar>k\<bar> < 10 ^ 14 \<Longrightarrow> \<not> batch_accepted L (Some (cj_encode U (JObj
    [(''accepted_count'', lua_spell U (rat_of_int k)), (''error'', JStr code)])))"
  by (simp add: batch_accepted_def spell_exact encode_parse jget_def)

lemma accepted_reply:
  assumes "\<bar>k\<bar> < 10 ^ 14" "\<bar>n\<bar> < 10 ^ 14"
  shows "jl_parse L (broker_accepted U (rat_of_int n) (rat_of_int k)) = Some (JObj
    [(''accepted_count'', JInt k), (''duplicate'', JBool False), (''revision'', JInt n),
     (''server_revision'', JInt n)])"
    "batch_accepted L (Some (broker_accepted U (rat_of_int n) (rat_of_int k)))"
  using assms by (simp_all add: batch_accepted_def broker_accepted_def spell_exact encode_parse jget_def)

lemma duplicate_reply:
  assumes "\<bar>k\<bar> < 10 ^ 14" "\<bar>n\<bar> < 10 ^ 14" "\<bar>m\<bar> < 10 ^ 14"
  shows "jl_parse L (broker_duplicate U (Some (JInt m)) (rat_of_int n) (rat_of_int k)) = Some (JObj
    [(''accepted_count'', JInt k), (''duplicate'', JBool True), (''revision'', JInt m),
     (''server_revision'', JInt n)])"
    "\<not> batch_accepted L (Some (broker_duplicate U (Some (JInt m)) (rat_of_int n) (rat_of_int k)))"
  using assms by (simp_all add: batch_accepted_def broker_duplicate_def spell_exact encode_parse jget_def)

lemma script_on_ready:
  assumes "sync_ready d n" "\<bar>n\<bar> \<le> 2 ^ 53" "\<bar>c\<bar> \<le> 2 ^ 53" "last_receipt d client k m dig req"
  shows "broker_script R U client c request digest changes expected d =
    (if c = k \<and> k \<noteq> 0 then
       (if dig \<noteq> digest \<or> req \<noteq> request then (Some (broker_error U ''CLIENT_REQUEST_MISMATCH''), d)
        else (Some (broker_duplicate U (Some (JInt m)) (rat_of_int n) (rat_of_int k)), d))
     else if c \<noteq> k + 1 then
       (Some (cj_encode U (JObj [(''accepted_count'', lua_spell U (rat_of_int k)),
          (''error'', JStr ''CLIENT_SEQUENCE_CONFLICT'')])), d)
     else broker_check R U client (rat_of_int c) request digest changes expected (k \<noteq> 0) (rat_of_int n) d)"
proof -
  have k: "\<bar>k\<bar> \<le> 2 ^ 53" "\<bar>k + 1\<bar> \<le> 2 ^ 53" using assms(4) by (auto simp: last_receipt_def split: if_splits)
  have n: "number_or 0 (tonumber U (findJsonPathValue d revision_path)) = rat_of_int n"
    using assms(1,2) by (auto elim!: sync_readyE simp: tonumber_exact number_or_def)
  have p: "last_count U (findJsonPathValue d (receipt_path client)) = Some (rat_of_int k)"
    "truthy (findJsonPathValue d (receipt_path client)) \<longleftrightarrow> k \<noteq> 0"
    "k \<noteq> 0 \<Longrightarrow> findJsonPathValue d (receipt_path client) = Some (receipt_json k m dig req)"
    using assms(4) k
    by (auto simp: last_receipt_def last_count_def truthy_def tonumber_exact number_or_def split: if_splits)
  have e: "rat_of_int c = rat_of_int k \<longleftrightarrow> c = k" "rat_of_int c = rat_of_int (k + 1) \<longleftrightarrow> c = k + 1"
    by (simp_all only: of_int_eq_iff)
  show ?thesis
    unfolding broker_script_def Let_def ensure_ready[OF assms(1)] rj_simps n p(1,2) option.case
      round_exact[OF assms(3)] succ_exact[OF k(2)] e
    using p(3) by (auto simp del: of_int_add)
qed

lemma batch_cases:
  assumes "sync_ready d n" "0 \<le> n" "n + 1 < 10 ^ 14" "\<bar>c\<bar> < 10 ^ 14"
    "last_receipt d client k m dig req" "distinct (map fst changes)"
    "broker_script R U client c request digest changes expected d = (reply, d')"
  shows "(d' = d \<and> \<not> batch_accepted L reply)
    \<or> (c = k + 1 \<and> reply = Some (broker_accepted U (rat_of_int (n + 1)) (rat_of_int c))
       \<and> batch_effect client c request digest changes n d d'
       \<and> revisions_match R U d (lua_pairs U expected) = Some True
       \<and> (k = 0 \<longrightarrow> (\<exists>cs. findJsonPathValue d clients_path = Some (JObj cs) \<and> length cs < 4096)))"
proof -
  have k: "0 \<le> k" "k < 10 ^ 14" using assms(5) by (auto simp: last_receipt_def split: if_splits)
  have b: "\<bar>n\<bar> \<le> 2 ^ 53" "\<bar>c\<bar> \<le> 2 ^ 53" using assms(2-4) by auto
  note run = assms(7)[unfolded script_on_ready[OF assms(1) b assms(5)]]
  show ?thesis
  proof (cases "c = k + 1")
    case False
    have "c = k \<and> k \<noteq> 0 \<Longrightarrow> \<bar>m\<bar> < 10 ^ 14" using assms(5) by (simp add: last_receipt_def)
    then show ?thesis using run False error_reply conflict_reply[of k] duplicate_reply(2)[of k n m] k assms(2,3)
      by (auto split: if_splits)
  next
    case True
    then have chk: "broker_check R U client (rat_of_int c) request digest changes expected (k \<noteq> 0)
        (rat_of_int n) d = (reply, d')" using run by auto
    have c: "0 \<le> c" "c < 10 ^ 14" using True k(1) assms(4) by auto
    obtain d3 where d3: "broker_apply R U client (rat_of_int c) request digest changes (rat_of_int n) d
        = (Some (broker_accepted U (rat_of_int (n + 1)) (rat_of_int c)), d3)"
      "batch_effect client c request digest changes n d d3"
      using apply_effect[OF assms(1-3) c assms(6)] by blast
    obtain cs where cs: "findJsonPathValue d clients_path = Some (JObj cs)" using assms(1) by (elim sync_readyE)
    then have tot: "client_total R d = Some (length cs)"
      by (simp add: client_total_def rj_simps truthy_def table_count_def)
    have none: "\<not> batch_accepted L None" by (simp add: batch_accepted_def)
    show ?thesis
    proof (cases "revisions_match R U d (lua_pairs U expected) = Some True \<and> (k = 0 \<longrightarrow> length cs < 4096)")
      case ok: True
      then have "(reply, d') = (Some (broker_accepted U (rat_of_int (n + 1)) (rat_of_int c)), d3)"
        using chk d3(1) tot unfolding broker_check_def by (cases "k = 0") auto
      then show ?thesis using True d3(2) ok cs by blast
    next
      case False
      then have "d' = d \<and> (reply = None \<or> (\<exists>code. reply = Some (broker_error U code)))"
        using chk tot unfolding broker_check_def by (auto split: option.splits bool.splits if_splits)
      then show ?thesis using error_reply none by blast
    qed
  qed
qed

end

end
