(* ===== verification/Broker_History.thy ===== *)
theory Broker_History
  imports Broker_Sync
begin

text \<open>
  The properties of \<open>applyBrokerBatch\<close>: the effect of one batch, the answer to a retry, lost updates,
  and the histories of a canvas on which any number of clients send batches.
\<close>

section \<open>Single batches\<close>

lemma revisions_match_iff: "revisions_match R U d es = Some True \<longleftrightarrow>
    (\<forall>(i, wanted) \<in> set es. \<exists>actual. item_revision U (rj_get R d (item_path i)) = Some actual
       \<and> equals_number U actual wanted)"
  by (induction es) (auto split: option.splits if_splits)

definition sample_canvas :: json where
  "sample_canvas = JObj [(''__broker_sync'', JObj [(''clients'', JObj []), (''revision'', JInt 0)]),
     (''items'', JObj [(''n'', JObj [(''kind'', JStr ''note'')])])]"

definition sample_change :: "(string \<times> json) list" where
  "sample_change = [(''n'', JObj [(''kind'', JStr ''note''), (''x'', JInt 1)])]"

definition sample_applied :: json where
  "sample_applied = snd (broker_script ref_rj ref_lua ''c'' 1 ''q'' ''h'' sample_change
     [(''n'', JInt 0)] sample_canvas)"

lemma sample_run:
  "broker_script ref_rj ref_lua ''c'' 1 ''q'' ''h'' sample_change [(''n'', JInt 0)] sample_canvas
   = (Some (broker_accepted ref_lua 1 1), sample_applied)"
  by code_simp

lemma sample_ready: "sync_ready sample_canvas 0" "last_receipt sample_canvas ''c'' 0 0 [] []"
  by (simp_all add: sync_ready_def last_receipt_def sample_canvas_def sync_paths)

text \<open>
  The effect of an accepted batch. When the script answers that a batch is new, the batch was
  the client's next one, every item it was based on still had the revision it was read at, the
  canvas revision grew by one and is the one reported, every changed item holds the new value
  stamped with that revision (or is gone), and no other item changed.
\<close>

theorem accepted_batch_effect:
  assumes "rj_ok R" "lua_ok L U" "sync_ready d n" "0 \<le> n" "n + 1 < 10 ^ 14" "\<bar>c\<bar> < 10 ^ 14"
    "last_receipt d client k m dig req" "distinct (map fst changes)" "distinct (map fst expected)"
    "broker_script R U client c request digest changes expected d = (Some reply, d')"
    "jl_parse L reply = Some r" "jget r ''duplicate'' = Some (JBool False)"
  shows "c = k + 1 \<and> jget r ''revision'' = Some (JInt (n + 1))
    \<and> findJsonPathValue d' revision_path = Some (JInt (n + 1))
    \<and> (\<forall>(i, wanted) \<in> set expected. \<exists>actual.
         item_revision U (findJsonPathValue d (item_path i)) = Some actual \<and> equals_number U actual wanted)
    \<and> (\<forall>(i, item) \<in> set changes. findJsonPathValue d' (item_path i) = stamped (JInt (n + 1)) item)
    \<and> (\<forall>i. i \<notin> fst ` set changes \<longrightarrow> findJsonPathValue d' (item_path i) = findJsonPathValue d (item_path i))"
proof -
  have ls: "lua_scripts L R U" using assms(1,2) by unfold_locales
  have "batch_accepted L (Some reply)" using assms(11,12) by (simp add: batch_accepted_def)
  then have b: "c = k + 1" "reply = broker_accepted U (rat_of_int (n + 1)) (rat_of_int c)"
    "batch_effect client c request digest changes n d d'"
    "revisions_match R U d (lua_pairs U expected) = Some True"
    using lua_scripts.batch_cases[OF ls assms(3-8) assms(10)] by blast+
  have "jget r ''revision'' = Some (JInt (n + 1))"
    using lua_scripts.accepted_reply(1)[OF ls, of c "n + 1"] assms(4-6,11) b(2) by (auto simp: jget_def)
  moreover have "\<forall>(i, wanted) \<in> set expected. \<exists>actual.
      item_revision U (findJsonPathValue d (item_path i)) = Some actual \<and> equals_number U actual wanted"
    using b(4) lua_scripts.pairs_perm(2)[OF ls assms(9)]
    by (simp add: revisions_match_iff lua_scripts.rj_simps[OF ls])
  ultimately show ?thesis using b(1,3) by (auto simp: batch_effect_def sync_ready_def)
qed

theorem accepted_batch_effect_witness:
  "findJsonPathValue sample_applied (item_path ''n'')
     = Some (JObj [(''__broker_revision'', JInt 1), (''kind'', JStr ''note''), (''x'', JInt 1)])
   \<and> findJsonPathValue sample_applied revision_path = Some (JInt 1)"
proof -
  let ?r = "JObj [(''accepted_count'', JInt 1), (''duplicate'', JBool False), (''revision'', JInt 1),
    (''server_revision'', JInt 1)]"
  have p: "jl_parse ref_lib (broker_accepted ref_lua 1 1) = Some ?r" by code_simp
  have d: "jget ?r ''duplicate'' = Some (JBool False)" by (simp add: jget_def)
  have s: "distinct (map fst sample_change)" "distinct (map fst [(''n'', JInt 0)])"
    by (simp_all add: sample_change_def)
  from accepted_batch_effect[OF ref_rj_ok ref_lua_ok sample_ready(1) _ _ _ sample_ready(2) s sample_run p d]
  show ?thesis by (auto simp: sample_change_def stamped_def)
qed

text \<open>
  Retries are answered, not applied again. After an accepted batch, sending the same batch
  again (the same client, count, request and digest, whatever items it carries) leaves the document
  as it is, and the answer is a duplicate with the revision of the first time.
\<close>

theorem retry_is_idempotent:
  assumes "rj_ok R" "lua_ok L U" "sync_ready d n" "0 \<le> n" "n + 1 < 10 ^ 14" "\<bar>c\<bar> < 10 ^ 14"
    "last_receipt d client k m dig req" "distinct (map fst changes)"
    "broker_script R U client c request digest changes expected d = (reply, d')" "batch_accepted L reply"
  shows "\<exists>again r. broker_script R U client c request digest changes' expected' d' = (Some again, d')
    \<and> jl_parse L again = Some r \<and> jget r ''duplicate'' = Some (JBool True)
    \<and> jget r ''revision'' = Some (JInt (n + 1))"
proof -
  have ls: "lua_scripts L R U" using assms(1,2) by unfold_locales
  have b: "c = k + 1" "batch_effect client c request digest changes n d d'"
    using lua_scripts.batch_cases[OF ls assms(3-9)] assms(10) by blast+
  have k: "0 \<le> k" using assms(7) by (simp add: last_receipt_def split: if_splits)
  have r: "sync_ready d' (n + 1)" "last_receipt d' client c (n + 1) digest request"
    using b assms(4-6) k by (auto simp: batch_effect_def last_receipt_def)
  have lim: "\<bar>n + 1\<bar> \<le> 2 ^ 53" "\<bar>c\<bar> \<le> 2 ^ 53" using assms(4-6) by auto
  have "broker_script R U client c request digest changes' expected' d'
      = (Some (broker_duplicate U (Some (JInt (n + 1))) (rat_of_int (n + 1)) (rat_of_int c)), d')"
    using lua_scripts.script_on_ready[OF ls r(1) lim r(2)] b(1) k by simp
  moreover have "\<bar>n + 1\<bar> < 10 ^ 14" using assms(4,5) by simp
  ultimately show ?thesis
    using lua_scripts.duplicate_reply(1)[OF ls assms(6)] by (force simp: jget_def)
qed

theorem retry_is_idempotent_witness:
  "\<exists>again r. broker_script ref_rj ref_lua ''c'' 1 ''q'' ''h'' [] [] sample_applied = (Some again, sample_applied)
    \<and> jl_parse ref_lib again = Some r \<and> jget r ''duplicate'' = Some (JBool True)
    \<and> jget r ''revision'' = Some (JInt 1)"
proof -
  have a: "batch_accepted ref_lib (Some (broker_accepted ref_lua 1 1))"
    using ref_scripts.accepted_reply(2)[of 1 1] by simp
  have s: "distinct (map fst sample_change)" by (simp add: sample_change_def)
  from retry_is_idempotent[OF ref_rj_ok ref_lua_ok sample_ready(1) _ _ _ sample_ready(2) s sample_run a]
  show ?thesis by simp
qed
text \<open>
  A batch that is not accepted changes nothing: whatever the reason (a repeated or skipped
  count, a mismatched request, a revision conflict, too many clients, a Lua error), the document
  of a canvas with a sync record is the same afterwards.
\<close>

theorem rejected_batch_changes_nothing:
  assumes "rj_ok R" "lua_ok L U" "sync_ready d n" "0 \<le> n" "n + 1 < 10 ^ 14" "\<bar>c\<bar> < 10 ^ 14"
    "last_receipt d client k m dig req" "distinct (map fst changes)"
    "broker_script R U client c request digest changes expected d = (reply, d')" "\<not> batch_accepted L reply"
  shows "d' = d"
proof -
  have ls: "lua_scripts L R U" using assms(1,2) by unfold_locales
  have "batch_accepted L (Some (broker_accepted U (rat_of_int (n + 1)) (rat_of_int c)))"
    using lua_scripts.accepted_reply(2)[OF ls assms(6), of "n + 1"] assms(4,5) by simp
  then show ?thesis using lua_scripts.batch_cases[OF ls assms(3-9)] assms(10) by blast
qed

theorem rejected_batch_changes_nothing_witness:
  "snd (broker_script ref_rj ref_lua ''c'' 5 ''q'' ''h'' sample_change [] sample_canvas) = sample_canvas"
proof -
  obtain reply d' where e: "broker_script ref_rj ref_lua ''c'' 5 ''q'' ''h'' sample_change [] sample_canvas
      = (reply, d')" by force
  have "fst (broker_script ref_rj ref_lua ''c'' 5 ''q'' ''h'' sample_change [] sample_canvas)
      = Some (cj_encode ref_lua (JObj [(''accepted_count'', lua_spell ref_lua 0),
          (''error'', JStr ''CLIENT_SEQUENCE_CONFLICT'')]))" by code_simp
  then have "\<not> batch_accepted ref_lib reply" using ref_scripts.conflict_reply[of 0] e by simp
  moreover have "distinct (map fst sample_change)" by (simp add: sample_change_def)
  ultimately show ?thesis
    using rejected_batch_changes_nothing[OF ref_rj_ok ref_lua_ok sample_ready(1) _ _ _ sample_ready(2) _ e] e
    by simp
qed



section \<open>Histories\<close>

text \<open>
  The histories of a canvas: it starts as a document with items and no sync record; any client sends
  any batch at any time; other operations change the document but not its sync record. The log lists
  the accepted batches with client, count and revision.
\<close>

inductive broker_run ::
  "json_lib \<Rightarrow> rj_lib \<Rightarrow> lua_lib \<Rightarrow> json \<Rightarrow> (string \<times> int \<times> int) list \<Rightarrow> bool" for L R U where
  start: "findJsonPathValue d [Key ''items''] = Some (JObj items) \<Longrightarrow>
     findJsonPathValue d sync_path = None \<Longrightarrow> broker_run L R U d []"
| batch: "broker_run L R U d hist \<Longrightarrow> int (length hist) + 1 < 10 ^ 14 \<Longrightarrow> \<bar>c\<bar> < 10 ^ 14 \<Longrightarrow>
     distinct (map fst changes) \<Longrightarrow>
     broker_script R U client c request digest changes expected d = (reply, d') \<Longrightarrow>
     broker_run L R U d' (if batch_accepted L reply
       then hist @ [(client, c, int (length hist) + 1)] else hist)"
| other: "broker_run L R U d hist \<Longrightarrow> findJsonPathValue d' [Key ''items''] = Some (JObj items) \<Longrightarrow>
     findJsonPathValue d' sync_path = findJsonPathValue d sync_path \<Longrightarrow> broker_run L R U d' hist"

definition client_log :: "string \<Rightarrow> (string \<times> int \<times> int) list \<Rightarrow> (string \<times> int \<times> int) list" where
  "client_log client hist = filter (\<lambda>e. fst e = client) hist"

definition log_inv :: "json \<Rightarrow> (string \<times> int \<times> int) list \<Rightarrow> bool" where
  "log_inv d hist \<longleftrightarrow> sync_ready d (int (length hist)) \<and> int (length hist) < 10 ^ 14
     \<and> map (snd \<circ> snd) hist = map int [1 ..< length hist + 1]
     \<and> (\<forall>client. map (fst \<circ> snd) (client_log client hist) = map int [1 ..< length (client_log client hist) + 1]
          \<and> (\<exists>m dig req. last_receipt d client (int (length (client_log client hist))) m dig req))
     \<and> (\<exists>cs. findJsonPathValue d clients_path = Some (JObj cs) \<and> sorted_wrt (<) (map fst cs)
          \<and> length cs \<le> 4096)"

lemma length_obj_put: "sorted_wrt (<) (map fst ms) \<Longrightarrow>
    length (obj_put k v ms) = (if map_of ms k = None then Suc (length ms) else length ms)"
proof (induction ms)
  case (Cons m ms)
  obtain k' v' where m: "m = (k', v')" by (cases m)
  have "map_of ms k = None" if "k < k'"
    using that Cons.prems m by (force simp: map_of_eq_None_iff)
  then show ?case using Cons m by auto
qed simp

lemma numbering_snoc: "map f xs = map int [1 ..< length xs + 1] \<Longrightarrow> f x = int (length xs) + 1 \<Longrightarrow>
    map f (xs @ [x]) = map int [1 ..< length (xs @ [x]) + 1]"
  by simp

lemma find_receipt: "findJsonPathValue d clients_path = Some (JObj cs) \<Longrightarrow>
    findJsonPathValue d (receipt_path client) = map_of cs client"
  using find_append[of d clients_path "[Key client]"]
  by (simp add: sync_paths split: option.splits)

context lua_scripts
begin

lemma ensure_fresh:
  assumes "findJsonPathValue d [Key ''items''] = Some (JObj items)" "findJsonPathValue d sync_path = None"
  shows "log_inv (ensure_sync R d) []"
proof -
  let ?v = "JObj [(''clients'', JObj []), (''revision'', JInt 0)]"
  obtain ms where d: "d = JObj ms" using assms(1) by (cases d) auto
  have e: "ensure_sync R d = JObj (obj_put ''__broker_sync'' ?v ms)"
    using assms(2) d by (simp add: ensure_sync_def rj_simps truthy_def put_at_def sync_path_def)
  show ?thesis unfolding e using assms(1) d
    by (auto simp: log_inv_def sync_ready_def last_receipt_def client_log_def sync_paths split: option.splits)
qed

lemma log_inv_step:
  assumes inv: "log_inv d hist" and lim: "int (length hist) + 1 < 10 ^ 14" "\<bar>c\<bar> < 10 ^ 14"
    and dist: "distinct (map fst changes)"
    and run: "broker_script R U client c request digest changes expected d = (reply, d')"
  shows "log_inv d' (if batch_accepted L reply then hist @ [(client, c, int (length hist) + 1)] else hist)"
proof -
  let ?n = "int (length hist)"
  let ?k = "int (length (client_log client hist))"
  obtain m dig req where rc: "last_receipt d client ?k m dig req" and ready: "sync_ready d ?n"
    using inv unfolding log_inv_def by blast
  obtain cs where cs: "findJsonPathValue d clients_path = Some (JObj cs)" "sorted_wrt (<) (map fst cs)"
    "length cs \<le> 4096" using inv unfolding log_inv_def by blast
  consider (no) "d' = d" "\<not> batch_accepted L reply"
    | (yes) "c = ?k + 1" "reply = Some (broker_accepted U (rat_of_int (?n + 1)) (rat_of_int c))"
      "batch_effect client c request digest changes ?n d d'"
      "?k = 0 \<longrightarrow> (\<exists>cs. findJsonPathValue d clients_path = Some (JObj cs) \<and> length cs < 4096)"
    using batch_cases[OF ready _ lim rc dist run] by force
  then show ?thesis
  proof cases
    case no
    then show ?thesis using inv by simp
  next
    case yes
    let ?hist = "hist @ [(client, c, ?n + 1)]"
    let ?rec = "receipt_json c (?n + 1) digest request"
    have acc: "batch_accepted L reply"
      using accepted_reply(2)[OF lim(2), of "?n + 1"] lim(1) yes(2) by simp
    have eff: "sync_ready d' (?n + 1)" "findJsonPathValue d' (receipt_path client) = Some ?rec"
      "\<And>x. x \<noteq> client \<Longrightarrow> findJsonPathValue d' (receipt_path x) = findJsonPathValue d (receipt_path x)"
      "findJsonPathValue d' clients_path = Some (JObj (obj_put client ?rec cs))"
      using yes(3) cs(1) by (auto simp: batch_effect_def)
    have cl: "client_log x ?hist = (if x = client then client_log x hist @ [(client, c, ?n + 1)]
        else client_log x hist)" for x by (simp add: client_log_def)
    have "map (fst \<circ> snd) (client_log x ?hist) = map int [1 ..< length (client_log x ?hist) + 1]
        \<and> (\<exists>m dig req. last_receipt d' x (int (length (client_log x ?hist))) m dig req)" for x
    proof (cases "x = client")
      case True
      have "int (length (client_log x ?hist)) = c" using True yes(1) by (simp add: client_log_def)
      then have "last_receipt d' x (int (length (client_log x ?hist))) (?n + 1) digest request"
        using True yes(1) eff(2) lim unfolding last_receipt_def by auto
      moreover have "map (fst \<circ> snd) (client_log x ?hist) = map int [1 ..< length (client_log x ?hist) + 1]"
        unfolding cl if_P[OF True] using inv True yes(1) unfolding log_inv_def
        by (intro numbering_snoc) auto
      ultimately show ?thesis by blast
    next
      case False
      show ?thesis unfolding cl if_not_P[OF False] last_receipt_def eff(3)[OF False]
        using inv unfolding log_inv_def last_receipt_def by blast
    qed
    moreover have "length (obj_put client ?rec cs) \<le> 4096"
      using yes(4) cs rc find_receipt[OF cs(1), of client]
      by (auto simp: length_obj_put last_receipt_def split: if_splits)
    moreover have "sorted_wrt (<) (map fst (obj_put client ?rec cs))"
      using cs(2) by (rule sorted_obj_put)
    moreover have "sync_ready d' (int (length ?hist))" using eff(1) by (simp add: algebra_simps)
    moreover have "map (snd \<circ> snd) ?hist = map int [1 ..< length ?hist + 1]"
      using inv unfolding log_inv_def by (intro numbering_snoc) auto
    ultimately have "log_inv d' ?hist"
      unfolding log_inv_def using eff(4) lim(1) by simp
    then show ?thesis using acc by simp
  qed
qed

lemma log_inv_other:
  assumes "log_inv d hist" "findJsonPathValue d' [Key ''items''] = Some (JObj items)"
    "findJsonPathValue d' sync_path = findJsonPathValue d sync_path"
  shows "log_inv d' hist"
proof -
  have "findJsonPathValue d' (sync_path @ q) = findJsonPathValue d (sync_path @ q)" for q
    using assms(3) by (simp add: find_append)
  from this[of "[Key ''revision'']"] this[of "[Key ''clients'']"] this[of "[Key ''clients'', Key x]" for x]
  have e: "findJsonPathValue d' revision_path = findJsonPathValue d revision_path"
    "findJsonPathValue d' clients_path = findJsonPathValue d clients_path"
    "findJsonPathValue d' (receipt_path x) = findJsonPathValue d (receipt_path x)" for x
    by (simp_all add: sync_paths)
  then show ?thesis using assms(1,2) unfolding log_inv_def sync_ready_def last_receipt_def e by blast
qed

lemma run_inv: "broker_run L R U d hist \<Longrightarrow>
    log_inv (ensure_sync R d) hist
    \<and> (findJsonPathValue d sync_path \<noteq> None \<longrightarrow> ensure_sync R d = d)
    \<and> (\<exists>items. findJsonPathValue d [Key ''items''] = Some (JObj items))
    \<and> (findJsonPathValue d sync_path = None \<longrightarrow> hist = [])"
proof (induction rule: broker_run.induct)
  case (start d items)
  then show ?case using ensure_fresh[OF start] by blast
next
  case (batch d hist c changes client request digest expected reply d')
  let ?d = "ensure_sync R d"
  have inv: "log_inv ?d hist" using batch.IH by blast
  then have "ensure_sync R ?d = ?d" by (auto simp: log_inv_def intro: ensure_ready)
  then have "broker_script R U client c request digest changes expected ?d = (reply, d')"
    using batch.hyps(5) by (simp add: broker_script_def)
  from log_inv_step[OF inv batch.hyps(2-4) this]
  have "log_inv d' (if batch_accepted L reply then hist @ [(client, c, int (length hist) + 1)] else hist)" .
  moreover from this have r: "\<exists>n. sync_ready d' n" by (auto simp: log_inv_def)
  then have "ensure_sync R d' = d'" by (auto intro: ensure_ready)
  moreover have "\<exists>items. findJsonPathValue d' [Key ''items''] = Some (JObj items)"
    "findJsonPathValue d' sync_path \<noteq> None"
    using r by (auto elim!: sync_readyE simp del: findJsonPathValue.simps)
  ultimately show ?case by metis
next
  case (other d hist d' items)
  show ?case
  proof (cases "findJsonPathValue d sync_path")
    case None
    then show ?thesis using ensure_fresh[OF other.hyps(2)] other by (simp del: findJsonPathValue.simps)
  next
    case (Some s)
    then have inv: "log_inv d hist" using other.IH by (metis option.distinct(1))
    note inv' = log_inv_other[OF inv other.hyps(2,3)]
    then have "ensure_sync R d' = d'" by (auto simp: log_inv_def intro: ensure_ready)
    then show ?thesis using inv' other.hyps(2,3) Some by (simp del: findJsonPathValue.simps)
  qed
qed

end



end
