(* ===== verification/Chat_Scripts.thy ===== *)
theory Chat_Scripts
  imports Broker_Sync
begin

text \<open>
  \<^verbatim>\<open>cpp/src/service_memory/CanvasServiceMemory.cpp\<close>, the scripts of the chat rooms:
  \<open>appendChatMessage\<close>, \<open>getChatHistoryPage\<close>, \<open>commitChatMessage\<close> and \<open>storeMentionState\<close>. A chat room is
  an item with a history (\<^verbatim>\<open>data\<close>), the next sequence number and, for every request, the sequence
  number of its message.
\<close>

section \<open>appendChatMessage\<close>

definition room_type_path :: "string \<Rightarrow> json_path_segment list" where
  "room_type_path room = [Key ''items'', Key room, Key ''type'']"

definition room_data_path :: "string \<Rightarrow> json_path_segment list" where
  "room_data_path room = [Key ''items'', Key room, Key ''data'']"

definition room_next_path :: "string \<Rightarrow> json_path_segment list" where
  "room_next_path room = [Key ''items'', Key room, Key ''next_sequence'']"

definition max_sequence :: "lua_lib \<Rightarrow> json list \<Rightarrow> rat" where
  \<comment> \<open>the loop over the history\<close>
  "max_sequence U history =
     fold (\<lambda>previous maximum.
       if is_table previous then
         (case tonumber U (jget previous ''sequence'') of
            Some s \<Rightarrow> if s > maximum then s else maximum
          | None \<Rightarrow> maximum)
       else maximum) history 0"

definition append_next :: "rj_lib \<Rightarrow> lua_lib \<Rightarrow> string \<Rightarrow> json \<Rightarrow> rat option" where
  \<comment> \<open>the expected next sequence number; \<open>None\<close> for \<open>BAD_HISTORY\<close>\<close>
  "append_next R U room d =
     (case tonumber U (rj_get R d (room_next_path room)) of
        Some n \<Rightarrow> Some n
      | None \<Rightarrow>
          (case rj_get R d (room_data_path room) of
             Some history \<Rightarrow>
               if is_table history then Some (lua_add U (max_sequence U (ipairs history)) 1) else None
           | None \<Rightarrow> None))"

definition append_message ::
  "rj_lib \<Rightarrow> lua_lib \<Rightarrow> string \<Rightarrow> rat \<Rightarrow> json \<Rightarrow> json \<Rightarrow> script_result" where
  "append_message R U room expected message d =
     (case lua_field message ''sequence'' of
        None \<Rightarrow> (None, d)
      | Some s \<Rightarrow>
          if tonumber U s \<noteq> Some expected then (Some ''BAD_MESSAGE'', d)
          else
            (case rj_arrappend R d (room_data_path room) message of
               None \<Rightarrow> (Some ''APPEND_FAILED'', d)
             | Some d1 \<Rightarrow>
                 (Some ''OK'', rj_set R d1 (room_next_path room) (lua_spell U (lua_add U expected 1)))))"

definition append_script ::
  "rj_lib \<Rightarrow> lua_lib \<Rightarrow> string \<Rightarrow> int \<Rightarrow> json \<Rightarrow> json \<Rightarrow> script_result" where
  "append_script R U room sequence message d =
     (if rj_get R d (room_type_path room) \<noteq> Some (JStr ''chat_room'') then (Some ''NOT_CHAT_ROOM'', d)
      else
        (case rj_arrlen R d (room_data_path room) of
           None \<Rightarrow> (Some ''BAD_HISTORY'', d)
         | Some len \<Rightarrow>
             (let d1 = (if len = None then rj_set R d (room_data_path room) (JArr []) else d);
                  expected = lua_round U (rat_of_int sequence)
              in case append_next R U room d1 of
                   None \<Rightarrow> (Some ''BAD_HISTORY'', d1)
                 | Some next \<Rightarrow>
                     if next \<noteq> expected then (Some ''SEQUENCE_CONFLICT'', d1)
                     else append_message R U room expected message d1)))"

definition append_eval ::
  "rj_lib \<Rightarrow> lua_lib \<Rightarrow> string \<Rightarrow> int \<Rightarrow> json \<Rightarrow> json option \<Rightarrow> string option \<times> json option" where
  "append_eval R U room sequence message stored =
     (case stored of
        None \<Rightarrow> (Some ''MISSING_ROOM'', None)
      | Some d \<Rightarrow> apsnd Some (append_script R U room sequence message d))"

section \<open>getChatHistoryPage\<close>

datatype page_mode = Range | From | To | Latest

definition page_mode_of :: "int option \<Rightarrow> int option \<Rightarrow> page_mode" where
  "page_mode_of from to =
     (case (from, to) of
        (Some _, Some _) \<Rightarrow> Range | (Some _, None) \<Rightarrow> From | (None, Some _) \<Rightarrow> To | (None, None) \<Rightarrow> Latest)"

definition page_window :: "lua_lib \<Rightarrow> page_mode \<Rightarrow> rat \<Rightarrow> rat \<Rightarrow> rat \<Rightarrow> rat \<Rightarrow> rat \<times> rat \<times> bool" where
  \<comment> \<open>\<open>start_index\<close>, \<open>end_index\<close> and \<open>has_more\<close>\<close>
  "page_window U mode total_count from to limit =
     (case mode of
        Latest \<Rightarrow> (let s = max 0 (lua_add U total_count (- limit)) in (s, total_count, s > 0))
      | From \<Rightarrow>
          (let s = min total_count (lua_add U from (-1)); e = min total_count (lua_add U s limit)
           in (s, e, e < total_count))
      | To \<Rightarrow>
          (let e = min total_count to; s = max 0 (lua_add U e (- limit)) in (s, e, s > 0))
      | Range \<Rightarrow>
          (let s = min total_count (lua_add U from (-1)); e = min total_count to
           in (s, if e < s then s else e, False)))"

fun contiguous_from :: "lua_lib \<Rightarrow> rat \<Rightarrow> nat \<Rightarrow> json list \<Rightarrow> bool" where
  \<comment> \<open>the loop over the slice: the message with number \<open>i\<close> has the sequence \<open>start_index + i\<close>\<close>
  "contiguous_from U s i [] \<longleftrightarrow> True"
| "contiguous_from U s i (message # rest) \<longleftrightarrow>
     is_table message \<and> tonumber U (jget message ''sequence'') = Some (lua_add U s (of_nat i))
     \<and> contiguous_from U s (i + 1) rest"

definition page_rows :: "lua_lib \<Rightarrow> json list \<Rightarrow> (rat \<times> json) list" where
  "page_rows U history =
     concat (map (\<lambda>message.
       if is_table message then
         (case tonumber U (jget message ''sequence'') of
            Some s \<Rightarrow> if s > 0 then [(s, message)] else []
          | None \<Rightarrow> [])
       else []) history)"

definition page_select ::
  "lua_lib \<Rightarrow> page_mode \<Rightarrow> rat \<Rightarrow> rat \<Rightarrow> rat \<Rightarrow> (rat \<times> json) list \<Rightarrow> (rat \<times> json) list \<times> bool" where
  \<comment> \<open>the selection from the sorted rows, and \<open>has_more\<close>\<close>
  "page_select U mode from to limit rows =
     (let last_rows = (\<lambda>candidates.
            let first = max 1 (lua_add U (lua_add U (of_nat (length candidates)) (- limit)) 1)
            in (drop (nat (floor first) - 1) candidates, first > 1))
      in case mode of
           Latest \<Rightarrow> last_rows rows
         | From \<Rightarrow>
             (let candidates = filter (\<lambda>row. fst row \<ge> from) rows;
                  shown = min (of_nat (length candidates)) limit
              in (take (nat (floor shown)) candidates, of_nat (length candidates) > shown))
         | To \<Rightarrow> last_rows (filter (\<lambda>row. fst row \<le> to) rows)
         | Range \<Rightarrow> (filter (\<lambda>row. fst row \<ge> from \<and> fst row \<le> to) rows, False))"

definition page_response :: "lua_lib \<Rightarrow> rat \<Rightarrow> json list \<Rightarrow> bool \<Rightarrow> rat \<Rightarrow> rat \<Rightarrow> json" where
  "page_response U total_count messages has_more start_index end_index =
     (let sequence_of = (\<lambda>message default. lua_spell U
            (number_or default (tonumber U (jget message ''sequence''))))
      in if messages = [] then
           JObj [(''has_more'', JBool has_more), (''messages'', JObj []), (''total'', lua_spell U total_count)]
         else
           JObj [(''from_sequence'', sequence_of (hd messages) (lua_add U start_index 1)),
             (''has_more'', JBool has_more), (''messages'', JArr messages),
             (''to_sequence'', sequence_of (last messages) end_index),
             (''total'', lua_spell U total_count)])"

definition page_fallback ::
  "rj_lib \<Rightarrow> lua_lib \<Rightarrow> string \<Rightarrow> page_mode \<Rightarrow> rat \<Rightarrow> rat \<Rightarrow> rat \<Rightarrow> json \<Rightarrow> string option" where
  \<comment> \<open>the branch for a history that is not contiguous\<close>
  "page_fallback R U room mode from to limit d =
     (case rj_get R d (item_path room) of
        None \<Rightarrow> None
      | Some chat_room \<Rightarrow>
          (case lua_field chat_room ''data'' of
             None \<Rightarrow> None
           | Some found \<Rightarrow>
               (let history = (if truthy found then the found else JArr []) in
                if \<not> is_table history then Some ''BAD_HISTORY''
                else
                  (let rows = lua_sort U (page_rows U (ipairs history));
                       (selected, has_more) = page_select U mode from to limit rows;
                       s = (if selected = [] then 0 else lua_add U (fst (hd selected)) (-1));
                       e = (if selected = [] then 0 else fst (last selected))
                   in Some (cj_encode U (page_response U (of_nat (length rows)) (map snd selected)
                        has_more s e))))))"

definition page_script ::
  "rj_lib \<Rightarrow> lua_lib \<Rightarrow> string \<Rightarrow> int option \<Rightarrow> int option \<Rightarrow> int \<Rightarrow> json \<Rightarrow> string option" where
  "page_script R U room from_sequence to_sequence requested d =
     (if rj_get R d (room_type_path room) \<noteq> Some (JStr ''chat_room'') then Some ''ROOM_NOT_FOUND''
      else
        (case rj_arrlen R d (room_data_path room) of
           None \<Rightarrow> Some ''BAD_HISTORY''
         | Some len \<Rightarrow>
             (let total_count = (case len of Some n \<Rightarrow> of_nat n | None \<Rightarrow> 0);
                  mode = page_mode_of from_sequence to_sequence;
                  from = lua_round U (rat_of_int (case from_sequence of Some i \<Rightarrow> i | None \<Rightarrow> 0));
                  to = lua_round U (rat_of_int (case to_sequence of Some i \<Rightarrow> i | None \<Rightarrow> 0));
                  limit = lua_round U (rat_of_int requested);
                  (s, e, has_more) = page_window U mode total_count from to limit;
                  messages = (case rj_slice R d (room_data_path room) (lua_spell U s) (lua_spell U e) of
                                Some ms \<Rightarrow> ms | None \<Rightarrow> [])
              in if of_nat (length messages) = lua_add U e (- s) \<and> contiguous_from U s 1 messages
                 then Some (cj_encode U (page_response U total_count messages has_more s e))
                 else page_fallback R U room mode from to limit d)))"

definition page_eval ::
  "rj_lib \<Rightarrow> lua_lib \<Rightarrow> string \<Rightarrow> int option \<Rightarrow> int option \<Rightarrow> int \<Rightarrow> json option \<Rightarrow> string option" where
  "page_eval R U room from_sequence to_sequence limit stored =
     (case stored of
        None \<Rightarrow> Some ''ROOM_NOT_FOUND''
      | Some d \<Rightarrow> page_script R U room from_sequence to_sequence limit d)"

section \<open>commitChatMessage\<close>

definition request_path :: "string \<Rightarrow> string \<Rightarrow> json_path_segment list" where
  "request_path room request = [Key ''items'', Key room, Key ''requests'', Key request]"

definition requests_path :: "string \<Rightarrow> json_path_segment list" where
  "requests_path room = [Key ''items'', Key room, Key ''requests'']"

definition lua_equal :: "lua_lib \<Rightarrow> json option \<Rightarrow> json option \<Rightarrow> bool" where
  \<comment> \<open>\<open>==\<close> of decoded values; two tables are never the same\<close>
  "lua_equal U a b =
     (case (a, b) of
        (None, None) \<Rightarrow> True
      | (Some JNull, Some JNull) \<Rightarrow> True
      | (Some (JBool x), Some (JBool y)) \<Rightarrow> x = y
      | (Some (JStr x), Some (JStr y)) \<Rightarrow> x = y
      | (Some x, Some y) \<Rightarrow> is_number x \<and> is_number y \<and> tonumber U a = tonumber U b
      | _ \<Rightarrow> False)"

definition array_index :: "lua_lib \<Rightarrow> json \<Rightarrow> nat option" where
  \<comment> \<open>the index that \<open>seq - 1\<close> spells in a path; \<open>None\<close> where the script or the path fails (a receipt is
     at least 1, so an index from the end of the array does not occur)\<close>
  "array_index U sequence =
     (case tonumber U (Some sequence) of
        None \<Rightarrow> None
      | Some s \<Rightarrow> (case lua_spell U (lua_add U s (-1)) of JInt i \<Rightarrow> if i \<ge> 0 then Some (nat i) else None
                 | _ \<Rightarrow> None))"

definition commit_known ::
  "rj_lib \<Rightarrow> lua_lib \<Rightarrow> string \<Rightarrow> json \<Rightarrow> json \<Rightarrow> json \<Rightarrow> script_result" where
  \<comment> \<open>the request has a receipt\<close>
  "commit_known R U room message sequence d =
     (case array_index U sequence of
        None \<Rightarrow> (None, d)
      | Some i \<Rightarrow>
          (case rj_get R d (room_data_path room @ [Index i]) of
             None \<Rightarrow> (None, d)
           | Some previous \<Rightarrow>
               (case (lua_field previous ''text'', lua_field previous ''object_id'', lua_field previous ''sender_user_id'') of
                  (Some t, Some object_id, Some sender) \<Rightarrow>
                    if \<not> lua_equal U t (jget message ''text'') \<or> \<not> lua_equal U object_id (jget message ''object_id'')
                       \<or> \<not> lua_equal U sender (jget message ''sender_user_id'')
                    then (Some ''CLIENT_REQUEST_MISMATCH'', d)
                    else (Some (cj_encode U previous), d)
                | _ \<Rightarrow> (None, d))))"

definition concat_text :: "lua_lib \<Rightarrow> json option \<Rightarrow> string option" where
  \<comment> \<open>an operand of \<open>..\<close>; \<open>None\<close> for the error on other values\<close>
  "concat_text U j =
     (case j of
        Some (JStr s) \<Rightarrow> Some s
      | Some (JInt i) \<Rightarrow> Some (lua_text U (lua_round U (rat_of_int i)))
      | Some (JFloat b) \<Rightarrow> Some (lua_text U (lua_double U b))
      | _ \<Rightarrow> None)"

definition mention_keys :: "lua_lib \<Rightarrow> json \<Rightarrow> string list option" where
  \<comment> \<open>the keys that \<open>pairs(msg.mentions)\<close> visits; \<open>None\<close> for the error on a value that is not a table\<close>
  "mention_keys U mentions =
     (case mentions of
        JObj ms \<Rightarrow> Some (map fst (lua_pairs U ms))
      | JArr xs \<Rightarrow> Some (map (\<lambda>i. lua_text U (of_nat i)) [1 ..< length xs + 1])
      | _ \<Rightarrow> None)"

definition mention_notification :: "lua_lib \<Rightarrow> string \<Rightarrow> json \<Rightarrow> json" where
  "mention_notification U mid message =
     cj_recode U (JObj (fold (\<lambda>f ms. case jget message f of Some v \<Rightarrow> obj_put f v ms | None \<Rightarrow> ms)
       [''room_id'', ''object_id'', ''sequence'', ''sender'', ''tag_number'', ''text'', ''created_at'']
       [(''mention_id'', JStr mid), (''unread'', JBool True)]))"

definition user_mentions_path :: "string \<Rightarrow> json_path_segment list" where
  "user_mentions_path user = [Key ''mention-states'', Key user]"

definition mention_path :: "string \<Rightarrow> string \<Rightarrow> json_path_segment list" where
  "mention_path user mid = [Key ''mention-states'', Key user, Key mid]"

definition store_mention :: "rj_lib \<Rightarrow> lua_lib \<Rightarrow> string \<Rightarrow> json \<Rightarrow> string \<Rightarrow> json \<Rightarrow> json" where
  "store_mention R U mid message user d =
     set_nx R (set_nx R d (user_mentions_path user) (JObj [])) (mention_path user mid)
       (mention_notification U mid message)"

definition commit_mentions :: "rj_lib \<Rightarrow> lua_lib \<Rightarrow> json \<Rightarrow> string \<Rightarrow> json \<Rightarrow> script_result" where
  "commit_mentions R U message reply d =
     (let mentions = jget message ''mentions'' in
      if \<not> truthy mentions then (Some reply, d)
      else
        (case mention_keys U (the mentions) of
           None \<Rightarrow> (None, d)
         | Some [] \<Rightarrow> (Some reply, d)
         | Some users \<Rightarrow>
             (let d1 = set_nx R d [Key ''mention-states''] (JObj []) in
              case (concat_text U (jget message ''room_id''), concat_text U (jget message ''sequence'')) of
                (Some room_id, Some s) \<Rightarrow>
                  (Some reply, fold (store_mention R U (room_id @ '':'' @ s) message) users d1)
              | _ \<Rightarrow> (None, d1))))"

definition commit_append ::
  "json_lib \<Rightarrow> rj_lib \<Rightarrow> lua_lib \<Rightarrow> string \<Rightarrow> string \<Rightarrow> json \<Rightarrow> json \<Rightarrow> script_result" where
  \<comment> \<open>from \<open>next_raw\<close> to the end\<close>
  "commit_append L R U room request message d =
     (case tonumber U (rj_get R d (room_next_path room)) of
        None \<Rightarrow> (Some ''SEQUENCE_CONFLICT'', d)
      | Some next \<Rightarrow>
          if tonumber U (jget message ''sequence'') \<noteq> Some next then (Some ''SEQUENCE_CONFLICT'', d)
          else
            (let d1 = (case rj_arrappend R d (room_data_path room) message of Some x \<Rightarrow> x | None \<Rightarrow> d);
                 d2 = rj_set R d1 (room_next_path room) (lua_spell U (lua_add U next 1));
                 d3 = set_nx R d2 (requests_path room) (JObj []);
                 d4 = rj_set R d3 (request_path room request) (lua_spell U next)
             in commit_mentions R U message (jl_dump L message) d4))"

definition commit_script ::
  "json_lib \<Rightarrow> rj_lib \<Rightarrow> lua_lib \<Rightarrow> string \<Rightarrow> string \<Rightarrow> json \<Rightarrow> json \<Rightarrow> json \<Rightarrow> script_result" where
  "commit_script L R U room request new_room message d =
     (let sequence = rj_get R d (request_path room request) in
      if truthy sequence then commit_known R U room message (the sequence) d
      else
        (let room_type = rj_get R d (room_type_path room) in
         if \<not> truthy room_type then
           commit_append L R U room request message (set_nx R d (item_path room) new_room)
         else if room_type \<noteq> Some (JStr ''chat_room'') then (Some ''BAD_ROOM'', d)
         else commit_append L R U room request message d))"

definition commit_eval ::
  "json_lib \<Rightarrow> rj_lib \<Rightarrow> lua_lib \<Rightarrow> string \<Rightarrow> string \<Rightarrow> json \<Rightarrow> json \<Rightarrow> json option
   \<Rightarrow> string option \<times> json option" where
  "commit_eval L R U room request new_room message stored =
     (case stored of
        None \<Rightarrow> (Some ''MISSING'', None)
      | Some d \<Rightarrow> apsnd Some (commit_script L R U room request new_room message d))"

definition new_chat_room :: "json \<Rightarrow> json" where
  \<comment> \<open>the document \<open>room\<close> that \<open>commitChatMessage\<close> passes for a room that does not exist\<close>
  "new_chat_room permission =
     JObj [(''data'', JArr []), (''next_sequence'', JInt 1), (''permission'', permission),
       (''requests'', JObj []), (''type'', JStr ''chat_room'')]"

section \<open>storeMentionState\<close>

definition mark_message_read :: "rj_lib \<Rightarrow> lua_lib \<Rightarrow> string \<Rightarrow> json \<Rightarrow> json \<Rightarrow> script_result" where
  \<comment> \<open>clears the flag of the user in the message the notification is about\<close>
  "mark_message_read R U user note d =
     (case (lua_field note ''room_id'', lua_field note ''sequence'') of
        (Some room_id, Some sequence) \<Rightarrow>
          if truthy room_id \<and> truthy sequence then
            (case (room_id, array_index U (the sequence)) of
               (Some (JStr room), Some i) \<Rightarrow>
                 (Some ''OK'', set_xx R d (room_data_path room @ [Index i, Key ''mentions'', Key user]) (JBool False))
             | _ \<Rightarrow> (None, d))
          else (Some ''OK'', d)
      | _ \<Rightarrow> (None, d))"

definition mention_script ::
  "rj_lib \<Rightarrow> lua_lib \<Rightarrow> string \<Rightarrow> string \<Rightarrow> json \<Rightarrow> bool \<Rightarrow> json \<Rightarrow> script_result" where
  \<comment> \<open>\<open>unread\<close> chooses between \<open>create\<close> and \<open>read\<close>; a stored notification is an object\<close>
  "mention_script R U user mention_id notification unread d =
     (let d1 = set_nx R d [Key ''mention-states''] (JObj []);
          d2 = set_nx R d1 (user_mentions_path user) (JObj [])
      in if unread then (Some ''OK'', set_nx R d2 (mention_path user mention_id) notification)
         else
           (let existing = rj_get R d2 (mention_path user mention_id) in
            if \<not> truthy existing then (Some ''MISSING'', d2)
            else
              (case the existing of
                 JObj ms \<Rightarrow>
                   (let note = JObj (obj_put ''unread'' (JBool False) ms);
                        d3 = rj_set R d2 (mention_path user mention_id) (cj_recode U note)
                    in mark_message_read R U user note d3)
               | _ \<Rightarrow> (None, d2))))"

definition mention_eval ::
  "rj_lib \<Rightarrow> lua_lib \<Rightarrow> string \<Rightarrow> string \<Rightarrow> json \<Rightarrow> bool \<Rightarrow> json option \<Rightarrow> string option \<times> json option" where
  "mention_eval R U user mention_id notification unread stored =
     (case stored of
        None \<Rightarrow> (Some ''MISSING'', None)
      | Some d \<Rightarrow> apsnd Some (mention_script R U user mention_id notification unread d))"

end
