(* ===== verification/Chat_Rooms.thy ===== *)
theory Chat_Rooms
  imports Chat_Scripts
begin

text \<open>
  What the chat scripts guarantee for a room whose history is numbered from 1: messages are appended
  in order and once per request, and a page is the window that was asked for.
\<close>

section \<open>Well-formed rooms\<close>

definition numbered :: "json list \<Rightarrow> bool" where
  "numbered xs \<longleftrightarrow> (\<forall>i < length xs. is_object (xs ! i) \<and> jget (xs ! i) ''sequence'' = Some (JInt (int i + 1)))"

definition room_ok :: "json \<Rightarrow> string \<Rightarrow> json list \<Rightarrow> bool" where
  "room_ok d room xs \<longleftrightarrow>
     (\<exists>ms. findJsonPathValue d (item_path room) = Some (JObj ms) \<and> map_of ms ''type'' = Some (JStr ''chat_room'')
        \<and> map_of ms ''data'' = Some (JArr xs) \<and> map_of ms ''next_sequence'' = Some (JInt (int (length xs) + 1)))
     \<and> numbered xs"

lemma numbered_snoc:
  "numbered xs \<Longrightarrow> is_object m \<Longrightarrow> jget m ''sequence'' = Some (JInt (int (length xs) + 1)) \<Longrightarrow> numbered (xs @ [m])"
  by (auto simp: numbered_def nth_append less_Suc_eq)

lemmas room_paths = room_type_path_def room_data_path_def room_next_path_def request_path_def
  requests_path_def item_path_def

lemma room_member:
  assumes "findJsonPathValue d (item_path room) = Some (JObj ms)"
  shows "findJsonPathValue d [Key ''items'', Key room, Key k] = map_of ms k"
  using assms find_append[of d "item_path room" "[Key k]"]
  by (simp add: item_path_def split: option.splits)

lemma room_okE:
  assumes "room_ok d room xs"
  obtains ms where "findJsonPathValue d (item_path room) = Some (JObj ms)"
    "findJsonPathValue d (room_type_path room) = Some (JStr ''chat_room'')"
    "findJsonPathValue d (room_data_path room) = Some (JArr xs)"
    "findJsonPathValue d (room_next_path room) = Some (JInt (int (length xs) + 1))"
    "map_of ms ''type'' = Some (JStr ''chat_room'')" "map_of ms ''data'' = Some (JArr xs)"
    "map_of ms ''next_sequence'' = Some (JInt (int (length xs) + 1))" "numbered xs"
proof -
  obtain ms where ms: "findJsonPathValue d (item_path room) = Some (JObj ms)"
    "map_of ms ''type'' = Some (JStr ''chat_room'')" "map_of ms ''data'' = Some (JArr xs)"
    "map_of ms ''next_sequence'' = Some (JInt (int (length xs) + 1))" "numbered xs"
    using assms unfolding room_ok_def by blast
  show thesis
    by (rule that[OF ms(1)])
      (simp_all only: room_member[OF ms(1)] room_type_path_def room_data_path_def room_next_path_def ms(2-5))
qed

text \<open>Appending a message and advancing the next sequence number.\<close>

definition appended :: "json \<Rightarrow> string \<Rightarrow> json \<Rightarrow> int \<Rightarrow> json" where
  "appended d room message n =
     put_at (append_at d (room_data_path room) message) (room_next_path room) (JInt n)"

lemma appended_room:
  assumes "room_ok d room xs" "is_object m" "jget m ''sequence'' = Some (JInt (int (length xs) + 1))"
  shows "room_ok (appended d room m (int (length xs) + 2)) room (xs @ [m])"
    "(\<forall>ms. findJsonPathValue d (item_path room) = Some (JObj ms) \<longrightarrow>
        findJsonPathValue (appended d room m (int (length xs) + 2)) (item_path room)
        = Some (JObj (obj_put ''next_sequence'' (JInt (int (length xs) + 2)) (obj_put ''data'' (JArr (xs @ [m])) ms))))"
    "diverge (item_path room) q \<Longrightarrow>
       findJsonPathValue (appended d room m (int (length xs) + 2)) q = findJsonPathValue d q"
proof -
  obtain ms where ms: "findJsonPathValue d (item_path room) = Some (JObj ms)"
    "findJsonPathValue d (room_data_path room) = Some (JArr xs)"
    "map_of ms ''type'' = Some (JStr ''chat_room'')" "numbered xs"
    using assms(1) by (elim room_okE)
  have p: "room_data_path room = item_path room @ [Key ''data'']"
    "room_next_path room = item_path room @ [Key ''next_sequence'']" by (simp_all add: room_paths)
  let ?d1 = "put_at d (item_path room @ [Key ''data'']) (JArr (xs @ [m]))"
  let ?d2 = "appended d room m (int (length xs) + 2)"
  have e: "?d2 = put_at ?d1 (item_path room @ [Key ''next_sequence'']) (JInt (int (length xs) + 2))"
    using ms(2) p by (simp add: appended_def append_at_def)
  note f = put_key(2)[OF put_key(2)[OF ms(1), of "''data''" "JArr (xs @ [m])"],
      of "''next_sequence''" "JInt (int (length xs) + 2)", folded e]
  show "room_ok ?d2 room (xs @ [m])"
    unfolding room_ok_def using f ms(3) numbered_snoc[OF ms(4) assms(2,3)] by simp
  show "\<forall>ms. findJsonPathValue d (item_path room) = Some (JObj ms) \<longrightarrow>
      findJsonPathValue ?d2 (item_path room)
      = Some (JObj (obj_put ''next_sequence'' (JInt (int (length xs) + 2)) (obj_put ''data'' (JArr (xs @ [m])) ms)))"
    using f ms(1) by simp
  show "findJsonPathValue ?d2 q = findJsonPathValue d q" if "diverge (item_path room) q"
    unfolding e using that diverge_append by simp
qed

context lua_scripts
begin

lemma append_on_room:
  assumes "room_ok d room xs" "int (length xs) + 2 < 10 ^ 14" "\<bar>sequence\<bar> \<le> 2 ^ 53"
    "is_object message" "jget message ''sequence'' = Some (JInt s)" "\<bar>s\<bar> \<le> 2 ^ 53"
  shows "append_script R U room sequence message d =
    (if sequence \<noteq> int (length xs) + 1 then (Some ''SEQUENCE_CONFLICT'', d)
     else if s \<noteq> sequence then (Some ''BAD_MESSAGE'', d)
     else (Some ''OK'', appended d room message (int (length xs) + 2)))"
proof -
  obtain ms where ms: "findJsonPathValue d (room_type_path room) = Some (JStr ''chat_room'')"
    "findJsonPathValue d (room_data_path room) = Some (JArr xs)"
    "findJsonPathValue d (room_next_path room) = Some (JInt (int (length xs) + 1))"
    using assms(1) by (elim room_okE)
  have nx: "append_next R U room d = Some (rat_of_int (int (length xs) + 1))"
    using ms(3) assms(2) by (simp add: append_next_def rj_simps tonumber_exact del: of_int_add)
  have f: "lua_field message ''sequence'' = Some (Some (JInt s))"
    using assms(4,5) by (auto simp: is_object_iff jget_def lua_field_def)
  have e: "rat_of_int (int (length xs) + 1) = rat_of_int sequence \<longleftrightarrow> int (length xs) + 1 = sequence"
    "rat_of_int s = rat_of_int sequence \<longleftrightarrow> s = sequence" by (simp_all only: of_int_eq_iff)
  have sp: "lua_spell U (lua_add U (rat_of_int (int (length xs) + 1)) 1) = JInt (int (length xs) + 2)"
    using succ_exact[of "int (length xs) + 1"] spell_exact[of "int (length xs) + 1 + 1"] assms(2)
    by (simp add: algebra_simps del: of_int_add)
  show ?thesis
    unfolding append_script_def rj_simps ms array_length_def option.case json.case Let_def
      round_exact[OF assms(3)] if_False nx append_message_def f tonumber_exact[OF assms(6)]
    using sp ms e by (auto simp: nx appended_def simp del: of_int_add)
qed

end

section \<open>Appending\<close>

definition sample_room :: json where
  "sample_room = JObj [(''items'', JObj [(''r'', JObj [
     (''data'', JArr [JObj [(''sequence'', JInt 1), (''text'', JStr ''hi'')]]),
     (''next_sequence'', JInt 2), (''type'', JStr ''chat_room'')])])]"

definition sample_message :: json where
  "sample_message = JObj [(''request_id'', JStr ''q''), (''room_id'', JStr ''r''), (''sender_user_id'', JInt 7),
     (''sequence'', JInt 2), (''text'', JStr ''yo'')]"

lemma sample_room_ok: "room_ok sample_room ''r'' [JObj [(''sequence'', JInt 1), (''text'', JStr ''hi'')]]"
  by (simp add: room_ok_def sample_room_def room_paths numbered_def jget_def)

text \<open>
  C25. Appending keeps the history in order. On a chat room whose messages are numbered from 1, the
  script of \<open>appendChatMessage\<close> answers OK exactly for the next sequence number and a message that
  carries it; then the message is the new last one and the room is again numbered from 1. In every
  other case the document is unchanged.
\<close>

theorem append_keeps_order:
  assumes "rj_ok R" "lua_ok L U" "room_ok d room xs" "int (length xs) + 2 < 10 ^ 14"
    "\<bar>sequence\<bar> \<le> 2 ^ 53" "is_object message" "jget message ''sequence'' = Some (JInt s)" "\<bar>s\<bar> \<le> 2 ^ 53"
    "append_script R U room sequence message d = (reply, d')"
  shows "(reply = Some ''OK'' \<longleftrightarrow> sequence = int (length xs) + 1 \<and> s = sequence)
    \<and> (reply = Some ''OK'' \<longrightarrow> room_ok d' room (xs @ [message])
         \<and> (\<forall>q. diverge (item_path room) q \<longrightarrow> findJsonPathValue d' q = findJsonPathValue d q))
    \<and> (reply \<noteq> Some ''OK'' \<longrightarrow> d' = d)"
proof -
  have ls: "lua_scripts L R U" using assms(1,2) by unfold_locales
  note run = assms(9)[unfolded lua_scripts.append_on_room[OF ls assms(3-8)]]
  show ?thesis
  proof (cases "sequence = int (length xs) + 1 \<and> s = sequence")
    case True
    then have "reply = Some ''OK''" "d' = appended d room message (int (length xs) + 2)" using run by auto
    then show ?thesis using True appended_room[OF assms(3,6), of] assms(7) by simp
  next
    case False
    then have "reply \<noteq> Some ''OK''" "d' = d" using run by (auto split: if_splits)
    then show ?thesis using False by blast
  qed
qed

theorem append_keeps_order_witness:
  "fst (append_script ref_rj ref_lua ''r'' 2 sample_message sample_room) = Some ''OK''
   \<and> room_ok (snd (append_script ref_rj ref_lua ''r'' 2 sample_message sample_room)) ''r''
       [JObj [(''sequence'', JInt 1), (''text'', JStr ''hi'')], sample_message]"
proof -
  obtain reply d' where e: "append_script ref_rj ref_lua ''r'' 2 sample_message sample_room = (reply, d')"
    by force
  have m: "is_object sample_message" "jget sample_message ''sequence'' = Some (JInt 2)"
    by (simp_all add: sample_message_def jget_def)
  show ?thesis
    using append_keeps_order[OF ref_rj_ok ref_lua_ok sample_room_ok _ _ m _ e] e by simp
qed

section \<open>Committing\<close>

definition requests_ok :: "json \<Rightarrow> string \<Rightarrow> bool" where
  \<comment> \<open>the receipts of a room are an object, or there are none yet\<close>
  "requests_ok d room \<longleftrightarrow>
     (case findJsonPathValue d (requests_path room) of None \<Rightarrow> True | Some j \<Rightarrow> is_object j)"

definition lua_scalar :: "json option \<Rightarrow> bool" where
  "lua_scalar j = (case j of Some (JArr _) \<Rightarrow> False | Some (JObj _) \<Rightarrow> False | _ \<Rightarrow> True)"

lemma lua_equal_refl: "lua_scalar j \<Longrightarrow> lua_equal U j j"
  by (auto simp: lua_scalar_def lua_equal_def is_number_def split: option.splits json.splits)

lemma find_parent: "findJsonPathValue d (p @ [Key k]) = Some v \<Longrightarrow>
    \<exists>ms. findJsonPathValue d p = Some (JObj ms) \<and> map_of ms k = Some v"
  by (auto simp: find_append split: option.splits json.splits)

context lua_scripts
begin

lemma find_set_nx_diverge: "diverge p q \<Longrightarrow> findJsonPathValue (set_nx R d p v) q = findJsonPathValue d q"
  by (simp add: set_nx_def rj_simps)

lemma mentions_frame:
  assumes "a \<noteq> ''mention-states''"
  shows "findJsonPathValue (snd (commit_mentions R U m reply d)) (Key a # q) = findJsonPathValue d (Key a # q)"
proof -
  have st: "findJsonPathValue (store_mention R U mid m u d) (Key a # q) = findJsonPathValue d (Key a # q)"
    for mid u d
    using assms by (simp add: store_mention_def find_set_nx_diverge user_mentions_path_def mention_path_def
        del: findJsonPathValue.simps)
  have "findJsonPathValue (fold (store_mention R U mid m) us d) (Key a # q) = findJsonPathValue d (Key a # q)"
    for mid us d
    by (induction us arbitrary: d) (simp_all add: st del: findJsonPathValue.simps)
  then show ?thesis using assms
    by (auto simp: commit_mentions_def Let_def find_set_nx_diverge st simp del: findJsonPathValue.simps
        split: option.splits list.splits)
qed

lemma mentions_reply: "fst (commit_mentions R U m reply d) \<in> {None, Some reply}"
  by (auto simp: commit_mentions_def Let_def split: option.splits list.splits)

lemma commit_append_room:
  assumes room: "room_ok d room xs" "requests_ok d room" and len: "int (length xs) + 2 < 10 ^ 14"
    and m: "is_object m" "jget m ''sequence'' = Some (JInt (int (length xs) + 1))"
    and run: "commit_append L R U room request m d = (reply, d')"
  shows "room_ok d' room (xs @ [m])" "requests_ok d' room"
    "findJsonPathValue d' (request_path room request) = Some (JInt (int (length xs) + 1))"
    "reply \<in> {None, Some (jl_dump L m)}"
    "a \<noteq> ''items'' \<Longrightarrow> a \<noteq> ''mention-states'' \<Longrightarrow> findJsonPathValue d' (Key a # q) = findJsonPathValue d (Key a # q)"
    "other \<noteq> room \<Longrightarrow> findJsonPathValue d' (item_path other) = findJsonPathValue d (item_path other)"
proof -
  obtain ms where ms: "findJsonPathValue d (item_path room) = Some (JObj ms)"
    "findJsonPathValue d (room_data_path room) = Some (JArr xs)"
    "findJsonPathValue d (room_next_path room) = Some (JInt (int (length xs) + 1))"
    using room(1) by (elim room_okE)
  let ?n = "int (length xs) + 1"
  define d2 where "d2 = appended d room m (int (length xs) + 2)"
  define d3 where "d3 = set_nx R d2 (requests_path room) (JObj [])"
  define d4 where "d4 = put_at d3 (request_path room request) (JInt ?n)"
  note ap = appended_room[OF room(1) m, folded d2_def]
  have sp: "lua_spell U (lua_add U (rat_of_int ?n) 1) = JInt (int (length xs) + 2)"
    "lua_spell U (rat_of_int ?n) = JInt ?n"
    using succ_exact[of ?n] spell_exact[of "?n + 1"] spell_exact[of ?n] len
    by (simp_all add: algebra_simps del: of_int_add)
  have tn: "tonumber U (Some (JInt ?n)) = Some (rat_of_int ?n)" using len by (intro tonumber_exact) simp
  have e: "(reply, d') = commit_mentions R U m (jl_dump L m) d4"
    unfolding run[symmetric] commit_append_def rj_simps ms m(2) tn option.case Let_def sp
    by (simp add: d4_def d3_def d2_def appended_def)
  obtain ms2 where ms2: "findJsonPathValue d2 (item_path room) = Some (JObj ms2)"
    "map_of ms2 ''type'' = Some (JStr ''chat_room'')" "map_of ms2 ''data'' = Some (JArr (xs @ [m]))"
    "map_of ms2 ''next_sequence'' = Some (JInt (int (length (xs @ [m])) + 1))" "numbered (xs @ [m])"
    and reqs: "map_of ms2 ''requests'' = map_of ms ''requests''"
    using ap(1) ap(2) ms(1) unfolding room_ok_def by force
  have rq: "findJsonPathValue d (requests_path room) = map_of ms ''requests''"
    using room_member[OF ms(1)] by (simp add: requests_path_def)
  have p: "requests_path room = item_path room @ [Key ''requests'']"
    "request_path room request = requests_path room @ [Key request]" by (simp_all add: room_paths)
  have d3: "\<exists>ms3 rs. findJsonPathValue d3 (item_path room) = Some (JObj ms3)
      \<and> map_of ms3 ''requests'' = Some (JObj rs) \<and> (\<forall>k. k \<noteq> ''requests'' \<longrightarrow> map_of ms3 k = map_of ms2 k)"
  proof (cases "map_of ms ''requests''")
    case None
    then have "findJsonPathValue d2 (requests_path room) = None"
      using room_member[OF ms2(1)] reqs by (simp add: requests_path_def)
    then have "d3 = put_at d2 (item_path room @ [Key ''requests'']) (JObj [])"
      by (simp add: d3_def set_nx_def rj_simps p(1))
    with put_key(2)[OF ms2(1)] show ?thesis by simp
  next
    case (Some j)
    then have "findJsonPathValue d2 (requests_path room) \<noteq> None"
      using room_member[OF ms2(1)] reqs by (simp add: requests_path_def)
    then have "d3 = d2" by (auto simp: d3_def set_nx_def rj_simps)
    moreover obtain rs where "j = JObj rs" using room(2) rq Some by (auto simp: requests_ok_def is_object_iff)
    ultimately show ?thesis using ms2(1) reqs Some by auto
  qed
  then obtain ms3 rs where ms3: "findJsonPathValue d3 (item_path room) = Some (JObj ms3)"
    "map_of ms3 ''requests'' = Some (JObj rs)" "\<And>k. k \<noteq> ''requests'' \<Longrightarrow> map_of ms3 k = map_of ms2 k" by blast
  have rp: "findJsonPathValue d3 (requests_path room) = Some (JObj rs)"
    using room_member[OF ms3(1)] ms3(2) by (simp add: requests_path_def)
  note f4 = put_key[OF rp, of request "JInt ?n", folded p(2), folded d4_def]
  obtain ms4 where ms4: "findJsonPathValue d4 (item_path room) = Some (JObj ms4)"
    "\<And>k. k \<noteq> ''requests'' \<Longrightarrow> map_of ms4 k = map_of ms2 k"
  proof -
    have div: "k \<noteq> ''requests'' \<Longrightarrow> diverge (request_path room request) [Key ''items'', Key room, Key k]" for k
      by (simp add: room_paths)
    obtain ms4 where ms4: "findJsonPathValue d4 (item_path room) = Some (JObj ms4)"
      using find_parent[OF f4(2)[unfolded p(1)]] by blast
    have "map_of ms4 k = map_of ms2 k" if "k \<noteq> ''requests''" for k
      using room_member[OF ms4, of k] room_member[OF ms3(1), of k] find_put_diverge[OF div[OF that], of d3 "JInt ?n", folded d4_def]
        ms3(3)[OF that] by (simp del: findJsonPathValue.simps)
    with ms4 that show thesis by blast
  qed
  have d': "d' = snd (commit_mentions R U m (jl_dump L m) d4)" using e by (metis snd_conv)
  have fr: "findJsonPathValue d' (Key ''items'' # q) = findJsonPathValue d4 (Key ''items'' # q)" for q
    unfolding d' by (rule mentions_frame) simp
  have "findJsonPathValue d' (item_path room) = Some (JObj ms4)"
    unfolding item_path_def using fr ms4(1) by (simp add: item_path_def del: findJsonPathValue.simps)
  then show "room_ok d' room (xs @ [m])" unfolding room_ok_def using ms4(2) ms2 by simp
  have "findJsonPathValue d' (request_path room request) = Some (JInt ?n)"
    "findJsonPathValue d' (requests_path room) = Some (JObj (obj_put request (JInt ?n) rs))"
    using f4 fr by (simp_all add: room_paths del: findJsonPathValue.simps)
  then show "findJsonPathValue d' (request_path room request) = Some (JInt ?n)" "requests_ok d' room"
    by (simp_all add: requests_ok_def)
  show "reply \<in> {None, Some (jl_dump L m)}" using mentions_reply e by (metis fst_conv)
  have off: "findJsonPathValue d4 q = findJsonPathValue d q" if "diverge (item_path room) q" for q
    using that ap(3) diverge_append[OF that] find_set_nx_diverge[of "requests_path room" q]
    unfolding d4_def d3_def p by (simp del: append.simps)
  show "findJsonPathValue d' (Key a # q) = findJsonPathValue d (Key a # q)"
    if "a \<noteq> ''items''" "a \<noteq> ''mention-states''"
    using mentions_frame[of a m "jl_dump L m" d4 q, folded d'] that off[of "Key a # q"]
    by (simp add: item_path_def del: findJsonPathValue.simps)
  show "findJsonPathValue d' (item_path other) = findJsonPathValue d (item_path other)" if "other \<noteq> room"
    using fr off[of "item_path other"] that by (simp add: item_path_def del: findJsonPathValue.simps)
qed

lemma commit_new_request:
  assumes "room_ok d room xs" "findJsonPathValue d (request_path room request) = None"
  shows "commit_script L R U room request new_room m d = commit_append L R U room request m d"
  using assms by (auto elim!: room_okE simp: commit_script_def Let_def rj_simps truthy_def)

lemma commit_retry:
  assumes room: "room_ok d room xs" and i: "i < length xs" "int (length xs) < 10 ^ 14"
    and r: "findJsonPathValue d (request_path room request) = Some (JInt (int i + 1))"
    and same: "\<forall>f \<in> {''text'', ''object_id'', ''sender_user_id''}. jget m f = jget (xs ! i) f \<and> lua_scalar (jget m f)"
  shows "commit_script L R U room request new_room m d = (Some (cj_encode U (xs ! i)), d)"
proof -
  obtain ms where ms: "findJsonPathValue d (room_data_path room) = Some (JArr xs)" "numbered xs"
    using room by (elim room_okE)
  have obj: "is_object (xs ! i)" using ms(2) i(1) by (simp add: numbered_def)
  have fld: "lua_field (xs ! i) f = Some (jget (xs ! i) f)" for f
    using obj by (auto simp: is_object_iff lua_field_def jget_def)
  have tn: "tonumber U (Some (JInt (int i + 1))) = Some (rat_of_int (int i + 1))"
    using i by (intro tonumber_exact) simp
  have "lua_add U (rat_of_int (int i + 1)) (-1) = rat_of_int (int i)"
    using add_exact[of "int i + 1" "-1"] i by simp
  moreover have "lua_spell U (rat_of_int (int i)) = JInt (int i)" using i by (intro spell_exact) simp
  ultimately have idx: "array_index U (JInt (int i + 1)) = Some i"
    using tn by (simp add: array_index_def del: of_int_add of_int_of_nat_eq)
  have at: "findJsonPathValue d (room_data_path room @ [Index i]) = Some (xs ! i)"
    using ms(1) i(1) by (simp add: find_append)
  have eq: "lua_equal U (jget (xs ! i) f) (jget m f)" if "f \<in> {''text'', ''object_id'', ''sender_user_id''}" for f
    using same that lua_equal_refl by metis
  show ?thesis
    unfolding commit_script_def commit_known_def Let_def rj_simps r option.sel idx option.case at fld
    using eq by (simp add: truthy_def)
qed

end

text \<open>
  C11. A chat message is committed once. On a room numbered from 1, a request that has no receipt and
  carries the next sequence number appends its message, keeps the room in order, changes no other
  item, and leaves a receipt. Sending the request again, whatever sequence number it now carries,
  appends nothing and is answered with the stored message.
\<close>

theorem commit_is_idempotent:
  assumes "rj_ok R" "lua_ok L U" "room_ok d room xs" "requests_ok d room" "int (length xs) + 2 < 10 ^ 14"
    "is_object m" "jget m ''sequence'' = Some (JInt (int (length xs) + 1))" "lua_plain m"
    "findJsonPathValue d (request_path room request) = None"
    "commit_script L R U room request new_room m d = (reply, d')"
    and same: "\<forall>f \<in> {''text'', ''object_id'', ''sender_user_id''}. jget again f = jget m f \<and> lua_scalar (jget again f)"
  shows "room_ok d' room (xs @ [m])
    \<and> reply \<in> {None, Some (jl_dump L m)}
    \<and> (\<forall>other. other \<noteq> room \<longrightarrow> findJsonPathValue d' (item_path other) = findJsonPathValue d (item_path other))
    \<and> (\<exists>t. commit_script L R U room request new_room again d' = (Some t, d') \<and> jl_parse L t = Some m)"
proof -
  have ls: "lua_scripts L R U" using assms(1,2) by unfold_locales
  have run: "commit_append L R U room request m d = (reply, d')"
    using lua_scripts.commit_new_request[OF ls assms(3,9)] assms(10) by metis
  note c = lua_scripts.commit_append_room[OF ls assms(3-7) run]
  have i: "length xs < length (xs @ [m])" "int (length (xs @ [m])) < 10 ^ 14" using assms(5) by simp_all
  have r: "findJsonPathValue d' (request_path room request) = Some (JInt (int (length xs) + 1))" by (rule c(3))
  have s: "\<forall>f \<in> {''text'', ''object_id'', ''sender_user_id''}.
      jget again f = jget ((xs @ [m]) ! length xs) f \<and> lua_scalar (jget again f)"
    unfolding nth_append_length by (rule same)
  have "commit_script L R U room request new_room again d' = (Some (cj_encode U m), d')"
    using lua_scripts.commit_retry[OF ls c(1) i r s] by simp
  then show ?thesis using c(1,4,6) lua_scripts.encode_parse[OF ls assms(8)] by blast
qed

theorem commit_is_idempotent_witness:
  "\<exists>reply d' t. commit_script ref_lib ref_rj ref_lua ''r'' ''7:q'' JNull sample_message sample_room = (reply, d')
    \<and> room_ok d' ''r'' [JObj [(''sequence'', JInt 1), (''text'', JStr ''hi'')], sample_message]
    \<and> commit_script ref_lib ref_rj ref_lua ''r'' ''7:q'' JNull sample_message d' = (Some t, d')
    \<and> jl_parse ref_lib t = Some sample_message"
proof -
  obtain reply d' where e: "commit_script ref_lib ref_rj ref_lua ''r'' ''7:q'' JNull sample_message sample_room
      = (reply, d')" by force
  have m: "is_object sample_message"
    "jget sample_message ''sequence'' = Some (JInt (int (length [JObj [(''sequence'', JInt 1), (''text'', JStr ''hi'')]]) + 1))"
    by (simp_all add: sample_message_def jget_def)
  have pl: "lua_plain sample_message" by code_simp
  have n: "requests_ok sample_room ''r''" "findJsonPathValue sample_room (request_path ''r'' ''7:q'') = None"
    by (simp_all add: requests_ok_def sample_room_def room_paths)
  have s: "\<forall>f \<in> {''text'', ''object_id'', ''sender_user_id''}.
      jget sample_message f = jget sample_message f \<and> lua_scalar (jget sample_message f)"
    by (simp add: sample_message_def jget_def lua_scalar_def)
  from commit_is_idempotent[OF ref_rj_ok ref_lua_ok sample_room_ok n(1) _ m pl n(2) e s] e show ?thesis by simp
qed

text \<open>
  The first message creates its room. When the canvas has items but none with the room's id, a
  message with the sequence number 1 creates the room with the given permission and that single
  message; a message with another sequence number is refused and no message is stored.
\<close>

theorem first_message_creates_room:
  assumes "rj_ok R" "lua_ok L U" "findJsonPathValue d [Key ''items''] = Some (JObj items)"
    "map_of items room = None" "is_object m" "jget m ''sequence'' = Some (JInt s)" "\<bar>s\<bar> \<le> 2 ^ 53"
    "commit_script L R U room request (new_chat_room permission) m d = (reply, d')"
  shows "if s = 1 then room_ok d' room [m]
      \<and> findJsonPathValue d' (request_path room request) = Some (JInt 1)
    else reply = Some ''SEQUENCE_CONFLICT'' \<and> room_ok d' room []
      \<and> findJsonPathValue d' [Key ''items'', Key room, Key ''permission''] = Some permission"
proof -
  have ls: "lua_scripts L R U" using assms(1,2) by unfold_locales
  let ?d1 = "put_at d (item_path room) (new_chat_room permission)"
  have no: "findJsonPathValue d (Key ''items'' # Key room # q) = None" for q
    using assms(3,4) find_append[of d "[Key ''items'']" "Key room # q"] by simp
  have p: "item_path room = [Key ''items''] @ [Key room]" by (simp add: item_path_def)
  have it: "findJsonPathValue ?d1 (item_path room) = Some (new_chat_room permission)"
    unfolding p by (rule put_key(1)[OF assms(3)])
  have none: "\<not> truthy None" by (simp add: truthy_def)
  have run: "commit_append L R U room request m ?d1 = (reply, d')"
    using assms(8) no none by (simp add: commit_script_def Let_def lua_scripts.rj_simps[OF ls] request_path_def
        room_type_path_def set_nx_def item_path_def del: findJsonPathValue.simps)
  have r1: "room_ok ?d1 room []" using it by (simp add: room_ok_def new_chat_room_def numbered_def)
  have q1: "requests_ok ?d1 room"
    using it find_append[of ?d1 "item_path room" "[Key ''requests'']"]
    by (simp add: requests_ok_def requests_path_def item_path_def new_chat_room_def)
  show ?thesis
  proof (cases "s = 1")
    case True
    then show ?thesis
      using lua_scripts.commit_append_room(1,3)[OF ls r1 q1 _ assms(5) _ run] assms(6) by simp
  next
    case False
    have nx: "findJsonPathValue ?d1 (room_next_path room) = Some (JInt 1)"
      "findJsonPathValue ?d1 [Key ''items'', Key room, Key ''permission''] = Some permission"
      using room_member[of ?d1 room] it by (simp_all add: room_next_path_def new_chat_room_def)
    have t: "tonumber U (Some (JInt 1)) = Some (rat_of_int 1)" "tonumber U (Some (JInt s)) = Some (rat_of_int s)"
      using lua_scripts.tonumber_exact[OF ls] assms(7) by simp_all
    have "rat_of_int s = rat_of_int 1 \<longleftrightarrow> s = 1" by (simp only: of_int_eq_iff)
    then have "reply = Some ''SEQUENCE_CONFLICT'' \<and> d' = ?d1"
      using run False unfolding commit_append_def lua_scripts.rj_simps[OF ls] nx t assms(6) by simp
    then show ?thesis using False r1 nx(2) by simp
  qed
qed

theorem first_message_creates_room_witness:
  "room_ok (snd (commit_script ref_lib ref_rj ref_lua ''r'' ''7:q'' (new_chat_room (JStr ''team''))
     (JObj [(''sequence'', JInt 1)]) (JObj [(''items'', JObj [])]))) ''r'' [JObj [(''sequence'', JInt 1)]]"
proof -
  obtain reply d' where e: "commit_script ref_lib ref_rj ref_lua ''r'' ''7:q'' (new_chat_room (JStr ''team''))
     (JObj [(''sequence'', JInt 1)]) (JObj [(''items'', JObj [])]) = (reply, d')" by force
  have i: "findJsonPathValue (JObj [(''items'', JObj [])]) [Key ''items''] = Some (JObj [])"
    "map_of [] ''r'' = None" "is_object (JObj [(''sequence'', JInt 1)])"
    "jget (JObj [(''sequence'', JInt 1)]) ''sequence'' = Some (JInt 1)"
    by (simp_all add: jget_def)
  from first_message_creates_room[OF ref_rj_ok ref_lua_ok i(1,2,3,4) _ e] e show ?thesis by simp
qed

end
