(* ===== verification/Chat_Pages.thy ===== *)
theory Chat_Pages
  imports Chat_Rooms
begin

text \<open>
  The pages of a chat history: on a room numbered from 1, \<open>getChatHistoryPage\<close> answers with the window
  of messages that was asked for, and its two ways of computing it agree.
\<close>

section \<open>Windows\<close>

definition page_bounds :: "page_mode \<Rightarrow> int \<Rightarrow> int \<Rightarrow> int \<Rightarrow> int \<Rightarrow> int \<times> int \<times> bool" where
  \<comment> \<open>the first and the last index of the window, and whether there is more in its direction\<close>
  "page_bounds mode n from to limit =
     (case mode of
        Latest \<Rightarrow> (max 0 (n - limit), n, n - limit > 0)
      | From \<Rightarrow> (min n (from - 1), min n (min n (from - 1) + limit), min n (from - 1) + limit < n)
      | To \<Rightarrow> (max 0 (min n to - limit), min n to, min n to - limit > 0)
      | Range \<Rightarrow> (min n (from - 1), max (min n (from - 1)) (min n to), False))"

definition page_messages :: "page_mode \<Rightarrow> json list \<Rightarrow> int \<Rightarrow> int \<Rightarrow> int \<Rightarrow> json list" where
  "page_messages mode xs from to limit =
     (case page_bounds mode (int (length xs)) from to limit of
        (s, e, _) \<Rightarrow> take (nat (e - s)) (drop (nat s) xs))"

definition page_more :: "page_mode \<Rightarrow> json list \<Rightarrow> int \<Rightarrow> int \<Rightarrow> int \<Rightarrow> bool" where
  "page_more mode xs from to limit = snd (snd (page_bounds mode (int (length xs)) from to limit))"

definition request_ok :: "page_mode \<Rightarrow> int \<Rightarrow> int \<Rightarrow> int \<Rightarrow> bool" where
  "request_ok mode from to limit \<longleftrightarrow>
     0 \<le> limit \<and> limit \<le> 2 ^ 52 \<and> 0 \<le> to \<and> to \<le> 2 ^ 53 \<and> 0 \<le> from \<and> from \<le> 2 ^ 53
     \<and> (mode = From \<or> mode = Range \<longrightarrow> 1 \<le> from)"

lemma page_bounds_order:
  assumes "page_bounds mode n from to limit = (s, e, rest_left)" "0 \<le> n" "request_ok mode from to limit"
  shows "0 \<le> s" "s \<le> e" "e \<le> n"
  using assms by (auto simp: page_bounds_def request_ok_def split: page_mode.splits)

lemma rat_min_max: "max 0 (rat_of_int a) = rat_of_int (max 0 a)"
  "min (rat_of_int a) (rat_of_int b) = rat_of_int (min a b)" "max 1 (rat_of_int a) = rat_of_int (max 1 a)"
  by (simp_all add: max_def min_def)

definition number_rows :: "json list \<Rightarrow> (rat \<times> json) list" where
  "number_rows xs = map (\<lambda>i. (rat_of_int (int i + 1), xs ! i)) [0 ..< length xs]"

lemma number_rows_simps [simp]: "number_rows [] = []"
  "number_rows (xs @ [x]) = number_rows xs @ [(rat_of_int (int (length xs) + 1), x)]"
  "length (number_rows xs) = length xs"
  by (auto simp: number_rows_def nth_append intro!: map_cong)

lemma snd_number_rows [simp]: "map snd (number_rows xs) = xs"
  by (induction xs rule: rev_induct) auto

lemma filter_from: "1 \<le> f \<Longrightarrow>
    filter (\<lambda>row. fst row \<ge> rat_of_int f) (number_rows xs) = drop (nat (f - 1)) (number_rows xs)"
  by (induction xs rule: rev_induct) (auto simp del: of_int_add)

lemma filter_to: "filter (\<lambda>row. fst row \<le> rat_of_int t) (number_rows xs) = take (nat t) (number_rows xs)"
  by (induction xs rule: rev_induct) (auto simp del: of_int_add)

lemma filter_between: "1 \<le> f \<Longrightarrow>
    filter (\<lambda>row. fst row \<ge> rat_of_int f \<and> fst row \<le> rat_of_int t) (number_rows xs)
    = drop (nat (f - 1)) (take (nat t) (number_rows xs))"
proof (induction xs rule: rev_induct)
  case (snoc x xs)
  then show ?case by (auto simp del: of_int_add simp: drop_eq_Nil)
qed simp

lemma number_rows_sorted: "sorted (map fst (number_rows xs))" "distinct (map fst (number_rows xs))"
proof -
  have "map fst (number_rows xs) = map (\<lambda>i. rat_of_int (int i + 1)) [0 ..< length xs]"
    by (simp add: number_rows_def)
  then show "sorted (map fst (number_rows xs))" "distinct (map fst (number_rows xs))"
    by (auto simp: sorted_iff_nth_mono distinct_map inj_on_def)
qed

context lua_scripts
begin

lemma sort_rows:
  assumes "mset rows = mset (number_rows xs)"
  shows "lua_sort U rows = number_rows xs"
proof (rule map_sorted_distinct_set_unique[where f = fst])
  have m: "mset (lua_sort U rows) = mset (number_rows xs)" using sort_perm assms by simp
  then have "mset (map fst (lua_sort U rows)) = mset (map fst (number_rows xs))" by simp
  then show "distinct (map fst (lua_sort U rows))" using number_rows_sorted(2) mset_eq_imp_distinct_iff by metis
  show "set (lua_sort U rows) = set (number_rows xs)" using m by (rule mset_eq_setD)
  then show "inj_on fst (set (lua_sort U rows) \<union> set (number_rows xs))"
    using number_rows_sorted(2)[of xs] by (simp add: distinct_map)
qed (use sort_perm number_rows_sorted in auto)

lemma rows_numbered: "numbered xs \<Longrightarrow> int (length xs) < 10 ^ 14 \<Longrightarrow> page_rows U xs = number_rows xs"
proof (induction xs rule: rev_induct)
  case (snoc x xs)
  have "numbered xs" "is_object x" "jget x ''sequence'' = Some (JInt (int (length xs) + 1))"
    using snoc.prems(1) by (auto simp: numbered_def nth_append split: if_splits)
  moreover from this(2) have "is_table x" by (auto simp: is_object_iff is_table_def)
  moreover have "page_rows U (xs @ [x]) = page_rows U xs @ page_rows U [x]" by (simp add: page_rows_def)
  ultimately show ?case
    using snoc tonumber_exact[of "int (length xs) + 1"] by (simp add: page_rows_def del: of_int_add)
qed (simp add: page_rows_def)

lemma contiguous_rows:
  assumes "\<forall>k < length ys. is_object (ys ! k) \<and> jget (ys ! k) ''sequence'' = Some (JInt (s + int i + int k))"
    "0 \<le> s" "s + int i + int (length ys) \<le> 2 ^ 53"
  shows "contiguous_from U (rat_of_int s) i ys"
  using assms
proof (induction ys arbitrary: i)
  case (Cons y ys)
  have y: "is_object y" "jget y ''sequence'' = Some (JInt (s + int i))" using Cons.prems(1) by force+
  have "\<forall>k < length ys. is_object (ys ! k) \<and> jget (ys ! k) ''sequence'' = Some (JInt (s + int (i + 1) + int k))"
    using Cons.prems(1) by (force simp: algebra_simps)
  then have "contiguous_from U (rat_of_int s) (i + 1) ys" using Cons by simp
  moreover have "is_table y" using y(1) by (auto simp: is_object_iff is_table_def)
  moreover have "tonumber U (Some (JInt (s + int i))) = Some (lua_add U (rat_of_int s) (of_nat i))"
    using tonumber_exact[of "s + int i"] add_exact[of s "int i"] Cons.prems(2,3) by simp
  ultimately show ?case using y(2) by simp
qed simp

lemma window_exact:
  assumes "0 \<le> n" "n < 10 ^ 14" "request_ok mode from to limit"
    "page_bounds mode n from to limit = (s, e, rest_left)"
  shows "page_window U mode (rat_of_int n) (rat_of_int from) (rat_of_int to) (rat_of_int limit)
    = (rat_of_int s, rat_of_int e, rest_left)"
proof -
  have r: "0 \<le> limit" "limit \<le> 2 ^ 52" "0 \<le> from" "from \<le> 2 ^ 53" "0 \<le> to"
    "mode = From \<or> mode = Range \<longrightarrow> 1 \<le> from" using assms(3) by (auto simp: request_ok_def)
  have a: "lua_add U (rat_of_int n) (- rat_of_int limit) = rat_of_int (n - limit)"
    "lua_add U (rat_of_int from) (-1) = rat_of_int (from - 1)"
    "lua_add U (rat_of_int (min n to)) (- rat_of_int limit) = rat_of_int (min n to - limit)"
    using add_exact[of n "- limit"] add_exact[of "from" "-1"] add_exact[of "min n to" "- limit"] assms(1,2) r
    by (simp_all del: of_int_diff)
  have b: "lua_add U (rat_of_int (min n (from - 1))) (rat_of_int limit) = rat_of_int (min n (from - 1) + limit)"
    using assms(1,2) r by (intro add_exact) auto
  show ?thesis
    using assms(4) r(6) a b
    by (auto simp: page_window_def page_bounds_def Let_def rat_min_max max_def min_def
        simp del: of_int_diff of_int_add split: page_mode.splits if_splits)
qed

end

section \<open>The two computations\<close>

lemma numbered_nth: "numbered xs \<Longrightarrow> i < length xs \<Longrightarrow>
    is_object (xs ! i) \<and> jget (xs ! i) ''sequence'' = Some (JInt (int i + 1))"
  by (simp add: numbered_def)

lemma window_nth:
  assumes "k < length (take (nat (e - s)) (drop (nat s) xs))" "0 \<le> s"
  shows "take (nat (e - s)) (drop (nat s) xs) ! k = xs ! (nat s + k)" "nat s + k < length xs"
  using assms by auto

context lua_scripts
begin

lemma response_indices:
  assumes "\<forall>m \<in> set ms. \<exists>i. jget m ''sequence'' = Some (JInt i)"
  shows "page_response U n ms b s e = page_response U n ms b s' e'"
proof (cases "ms = []")
  case False
  obtain i j where "jget (hd ms) ''sequence'' = Some (JInt i)" "jget (last ms) ''sequence'' = Some (JInt j)"
    using assms hd_in_set[OF False] last_in_set[OF False] by blast
  then have "tonumber U (jget (hd ms) ''sequence'') \<noteq> None" "tonumber U (jget (last ms) ''sequence'') \<noteq> None"
    by (simp_all add: tonumber_def)
  then show ?thesis using False by (auto simp: page_response_def number_or_def)
qed (simp add: page_response_def)

lemma script_window:
  assumes room: "room_ok d room xs" and n: "int (length xs) < 10 ^ 14"
    and ft: "f = (case from_sequence of Some i \<Rightarrow> i | None \<Rightarrow> 0)" "t = (case to_sequence of Some i \<Rightarrow> i | None \<Rightarrow> 0)"
    and mode: "mode = page_mode_of from_sequence to_sequence" and ok: "request_ok mode f t l"
    and b: "page_bounds mode (int (length xs)) f t l = (s, e, rest_left)"
  shows "page_script R U room from_sequence to_sequence l d
    = Some (cj_encode U (page_response U (of_nat (length xs)) (page_messages mode xs f t l) rest_left
        (rat_of_int s) (rat_of_int e)))"
proof -
  obtain ms where ms: "findJsonPathValue d (room_type_path room) = Some (JStr ''chat_room'')"
    "findJsonPathValue d (room_data_path room) = Some (JArr xs)" "numbered xs"
    using room by (elim room_okE)
  note o = page_bounds_order[OF b _ ok, simplified]
  have rnd: "lua_round U (rat_of_int f) = rat_of_int f" "lua_round U (rat_of_int t) = rat_of_int t"
    "lua_round U (rat_of_int l) = rat_of_int l"
    using ok by (auto simp: request_ok_def intro!: round_exact)
  have w: "page_window U mode (of_nat (length xs)) (rat_of_int f) (rat_of_int t) (rat_of_int l)
      = (rat_of_int s, rat_of_int e, rest_left)"
    using window_exact[OF _ n ok b] by simp
  have pm: "page_messages mode xs f t l = take (nat (e - s)) (drop (nat s) xs)"
    by (simp add: page_messages_def b)
  have sp: "lua_spell U (rat_of_int s) = JInt s" "lua_spell U (rat_of_int e) = JInt e"
    using o n by (auto intro!: spell_exact)
  have sl: "rj_slice R d (room_data_path room) (JInt s) (JInt e) = Some (page_messages mode xs f t l)"
    using o ms(2) by (simp add: rj_simps slice_at_def pm)
  have len: "int (length (page_messages mode xs f t l)) = e - s" using o by (simp add: pm)
  have "lua_add U (rat_of_int e) (- rat_of_int s) = rat_of_int (e - s)"
    using add_exact[of e "- s"] o n by simp
  also have "\<dots> = of_nat (length (page_messages mode xs f t l))" using len by (metis of_int_of_nat_eq)
  finally have cnt: "of_nat (length (page_messages mode xs f t l)) = lua_add U (rat_of_int e) (- rat_of_int s)"
    by simp
  have "contiguous_from U (rat_of_int s) 1 (page_messages mode xs f t l)"
  proof (rule contiguous_rows)
    show "\<forall>k < length (page_messages mode xs f t l). is_object (page_messages mode xs f t l ! k)
        \<and> jget (page_messages mode xs f t l ! k) ''sequence'' = Some (JInt (s + int 1 + int k))"
      using window_nth[of _ e s xs] numbered_nth[OF ms(3)] o(1) by (auto simp: pm algebra_simps)
  qed (use o n len in auto)
  then show ?thesis
    unfolding page_script_def rj_simps(1,4) ms(1,2) array_length_def option.case json.case Let_def
      ft[symmetric] mode[symmetric] rnd w prod.case sp sl
    using cnt by simp
qed

lemma last_rows_exact:
  assumes "0 \<le> l" "l \<le> 2 ^ 52" "int (length c) < 10 ^ 14"
  shows "max 1 (lua_add U (lua_add U (of_nat (length c)) (- rat_of_int l)) 1)
    = rat_of_int (max 1 (int (length c) - l + 1))"
proof -
  have "lua_add U (of_nat (length c)) (- rat_of_int l) = rat_of_int (int (length c) - l)"
    using add_exact[of "int (length c)" "- l"] assms by simp
  moreover have "lua_add U (rat_of_int (int (length c) - l)) 1 = rat_of_int (int (length c) - l + 1)"
    using assms by (intro succ_exact) auto
  ultimately show ?thesis by (simp only: rat_min_max)
qed

lemma select_window:
  assumes n: "int (length xs) < 10 ^ 14" and ok: "request_ok mode f t l"
  shows "map snd (fst (page_select U mode (rat_of_int f) (rat_of_int t) (rat_of_int l) (number_rows xs)))
      = page_messages mode xs f t l"
    "snd (page_select U mode (rat_of_int f) (rat_of_int t) (rat_of_int l) (number_rows xs))
      = page_more mode xs f t l"
proof -
  have r: "0 \<le> l" "l \<le> 2 ^ 52" "0 \<le> t" "mode = From \<or> mode = Range \<longrightarrow> 1 \<le> f" "0 \<le> f"
    using ok by (auto simp: request_ok_def)
  have lst: "max 1 (lua_add U (lua_add U (of_nat (length c)) (- rat_of_int l)) 1)
      = rat_of_int (max 1 (int (length c) - l + 1))" if "int (length c) < 10 ^ 14" for c :: "(rat \<times> json) list"
    using last_rows_exact[OF r(1,2) that] .
  have mn: "min (of_nat a) (rat_of_int l) = rat_of_int (min (int a) l)" for a by (simp add: min_def)
  let ?R = "number_rows xs"
  have proj: "map snd (drop k ?R) = drop k xs" "map snd (take k ?R) = take k xs"
    "map snd (drop k (take j ?R)) = drop k (take j xs)" "map snd (take k (drop j ?R)) = take k (drop j xs)" for j k
    by (simp_all add: drop_map[symmetric] take_map[symmetric])
  have nat1: "nat (max 1 (i + 1)) - 1 = nat (max 0 i)" for i :: int by simp
  have gt1: "1 < max 1 (i + 1) \<longleftrightarrow> 0 < i" for i :: int by (auto simp: max_def)
  have "map snd (fst (page_select U mode (rat_of_int f) (rat_of_int t) (rat_of_int l) ?R)) = page_messages mode xs f t l
    \<and> snd (page_select U mode (rat_of_int f) (rat_of_int t) (rat_of_int l) ?R) = page_more mode xs f t l"
  proof (cases mode)
    case Latest
    have "page_select U mode (rat_of_int f) (rat_of_int t) (rat_of_int l) ?R
        = (drop (nat (max 0 (int (length xs) - l))) ?R, int (length xs) - l > 0)"
      using lst[of ?R] n Latest nat1[of "int (length xs) - l"] gt1[of "int (length xs) - l"]
      by (simp add: page_select_def Let_def)
    then show ?thesis using Latest r(1) by (simp add: proj page_messages_def page_more_def page_bounds_def)
  next
    case To
    let ?c = "min (int (length xs)) t"
    have lt: "int (length (take (nat t) ?R)) = ?c" using r(3) by auto
    then have "int (length (take (nat t) ?R)) < 10 ^ 14" using n by simp
    note l1 = lst[OF this, unfolded lt]
    have "page_select U mode (rat_of_int f) (rat_of_int t) (rat_of_int l) ?R
        = (drop (nat (max 0 (?c - l))) (take (nat t) ?R), ?c - l > 0)"
      using l1 To nat1[of "?c - l"] gt1[of "?c - l"] by (simp add: page_select_def Let_def filter_to)
    moreover have "take (nat (?c - max 0 (?c - l))) (drop (nat (max 0 (?c - l))) xs)
        = drop (nat (max 0 (?c - l))) (take (nat t) xs)"
      by (cases "int (length xs) \<le> t") (auto simp: drop_take min_def nat_diff_distrib' r)
    ultimately show ?thesis using To by (simp add: proj page_messages_def page_more_def page_bounds_def)
  next
    case From
    let ?s = "min (int (length xs)) (f - 1)"
    have f: "1 \<le> f" using r(4) From by simp
    have lc: "int (length (drop (nat (f - 1)) ?R)) = int (length xs) - ?s" using f by auto
    have cm: "rat_of_int (min (int k) l) < of_nat k \<longleftrightarrow> l < int k" for k
    proof -
      have "rat_of_nat k = rat_of_int (int k)" by simp
      then show ?thesis by (simp only: of_int_less_iff) auto
    qed
    have "page_select U mode (rat_of_int f) (rat_of_int t) (rat_of_int l) ?R
        = (take (nat (min (int (length xs) - ?s) l)) (drop (nat (f - 1)) ?R), int (length xs) - ?s > l)"
      using From mn[of "length (drop (nat (f - 1)) ?R)"] cm[of "length (drop (nat (f - 1)) ?R)"] lc
      by (simp add: page_select_def Let_def filter_from[OF f])
    then show ?thesis
      using From f r(1)
      by (auto simp: proj page_messages_def page_more_def page_bounds_def min_def)
  next
    case Range
    have f: "1 \<le> f" using r(4) Range by simp
    have "page_select U mode (rat_of_int f) (rat_of_int t) (rat_of_int l) ?R
        = (drop (nat (f - 1)) (take (nat t) ?R), False)"
      using Range by (simp add: page_select_def filter_between[OF f])
    then show ?thesis
      using Range f r(3)
      by (auto simp: proj page_messages_def page_more_def page_bounds_def drop_take min_def max_def nat_diff_distrib')
  qed
  then show "map snd (fst (page_select U mode (rat_of_int f) (rat_of_int t) (rat_of_int l) (number_rows xs)))
      = page_messages mode xs f t l"
    "snd (page_select U mode (rat_of_int f) (rat_of_int t) (rat_of_int l) (number_rows xs))
      = page_more mode xs f t l" by blast+
qed

end

context lua_scripts
begin

lemma fallback_window:
  assumes room: "room_ok d room xs" and n: "int (length xs) < 10 ^ 14" and ok: "request_ok mode f t l"
  shows "\<exists>s e. page_fallback R U room mode (rat_of_int f) (rat_of_int t) (rat_of_int l) d
    = Some (cj_encode U (page_response U (of_nat (length xs)) (page_messages mode xs f t l)
        (page_more mode xs f t l) s e))"
proof -
  obtain ms where ms: "findJsonPathValue d (item_path room) = Some (JObj ms)" "map_of ms ''data'' = Some (JArr xs)"
    "numbered xs" using room by (elim room_okE)
  have rows: "lua_sort U (page_rows U xs) = number_rows xs"
    using rows_numbered[OF ms(3) n] sort_rows by simp
  obtain sel b where sel: "page_select U mode (rat_of_int f) (rat_of_int t) (rat_of_int l) (number_rows xs) = (sel, b)"
    by (cases "page_select U mode (rat_of_int f) (rat_of_int t) (rat_of_int l) (number_rows xs)")
  have w: "map snd sel = page_messages mode xs f t l" "b = page_more mode xs f t l"
    using select_window[OF n ok] sel by simp_all
  have f: "lua_field (JObj ms) ''data'' = Some (Some (JArr xs))" "truthy (Some (JArr xs))" "is_table (JArr xs)"
    "ipairs (JArr xs) = xs"
    using ms(2) by (simp_all add: lua_field_def truthy_def is_table_def ipairs_def)
  show ?thesis
    unfolding page_fallback_def rj_simps ms(1) option.case f Let_def option.sel if_True rows sel prod.case w
    by (auto simp: f rows sel w)
qed

lemma page_messages_sequence:
  assumes "numbered xs"
  shows "\<forall>m \<in> set (page_messages mode xs f t l). \<exists>i. jget m ''sequence'' = Some (JInt i)"
  using assms unfolding page_messages_def
  by (auto simp: numbered_def in_set_conv_nth dest!: in_set_takeD in_set_dropD split: prod.splits)

lemma response_plain:
  assumes "numbered xs" "\<forall>x \<in> set xs. lua_plain x" "int (length xs) < 10 ^ 14"
  shows "\<exists>r. jl_parse L (cj_encode U (page_response U (of_nat (length xs)) (page_messages mode xs f t l) b s e)) = Some r
    \<and> jget r ''messages'' = Some (if page_messages mode xs f t l = [] then JObj []
         else JArr (page_messages mode xs f t l))
    \<and> jget r ''total'' = Some (JInt (int (length xs))) \<and> jget r ''has_more'' = Some (JBool b)"
proof -
  let ?ms = "page_messages mode xs f t l"
  have sub: "set ?ms \<subseteq> set xs" unfolding page_messages_def
    by (auto dest!: in_set_takeD in_set_dropD split: prod.splits)
  have tot: "lua_spell U (of_nat (length xs)) = JInt (int (length xs))"
    using spell_exact[of "int (length xs)"] assms(3) by simp
  show ?thesis
  proof (cases "?ms = []")
    case True
    then show ?thesis using assms(3) by (simp add: page_response_def tot encode_parse jget_def)
  next
    case False
    have seq: "\<exists>i. jget m ''sequence'' = Some (JInt i) \<and> \<bar>i\<bar> < 10 ^ 14" if "m \<in> set ?ms" for m
    proof -
      have "m \<in> set xs" using sub that by blast
      then obtain k where k: "k < length xs" "xs ! k = m" unfolding in_set_conv_nth by blast
      with numbered_nth[OF assms(1) k(1)] assms(3) show ?thesis by simp
    qed
    obtain i j where ij: "jget (hd ?ms) ''sequence'' = Some (JInt i)" "\<bar>i\<bar> < 10 ^ 14"
      "jget (last ?ms) ''sequence'' = Some (JInt j)" "\<bar>j\<bar> < 10 ^ 14"
      using seq hd_in_set[OF False] last_in_set[OF False] by metis
    have sp: "lua_spell U (number_or x (tonumber U (Some (JInt k)))) = JInt k" if "\<bar>k\<bar> < 10 ^ 14" for x k
      using that tonumber_exact[of k] spell_exact[of k] by (simp add: number_or_def)
    have e: "page_response U (of_nat (length xs)) ?ms b s e = JObj [(''from_sequence'', JInt i),
        (''has_more'', JBool b), (''messages'', JArr ?ms), (''to_sequence'', JInt j), (''total'', JInt (int (length xs)))]"
      using False ij by (simp add: page_response_def Let_def sp tot)
    have "lua_plain (JObj [(''from_sequence'', JInt i),
        (''has_more'', JBool b), (''messages'', JArr ?ms), (''to_sequence'', JInt j), (''total'', JInt (int (length xs)))])"
      using False ij sub assms(2,3) by auto
    from encode_parse[OF this] show ?thesis unfolding e using False by (simp add: jget_def)
  qed
qed

end

section \<open>Properties\<close>



text \<open>
  C27. The fast path and the fallback agree. On a room numbered from 1, reading the slice by index
  and computing the page from the sorted list of all messages give the same answer, for every kind
  of page.
\<close>

theorem page_paths_agree:
  assumes "rj_ok R" "lua_ok L U" "room_ok d room xs" "int (length xs) < 10 ^ 14"
    "request_ok (page_mode_of from_sequence to_sequence) f t limit"
    "f = (case from_sequence of Some i \<Rightarrow> i | None \<Rightarrow> 0)" "t = (case to_sequence of Some i \<Rightarrow> i | None \<Rightarrow> 0)"
  shows "page_script R U room from_sequence to_sequence limit d
    = page_fallback R U room (page_mode_of from_sequence to_sequence) (rat_of_int f) (rat_of_int t)
        (rat_of_int limit) d"
proof -
  have ls: "lua_scripts L R U" using assms(1,2) by unfold_locales
  let ?m = "page_mode_of from_sequence to_sequence"
  obtain s e b where b: "page_bounds ?m (int (length xs)) f t limit = (s, e, b)" by (metis prod_cases3)
  have nm: "numbered xs" using assms(3) by (simp add: room_ok_def)
  have mb: "page_more ?m xs f t limit = b" by (simp add: page_more_def b)
  obtain s' e' where fb: "page_fallback R U room ?m (rat_of_int f) (rat_of_int t) (rat_of_int limit) d
    = Some (cj_encode U (page_response U (of_nat (length xs)) (page_messages ?m xs f t limit) b s' e'))"
    using lua_scripts.fallback_window[OF ls assms(3,4,5)] mb by auto
  show ?thesis
    unfolding lua_scripts.script_window[OF ls assms(3,4,6,7) refl assms(5) b] fb option.inject
    by (rule arg_cong[where f = "cj_encode U"],
      rule lua_scripts.response_indices[OF ls lua_scripts.page_messages_sequence[OF ls nm]])
qed

theorem page_paths_agree_witness:
  "page_script ref_rj ref_lua ''r'' (Some 1) None 1 sample_room
    = page_fallback ref_rj ref_lua ''r'' From (rat_of_int 1) (rat_of_int 0) (rat_of_int 1) sample_room"
proof -
  have o: "request_ok (page_mode_of (Some 1) None) 1 0 1" by (simp add: request_ok_def page_mode_of_def)
  from page_paths_agree[OF ref_rj_ok ref_lua_ok sample_room_ok _ o] show ?thesis
    by (simp add: page_mode_of_def)
qed

end
