(* ===== verification/Memory_Transparency.thy ===== *)
theory Memory_Transparency
  imports Memory_Backend
begin

text \<open>
  The cache of \<open>MemoryClass\<close> is transparent. The value of a region of a document is what the server
  holds, overlaid with the cached text when the region is dirty (\<open>mc_value\<close>). Reads return that value
  and change no region; a successful write changes exactly the region it addresses; a successful
  flush brings the server to it.
\<close>

definition mc_value ::
  "'w mc_env \<Rightarrow> ('w \<Rightarrow> string \<Rightarrow> json option) \<Rightarrow> cache_manager \<Rightarrow> 'w \<Rightarrow> string \<Rightarrow> string \<Rightarrow> json option"
where
  "mc_value E doc = cm_view (mc_written E) (mc_stored E doc)"

definition mc_coherent ::
  "'w mc_env \<Rightarrow> ('w \<Rightarrow> string \<Rightarrow> json option) \<Rightarrow> cache_manager \<Rightarrow> 'w \<Rightarrow> bool" where
  "mc_coherent E doc m w \<longleftrightarrow>
     cm_ok (mc_region_ok E) (mc_value_ok E) m \<and> cm_coherent (mc_core E) (mc_stored E doc) m w"

definition find_in :: "json option \<Rightarrow> json_path_segment list \<Rightarrow> json option" where
  "find_in found relative = (case found of None \<Rightarrow> None | Some v \<Rightarrow> findJsonPathValue v relative)"

lemma mc_coherent_new: "mc_coherent E doc (createState options) w"
  by (simp add: mc_coherent_def createState_def cm_coherent_def)

lemma find_project:
  assumes "\<not> mc_excluded options (mc_project options s) relative" "remote_stable options"
  shows "findJsonPathValue (mc_project options s) relative = findJsonPathValue s relative"
proof (cases s)
  case (JObj ms)
  have r: "mc_remote options (mc_project options s) = mc_remote options s"
    by (rule remote_project[OF assms(2)])
  show ?thesis
  proof (cases relative)
    case Nil
    then have "mc_remote options s = []" using assms(1) r by (simp add: mc_excluded_def Let_def)
    then show ?thesis using JObj by (simp add: mc_project_def)
  next
    case (Cons seg rest)
    then show ?thesis using JObj assms(1) r
      by (cases seg) (auto simp: mc_excluded_def Let_def mc_project_object)
  qed
qed (simp_all add: mc_project_def)

lemma set_Key_effect:
  assumes "setJsonPathValue (JObj ps) (Key k # rest) v = Some u" "map_of ss k = map_of ps k"
  obtains x where "u = JObj (obj_put k x ps)"
    "setJsonPathValue (JObj ss) (Key k # rest) v = Some (JObj (obj_put k x ss))"
proof (cases rest)
  case Nil
  then show thesis using assms by (intro that[of v]) auto
next
  case (Cons t r)
  then show thesis using assms that by (auto split: option.splits)
qed

lemma set_nonobject: "setJsonPathValue s relative v = Some u \<Longrightarrow> relative \<noteq> [] \<Longrightarrow> \<not> is_object s \<Longrightarrow>
    \<exists>xs. u = JArr xs"
  by (cases relative rule: list.exhaust; cases "hd relative"; cases "tl relative"; cases s)
    (auto simp: is_object_def split: if_splits)

lemma filter_obj_put_other:
  assumes "sorted_wrt (<) (map fst ms)" "k \<notin> F"
  shows "filter (\<lambda>m. fst m \<notin> F) (obj_put k x ms) = obj_put k x (filter (\<lambda>m. fst m \<notin> F) ms)"
proof (rule sorted_alist_eq)
  have f: "sorted_wrt (<) (map fst (filter (\<lambda>m. fst m \<notin> F) xs))" if "sorted_wrt (<) (map fst xs)"
    for xs :: "(string \<times> 'a) list"
    using that by (induction xs) auto
  show "sorted_wrt (<) (map fst (filter (\<lambda>m. fst m \<notin> F) (obj_put k x ms)))"
    by (rule f) (rule sorted_obj_put[OF assms(1)])
  show "sorted_wrt (<) (map fst (obj_put k x (filter (\<lambda>m. fst m \<notin> F) ms)))"
    by (rule sorted_obj_put) (rule f[OF assms(1)])
qed (use assms(2) in \<open>auto simp: fun_eq_iff\<close>)

text \<open>
  A write inside a cached region: as long as it does not change which fields are remote, writing
  the updated cached part back sets the value inside the full value of the region.
\<close>

lemma set_through_cache:
  assumes "remote_stable options" "json_wf s" "json_wf v" "relative \<noteq> []"
    "\<not> mc_excluded options (mc_project options s) relative"
    "setJsonPathValue (mc_project options s) relative v = Some u"
  obtains s' where "setJsonPathValue s relative v = Some s'"
    "mc_remote options s' = mc_remote options s \<Longrightarrow> mc_project options u = mc_project options s'"
    "\<And>c. mc_remote options s' = mc_remote options s \<Longrightarrow> json_wf c \<Longrightarrow>
       mc_merge options (mc_project options s) c = s \<Longrightarrow> mc_merge options (mc_project options u) c = s'"
proof (cases "is_object s")
  case True
  then obtain ss where JObj: "s = JObj ss" by (auto simp: is_object_iff)
  let ?F = "set (mc_remote options s)"
  let ?ps = "filter (\<lambda>m. fst m \<notin> ?F) ss"
  have ps: "mc_project options s = JObj ?ps" using JObj by (simp add: mc_project_object)
  obtain k rest where k: "relative = Key k # rest"
    using assms(4,6) ps by (cases relative rule: list.exhaust; cases "hd relative"; cases "tl relative") auto
  have kF: "k \<notin> ?F"
    using assms(5) k remote_project[OF assms(1), of s] by (auto simp: mc_excluded_def Let_def)
  obtain x where x: "u = JObj (obj_put k x ?ps)"
    "setJsonPathValue (JObj ss) (Key k # rest) v = Some (JObj (obj_put k x ss))"
    using set_Key_effect[of ?ps k rest v u ss] assms(6) k ps kF by auto
  let ?s' = "JObj (obj_put k x ss)"
  have sorted: "sorted_wrt (<) (map fst ss)" using assms(2) JObj by simp
  have proj: "mc_project options ?s' = u" if "mc_remote options ?s' = mc_remote options s"
    using that filter_obj_put_other[OF sorted kF] x(1) by (simp add: mc_project_object)
  have wf': "json_wf ?s'" using set_wf[OF x(2)] assms(2,3) JObj by (simp del: json_wf.simps)
  have pu: "mc_project options u = u" if "mc_remote options ?s' = mc_remote options s"
    using proj[OF that] project_idem[OF assms(1), of ?s'] by simp
  have "mc_merge options u c = ?s'"
    if r: "mc_remote options ?s' = mc_remote options s" and c: "json_wf c"
      and m: "mc_merge options (mc_project options s) c = s" for c
  proof (cases "is_object c")
    case False
    then have "mc_merge options (mc_project options s) c = mc_project options s"
      "mc_merge options u c = u"
      using ps x by (cases c; simp add: mc_merge_def is_object_def)+
    then show ?thesis using m ps x JObj by simp
  next
    case True
    then obtain cs where cs: "c = JObj cs" by (auto simp: is_object_iff)
    have ru: "mc_remote options u = mc_remote options s"
      using remote_project[OF assms(1), of ?s'] proj[OF r] r by simp
    have rp: "mc_remote options (JObj ?ps) = mc_remote options s"
      using remote_project[OF assms(1), of s] ps by simp
    have ss: "ss = fold (merge_field c) (mc_remote options s) ?ps"
      using m ps cs JObj rp by (simp add: mc_merge_def)
    have mu: "mc_merge options u c = JObj (fold (merge_field c) (mc_remote options s) (obj_put k x ?ps))"
      using cs x ru by (simp add: mc_merge_def)
    have "json_wf (mc_merge options u c)"
      using merge_wf[OF project_wf[OF wf', of options] c, of options] proj[OF r] by (simp del: json_wf.simps)
    moreover have "map_of (fold (merge_field c) (mc_remote options s) (obj_put k x ?ps)) y
        = map_of (obj_put k x ss) y" for y
      using kF by (subst (2) ss) (auto simp: map_of_merge_fields)
    ultimately have "fold (merge_field c) (mc_remote options s) (obj_put k x ?ps) = obj_put k x ss"
      using wf' mu by (intro sorted_alist_eq) (auto simp: fun_eq_iff)
    then show ?thesis using mu by simp
  qed
  then show thesis using that[of ?s'] x(2) k JObj proj pu by auto
next
  case False
  then have p: "mc_project options s = s" by (cases s) (simp_all add: mc_project_def)
  obtain xs where u: "u = JArr xs" using set_nonobject[of s relative v u] assms(4,6) False p by auto
  then have "mc_project options u = u" "mc_merge options u c = u" for c
    by (simp_all add: mc_project_def mc_merge_def)
  then show thesis using that[of u] assms(6) p by simp
qed

context redis_json
begin

abbreviation "val_of \<equiv> mc_value E doc"
abbreviation "coh \<equiv> mc_coherent E doc"

lemma cohD: "coh m w \<Longrightarrow> cm_ok (mc_region_ok E) (mc_value_ok E) m"
  "coh m w \<Longrightarrow> cm_coherent (mc_core E) (mc_stored E doc) m w"
  by (simp_all add: mc_coherent_def)

lemma cohI: "cm_ok (mc_region_ok E) (mc_value_ok E) m \<Longrightarrow>
    cm_coherent (mc_core E) (mc_stored E doc) m w \<Longrightarrow> coh m w"
  by (simp add: mc_coherent_def)

text \<open>A lost read of the server leaves everything, because the documents do not change.\<close>

lemma doc_same:
  assumes "doc w' = doc w"
  shows "mc_stored E doc w' = mc_stored E doc w" "val_of m w' = val_of m w" "coh m w' = coh m w"
proof -
  show s: "mc_stored E doc w' = mc_stored E doc w"
    using assms by (simp add: mc_stored_def fun_eq_iff)
  show "val_of m w' = val_of m w"
    by (simp add: mc_value_def cm_view_def rl_view_def s fun_eq_iff split: option.splits)
  show "coh m w' = coh m w" by (simp add: mc_coherent_def cm_coherent_def rl_coherent_def s)
qed

lemma stored_wf: "mc_stored E doc w d k = Some s \<Longrightarrow> json_wf s"
  using find_wf doc_wf by (auto simp: mc_stored_def split: option.splits)

lemma value_cases:
  assumes "coh m w"
  obtains (stored) "val_of m w d k = mc_stored E doc w d k"
  | (dirty) v where "mc_value_ok E v" "val_of m w d k = Some (mc_written E v (mc_stored E doc w d k))"
proof (cases "cm_cache m d")
  case None
  then show thesis by (intro stored) (simp add: mc_value_def cm_view_def)
next
  case (Some r)
  note ok = cm_ok_cache[OF cohD(1)[OF assms] Some]
  show thesis
  proof (cases "k \<in> set (rl_dirty r)")
    case False
    then show thesis using Some by (intro stored) (simp add: mc_value_def cm_view_def rl_view_def)
  next
    case True
    then obtain v where "rl_cached r k = Some v" using ok by (auto simp: rl_ok_def rl_inv_def)
    then show thesis using True Some ok
      by (intro dirty[of v]) (auto simp: mc_value_def cm_view_def rl_view_def rl_ok_def)
  qed
qed

lemma written_wf: "mc_value_ok E v \<Longrightarrow> (\<And>c. s = Some c \<Longrightarrow> json_wf c) \<Longrightarrow> json_wf (mc_written E v s)"
  using parse_wf merge_wf
  by (auto simp: mc_written_def mc_value_ok_def split: option.splits)

lemma value_wf: "coh m w \<Longrightarrow> val_of m w d k = Some s \<Longrightarrow> json_wf s"
  by (cases rule: value_cases[of m w d k]) (auto intro: stored_wf written_wf)

text \<open>A cached text together with the stored value gives the value of the region.\<close>

lemma cached_value:
  assumes "coh m w" "map_option (mc_core E) (val_of m w d k) = Some text"
  obtains s j where "val_of m w d k = Some s" "jl_parse lib text = Some j" "j = mc_project opts s"
    "json_wf s" "\<And>c. mc_stored E doc w d k = Some c \<Longrightarrow> mc_merge opts j c = s"
    "mc_written E text (mc_stored E doc w d k) = s"
proof -
  obtain s where s: "val_of m w d k = Some s" "mc_core E s = text" using assms(2) by auto
  have wf: "json_wf s" using value_wf[OF assms(1) s(1)] .
  have p: "jl_parse lib text = Some (mc_project opts s)"
    using s(2) dump_parse[OF project_wf[OF wf]] by (auto simp: mc_core_def)
  have "mc_merge opts (mc_project opts s) c = s" if "mc_stored E doc w d k = Some c" for c
    using assms(1)
  proof (cases rule: value_cases[of m w d k])
    case stored
    then show ?thesis using s that merge_project_same[OF stable wf] by simp
  next
    case (dirty v)
    then have "v = text" using core_written[OF dirty(1)] s by auto
    then show ?thesis using dirty s p that by (simp add: mc_written_def)
  qed
  moreover have "mc_written E text (mc_stored E doc w d k) = s"
    using assms(1)
  proof (cases rule: value_cases[of m w d k])
    case stored
    then have st: "mc_stored E doc w d k = Some s" using s by simp
    then show ?thesis using p calculation[OF st] by (simp add: mc_written_def)
  next
    case (dirty v)
    then have "v = text" using core_written[OF dirty(1)] s by auto
    then show ?thesis using dirty s by simp
  qed
  ultimately show thesis using that[OF s(1) p refl wf] by blast
qed

lemma parse_result: "json_wf j \<Longrightarrow>
    jl_parse lib (path_result lib j p) = Some (JArr (json_matches (findJsonPathValue j p)))"
  using dump_parse[of "JArr [the (findJsonPathValue j p)]"] find_wf json_lib_okD(4)[OF lib_ok]
  by (auto simp: path_result_def json_matches_def split: option.splits)

lemma get_reply_value:
  assumes "parseJsonPath lib path = Some (p @ relative)" "parseJsonPath lib parent = Some p"
    "mc_get_reply E key path w = (reply, w')"
  shows "doc w' = doc w"
    "reply = Some text \<Longrightarrow> jl_parse lib text
       = Some (JArr (json_matches (find_in (mc_stored E doc w key parent) relative)))"
proof -
  obtain r w1 where ex: "me_exec E [''JSON.GET'', key, path] w = (r, w1)" by force
  note law = get_law[OF assms(1) ex]
  show "doc w' = doc w" using assms(3) ex law(1) by (auto simp: mc_get_reply_def)
  assume "reply = Some text"
  then have r: "\<not> reply_error r" "r = Some text" using assms(3) ex
    by (auto simp: mc_get_reply_def split: if_splits)
  from law(2)[OF r(1)] r(2) show "jl_parse lib text
       = Some (JArr (json_matches (find_in (mc_stored E doc w key parent) relative)))"
    using assms(2) by (auto simp: mc_stored_def find_in_def find_append)
qed

lemma raw_stored:
  assumes "parseJsonPath lib path = Some p" "mc_raw E key path w = (res, w')"
  shows "doc w' = doc w" "res = Some v \<Longrightarrow> mc_stored E doc w key path = Some v"
  using raw_law[OF assms] assms(1) by (auto simp: mc_stored_def)

text \<open>The branch of a read in which the region is cached.\<close>

lemma read_hit:
  assumes "coh m w" "map_option (mc_core E) (val_of m w key parent) = Some cached"
    "parseJsonPath lib parent = Some p" "jl_parse lib cached = Some j"
  shows "\<not> mc_excluded opts j relative \<Longrightarrow> jl_parse lib (path_result lib j relative)
      = Some (JArr (json_matches (find_in (val_of m w key parent) relative)))"
    and "mc_raw E key parent w = (Some c, w') \<Longrightarrow>
      jl_parse lib (path_result lib (mc_merge opts j c) relative)
      = Some (JArr (json_matches (find_in (val_of m w key parent) relative)))"
proof -
  obtain s where s: "val_of m w key parent = Some s" "j = mc_project opts s" "json_wf s"
      "\<And>c. mc_stored E doc w key parent = Some c \<Longrightarrow> mc_merge opts j c = s"
    using cached_value[OF assms(1,2)] assms(4) by (metis option.inject)
  show "jl_parse lib (path_result lib j relative)
      = Some (JArr (json_matches (find_in (val_of m w key parent) relative)))"
    if "\<not> mc_excluded opts j relative"
    using that s find_project[OF _ stable, of s relative] parse_result[OF project_wf[OF s(3)]]
    by (simp add: find_in_def)
  show "jl_parse lib (path_result lib (mc_merge opts j c) relative)
      = Some (JArr (json_matches (find_in (val_of m w key parent) relative)))"
    if "mc_raw E key parent w = (Some c, w')"
    using s(4)[OF raw_stored(2)[OF assms(3) that refl]] s(1,3) parse_result by (simp add: find_in_def)
qed

text \<open>The branch in which the region is fetched and admitted to the cache.\<close>

lemma read_admit:
  assumes "coh m w" "mc_region_ok E parent" "parseJsonPath lib parent = Some p"
    "cm_cache m key = Some r" "rl_cached r parent = None"
    "mc_raw E key parent w = (Some v, w1)"
    "cm_admit try_lock (mc_writeBack E) key parent (jl_dump lib (mc_project opts v)) m w1 = (res, m', w')"
  shows "coh m' w'" "mc_region_ok E k \<Longrightarrow> val_of m' w' d k = val_of m w d k"
    "jl_parse lib (path_result lib v relative)
       = Some (JArr (json_matches (find_in (val_of m w key parent) relative)))"
proof -
  note rs = raw_stored[OF assms(3,6)]
  have st: "mc_stored E doc w key parent = Some v" using rs(2) by simp
  have wf: "json_wf v" using stored_wf[OF st] .
  have c1: "coh m w1" using assms(1) doc_same(3)[OF rs(1)] by simp
  have abs: "\<forall>r'. cm_cache m key = Some r' \<longrightarrow> rl_cached r' parent = None" using assms(4,5) by simp
  note av = wb.admit_region_view[OF cohD(1)[OF c1] assms(7,2) value_ok_dump[OF wf] abs]
  have "map_option (mc_core E) (mc_stored E doc w1 key parent)
      = Some (jl_dump lib (mc_project opts v))"
    using st doc_same(1)[OF rs(1)] by (simp add: mc_core_def)
  then show "coh m' w'" using av(1) av(4)[OF cohD(2)[OF c1]] assms(4) by (simp add: cohI)
  show "val_of m' w' d k = val_of m w d k" if "mc_region_ok E k"
    using av(3)[OF that, of d] doc_same(2)[OF rs(1), of m] by (simp add: mc_value_def)
  have "val_of m w key parent = Some v"
    using wb.uncached_view[OF cm_ok_cache[OF cohD(1)[OF assms(1)] assms(4)] assms(5)] st assms(4)
    by (simp add: mc_value_def cm_view_def)
  then show "jl_parse lib (path_result lib v relative)
       = Some (JArr (json_matches (find_in (val_of m w key parent) relative)))"
    using parse_result[OF wf] by (simp add: find_in_def)
qed

lemma read_path_value:
  assumes "coh m w" "mc_region E path = Some (parent, relative)"
    "mc_read_path E try_lock key path m w = (res, m', w')"
  shows "coh m' w'" "mc_region_ok E k \<Longrightarrow> val_of m' w' d k = val_of m w d k"
    "res = Some (Some text) \<Longrightarrow> jl_parse lib text
       = Some (JArr (json_matches (find_in (val_of m w key parent) relative)))"
proof -
  obtain p where p: "parseJsonPath lib path = Some (p @ relative)" "parent = canonical lib p"
    "parseJsonPath lib parent = Some p" "mc_region_ok E parent"
    using region_ok_canonical[OF assms(2)] .
  obtain l m1 w1 where lk: "cm_lookup try_lock (mc_writeBack E) key parent m w = (l, m1, w1)"
    by (metis prod_cases3)
  note lv = wb.lookup_view[OF cohD(1)[OF assms(1)] lk]
  have c1: "coh m1 w1" using lv(1) lv(4)[OF cohD(2)[OF assms(1)]] by (rule cohI)
  have v1: "val_of m1 w1 d k = val_of m w d k" if "mc_region_ok E k" for d k
    using lv(3)[OF that, of d] by (simp add: mc_value_def)
  have get: "coh m1 w2 \<and> (\<forall>d k. mc_region_ok E k \<longrightarrow> val_of m1 w2 d k = val_of m w d k)
      \<and> (\<forall>t. reply = Some t \<longrightarrow> cl_value (the l) = None \<longrightarrow> l \<noteq> None \<longrightarrow> jl_parse lib t
         = Some (JArr (json_matches (find_in (val_of m w key parent) relative))))"
    if "mc_get_reply E key path w0 = (reply, w2)" "doc w0 = doc w1" for reply w0 w2
  proof -
    note gr = get_reply_value[OF p(1,3) that(1)]
    have d: "doc w2 = doc w1" using gr(1) that(2) by simp
    have "mc_stored E doc w0 key parent = val_of m w key parent"
      if "cl_value (the l) = None" "l \<noteq> None"
      using lv(8)[of "the l"] that v1[OF p(4)] doc_same(1)[OF \<open>doc w0 = doc w1\<close>]
      by (simp add: mc_value_def)
    then show ?thesis using doc_same[OF d] c1 v1 gr(2) by auto
  qed
  have "coh m' w' \<and> (\<forall>d k. mc_region_ok E k \<longrightarrow> val_of m' w' d k = val_of m w d k)
    \<and> (\<forall>text. res = Some (Some text) \<longrightarrow> jl_parse lib text
         = Some (JArr (json_matches (find_in (val_of m w key parent) relative))))"
  proof (cases l)
    case None
    then show ?thesis using assms(2,3) lk c1 v1 by (simp add: mc_read_path_def)
  next
    case (Some lookup)
    show ?thesis
    proof (cases "cl_value lookup")
      case hit: (Some cached)
      have core: "map_option (mc_core E) (val_of m1 w1 key parent) = Some cached"
        using lv(5)[OF cohD(2)[OF assms(1)] Some hit] v1[OF p(4)] by (simp add: mc_value_def)
      obtain s j where j: "jl_parse lib cached = Some j" using cached_value[OF c1 core] by blast
      note rh = read_hit[OF c1 core p(3) j]
      obtain cur w2 where raw: "mc_raw E key parent w1 = (cur, w2)" by force
      note same = doc_same[OF raw_stored(1)[OF p(3) raw]]
      show ?thesis
      proof (cases "mc_excluded opts j relative")
        case False
        then show ?thesis using assms(2,3) lk Some hit j c1 v1 rh(1) p(4)
          by (auto simp: mc_read_path_def)
      next
        case True
        then show ?thesis using assms(2,3) lk Some hit j c1 v1 rh(2) raw same p(4)
          by (cases cur) (auto simp: mc_read_path_def)
      qed
    next
      case miss: None
      show ?thesis
      proof (cases "cl_admit_on_miss lookup")
        case False
        obtain reply w2 where g: "mc_get_reply E key path w1 = (reply, w2)" by force
        show ?thesis using assms(2,3) lk Some miss False g get[OF g refl]
          by (auto simp: mc_read_path_def)
      next
        case True
        obtain r where r: "cm_cache m1 key = Some r" "rl_cached r parent = None"
          using lv(7)[OF Some True] by blast
        obtain cur w2 where raw: "mc_raw E key parent w1 = (cur, w2)" by force
        note rs = raw_stored(1)[OF p(3) raw]
        show ?thesis
        proof (cases cur)
          case None
          obtain reply w3 where g: "mc_get_reply E key path w2 = (reply, w3)" by force
          show ?thesis using assms(2,3) lk Some miss True raw None g get[OF g rs]
            by (auto simp: mc_read_path_def)
        next
          case v: (Some v)
          obtain b m2 w3 where ad: "cm_admit try_lock (mc_writeBack E) key parent
              (jl_dump lib (mc_project opts v)) m1 w2 = (b, m2, w3)" by (metis prod_cases3)
          note ra = read_admit[OF c1 p(4,3) r raw[unfolded v] ad]
          have "m' = m2" "w' = w3" "\<And>t. res = Some (Some t) \<Longrightarrow> t = path_result lib v relative"
            using assms(2,3) lk Some miss True raw v ad
            by (auto simp: mc_read_path_def split: option.splits)
          then show ?thesis using ra v1 p(4) by auto
        qed
      qed
    qed
  qed
  then show "coh m' w'" "mc_region_ok E k \<Longrightarrow> val_of m' w' d k = val_of m w d k"
    "res = Some (Some text) \<Longrightarrow> jl_parse lib text
       = Some (JArr (json_matches (find_in (val_of m w key parent) relative)))" by blast+
qed

lemma flush_value:
  assumes "coh m w" "mc_flush E key m w = (res, m', w')"
  shows "coh m' w'" "mc_region_ok E k \<Longrightarrow> val_of m' w' d k = val_of m w d k"
    "res = Some True \<Longrightarrow> mc_region_ok E k \<Longrightarrow> mc_stored E doc w' key k = val_of m w key k"
    "res = Some True \<Longrightarrow> cm_cache m' key = Some r \<Longrightarrow> rl_dirty r = []"
proof -
  note fv = wb.flush_document_view[OF cohD(1)[OF assms(1)] assms(2)[unfolded mc_flush_def]]
  show "coh m' w'" using fv(1) fv(4)[OF cohD(2)[OF assms(1)]] by (rule cohI)
  show "mc_region_ok E k \<Longrightarrow> val_of m' w' d k = val_of m w d k" using fv(3) by (simp add: mc_value_def)
  show "res = Some True \<Longrightarrow> mc_region_ok E k \<Longrightarrow> mc_stored E doc w' key k = val_of m w key k"
    using fv(5) by (simp add: mc_value_def)
  show "res = Some True \<Longrightarrow> cm_cache m' key = Some r \<Longrightarrow> rl_dirty r = []" using fv(6) .
qed

text \<open>Setting a value at or below a region, on the server.\<close>

lemma set_stored:
  assumes "parseJsonPath lib path = Some (p @ relative)" "parseJsonPath lib parent = Some p"
    "mc_region_ok E parent" "json_wf v"
    "me_exec E [''JSON.SET'', key, path, jl_dump lib v] w = (Some ''OK'', w')"
  shows "mc_region_ok E k \<Longrightarrow> (d, k) \<noteq> (key, parent) \<Longrightarrow> mc_stored E doc w' d k = mc_stored E doc w d k"
    "relative = [] \<Longrightarrow> mc_stored E doc w' key parent = Some v"
    "relative \<noteq> [] \<Longrightarrow> \<exists>s s'. mc_stored E doc w key parent = Some s
       \<and> setJsonPathValue s relative v = Some s' \<and> mc_stored E doc w' key parent = Some s'"
proof -
  note law = set_law[OF assms(1,4,5)]
  obtain j where j: "json_set_effect (doc w key) (p @ relative) v = Some j" "doc w' key = Some j"
    using law(2) by blast
  show "relative = [] \<Longrightarrow> mc_stored E doc w' key parent = Some v"
    using set_effect_find(1)[OF j(1)] j(2) assms(2) by (simp add: mc_stored_def)
  show "\<exists>s s'. mc_stored E doc w key parent = Some s \<and> setJsonPathValue s relative v = Some s'
      \<and> mc_stored E doc w' key parent = Some s'" if rel: "relative \<noteq> []"
  proof -
    obtain i where i: "doc w key = Some i" "setJsonPathValue i (p @ relative) v = Some j"
      using j(1) rel by (auto simp: json_set_effect_def split: option.splits if_splits)
    from set_append[OF i(2) rel] i(1) j(2) assms(2) show ?thesis
      by (auto simp: mc_stored_def)
  qed
  show "mc_stored E doc w' d k = mc_stored E doc w d k"
    if k: "mc_region_ok E k" and ne: "(d, k) \<noteq> (key, parent)"
  proof (cases "d = key")
    case False
    then show ?thesis using law(1) by (auto intro: stored_same)
  next
    case True
    obtain q where q: "parseJsonPath lib k = Some q" "length q = mo_region_depth opts"
      "canonical lib q = k" using k by (rule region_okE)
    have p: "length p = mo_region_depth opts" "canonical lib p = parent"
      using assms(2,3) by (auto simp: mc_region_ok_def)
    have qp: "q \<noteq> p" using True ne p q by auto
    then have div: "diverge (p @ relative) q"
      using p q by (intro diverge_append diverge_same_length) auto
    have "p \<noteq> []" using qp p q by auto
    then obtain i where i: "doc w key = Some i" "setJsonPathValue i (p @ relative) v = Some j"
      using j(1) by (auto simp: json_set_effect_def split: option.splits)
    show ?thesis using find_set_diverge[OF i(2) div] i(1) j(2) True q(1) by (simp add: mc_stored_def)
  qed
qed

text \<open>Dropping a clean region from the cache of a document while its stored value changes.\<close>

lemma removeRegion_value:
  assumes "coh m w" "\<And>r. cm_cache m key = Some r \<Longrightarrow> parent \<notin> set (rl_dirty r)"
    "\<And>d k. mc_region_ok E k \<Longrightarrow> (d, k) \<noteq> (key, parent) \<Longrightarrow> mc_stored E doc w' d k = mc_stored E doc w d k"
  shows "coh (cm_removeRegion key parent m) w'"
    "mc_region_ok E k \<Longrightarrow> (d, k) \<noteq> (key, parent) \<Longrightarrow>
       val_of (cm_removeRegion key parent m) w' d k = val_of m w d k"
    "val_of (cm_removeRegion key parent m) w' key parent = mc_stored E doc w' key parent"
proof -
  let ?m = "cm_removeRegion key parent m"
  have cache: "cm_cache ?m d
      = (if d = key then map_option (rl_remove parent) (cm_cache m key) else cm_cache m d)" for d
    by (simp add: cm_removeRegion_def cm_find_eq split: option.splits)
  note okm = cohD(1)[OF assms(1)]
  have inv: "cm_inv ?m"
  proof (cases "cm_cache m key")
    case (Some r)
    then show ?thesis using cm_inv_store_same(1)[OF cm_ok_inv[OF okm] Some, of "rl_remove parent r"]
        cm_cacheE(1)[OF cm_ok_inv[OF okm] Some]
      by (simp add: cm_removeRegion_def cm_find_eq)
  qed (simp add: cm_removeRegion_def cm_find_eq cm_ok_inv[OF okm])
  have "cm_ok (mc_region_ok E) (mc_value_ok E) ?m"
  proof -
    have "rl_ok (mc_region_ok E) (mc_value_ok E) r" if r: "cm_cache ?m d = Some r" for d r
    proof -
      obtain r0 where r0: "cm_cache m d = Some r0" "r = rl_remove parent r0 \<or> r = r0"
        using r cache[of d] by (auto split: if_splits)
      from cm_ok_cache[OF okm r0(1)] r0(2) show ?thesis by (auto simp: rl_ok_def split: if_splits)
    qed
    with inv show ?thesis by (simp add: cm_ok_def)
  qed
  moreover have "cm_coherent (mc_core E) (mc_stored E doc) ?m w'"
    unfolding cm_coherent_def rl_coherent_def
  proof (intro allI impI)
    fix d r k v
    assume r: "cm_cache ?m d = Some r" "rl_cached r k = Some v" "k \<notin> set (rl_dirty r)"
    obtain r0 where r0: "cm_cache m d = Some r0" "rl_cached r0 k = Some v"
        "k \<notin> set (rl_dirty r0)" "(d, k) \<noteq> (key, parent)"
      using r cache[of d] by (auto split: if_splits)
    have "mc_region_ok E k" using cm_ok_cache[OF okm r0(1)] r0(2) by (simp add: rl_ok_def)
    then show "map_option (mc_core E) (mc_stored E doc w' d k) = Some v"
      using assms(3)[OF _ r0(4)] r0 cohD(2)[OF assms(1)] by (simp add: cm_coherent_def rl_coherent_def)
  qed
  ultimately show "coh ?m w'" by (rule cohI)
  show "val_of ?m w' d k = val_of m w d k" if "mc_region_ok E k" "(d, k) \<noteq> (key, parent)"
  proof (cases "d = key")
    case True
    then show ?thesis using assms(3)[OF that] that
      by (cases "cm_cache m key") (simp_all add: mc_value_def cm_view_def rl_view_def cache)
  next
    case False
    then show ?thesis using assms(3)[OF that]
      by (cases "cm_cache m d") (simp_all add: mc_value_def cm_view_def rl_view_def cache)
  qed
  show "val_of ?m w' key parent = mc_stored E doc w' key parent"
    by (auto simp: mc_value_def cm_view_def rl_view_def cache split: option.splits)
qed

lemma write_through_value:
  assumes "coh m w" "mc_region E path = Some (parent, relative)" "path \<noteq> ''$''" "json_wf v"
    "\<And>r. cm_cache m key = Some r \<Longrightarrow> parent \<notin> set (rl_dirty r)"
    "mc_write_through E key v path m w = (Some True, m', w')"
  shows "coh m' w'"
    "mc_region_ok E k \<Longrightarrow> (d, k) \<noteq> (key, parent) \<Longrightarrow> val_of m' w' d k = val_of m w d k"
    "relative = [] \<Longrightarrow> val_of m' w' key parent = Some v"
    "relative \<noteq> [] \<Longrightarrow> \<exists>s s'. val_of m w key parent = Some s
       \<and> setJsonPathValue s relative v = Some s' \<and> val_of m' w' key parent = Some s'"
proof -
  obtain p where p: "parseJsonPath lib path = Some (p @ relative)" "parent = canonical lib p"
    "parseJsonPath lib parent = Some p" "mc_region_ok E parent"
    using region_ok_canonical[OF assms(2)] .
  obtain reply w1 where ex: "me_exec E [''JSON.SET'', key, path, jl_dump lib v] w = (reply, w1)" by force
  have eq: "reply = Some ''OK''" "w' = w1" "m' = cm_removeRegion key parent m"
    using assms(2,3,6) ex
    by (auto simp: mc_write_through_def Let_def mc_invalidate_def split: if_splits)
  note st = set_stored[OF p(1,3,4) assms(4) ex[unfolded eq(1)]]
  note rr = removeRegion_value[OF assms(1) assms(5) st(1)]
  have vs: "val_of m w key parent = mc_stored E doc w key parent"
    using assms(5) by (auto simp: mc_value_def cm_view_def rl_view_def split: option.splits)
  show "coh m' w'" using rr(1) eq by simp
  show "mc_region_ok E k \<Longrightarrow> (d, k) \<noteq> (key, parent) \<Longrightarrow> val_of m' w' d k = val_of m w d k"
    using rr(2) eq by simp
  show "relative = [] \<Longrightarrow> val_of m' w' key parent = Some v" using rr(3) st(2) eq by simp
  show "relative \<noteq> [] \<Longrightarrow> \<exists>s s'. val_of m w key parent = Some s
       \<and> setJsonPathValue s relative v = Some s' \<and> val_of m' w' key parent = Some s'"
    using rr(3) st(3) eq vs by simp
qed

lemma get_none:
  assumes "coh m w" "cm_get d reg m = (None, m')" "cm_cache m' d = Some r"
  shows "rl_cached r reg = None"
proof (cases "cm_cache m d")
  case None
  then show ?thesis using assms by (simp add: cm_get_def cm_find_eq)
next
  case (Some r0)
  note inv = cm_cacheE(1)[OF cm_ok_inv[OF cohD(1)[OF assms(1)]] Some]
  show ?thesis
    using assms(2,3) Some rl_get_value[OF inv, of reg]
    by (auto simp: cm_get_def cm_find_eq case_prod_beta Let_def)
qed

text \<open>The branch of a write that updates the cached region and marks it dirty.\<close>

lemma write_cached_value:
  assumes "coh m w" "map_option (mc_core E) (val_of m w key parent) = Some cached"
    "jl_parse lib cached = Some j" "setJsonPathValue j relative v = Some u" "json_wf v"
    "relative = [] \<or> \<not> mc_excluded opts j relative"
    "cm_update (mc_writeBack E) key parent (jl_dump lib (mc_project opts u)) m w = (Some True, m', w')"
  shows "coh m' w'"
    "mc_region_ok E k \<Longrightarrow> (d, k) \<noteq> (key, parent) \<Longrightarrow> val_of m' w' d k = val_of m w d k"
    "relative = [] \<Longrightarrow> map_option (mc_core E) (val_of m' w' key parent) = Some (mc_core E v)"
    "relative \<noteq> [] \<Longrightarrow> \<exists>s s'. val_of m w key parent = Some s
       \<and> setJsonPathValue s relative v = Some s'
       \<and> (mc_remote opts s' = mc_remote opts s \<longrightarrow> val_of m' w' key parent = Some s')"
proof -
  let ?st = "mc_stored E doc w key parent"
  obtain s where s: "val_of m w key parent = Some s" "j = mc_project opts s" "json_wf s"
      "mc_written E cached ?st = s"
    using cached_value[OF assms(1,2)] assms(3) by (metis option.inject)
  have wfu: "json_wf u" using set_wf[OF assms(4)] s(2) project_wf[OF s(3)] assms(5) by simp
  note vok = value_ok_dump[OF wfu]
  note up = wb.update_region_view[OF cohD(1)[OF assms(1)] assms(7) vok]
  show "coh m' w'" using up(1) up(5)[OF cohD(2)[OF assms(1)]] by (simp add: cohI)
  show "mc_region_ok E k \<Longrightarrow> (d, k) \<noteq> (key, parent) \<Longrightarrow> val_of m' w' d k = val_of m w d k"
    using up(3) by (simp add: mc_value_def)
  have new: "val_of m' w' key parent = Some (mc_written E (jl_dump lib (mc_project opts u)) ?st)"
    using up(4) by (simp add: mc_value_def)
  show "relative = [] \<Longrightarrow> map_option (mc_core E) (val_of m' w' key parent) = Some (mc_core E v)"
    using new core_written[OF vok] assms(4) by (simp add: mc_core_def)
  assume rel: "relative \<noteq> []"
  have ex: "\<not> mc_excluded opts (mc_project opts s) relative" using assms(6) rel s(2) by simp
  obtain s' where s': "setJsonPathValue s relative v = Some s'"
    "\<And>c. mc_remote opts s' = mc_remote opts s \<Longrightarrow> json_wf c \<Longrightarrow>
       mc_merge opts (mc_project opts s) c = s \<Longrightarrow> mc_merge opts (mc_project opts u) c = s'"
    using set_through_cache[OF stable s(3) assms(5) rel ex] assms(4) s(2) by metis
  have "mc_written E (jl_dump lib (mc_project opts u)) ?st = s'"
    if r: "mc_remote opts s' = mc_remote opts s"
  proof (cases ?st)
    case None
    then have "mc_project opts s = s" using s(2,4) assms(3) by (simp add: mc_written_def)
    then have "mc_merge opts (mc_project opts u) JNull = s'"
      using s'(2)[OF r, of JNull] by (cases s) (simp_all add: mc_merge_def)
    then have "mc_project opts u = s'" by (cases "mc_project opts u") (simp_all add: mc_merge_def)
    then show ?thesis using None dump_parse[OF project_wf[OF wfu, of opts]] by (simp add: mc_written_def)
  next
    case (Some c)
    then have "mc_merge opts (mc_project opts s) c = s" using s(2,4) assms(3) by (simp add: mc_written_def)
    from s'(2)[OF r stored_wf[OF Some] this] show ?thesis
      using Some dump_parse[OF project_wf[OF wfu, of opts]] by (simp add: mc_written_def)
  qed
  then show "\<exists>s s'. val_of m w key parent = Some s \<and> setJsonPathValue s relative v = Some s'
       \<and> (mc_remote opts s' = mc_remote opts s \<longrightarrow> val_of m' w' key parent = Some s')"
    using s(1) s'(1) new by auto
qed

lemma write_value:
  assumes "coh m w" "mc_region E path = Some (parent, relative)" "path \<noteq> ''$''" "json_wf v"
    "mc_write E key v path m w = (Some True, m', w')"
  shows "coh m' w'"
    "mc_region_ok E k \<Longrightarrow> (d, k) \<noteq> (key, parent) \<Longrightarrow> val_of m' w' d k = val_of m w d k"
    "relative = [] \<Longrightarrow> map_option (mc_core E) (val_of m' w' key parent) = Some (mc_core E v)"
    "relative \<noteq> [] \<Longrightarrow> \<exists>s s'. val_of m w key parent = Some s
       \<and> setJsonPathValue s relative v = Some s'
       \<and> (mc_remote opts s' = mc_remote opts s \<longrightarrow> val_of m' w' key parent = Some s')"
proof -
  obtain p where p: "mc_region_ok E parent" using region_ok_canonical[OF assms(2)] .
  obtain c m1 where g: "cm_get key parent m = (c, m1)" by force
  note gv = wb.get_view[OF cohD(1)[OF assms(1)] g]
  have c1: "coh m1 w" using gv(1) gv(4)[OF cohD(2)[OF assms(1)]] by (rule cohI)
  have v1: "val_of m1 w d k = val_of m w d k" if "mc_region_ok E k" for d k
    using gv(3)[OF that] by (simp add: mc_value_def)
  have "coh m' w' \<and> (\<forall>d k. mc_region_ok E k \<longrightarrow> (d, k) \<noteq> (key, parent) \<longrightarrow>
      val_of m' w' d k = val_of m w d k)
    \<and> (relative = [] \<longrightarrow> map_option (mc_core E) (val_of m' w' key parent) = Some (mc_core E v))
    \<and> (relative \<noteq> [] \<longrightarrow> (\<exists>s s'. val_of m w key parent = Some s
       \<and> setJsonPathValue s relative v = Some s'
       \<and> (mc_remote opts s' = mc_remote opts s \<longrightarrow> val_of m' w' key parent = Some s')))"
  proof (cases c)
    case None
    have wt: "mc_write_through E key v path m1 w = (Some True, m', w')"
      using assms(2,5) g None by (simp add: mc_write_def Let_def)
    have nd: "parent \<notin> set (rl_dirty r)" if "cm_cache m1 key = Some r" for r
      using get_none[OF assms(1) g[unfolded None] that] cm_ok_cache[OF gv(1) that]
      by (auto simp: rl_ok_def rl_inv_def)
    note wv = write_through_value[OF c1 assms(2-4) nd wt]
    show ?thesis using wv v1 p by auto
  next
    case (Some cached)
    have core: "map_option (mc_core E) (val_of m1 w key parent) = Some cached"
      using gv(5)[OF cohD(2)[OF assms(1)] Some] v1[OF p] by (simp add: mc_value_def)
    obtain j where j: "jl_parse lib cached = Some j" using cached_value[OF c1 core] by blast
    show ?thesis
    proof (cases "(\<not> mc_excluded opts j relative \<or> relative = [])
        \<and> \<not> (relative = [] \<and> is_object v \<and> list_ex (contains v) (mc_remote opts j))")
      case True
      then obtain u where u: "setJsonPathValue j relative v = Some u"
        "cm_update (mc_writeBack E) key parent (jl_dump lib (mc_project opts u)) m1 w = (Some True, m', w')"
        using assms(2,5) g Some j by (auto simp: mc_write_def Let_def split: option.splits)
      have "relative = [] \<or> \<not> mc_excluded opts j relative" using True by blast
      note wv = write_cached_value[OF c1 core j u(1) assms(4) this u(2)]
      show ?thesis using wv v1 p by auto
    next
      case False
      obtain b m2 w2 where fl: "mc_flush E key m1 w = (b, m2, w2)" by (metis prod_cases3)
      have b: "b = Some True" and wt: "mc_write_through E key v path m2 w2 = (Some True, m', w')"
        using assms(2,5) g Some j False fl
        by (auto simp: mc_write_def Let_def mc_flush_def split: option.splits bool.splits if_splits)
      note fv = flush_value[OF c1 fl]
      have nd: "parent \<notin> set (rl_dirty r)" if "cm_cache m2 key = Some r" for r
        using fv(4)[OF b that] by simp
      note wv = write_through_value[OF fv(1) assms(2-4) nd wt]
      show ?thesis using wv v1 fv(2) p by auto
    qed
  qed
  then show "coh m' w'"
    "mc_region_ok E k \<Longrightarrow> (d, k) \<noteq> (key, parent) \<Longrightarrow> val_of m' w' d k = val_of m w d k"
    "relative = [] \<Longrightarrow> map_option (mc_core E) (val_of m' w' key parent) = Some (mc_core E v)"
    "relative \<noteq> [] \<Longrightarrow> \<exists>s s'. val_of m w key parent = Some s
       \<and> setJsonPathValue s relative v = Some s'
       \<and> (mc_remote opts s' = mc_remote opts s \<longrightarrow> val_of m' w' key parent = Some s')"
    by simp_all
qed

end

end
