(* ===== verification/Canvas_Options.thy ===== *)
theory Canvas_Options
  imports Memory_Transparency
begin

text \<open>
  \<^verbatim>\<open>cpp/src/service_memory/CanvasServiceMemory.cpp\<close>, \<open>configuredCacheCapacity\<close> and
  \<open>canvasMemoryState\<close>: the options with which canvases use \<open>MemoryClass\<close>. A region is an item of the
  canvas (\<open>region_depth\<close> 2), and the messages of a chat room stay in Redis.
\<close>

definition configuredCacheCapacity :: "string option \<Rightarrow> nat \<Rightarrow> nat \<Rightarrow> bool \<Rightarrow> nat" where
  \<comment> \<open>the first argument is the value of the environment variable\<close>
  "configuredCacheCapacity configured default_capacity maximum_capacity allow_zero =
     (case configured of
        None \<Rightarrow> default_capacity
      | Some text \<Rightarrow>
          if text = [] then default_capacity
          else if \<not> list_all isdigit text then default_capacity
          else
            (let parsed = digits_value text in
             if parsed > uint64_max then default_capacity
             else if \<not> allow_zero \<and> parsed = 0 then default_capacity
             else min parsed maximum_capacity))"

definition canvas_remote_fields :: "json \<Rightarrow> string list" where
  "canvas_remote_fields value =
     (if jget value ''type'' = Some (JStr ''chat_room'') then [''data''] else [])"

definition canvasMemoryState :: "(string \<Rightarrow> string option) \<Rightarrow> mc_options" where
  "canvasMemoryState getenv =
     default_options\<lparr>
       mo_maximum_documents :=
         configuredCacheCapacity (getenv ''CPP_CANVAS_LRU_CAPACITY'') 256 4096 False,
       mo_entries_per_document :=
         configuredCacheCapacity (getenv ''CPP_CANVAS_LRU_ITEMS_PER_CANVAS'') 64 4096 True,
       mo_region_depth := 2,
       mo_remote_fields := canvas_remote_fields\<rparr>"

lemma canvas_remote_stable: "remote_stable (canvasMemoryState getenv)"
  by (auto simp: remote_stable_def mc_remote_def canvasMemoryState_def canvas_remote_fields_def)

text \<open>
  Whatever the environment variables hold, the configured capacities stay in their bounds: a
  canvas cache keeps between 1 and 4096 documents and at most 4096 regions of each, with the
  defaults 256 and 64 when the variables are unset, empty, not decimal or too large for 64 bits.
\<close>

theorem canvas_capacities_bounded:
  "1 \<le> mo_maximum_documents (canvasMemoryState getenv)
   \<and> mo_maximum_documents (canvasMemoryState getenv) \<le> 4096
   \<and> mo_entries_per_document (canvasMemoryState getenv) \<le> 4096
   \<and> (getenv ''CPP_CANVAS_LRU_CAPACITY'' = None \<longrightarrow>
        mo_maximum_documents (canvasMemoryState getenv) = 256)
   \<and> (\<forall>text. getenv ''CPP_CANVAS_LRU_ITEMS_PER_CANVAS'' = Some text \<longrightarrow>
        text = [] \<or> \<not> list_all isdigit text \<or> digits_value text > uint64_max \<longrightarrow>
        mo_entries_per_document (canvasMemoryState getenv) = 64)"
  by (auto simp: canvasMemoryState_def configuredCacheCapacity_def Let_def split: option.splits)

theorem canvas_capacities_bounded_witness:
  "mo_maximum_documents (canvasMemoryState (\<lambda>_. None)) = 256
   \<and> mo_entries_per_document (canvasMemoryState (\<lambda>_. Some ''-1'')) = 64"
proof -
  have "mo_maximum_documents (canvasMemoryState (\<lambda>_. None)) = 256"
    using canvas_capacities_bounded[of "\<lambda>_. None"] by simp
  moreover have "\<not> isdigit (CHR ''-'')" by code_simp
  then have "mo_entries_per_document (canvasMemoryState (\<lambda>_. Some ''-1'')) = 64"
    using canvas_capacities_bounded[of "\<lambda>_. Some ''-1''"] by simp
  ultimately show ?thesis by simp
qed

end
