(* ===== verification/Memory_Properties.thy ===== *)
theory Memory_Properties
  imports Canvas_Options
begin

text \<open>
  The properties of \<open>MemoryClass\<close> with the options of the canvases or any others, and a small
  RedisJSON server that satisfies the contract, on which they are evaluated.
\<close>

section \<open>A server that satisfies the contract\<close>

type_synonym ref_world = "(string \<times> json) list"

definition ref_doc :: "ref_world \<Rightarrow> string \<Rightarrow> json option" where
  "ref_doc w key = (case map_of w key of
      Some j \<Rightarrow> if json_wf j then Some j else None | None \<Rightarrow> None)"

fun delete_member :: "json \<Rightarrow> json_path_segment list \<Rightarrow> json" where
  "delete_member (JObj ms) [Key k] = JObj (obj_erase k ms)"
| "delete_member (JObj ms) (Key k # s # p) =
     (case map_of ms k of None \<Rightarrow> JObj ms | Some v \<Rightarrow> JObj (obj_put k (delete_member v (s # p)) ms))"
| "delete_member j _ = j"

definition ref_get :: "string \<Rightarrow> string \<Rightarrow> ref_world \<Rightarrow> string" where
  "ref_get key path w =
     (case (ref_doc w key, parseJsonPath ref_lib path) of
        (Some j, Some p) \<Rightarrow> encode (JArr (json_matches (findJsonPathValue j p)))
      | _ \<Rightarrow> [])"

definition ref_set :: "string \<Rightarrow> string \<Rightarrow> string \<Rightarrow> ref_world \<Rightarrow> string option \<times> ref_world" where
  "ref_set key path text w =
     (case (parseJsonPath ref_lib path, ref_parse text) of
        (Some p, Some v) \<Rightarrow>
          (case json_set_effect (ref_doc w key) p v of
             Some j \<Rightarrow> (Some ''OK'', AList.update key j w)
           | None \<Rightarrow> (Some [], w))
      | _ \<Rightarrow> (Some [], w))"

definition ref_exec :: "ref_world executor" where
  "ref_exec cmd w =
     (if length cmd = 3 \<and> cmd ! 0 = ''JSON.GET'' then (Some (ref_get (cmd ! 1) (cmd ! 2) w), w)
      else if length cmd = 4 \<and> cmd ! 0 = ''JSON.SET'' then ref_set (cmd ! 1) (cmd ! 2) (cmd ! 3) w
      else if length cmd = 3 \<and> cmd ! 0 = ''JSON.DEL'' then
        (case (ref_doc w (cmd ! 1), parseJsonPath ref_lib (cmd ! 2)) of
           (Some j, Some p) \<Rightarrow> (Some ''1'', AList.update (cmd ! 1) (delete_member j p) w)
         | _ \<Rightarrow> (Some ''0'', w))
      else (None, w))"

text \<open>The canvas options, with capacities small enough to evaluate evictions by hand.\<close>

definition ref_options :: mc_options where
  "ref_options = \<lparr>mo_maximum_documents = 2, mo_entries_per_document = 2, mo_maximum_entry_bytes = 99,
     mo_region_depth = 2, mo_remote_fields = canvas_remote_fields\<rparr>"

definition ref_env :: "ref_world mc_env" where
  "ref_env = \<lparr>me_lib = ref_lib, me_exec = ref_exec, me_options = ref_options\<rparr>"

lemma ref_stable: "remote_stable ref_options"
  by (auto simp: remote_stable_def mc_remote_def ref_options_def canvas_remote_fields_def)

lemma ref_set_ok:
  assumes "parseJsonPath ref_lib path = Some p" "ref_parse text = Some v"
    "ref_set key path text w = (reply, w')"
  shows "(\<forall>key'. key' \<noteq> key \<longrightarrow> ref_doc w' key' = ref_doc w key')
    \<and> (ref_doc w' key = ref_doc w key \<and> reply \<noteq> Some ''OK''
       \<or> (\<exists>j. json_set_effect (ref_doc w key) p v = Some j \<and> ref_doc w' key = Some j))"
proof (cases "json_set_effect (ref_doc w key) p v")
  case None
  then show ?thesis using assms by (auto simp: ref_set_def)
next
  case (Some j)
  have "json_wf v" using assms(2) json_lib_okD(2)[OF ref_lib_ok] by (simp add: ref_lib_def)
  then have "json_wf j"
    using Some set_wf by (auto simp: json_set_effect_def ref_doc_def split: if_splits option.splits)
  then show ?thesis using assms Some
    by (auto simp: ref_set_def ref_doc_def update_conv' simp del: json_wf.simps)
qed

lemma ref_contract: "redis_json_ok ref_env ref_doc"
proof -
  have "jl_parse ref_lib (ref_get key path w) = Some (JArr (json_matches (findJsonPathValue j p)))"
    if "ref_doc w key = Some j" "parseJsonPath ref_lib path = Some p" for w key path j p
  proof -
    have "json_wf j" using that(1) by (auto simp: ref_doc_def split: option.splits if_splits)
    then have "json_wf (JArr (json_matches (findJsonPathValue j p)))"
      using find_wf by (auto simp: json_matches_def split: option.splits)
    from json_lib_okD(1)[OF ref_lib_ok this] that show ?thesis by (simp add: ref_get_def ref_lib_def)
  qed
  moreover have "ref_get key path w = []" if "ref_doc w key = None" for w key path
    using that by (simp add: ref_get_def)
  ultimately have get: "\<not> reply_error (Some (ref_get key path w)) \<Longrightarrow>
      parseJsonPath ref_lib path = Some p \<Longrightarrow> \<exists>j. ref_doc w key = Some j
      \<and> jl_parse ref_lib (ref_get key path w) = Some (JArr (json_matches (findJsonPathValue j p)))"
    for w key path p by (cases "ref_doc w key") (auto simp: reply_error_def)
  have set: "jl_parse ref_lib t = Some v \<Longrightarrow> ref_parse t = Some v" for t v
    by (simp add: ref_lib_def)
  have ex: "me_exec ref_env [''JSON.GET'', key, path] w = (Some (ref_get key path w), w)"
    "me_exec ref_env [''JSON.SET'', key, path, t] w = ref_set key path t w" for key path t w
    by (simp_all add: ref_env_def ref_exec_def)
  have wf: "ref_doc w key = Some j \<Longrightarrow> json_wf j" for w key j
    by (auto simp: ref_doc_def split: option.splits if_splits)
  have lib: "me_lib ref_env = ref_lib" by (simp add: ref_env_def)
  show ?thesis
    unfolding redis_json_ok_def lib ex
    using get ref_set_ok[OF _ set] wf ref_lib_ok by (auto simp del: json_wf.simps)
qed

interpretation ref: redis_json ref_env ref_doc
  by unfold_locales (rule ref_contract, simp add: ref_env_def ref_stable)

text \<open>A canvas with a chat room and a note, and a cache in which the note has been read twice.\<close>

definition sample_world :: ref_world where
  "sample_world = [(''canvas:1'', JObj [(''items'', JObj [
      (''n'', JObj [(''text'', JStr ''hi''), (''type'', JStr ''note'')]),
      (''r'', JObj [(''data'', JArr [JInt 1]), (''type'', JStr ''chat_room'')])])])]"

definition sample_read ::
  "string \<Rightarrow> cache_manager \<times> ref_world \<Rightarrow> cache_manager \<times> ref_world" where
  "sample_read path s = (let (_, m, w) = mc_read_path ref_env (\<lambda>_. True) ''canvas:1'' path (fst s) (snd s)
     in (m, w))"

definition sample_state :: "cache_manager \<times> ref_world" where
  "sample_state = sample_read ''$.items.r'' (sample_read ''$.items.r''
     (sample_read ''$.items.n'' (sample_read ''$.items.n''
       (createState ref_options, sample_world))))"

lemma sample_coherent_step:
  assumes "mc_coherent ref_env ref_doc (fst s) (snd s)" "mc_region ref_env path = Some (parent, relative)"
  shows "mc_coherent ref_env ref_doc (fst (sample_read path s)) (snd (sample_read path s))"
  using ref.read_path_value(1)[OF assms, of "\<lambda>_. True" "''canvas:1''"]
  by (auto simp: sample_read_def split: prod.splits)

lemma sample_regions:
  "mc_region ref_env ''$.items.n'' \<noteq> None" "mc_region ref_env ''$.items.r'' \<noteq> None"
  by code_simp+

lemma sample_coherent: "mc_coherent ref_env ref_doc (fst sample_state) (snd sample_state)"
proof -
  obtain p1 r1 where n: "mc_region ref_env ''$.items.n'' = Some (p1, r1)"
    using sample_regions(1) by auto
  obtain p2 r2 where r: "mc_region ref_env ''$.items.r'' = Some (p2, r2)"
    using sample_regions(2) by auto
  show ?thesis unfolding sample_state_def
    by (intro sample_coherent_step[OF _ r] sample_coherent_step[OF _ n])
      (simp add: mc_coherent_new)
qed

section \<open>Properties\<close>

text \<open>
  C8. Reads are transparent. With a server that honours the RedisJSON contract, reading a path at
  or below a region through a coherent cache keeps the cache coherent, changes the value of no
  region of any document (whatever is evicted and written back on the way, and whichever of those
  writes fail), and, when it answers, answers with the value at that path of the current value of
  the region: the stored value overlaid with what is still dirty in the cache.
\<close>

theorem read_returns_current_value:
  assumes "redis_json_ok E doc" "remote_stable (me_options E)" "mc_coherent E doc m w"
    "mc_region E path = Some (parent, relative)"
    "mc_read_path E try_lock key path m w = (res, m', w')"
  shows "mc_coherent E doc m' w'
    \<and> (\<forall>d k. mc_region_ok E k \<longrightarrow> mc_value E doc m' w' d k = mc_value E doc m w d k)
    \<and> (\<forall>t. res = Some (Some t) \<longrightarrow> jl_parse (me_lib E) t
         = Some (JArr (json_matches (find_in (mc_value E doc m w key parent) relative))))"
  using redis_json.read_path_value[OF redis_json.intro[OF assms(1,2)] assms(3-5)] by blast

definition sample_region :: "string \<Rightarrow> string" where
  "sample_region item = canonical ref_lib [Key ''items'', Key item]"

lemma sample_region_eq:
  "mc_region ref_env ''$.items.r.data'' = Some (sample_region ''r'', [Key ''data''])"
  "mc_region ref_env ''$.items.n.text'' = Some (sample_region ''n'', [Key ''text''])"
  "mc_region_ok ref_env (sample_region ''n'')" "mc_region_ok ref_env (sample_region ''r'')"
  "sample_region ''n'' \<noteq> sample_region ''r''"
  by code_simp+

theorem read_returns_current_value_witness:
  "\<exists>t m' w'. mc_read_path ref_env (\<lambda>_. True) ''canvas:1'' ''$.items.r.data''
      (fst sample_state) (snd sample_state) = (Some (Some t), m', w')
    \<and> jl_parse ref_lib t = Some (JArr [JArr [JInt 1]]) \<and> mc_coherent ref_env ref_doc m' w'"
proof -
  let ?r = "mc_read_path ref_env (\<lambda>_. True) ''canvas:1'' ''$.items.r.data''
      (fst sample_state) (snd sample_state)"
  obtain res m' w' where r: "?r = (res, m', w')" by (metis prod_cases3)
  have "fst ?r = Some (Some ''[[+1;]]'')" by code_simp
  with r have res: "res = Some (Some ''[[+1;]]'')" by simp
  have v: "find_in (mc_value ref_env ref_doc (fst sample_state) (snd sample_state) ''canvas:1''
      (sample_region ''r'')) [Key ''data''] = Some (JArr [JInt 1])" by code_simp
  have st: "remote_stable (me_options ref_env)" by (simp add: ref_env_def ref_stable)
  have lib: "me_lib ref_env = ref_lib" by (simp add: ref_env_def)
  show ?thesis
    using read_returns_current_value[OF ref_contract st sample_coherent sample_region_eq(1) r]
      r res v lib by (auto simp: json_matches_def)
qed



text \<open>
  C10. A successful flush makes the document durable: afterwards no region of the document is
  dirty, the server holds for each of its regions the value it had through the cache, and no
  region of any document has changed its value.
\<close>

theorem flush_makes_durable:
  assumes "redis_json_ok E doc" "remote_stable (me_options E)" "mc_coherent E doc m w"
    "mc_flush E key m w = (Some True, m', w')"
  shows "mc_coherent E doc m' w'
    \<and> (\<forall>r. cm_cache m' key = Some r \<longrightarrow> rl_dirty r = [])
    \<and> (\<forall>k. mc_region_ok E k \<longrightarrow> mc_stored E doc w' key k = mc_value E doc m w key k)
    \<and> (\<forall>d k. mc_region_ok E k \<longrightarrow> mc_value E doc m' w' d k = mc_value E doc m w d k)"
proof -
  note fv = redis_json.flush_value[OF redis_json.intro[OF assms(1,2)] assms(3,4)]
  show ?thesis using fv by simp
qed

definition sample_dirty :: "cache_manager \<times> ref_world" where
  "sample_dirty = snd (mc_write ref_env ''canvas:1'' (JStr ''bye'') ''$.items.n.text''
     (fst sample_state) (snd sample_state))"

lemma sample_dirty_coherent: "mc_coherent ref_env ref_doc (fst sample_dirty) (snd sample_dirty)"
proof -
  let ?r = "mc_write ref_env ''canvas:1'' (JStr ''bye'') ''$.items.n.text''
      (fst sample_state) (snd sample_state)"
  have "fst ?r = Some True" by code_simp
  then have "?r = (Some True, fst sample_dirty, snd sample_dirty)"
    by (simp add: sample_dirty_def prod_eq_iff)
  from ref.write_value(1)[OF sample_coherent sample_region_eq(2) _ _ this] show ?thesis by simp
qed

theorem flush_makes_durable_witness:
  "\<exists>m' w'. mc_flush ref_env ''canvas:1'' (fst sample_dirty) (snd sample_dirty) = (Some True, m', w')
    \<and> mc_stored ref_env ref_doc (snd sample_dirty) ''canvas:1'' (sample_region ''n'')
        = Some (JObj [(''text'', JStr ''hi''), (''type'', JStr ''note'')])
    \<and> mc_stored ref_env ref_doc w' ''canvas:1'' (sample_region ''n'')
        = Some (JObj [(''text'', JStr ''bye''), (''type'', JStr ''note'')])"
proof -
  let ?r = "mc_flush ref_env ''canvas:1'' (fst sample_dirty) (snd sample_dirty)"
  obtain res m' w' where r: "?r = (res, m', w')" by (metis prod_cases3)
  have "fst ?r = Some True" by code_simp
  with r have res: "?r = (Some True, m', w')" by simp
  have v: "mc_value ref_env ref_doc (fst sample_dirty) (snd sample_dirty) ''canvas:1''
      (sample_region ''n'') = Some (JObj [(''text'', JStr ''bye''), (''type'', JStr ''note'')])"
    "mc_stored ref_env ref_doc (snd sample_dirty) ''canvas:1'' (sample_region ''n'')
        = Some (JObj [(''text'', JStr ''hi''), (''type'', JStr ''note'')])"
    by code_simp+
  have st: "remote_stable (me_options ref_env)" by (simp add: ref_env_def ref_stable)
  show ?thesis
    using flush_makes_durable[OF ref_contract st sample_dirty_coherent res] v res sample_region_eq(3)
    by auto
qed

text \<open>
  An atomic command sees the current document. When \<open>executeAtomic\<close> answers, the command ran
  after every dirty region of its document had been written back: the server state it ran on held
  the current value of every region of the document, and the answer is the server's.
\<close>

theorem executeAtomic_sees_current_document:
  assumes "redis_json_ok E doc" "remote_stable (me_options E)" "mc_coherent E doc m w"
    "mc_executeAtomic E key command changed m w = (Some (Some reply), m', w')"
  shows "\<exists>w1. me_exec E command w1 = (Some reply, w')
    \<and> (\<forall>k. mc_region_ok E k \<longrightarrow> mc_stored E doc w1 key k = mc_value E doc m w key k)"
proof -
  obtain b m1 w1 where fl: "mc_flush E key m w = (b, m1, w1)" by (metis prod_cases3)
  obtain r w2 where ex: "me_exec E command w1 = (r, w2)" by force
  have b: "b = Some True" "r = Some reply" "w2 = w'"
    using assms(4) fl ex
    by (auto simp: mc_executeAtomic_def mc_flush_def split: option.splits bool.splits if_splits)
  from redis_json.flush_value(3)[OF redis_json.intro[OF assms(1,2)] assms(3) fl b(1)]
  show ?thesis using ex b by blast
qed

theorem executeAtomic_sees_current_document_witness:
  "\<exists>w1. me_exec ref_env [''JSON.GET'', ''canvas:1'', ''$.items.n.text''] w1 = (Some ''[\"bye\"]'', w1)
    \<and> mc_stored ref_env ref_doc w1 ''canvas:1'' (sample_region ''n'')
        = Some (JObj [(''text'', JStr ''bye''), (''type'', JStr ''note'')])"
proof -
  let ?c = "[''JSON.GET'', ''canvas:1'', ''$.items.n.text'']"
  let ?r = "mc_executeAtomic ref_env ''canvas:1'' ?c [] (fst sample_dirty) (snd sample_dirty)"
  obtain res m' w' where r: "?r = (res, m', w')" by (metis prod_cases3)
  have "fst ?r = Some (Some ''[\"bye\"]'')" by code_simp
  with r have res: "?r = (Some (Some ''[\"bye\"]''), m', w')" by simp
  have v: "mc_value ref_env ref_doc (fst sample_dirty) (snd sample_dirty) ''canvas:1''
      (sample_region ''n'') = Some (JObj [(''text'', JStr ''bye''), (''type'', JStr ''note'')])"
    by code_simp
  have st: "remote_stable (me_options ref_env)" by (simp add: ref_env_def ref_stable)
  obtain w1 where w1: "me_exec ref_env ?c w1 = (Some ''[\"bye\"]'', w')"
    "mc_stored ref_env ref_doc w1 ''canvas:1'' (sample_region ''n'')
      = Some (JObj [(''text'', JStr ''bye''), (''type'', JStr ''note'')])"
    using executeAtomic_sees_current_document[OF ref_contract st sample_dirty_coherent res]
      sample_region_eq(3) v by auto
  moreover have "w' = w1" using w1(1) by (simp add: ref_env_def ref_exec_def)
  ultimately show ?thesis by blast
qed

text \<open>
  The cache never outgrows its configuration: in every coherent state there are at most
  \<open>maximum_documents_\<close> document caches, and each holds at most \<open>entries_per_document\<close> regions, all
  of which are in its recency list exactly once.
\<close>

theorem cache_stays_bounded:
  assumes "mc_coherent E doc m w"
  shows "length (cm_caches m) \<le> cm_maximum_documents m
    \<and> (\<forall>d r. cm_cache m d = Some r \<longrightarrow> card (dom (rl_cached r)) \<le> cm_maximum_regions m
         \<and> distinct (rl_lru r) \<and> set (rl_lru r) = dom (rl_cached r))"
proof -
  have inv: "cm_inv m" using assms by (simp add: mc_coherent_def cm_ok_def)
  have "card (dom (rl_cached r)) \<le> cm_maximum_regions m \<and> distinct (rl_lru r)
      \<and> set (rl_lru r) = dom (rl_cached r)" if "cm_cache m d = Some r" for d r
    using cm_cacheE[OF inv that] rl_inv_bound[of r] rl_inv_length_lru[of r] by (simp add: rl_inv_def)
  then show ?thesis using inv by (simp add: cm_inv_def)
qed

theorem cache_stays_bounded_witness:
  "length (cm_caches (fst sample_dirty)) \<le> 2
   \<and> (\<exists>r. cm_cache (fst sample_dirty) ''canvas:1'' = Some r \<and> card (dom (rl_cached r)) \<le> 2)"
proof -
  have c: "cm_maximum_documents (fst sample_dirty) = 2" "cm_maximum_regions (fst sample_dirty) = 2"
    "Option.is_none (cm_cache (fst sample_dirty) ''canvas:1'') = False" by code_simp+
  then obtain r where "cm_cache (fst sample_dirty) ''canvas:1'' = Some r"
    by (auto simp: Option.is_none_def)
  with cache_stays_bounded[OF sample_dirty_coherent] c show ?thesis by auto
qed

text \<open>
  Erasing a path that is shorter than a region drops the dirty regions of its siblings. On
  a canvas whose note has a pending change in the cache, deleting the unrelated member
  \<^verbatim>\<open>$.other\<close> succeeds, and afterwards the note has its old value: \<open>erase\<close> neither flushes the
  document nor restricts the invalidation to the erased path.
\<close>

theorem erase_short_path_loses_write:
  "\<exists>m' w'. mc_erase ref_env ''canvas:1'' ''$.other'' (fst sample_dirty) (snd sample_dirty)
        = (Some True, m', w')
    \<and> mc_value ref_env ref_doc (fst sample_dirty) (snd sample_dirty) ''canvas:1'' (sample_region ''n'')
        = Some (JObj [(''text'', JStr ''bye''), (''type'', JStr ''note'')])
    \<and> mc_value ref_env ref_doc m' w' ''canvas:1'' (sample_region ''n'')
        = Some (JObj [(''text'', JStr ''hi''), (''type'', JStr ''note'')])"
proof -
  let ?r = "mc_erase ref_env ''canvas:1'' ''$.other'' (fst sample_dirty) (snd sample_dirty)"
  have "fst ?r = Some True" by code_simp
  then have "?r = (Some True, fst (snd ?r), snd (snd ?r))" by (simp add: prod_eq_iff)
  moreover have "mc_value ref_env ref_doc (fst sample_dirty) (snd sample_dirty) ''canvas:1''
      (sample_region ''n'') = Some (JObj [(''text'', JStr ''bye''), (''type'', JStr ''note'')])"
    by code_simp
  moreover have "mc_value ref_env ref_doc (fst (snd ?r)) (snd (snd ?r)) ''canvas:1'' (sample_region ''n'')
        = Some (JObj [(''text'', JStr ''hi''), (''type'', JStr ''note'')])" by code_simp
  ultimately show ?thesis by blast
qed

text \<open>
  Canonical paths round-trip: the text \<open>canonical\<close> builds for any segments (indices within
  64 bits) parses back to those segments, so two regions have the same name only when they are the
  same; and every path \<open>parseJsonPath\<close> accepts yields such segments.
\<close>

theorem canonical_path_roundtrip:
  assumes "json_lib_ok L"
  shows "(list_all segment_ok segs \<longrightarrow> parseJsonPath L (canonical L segs) = Some segs)
    \<and> (parseJsonPath L path = Some segs \<longrightarrow> list_all segment_ok segs)"
  using parse_canonical[OF assms] parseJsonPath_ok by blast

theorem canonical_path_roundtrip_witness:
  "parseJsonPath ref_lib (canonical ref_lib [Key ''a.b\"c'', Index 12, Key []])
     = Some [Key ''a.b\"c'', Index 12, Key []]"
proof -
  have "list_all segment_ok [Key ''a.b\"c'', Index 12, Key []]"
    by (simp add: segment_ok_def uint64_max_def)
  then show ?thesis using canonical_path_roundtrip[OF ref_lib_ok] by blast
qed

text \<open>
  \<open>setJsonPathValue\<close> is an update: after it succeeds, the path holds the value, every path that
  diverges from it is unchanged, a value that was already there leaves the document as it was, and
  it succeeds whenever the path already has a value.
\<close>

theorem set_path_laws:
  assumes "setJsonPathValue j p v = Some j'"
  shows "findJsonPathValue j' p = Some v
    \<and> (diverge p q \<longrightarrow> findJsonPathValue j' q = findJsonPathValue j q)
    \<and> (json_wf j \<longrightarrow> findJsonPathValue j p = Some v \<longrightarrow> j' = j)
    \<and> (findJsonPathValue j p \<noteq> None \<longrightarrow> setJsonPathValue j p x \<noteq> None)"
  using find_set_same[OF assms] find_set_diverge[OF assms] set_found_same[of j p v] assms
    set_succeeds_if_found[of j p x] by auto

theorem set_path_laws_witness:
  "findJsonPathValue (JObj [(''a'', JArr [JInt 1, JInt 7]), (''b'', JNull)]) [Key ''a'', Index 1]
      = Some (JInt 7)
   \<and> findJsonPathValue (JObj [(''a'', JArr [JInt 1, JInt 7]), (''b'', JNull)]) [Key ''a'', Index 0]
      = Some (JInt 1)"
proof -
  have "setJsonPathValue (JObj [(''a'', JArr [JInt 1, JInt 2]), (''b'', JNull)])
      [Key ''a'', Index 1] (JInt 7) = Some (JObj [(''a'', JArr [JInt 1, JInt 7]), (''b'', JNull)])"
    by simp
  from set_path_laws[OF this, of "[Key ''a'', Index 0]"] show ?thesis by simp
qed

end
