(* ===== verification/Canvas_Password.thy ===== *)
theory Canvas_Password
  imports Prelude
begin

text \<open>
  \<^verbatim>\<open>cpp/src/CanvasPassword.cpp\<close>: recognising and making the hashes of canvas passwords. The random
  generator and the key derivation of OpenSSL are parameters (\<open>crypto_lib\<close>); they fill buffers of 16
  and 32 bytes or fail.
\<close>

record crypto_lib =
  rand_bytes :: "nat \<Rightarrow> 8 word list option"
  pbkdf2_sha256 :: "string \<Rightarrow> 8 word list \<Rightarrow> nat \<Rightarrow> nat \<Rightarrow> 8 word list option"

definition crypto_ok :: "crypto_lib \<Rightarrow> bool" where
  \<comment> \<open>the buffers have the requested sizes\<close>
  "crypto_ok C \<longleftrightarrow>
     (\<forall>n bytes. rand_bytes C n = Some bytes \<longrightarrow> length bytes = n)
     \<and> (\<forall>p salt it n bytes. pbkdf2_sha256 C p salt it n = Some bytes \<longrightarrow> length bytes = n)"

definition kIterations :: nat where
  "kIterations = 310000"

definition hex_digits :: string where
  "hex_digits = ''0123456789abcdef''"

fun toHex :: "8 word list \<Rightarrow> string" where
  "toHex [] = []"
| "toHex (b # bs) = hex_digits ! unat (drop_bit 4 b) # hex_digits ! unat (and b 0xf) # toHex bs"

definition lower_hex_digit :: "char \<Rightarrow> bool" where
  "lower_hex_digit c \<longleftrightarrow> isdigit c \<or> (code_of CHR ''a'' \<le> code_of c \<and> code_of c \<le> code_of CHR ''f'')"

definition lowercaseHex :: "string \<Rightarrow> bool" where
  "lowercaseHex s \<longleftrightarrow> list_all lower_hex_digit s"

fun split_at :: "char \<Rightarrow> string \<Rightarrow> (string \<times> string) option" where
  \<comment> \<open>\<open>find\<close> of a character: what precedes it and what follows it\<close>
  "split_at d [] = None"
| "split_at d (c # cs) = (if c = d then Some ([], cs) else map_option (\<lambda>(a, b). (c # a, b)) (split_at d cs))"

definition dollar :: char where
  "dollar = CHR ''$''"

definition is_bcrypt :: "string \<Rightarrow> bool" where
  "is_bcrypt s \<longleftrightarrow> length s = 60 \<and> s ! 0 = dollar \<and> s ! 1 = CHR ''2''
     \<and> (s ! 2 = CHR ''a'' \<or> s ! 2 = CHR ''b'' \<or> s ! 2 = CHR ''y'') \<and> s ! 3 = dollar
     \<and> isdigit (s ! 4) \<and> isdigit (s ! 5) \<and> s ! 6 = dollar
     \<and> list_all (\<lambda>c. isalnum c \<or> c = CHR ''.'' \<or> c = CHR ''/'') (drop 7 s)"

definition is_pbkdf2 :: "string \<Rightarrow> bool" where
  "is_pbkdf2 s \<longleftrightarrow>
     (case split_at dollar s of
        None \<Rightarrow> False
      | Some (scheme, rest) \<Rightarrow>
          (case split_at dollar rest of
             None \<Rightarrow> False
           | Some (iterations, rest2) \<Rightarrow>
               (case split_at dollar rest2 of
                  None \<Rightarrow> False
                | Some (salt, digest) \<Rightarrow>
                    scheme = ''pbkdf2'' \<and> iterations \<noteq> [] \<and> length salt = 32 \<and> length digest = 64
                    \<and> lowercaseHex salt \<and> lowercaseHex digest \<and> list_all isdigit iterations)))"

definition isCanvasPasswordHash :: "string \<Rightarrow> bool" where
  "isCanvasPasswordHash s \<longleftrightarrow> is_bcrypt s \<or> is_pbkdf2 s"

definition hashCanvasPassword :: "crypto_lib \<Rightarrow> string \<Rightarrow> string option" where
  "hashCanvasPassword C password =
     (if password = [] then None
      else
        (case rand_bytes C 16 of
           None \<Rightarrow> None
         | Some salt \<Rightarrow>
             (case pbkdf2_sha256 C password salt kIterations 32 of
                None \<Rightarrow> None
              | Some digest \<Rightarrow>
                  Some (''pbkdf2'' @ [dollar] @ to_string kIterations @ [dollar] @ toHex salt @ [dollar]
                    @ toHex digest))))"

definition normalizeCanvasPassword :: "crypto_lib \<Rightarrow> string \<Rightarrow> string option" where
  "normalizeCanvasPassword C stored =
     (if stored = [] then Some []
      else if isCanvasPasswordHash stored then Some stored else hashCanvasPassword C stored)"

section \<open>Properties\<close>

lemma split_at_append: "d \<notin> set a \<Longrightarrow> split_at d (a @ d # b) = Some (a, b)"
  by (induction a) auto

lemma length_toHex [simp]: "length (toHex bs) = 2 * length bs"
  by (induction bs) auto

lemma hex_digit: "n < 16 \<Longrightarrow> lower_hex_digit (hex_digits ! n) \<and> hex_digits ! n \<noteq> dollar"
proof -
  have "\<forall>n \<in> set [0..<16]. lower_hex_digit (hex_digits ! n) \<and> hex_digits ! n \<noteq> dollar" by code_simp
  then show "n < 16 \<Longrightarrow> ?thesis" by simp
qed

lemma nibbles: "unat (drop_bit 4 (b :: 8 word)) < 16" "unat (and b (0xf :: 8 word)) < 16"
proof -
  have "unat b < 2 ^ LENGTH(8)" by (rule unsigned_less)
  then have "unat b < 256" by simp
  then show "unat (drop_bit 4 b) < 16" unfolding unat_drop_bit_eq by (simp add: drop_bit_eq_div)
  have e: "and b 0xf = take_bit 4 b" by (simp add: take_bit_eq_mask mask_eq_exp_minus_1)
  show "unat (and b 0xf) < 16" unfolding e unsigned_take_bit_eq by (simp add: take_bit_eq_mod)
qed

lemma toHex_lower: "lowercaseHex (toHex bs)" "dollar \<notin> set (toHex bs)"
  using hex_digit nibbles by (induction bs) (auto simp: lowercaseHex_def, metis+)

lemma hash_is_hash:
  assumes "crypto_ok C" "hashCanvasPassword C password = Some h"
  shows "isCanvasPasswordHash h"
proof -
  obtain salt digest where h: "h = ''pbkdf2'' @ dollar # to_string kIterations @ dollar # toHex salt @ dollar # toHex digest"
    "length salt = 16" "length digest = 32"
    using assms by (auto simp: hashCanvasPassword_def crypto_ok_def split: if_splits option.splits)
  have d: "\<forall>c \<in> set (to_string kIterations). isdigit c" by (rule to_string_digits)
  have "\<not> isdigit dollar" by code_simp
  then have nd: "dollar \<notin> set (to_string kIterations)" using d by blast
  have np: "dollar \<notin> set ''pbkdf2''" by code_simp
  have ne: "to_string kIterations \<noteq> []" by (subst to_string.simps) simp
  have "is_pbkdf2 h"
    unfolding h(1) is_pbkdf2_def split_at_append[OF np] split_at_append[OF nd]
      split_at_append[OF toHex_lower(2)] option.case prod.case
    using h(2,3) d ne by (simp add: toHex_lower list_all_iff)
  then show ?thesis by (simp add: isCanvasPasswordHash_def)
qed

text \<open>
  Passwords are normalised once. What \<open>normalizeCanvasPassword\<close> stores is empty exactly for the
  empty password and otherwise has the form of a hash, and normalising it again leaves it as it is,
  so a stored hash is never hashed a second time.
\<close>

theorem password_normalised_once:
  assumes "crypto_ok C" "normalizeCanvasPassword C stored = Some h"
  shows "(h = [] \<longleftrightarrow> stored = []) \<and> (h \<noteq> [] \<longrightarrow> isCanvasPasswordHash h)
    \<and> (isCanvasPasswordHash stored \<longrightarrow> h = stored) \<and> normalizeCanvasPassword C' h = Some h"
proof -
  have ne: "\<not> isCanvasPasswordHash []" by code_simp
  show ?thesis
    using assms ne hash_is_hash[OF assms(1)]
    by (auto simp: normalizeCanvasPassword_def split: if_splits)
qed

definition sample_crypto :: crypto_lib where
  "sample_crypto = \<lparr>rand_bytes = (\<lambda>n. Some (replicate n 0xa5)),
     pbkdf2_sha256 = (\<lambda>p salt it n. Some (replicate n (of_nat (length p))))\<rparr>"

theorem password_normalised_once_witness:
  "\<exists>h. normalizeCanvasPassword sample_crypto ''secret'' = Some h \<and> isCanvasPasswordHash h
    \<and> normalizeCanvasPassword sample_crypto h = Some h"
proof -
  have c: "crypto_ok sample_crypto" by (auto simp: crypto_ok_def sample_crypto_def)
  have "\<not> isCanvasPasswordHash ''secret''" by code_simp
  then obtain h where h: "normalizeCanvasPassword sample_crypto ''secret'' = Some h"
    by (simp add: normalizeCanvasPassword_def hashCanvasPassword_def sample_crypto_def split: if_splits)
  show ?thesis using h password_normalised_once[OF c h] by fastforce
qed

end
