(* ===== verification/Canvas_Store.thy ===== *)
theory Canvas_Store
  imports Memory_Properties Chat_Scripts Canvas_Password
begin

text \<open>
  \<^verbatim>\<open>cpp/src/service_memory/CanvasServiceMemory.cpp\<close>: the operations of \<open>CanvasServiceMemory\<close> on top of
  \<open>MemoryClass\<close>, and the two short scripts \<open>compareAndSetJsonPaths\<close> and
  \<open>deleteIfCacheGenerationMatches\<close>. The text of a script, the second word of an \<^verbatim>\<open>EVAL\<close> command, is
  represented by the name of the function it belongs to. A result \<open>None\<close> is an exception that leaves
  the operation.
\<close>

section \<open>Keys and paths\<close>

definition int_text :: "int \<Rightarrow> string" where
  \<comment> \<open>\<open>std::to_string\<close>\<close>
  "int_text i = (if i < 0 then CHR ''-'' # to_string (nat (- i)) else to_string (nat i))"

definition canvasKey :: "int \<Rightarrow> string" where
  "canvasKey i = ''canvas:'' @ int_text i"

definition canvasItemJsonPath :: "json_lib \<Rightarrow> string \<Rightarrow> string" where
  "canvasItemJsonPath L i = ''$[\"items\"]['' @ jl_dump L (JStr i) @ '']''"

definition fieldPath :: "json_lib \<Rightarrow> string \<Rightarrow> string" where
  "fieldPath L field = ''$['' @ jl_dump L (JStr field) @ '']''"

definition eval_command :: "string \<Rightarrow> string \<Rightarrow> string list \<Rightarrow> string list" where
  "eval_command script key arguments = [''EVAL'', script, ''1'', key] @ arguments"

section \<open>Compare and set\<close>

datatype compare_set_result = Applied | Conflict | Error

definition settings_revision :: "lua_lib \<Rightarrow> json option \<Rightarrow> rat option" where
  \<comment> \<open>\<open>tonumber(versions[1] or 0)\<close>\<close>
  "settings_revision U found = (if truthy found then tonumber U found else Some 0)"

definition cas_script ::
  "rj_lib \<Rightarrow> lua_lib \<Rightarrow> int \<Rightarrow> (json_path_segment list \<times> json) list \<Rightarrow> json_path_segment list list
   \<Rightarrow> json option \<Rightarrow> string option \<times> json option" where
  "cas_script R U expected values deletes stored =
     (case stored of
        None \<Rightarrow> (Some ''MISSING'', None)
      | Some d \<Rightarrow>
          if settings_revision U (rj_get R d [Key ''settings-revision''])
             \<noteq> Some (lua_round U (rat_of_int expected))
          then (Some ''CONFLICT'', Some d)
          else (Some ''OK'', Some (fold (\<lambda>p d1. rj_del R d1 p) deletes
                 (fold (\<lambda>(p, v) d1. rj_set R d1 p v) values d))))"

definition generation_script ::
  "rj_lib \<Rightarrow> string \<Rightarrow> json option \<Rightarrow> string option \<times> json option" where
  "generation_script R generation stored =
     (case stored of
        None \<Rightarrow> (Some ''CONFLICT'', None)
      | Some d \<Rightarrow>
          if rj_get R d [Key ''_cache_generation''] \<noteq> Some (JStr generation) then (Some ''CONFLICT'', Some d)
          else (Some ''APPLIED'', None))"

definition cas_result :: "string option option \<Rightarrow> compare_set_result option" where
  "cas_result reply = (case reply of None \<Rightarrow> None | Some r \<Rightarrow>
     Some (if r = Some ''OK'' then Applied else if r = Some ''CONFLICT'' then Conflict else Error))"

definition compareAndSetJsonPaths ::
  "'w mc_env \<Rightarrow> string \<Rightarrow> int \<Rightarrow> (string \<times> json) list \<Rightarrow> string list \<Rightarrow> cache_manager \<Rightarrow> 'w
   \<Rightarrow> compare_set_result option \<times> cache_manager \<times> 'w" where
  "compareAndSetJsonPaths E key expected values deletes m w =
     (if values = [] \<and> deletes = [] then (Some Error, m, w)
      else
        (let (reply, m1, w1) = mc_executeAtomic E key
               (eval_command ''compareAndSetJsonPaths'' key
                  ([int_text expected, to_string (length values)]
                   @ concat (map (\<lambda>(path, value). [path, jl_dump (me_lib E) value]) values)
                   @ [to_string (length deletes)] @ deletes))
               (deletes @ map fst values) m w
         in (cas_result reply, m1, w1)))"

definition deleteIfCacheGenerationMatches ::
  "'w mc_env \<Rightarrow> string \<Rightarrow> string \<Rightarrow> cache_manager \<Rightarrow> 'w
   \<Rightarrow> compare_set_result option \<times> cache_manager \<times> 'w" where
  "deleteIfCacheGenerationMatches E key generation m w =
     (let (reply, m1, w1) = mc_executeAtomic E key
            (eval_command ''deleteIfCacheGenerationMatches'' key [generation]) [''$''] m w
      in (case reply of None \<Rightarrow> None | Some r \<Rightarrow>
            Some (if r = Some ''APPLIED'' then Applied else if r = Some ''CONFLICT'' then Conflict else Error),
          m1, w1))"

section \<open>Documents and items\<close>

definition loadCanvas ::
  "'w mc_env \<Rightarrow> (string \<Rightarrow> bool) \<Rightarrow> int \<Rightarrow> cache_manager \<Rightarrow> 'w
   \<Rightarrow> string option option \<times> cache_manager \<times> 'w" where
  "loadCanvas E try_lock i m w = mc_read E try_lock (canvasKey i) m w"

definition storeCanvas ::
  "'w mc_env \<Rightarrow> int \<Rightarrow> json \<Rightarrow> cache_manager \<Rightarrow> 'w \<Rightarrow> bool option \<times> cache_manager \<times> 'w" where
  "storeCanvas E i document m w = mc_write E (canvasKey i) document ''$'' m w"

definition flushCanvas ::
  "'w mc_env \<Rightarrow> int \<Rightarrow> cache_manager \<Rightarrow> 'w \<Rightarrow> bool option \<times> cache_manager \<times> 'w" where
  "flushCanvas E i m w = mc_flush E (canvasKey i) m w"

definition clearCanvas ::
  "'w mc_env \<Rightarrow> int \<Rightarrow> cache_manager \<Rightarrow> 'w \<Rightarrow> bool option \<times> cache_manager \<times> 'w" where
  "clearCanvas E i m w =
     (case mc_erasePattern E (canvasKey i @ '':*'') m w of
        (True, m1, w1) \<Rightarrow> mc_erase E (canvasKey i) ''$'' m1 w1
      | (False, m1, w1) \<Rightarrow> (Some False, m1, w1))"

definition removeCanvasGeneration ::
  "'w mc_env \<Rightarrow> int \<Rightarrow> string \<Rightarrow> cache_manager \<Rightarrow> 'w
   \<Rightarrow> compare_set_result option \<times> cache_manager \<times> 'w" where
  "removeCanvasGeneration E i generation m w = deleteIfCacheGenerationMatches E (canvasKey i) generation m w"

definition readItem ::
  "'w mc_env \<Rightarrow> (string \<Rightarrow> bool) \<Rightarrow> int \<Rightarrow> string \<Rightarrow> string \<Rightarrow> cache_manager \<Rightarrow> 'w
   \<Rightarrow> string option option \<times> cache_manager \<times> 'w" where
  "readItem E try_lock i item_id field m w =
     mc_read_path E try_lock (canvasKey i)
       (canvasItemJsonPath (me_lib E) item_id @ (if field = [] then [] else tl (fieldPath (me_lib E) field))) m w"

definition storeItem ::
  "'w mc_env \<Rightarrow> int \<Rightarrow> string \<Rightarrow> json \<Rightarrow> cache_manager \<Rightarrow> 'w \<Rightarrow> bool option \<times> cache_manager \<times> 'w" where
  "storeItem E i item_id item m w = mc_write E (canvasKey i) item (canvasItemJsonPath (me_lib E) item_id) m w"

definition removeItem ::
  "'w mc_env \<Rightarrow> int \<Rightarrow> string \<Rightarrow> cache_manager \<Rightarrow> 'w \<Rightarrow> bool option \<times> cache_manager \<times> 'w" where
  "removeItem E i item_id m w = mc_erase E (canvasKey i) (canvasItemJsonPath (me_lib E) item_id) m w"

definition replaceItems ::
  "'w mc_env \<Rightarrow> int \<Rightarrow> json \<Rightarrow> cache_manager \<Rightarrow> 'w \<Rightarrow> bool option \<times> cache_manager \<times> 'w" where
  "replaceItems E i items m w = mc_write E (canvasKey i) items ''$.items'' m w"

definition patchItemField ::
  "'w mc_env \<Rightarrow> int \<Rightarrow> string \<Rightarrow> string \<Rightarrow> json \<Rightarrow> cache_manager \<Rightarrow> 'w
   \<Rightarrow> bool option \<times> cache_manager \<times> 'w" where
  "patchItemField E i item_id field value m w =
     mc_write E (canvasKey i) value (canvasItemJsonPath (me_lib E) item_id @ tl (fieldPath (me_lib E) field)) m w"

definition clearItems ::
  "'w mc_env \<Rightarrow> int \<Rightarrow> cache_manager \<Rightarrow> 'w \<Rightarrow> bool option \<times> cache_manager \<times> 'w" where
  "clearItems E i m w = mc_erase E (canvasKey i) ''$.items'' m w"

definition compareAndSetFields ::
  "'w mc_env \<Rightarrow> int \<Rightarrow> int \<Rightarrow> (string \<times> json) list \<Rightarrow> cache_manager \<Rightarrow> 'w
   \<Rightarrow> compare_set_result option \<times> cache_manager \<times> 'w" where
  "compareAndSetFields E i revision pairs m w =
     compareAndSetJsonPaths E (canvasKey i) revision
       (map (\<lambda>(name, value). (fieldPath (me_lib E) name, value)) pairs) [] m w"

section \<open>What compare-and-set guarantees\<close>

lemma put_field: "put_at (JObj ms) [Key f] v = JObj (obj_put f v ms)"
  by (simp add: put_at_def)

lemma put_fields: "fold (\<lambda>(p, v) d1. put_at d1 p v) (map (\<lambda>(f, v). ([Key f], v)) entries) (JObj ms)
    = JObj (fold (\<lambda>(f, v). obj_put f v) entries ms)"
  by (induction entries arbitrary: ms) (auto simp: put_field)

lemma map_of_put_fields: "distinct (map fst entries) \<Longrightarrow>
    map_of (fold (\<lambda>(f, v). obj_put f v) entries ms) f
      = (case map_of entries f of Some v \<Rightarrow> Some v | None \<Rightarrow> map_of ms f)"
proof (induction entries arbitrary: ms)
  case (Cons e entries)
  obtain g v where e: "e = (g, v)" by force
  have "map_of entries f = None" if "f = g"
    using Cons.prems that e by (simp add: map_of_eq_None_iff)
  then show ?case using Cons e by (auto split: option.splits)
qed simp

context lua_scripts
begin

lemma revision_exact:
  assumes "findJsonPathValue d [Key ''settings-revision''] = Some (JInt n)" "\<bar>n\<bar> \<le> 2 ^ 53" "\<bar>e\<bar> \<le> 2 ^ 53"
  shows "settings_revision U (rj_get R d [Key ''settings-revision'']) = Some (lua_round U (rat_of_int e))
    \<longleftrightarrow> n = e"
  using assms by (simp add: settings_revision_def rj_simps truthy_def tonumber_exact round_exact)

lemma cas_on_document:
  assumes "jget (JObj ms) ''settings-revision'' = Some (JInt n)" "\<bar>n\<bar> \<le> 2 ^ 53" "\<bar>e\<bar> \<le> 2 ^ 53"
  shows "cas_script R U e (map (\<lambda>(f, v). ([Key f], v)) entries) [] (Some (JObj ms)) =
    (if n = e then (Some ''OK'', Some (JObj (fold (\<lambda>(f, v). obj_put f v) entries ms)))
     else (Some ''CONFLICT'', Some (JObj ms)))"
proof -
  have f: "findJsonPathValue (JObj ms) [Key ''settings-revision''] = Some (JInt n)"
    using assms(1) by simp
  have p: "(\<lambda>(p, v) d1. rj_set R d1 p v) = (\<lambda>(p, v) d1. put_at d1 p v)"
    by (simp add: rj_simps)
  show ?thesis
    unfolding cas_script_def option.case revision_exact[OF f assms(2,3)] p put_fields by simp
qed

end

text \<open>
  C35. Settings updates are serialised by their revision. On a canvas document with a settings
  revision, the script of \<open>compareAndSetJsonPaths\<close> (as \<open>compareAndSetFields\<close> calls it) answers OK
  exactly when the expected revision is the current one, and then every given field holds its new
  value and every other field its old one; otherwise the answer is a conflict and the document is
  unchanged. So of two updates that expect the same revision and write a new one, in either order, the
  second is a conflict.
\<close>

theorem settings_updates_are_serialised:
  assumes "rj_ok R" "lua_ok L U" "jget d ''settings-revision'' = Some (JInt n)" "\<bar>n\<bar> \<le> 2 ^ 53" "\<bar>e\<bar> \<le> 2 ^ 53"
    "distinct (map fst entries)"
    "cas_script R U e (map (\<lambda>(f, v). ([Key f], v)) entries) [] (Some d) = (reply, stored)"
  shows "cas_result (Some reply) = Some (if e = n then Applied else Conflict)
    \<and> (e \<noteq> n \<longrightarrow> stored = Some d)
    \<and> (e = n \<longrightarrow> (\<exists>d'. stored = Some d'
         \<and> (\<forall>f. jget d' f = (case map_of entries f of Some v \<Rightarrow> Some v | None \<Rightarrow> jget d f))))
    \<and> (e = n \<and> map_of entries ''settings-revision'' = Some (JInt n') \<and> n' \<noteq> n \<and> \<bar>n'\<bar> \<le> 2 ^ 53 \<longrightarrow>
         cas_script R U e (map (\<lambda>(f, v). ([Key f], v)) later) [] stored = (Some ''CONFLICT'', stored))"
proof -
  have ls: "lua_scripts L R U" using assms(1,2) by unfold_locales
  obtain ms where d: "d = JObj ms" using assms(3) by (cases d) (auto simp: jget_def)
  note run = assms(7)[unfolded d lua_scripts.cas_on_document[OF ls assms(3)[unfolded d] assms(4,5)]]
  note fields = map_of_put_fields[OF assms(6), of ms]
  have "cas_result (Some reply) = Some (if e = n then Applied else Conflict)"
    "e \<noteq> n \<longrightarrow> stored = Some d"
    "e = n \<longrightarrow> (\<exists>d'. stored = Some d'
       \<and> (\<forall>f. jget d' f = (case map_of entries f of Some v \<Rightarrow> Some v | None \<Rightarrow> jget d f)))"
    using run d fields by (auto simp: cas_result_def split: if_splits option.splits)
  moreover have "e = n \<and> map_of entries ''settings-revision'' = Some (JInt n') \<and> n' \<noteq> n \<and> \<bar>n'\<bar> \<le> 2 ^ 53 \<longrightarrow>
       cas_script R U e (map (\<lambda>(f, v). ([Key f], v)) later) [] stored = (Some ''CONFLICT'', stored)"
  proof safe
    assume h: "map_of entries ''settings-revision'' = Some (JInt n')" "n' \<noteq> n" "\<bar>n'\<bar> \<le> 2 ^ 53" "e = n"
    let ?ms = "fold (\<lambda>(f, v). obj_put f v) entries ms"
    have "jget (JObj ?ms) ''settings-revision'' = Some (JInt n')" using fields h(1) by simp
    from lua_scripts.cas_on_document[OF ls this h(3) assms(5)] h run
    show "cas_script R U n (map (\<lambda>(f, v). ([Key f], v)) later) [] stored = (Some ''CONFLICT'', stored)"
      by auto
  qed
  ultimately show ?thesis by blast
qed

definition sample_settings :: json where
  "sample_settings = JObj [(''canvas-name'', JStr ''a''), (''settings-revision'', JInt 4)]"

theorem settings_updates_are_serialised_witness:
  "\<exists>d'. cas_script ref_rj ref_lua 4 [([Key ''settings-revision''], JInt 5)] [] (Some sample_settings)
      = (Some ''OK'', Some d')
    \<and> jget d' ''canvas-name'' = Some (JStr ''a'')
    \<and> cas_script ref_rj ref_lua 4 [([Key ''canvas-name''], JStr ''b'')] [] (Some d') = (Some ''CONFLICT'', Some d')"
proof -
  let ?e = "[(''settings-revision'', JInt 5)]" and ?l = "[(''canvas-name'', JStr ''b'')]"
  let ?r = "cas_script ref_rj ref_lua 4 (map (\<lambda>(f, v). ([Key f], v)) ?e) [] (Some sample_settings)"
  obtain reply stored where r: "?r = (reply, stored)" by force
  have j: "jget sample_settings ''settings-revision'' = Some (JInt 4)"
    "jget sample_settings ''canvas-name'' = Some (JStr ''a'')" by (simp_all add: sample_settings_def)
  note p = settings_updates_are_serialised[OF ref_rj_ok ref_lua_ok j(1) _ _ _ r, of 5 ?l]
  have reply: "reply = Some ''OK''" using p by (auto simp: cas_result_def split: if_splits)
  obtain d' where d': "stored = Some d'"
    "\<And>f. jget d' f = (case map_of ?e f of Some v \<Rightarrow> Some v | None \<Rightarrow> jget sample_settings f)"
    using p by auto
  have "cas_script ref_rj ref_lua 4 (map (\<lambda>(f, v). ([Key f], v)) ?l) [] stored = (Some ''CONFLICT'', stored)"
    using p by simp
  then show ?thesis using r reply d' j by simp
qed

text \<open>
  A cache is deleted only by the owner of its generation. The script of
  \<open>deleteIfCacheGenerationMatches\<close> deletes the document exactly when it carries the given generation;
  with any other generation, or none, it answers a conflict and leaves the document as it is.
\<close>

theorem only_own_generation_deleted:
  assumes "rj_ok R" "generation_script R generation stored = (reply, stored')"
  shows "(reply = Some ''APPLIED'' \<longleftrightarrow> (\<exists>d. stored = Some d \<and> jget d ''_cache_generation'' = Some (JStr generation)))
    \<and> (reply = Some ''APPLIED'' \<longrightarrow> stored' = None)
    \<and> (reply \<noteq> Some ''APPLIED'' \<longrightarrow> reply = Some ''CONFLICT'' \<and> stored' = stored)"
proof -
  have g: "rj_get R d [Key ''_cache_generation''] = jget d ''_cache_generation''" for d
    using assms(1) by (cases d) (simp_all add: rj_ok_def jget_def split: option.splits)
  show ?thesis using assms(2) by (auto simp: generation_script_def g split: option.splits if_splits)
qed

theorem only_own_generation_deleted_witness:
  "generation_script ref_rj ''g2'' (Some (JObj [(''_cache_generation'', JStr ''g1'')]))
     = (Some ''CONFLICT'', Some (JObj [(''_cache_generation'', JStr ''g1'')]))"
proof -
  let ?d = "JObj [(''_cache_generation'', JStr ''g1'')]"
  obtain reply stored' where r: "generation_script ref_rj ''g2'' (Some ?d) = (reply, stored')" by force
  show ?thesis using only_own_generation_deleted[OF ref_rj_ok r] r by auto
qed

end
