(* ===== verification/Canvas_Commands.thy ===== *)
theory Canvas_Commands
  imports Canvas_Store
begin

text \<open>
  \<^verbatim>\<open>cpp/src/service_memory/CanvasServiceMemory.cpp\<close>: the operations that send a script or a multi-path
  read through \<open>MemoryClass\<close>, with the paths they build, the arguments they send, the regions they
  invalidate and the replies they accept; and \<open>initializeCanvas\<close>. An outer \<open>None\<close> is an exception that
  leaves the operation, an inner one the \<open>std::nullopt\<close> it returns.
\<close>

section \<open>Paths\<close>

definition member_path :: "json_lib \<Rightarrow> string \<Rightarrow> string \<Rightarrow> string" where
  \<comment> \<open>a path text followed by one more quoted name in brackets\<close>
  "member_path L path name = path @ ''['' @ jl_dump L (JStr name) @ '']''"

definition escape_id :: "string \<Rightarrow> string" where
  "escape_id item_id = concat (map (\<lambda>ch. if ch = backslash \<or> ch = quote then [backslash, ch] else [ch]) item_id)"

definition page_room_path :: "string \<Rightarrow> string" where
  "page_room_path item_id = ''$[\"items\"][\"'' @ escape_id item_id @ ''\"]''"

section \<open>Chat rooms\<close>

definition appendChatMessage ::
  "'w mc_env \<Rightarrow> string \<Rightarrow> string \<Rightarrow> int \<Rightarrow> json \<Rightarrow> cache_manager \<Rightarrow> 'w
   \<Rightarrow> bool option \<times> cache_manager \<times> 'w" where
  "appendChatMessage E key item_id sequence message m w =
     (let room = canvasItemJsonPath (me_lib E) item_id;
          (reply, m1, w1) = mc_executeAtomic E key
            (eval_command ''appendChatMessage'' key
               [room @ ''[\"type\"]'', room @ ''[\"data\"]'', room @ ''[\"next_sequence\"]'',
                int_text sequence, jl_dump (me_lib E) message]) [room] m w
      in (map_option (\<lambda>r. r = Some ''OK'') reply, m1, w1))"

fun page_mode_text :: "page_mode \<Rightarrow> string" where
  "page_mode_text Range = ''range''"
| "page_mode_text From = ''from''"
| "page_mode_text To = ''to''"
| "page_mode_text Latest = ''latest''"

definition bound_text :: "int option \<Rightarrow> string" where
  "bound_text b = (case b of None \<Rightarrow> ''0'' | Some i \<Rightarrow> int_text i)"

definition getChatHistoryPage ::
  "'w mc_env \<Rightarrow> string \<Rightarrow> string \<Rightarrow> int option \<Rightarrow> int option \<Rightarrow> int \<Rightarrow> cache_manager \<Rightarrow> 'w
   \<Rightarrow> string option option \<times> cache_manager \<times> 'w" where
  "getChatHistoryPage E key item_id lower upper limit m w =
     (let room = page_room_path item_id;
          (reply, m1, w1) = mc_executeAtomic E key
            (eval_command ''getChatHistoryPage'' key
               [room, room @ ''[\"type\"]'', room @ ''[\"data\"]'', bound_text lower, bound_text upper,
                int_text limit, page_mode_text (page_mode_of lower upper)]) [] m w
      in (map_option (\<lambda>r. if reply_error r then None else r) reply, m1, w1))"

definition sender_request :: "json \<Rightarrow> string outcome" where
  \<comment> \<open>sender and request number, the key of the receipt\<close>
  "sender_request message =
     bindE (value_int64 message ''sender_user_id'' 0) (\<lambda>sender.
     bindE (value_string message ''request_id'' []) (\<lambda>request. Inr (int_text sender @ '':'' @ request)))"

definition object_reply :: "json_lib \<Rightarrow> string option \<Rightarrow> json option" where
  "object_reply L result =
     (case result of None \<Rightarrow> None | Some text \<Rightarrow>
        (case jl_parse L text of Some parsed \<Rightarrow> if is_object parsed then Some parsed else None | None \<Rightarrow> None))"

definition commitChatMessage ::
  "'w mc_env \<Rightarrow> int \<Rightarrow> string \<Rightarrow> json \<Rightarrow> json \<Rightarrow> cache_manager \<Rightarrow> 'w
   \<Rightarrow> json option option \<times> cache_manager \<times> 'w" where
  "commitChatMessage E i room_id permission message m w =
     (let key = canvasKey i; path = canvasItemJsonPath (me_lib E) room_id in
      case sender_request message of
        Inl _ \<Rightarrow> (None, m, w)
      | Inr request \<Rightarrow>
          (let (result, m1, w1) = mc_executeAtomic E key
                 (eval_command ''commitChatMessage'' key
                    [path, member_path (me_lib E) (path @ ''[\"requests\"]'') request,
                     jl_dump (me_lib E) (new_chat_room permission), jl_dump (me_lib E) message])
                 [path, ''$[\"mention-states\"]''] m w
           in (map_option (object_reply (me_lib E)) result, m1, w1)))"

section \<open>Mentions\<close>

definition user_state_path :: "json_lib \<Rightarrow> int \<Rightarrow> string" where
  "user_state_path L user_id = member_path L ''$[\"mention-states\"]'' (int_text user_id)"

definition mention_changed :: "json_lib \<Rightarrow> json \<Rightarrow> bool \<Rightarrow> string list outcome" where
  \<comment> \<open>the paths that storing a mention changes; reading one also changes its room\<close>
  "mention_changed L notification unread =
     (if \<not> unread \<and> contains notification ''room_id'' then
        bindE (get_string (the (jget notification ''room_id'')))
          (\<lambda>room. Inr [''$[\"mention-states\"]'', canvasItemJsonPath L room])
      else Inr [''$[\"mention-states\"]''])"

definition storeMentionState ::
  "'w mc_env \<Rightarrow> int \<Rightarrow> int \<Rightarrow> string \<Rightarrow> json \<Rightarrow> bool \<Rightarrow> cache_manager \<Rightarrow> 'w
   \<Rightarrow> bool option \<times> cache_manager \<times> 'w" where
  "storeMentionState E i user_id mention_id notification unread m w =
     (if user_id \<le> 0 \<or> mention_id = [] \<or> longer_than mention_id 256 \<or> \<not> is_object notification
      then (Some False, m, w)
      else
        (case (jput notification ''unread'' (JBool unread), mention_changed (me_lib E) notification unread) of
           (Inr stored, Inr changed) \<Rightarrow>
             (let key = canvasKey i; user = user_state_path (me_lib E) user_id;
                  (reply, m1, w1) = mc_executeAtomic E key
                    (eval_command ''storeMentionState'' key
                       [user, member_path (me_lib E) user mention_id, jl_dump (me_lib E) stored,
                        if unread then ''create'' else ''read'', int_text user_id]) changed m w
              in (map_option (\<lambda>r. r = Some ''OK'') reply, m1, w1))
         | _ \<Rightarrow> (None, m, w)))"

definition first_match :: "json_lib \<Rightarrow> json \<Rightarrow> string \<Rightarrow> json option" where
  \<comment> \<open>the first element of an array reply, or a default for the empty one\<close>
  "first_match L fallback text =
     (case jl_parse L text of
        Some (JArr []) \<Rightarrow> Some fallback | Some (JArr (x # _)) \<Rightarrow> Some x | _ \<Rightarrow> None)"

definition readMentionStates ::
  "'w mc_env \<Rightarrow> (string \<Rightarrow> bool) \<Rightarrow> int \<Rightarrow> int \<Rightarrow> cache_manager \<Rightarrow> 'w
   \<Rightarrow> json option option \<times> cache_manager \<times> 'w" where
  "readMentionStates E try_lock i user_id m w =
     (if user_id \<le> 0 then (Some None, m, w)
      else
        (let (raw, m1, w1) = mc_read_path E try_lock (canvasKey i) (user_state_path (me_lib E) user_id) m w
         in (map_option (\<lambda>r. case r of None \<Rightarrow> None | Some text \<Rightarrow> first_match (me_lib E) (JObj []) text) raw,
             m1, w1)))"

section \<open>Broker batches\<close>

definition client_path :: "json_lib \<Rightarrow> string \<Rightarrow> string" where
  "client_path L client = member_path L ''$[\"__broker_sync\"][\"clients\"]'' client"

definition elements_at :: "json \<Rightarrow> json option outcome" where
  \<comment> \<open>\<open>values.empty() ? default : values[0]\<close>; \<open>operator[]\<close> throws on a value that is no array\<close>
  "elements_at j =
     (case j of JNull \<Rightarrow> Inr None | JArr [] \<Rightarrow> Inr None | JObj [] \<Rightarrow> Inr None
      | JArr (x # _) \<Rightarrow> Inr (Some x) | _ \<Rightarrow> Inl JsonException)"

definition sync_revision :: "json_lib \<Rightarrow> string \<Rightarrow> int option" where
  "sync_revision L text =
     (case jl_parse L text of
        None \<Rightarrow> None
      | Some values \<Rightarrow>
          (case bindE (elements_at values) (\<lambda>v. case v of None \<Rightarrow> Inr 0 | Some x \<Rightarrow> get_int64 x) of
             Inl _ \<Rightarrow> None | Inr n \<Rightarrow> Some n))"

definition sync_receipt :: "json_lib \<Rightarrow> string \<Rightarrow> json option" where
  "sync_receipt L text =
     (case jl_parse L text of
        None \<Rightarrow> None
      | Some entries \<Rightarrow>
          (case elements_at entries of Inl _ \<Rightarrow> None | Inr None \<Rightarrow> Some JNull | Inr (Some x) \<Rightarrow> Some x))"

definition sync_state :: "int \<Rightarrow> json \<Rightarrow> json" where
  "sync_state revision receipt = JObj [(''receipt'', receipt), (''revision'', JInt revision)]"

definition brokerSyncState ::
  "'w mc_env \<Rightarrow> (string \<Rightarrow> bool) \<Rightarrow> int \<Rightarrow> string \<Rightarrow> cache_manager \<Rightarrow> 'w
   \<Rightarrow> json option option \<times> cache_manager \<times> 'w" where
  "brokerSyncState E try_lock i client m w =
     (case mc_read_path E try_lock (canvasKey i) ''$[\"__broker_sync\"][\"revision\"]'' m w of
        (None, m1, w1) \<Rightarrow> (None, m1, w1)
      | (Some None, m1, w1) \<Rightarrow> (Some None, m1, w1)
      | (Some (Some text), m1, w1) \<Rightarrow>
          (case sync_revision (me_lib E) text of
             None \<Rightarrow> (None, m1, w1)
           | Some revision \<Rightarrow>
               if client = [] then (Some (Some (sync_state revision JNull)), m1, w1)
               else
                 (case mc_read_path E try_lock (canvasKey i) (client_path (me_lib E) client) m1 w1 of
                    (None, m2, w2) \<Rightarrow> (None, m2, w2)
                  | (Some None, m2, w2) \<Rightarrow> (Some None, m2, w2)
                  | (Some (Some raw), m2, w2) \<Rightarrow>
                      (map_option (\<lambda>receipt. Some (sync_state revision receipt)) (sync_receipt (me_lib E) raw),
                       m2, w2))))"

definition encoded_items :: "json_lib \<Rightarrow> (string \<times> json) list \<Rightarrow> json" where
  \<comment> \<open>every item as its text, a deletion as null\<close>
  "encoded_items L items =
     JObj (map (\<lambda>(k, v). (k, if v = JNull then JNull else JStr (jl_dump L v))) items)"

definition applyBrokerBatch ::
  "'w mc_env \<Rightarrow> int \<Rightarrow> string \<Rightarrow> int \<Rightarrow> string \<Rightarrow> string \<Rightarrow> (string \<times> json) list \<Rightarrow> json
   \<Rightarrow> cache_manager \<Rightarrow> 'w \<Rightarrow> json option option \<times> cache_manager \<times> 'w" where
  "applyBrokerBatch E i client cnt request digest items expected m w =
     (let key = canvasKey i;
          (response, m1, w1) = mc_executeAtomic E key
            (eval_command ''applyBrokerBatch'' key
               [client_path (me_lib E) client, int_text cnt, request, digest,
                jl_dump (me_lib E) (encoded_items (me_lib E) items), jl_dump (me_lib E) expected])
            (''$[\"__broker_sync\"]'' # map (\<lambda>(k, _). canvasItemJsonPath (me_lib E) k) items) m w
      in (map_option (\<lambda>r. case r of None \<Rightarrow> None | Some text \<Rightarrow> jl_parse (me_lib E) text) response, m1, w1))"

fun broker_items :: "json \<Rightarrow> bool \<Rightarrow> (string \<times> string) list \<Rightarrow> (string \<times> json) list \<Rightarrow> json option" where
  \<comment> \<open>the loop over the ids, each with its path; \<open>at\<close> throws on a missing path\<close>
  "broker_items reply single [] items = Some (JObj items)"
| "broker_items reply single ((item, path) # rest) items =
     (case (if single then Some reply else jget reply path) of
        Some (JArr []) \<Rightarrow> broker_items reply single rest (obj_put item JNull items)
      | Some (JArr (x # _)) \<Rightarrow> broker_items reply single rest (obj_put item x items)
      | _ \<Rightarrow> None)"

definition readBrokerItems ::
  "'w mc_env \<Rightarrow> int \<Rightarrow> string list \<Rightarrow> cache_manager \<Rightarrow> 'w
   \<Rightarrow> json option option \<times> cache_manager \<times> 'w" where
  "readBrokerItems E i ids m w =
     (if ids = [] then (Some (Some (JObj [])), m, w)
      else
        (let paths = map (canvasItemJsonPath (me_lib E)) ids;
             (raw, m1, w1) = mc_executeAtomic E (canvasKey i) ([''JSON.GET'', canvasKey i] @ paths) [] m w
         in (map_option (\<lambda>r. case r of
               None \<Rightarrow> None
             | Some text \<Rightarrow>
                 (case jl_parse (me_lib E) text of
                    None \<Rightarrow> None
                  | Some result \<Rightarrow> broker_items result (length ids = 1) (zip ids paths) [])) raw, m1, w1)))"

section \<open>Operations by canvas number\<close>

definition appendMessage ::
  "'w mc_env \<Rightarrow> int \<Rightarrow> string \<Rightarrow> int \<Rightarrow> json \<Rightarrow> cache_manager \<Rightarrow> 'w
   \<Rightarrow> bool option \<times> cache_manager \<times> 'w" where
  "appendMessage E i room sequence message m w = appendChatMessage E (canvasKey i) room sequence message m w"

definition readChatPage ::
  "'w mc_env \<Rightarrow> int \<Rightarrow> string \<Rightarrow> int option \<Rightarrow> int option \<Rightarrow> int \<Rightarrow> cache_manager \<Rightarrow> 'w
   \<Rightarrow> string option option \<times> cache_manager \<times> 'w" where
  "readChatPage E i room lower upper limit m w = getChatHistoryPage E (canvasKey i) room lower upper limit m w"

end
