(* ===== verification/Canvas_Composition.thy ===== *)
theory Canvas_Composition
  imports Canvas_Commands Broker_History
begin

text \<open>
  How the parts interact: a command that runs on the server behind the cache (\<open>MemoryClass::executeAtomic\<close>)
  changes regions that the cache may hold. The list of changed paths that the code passes decides which
  regions are dropped. These theorems connect what the cache shows before and after such a command, and
  lift what a script guarantees on the stored document to what \<open>CanvasServiceMemory\<close> promises its callers.
\<close>

section \<open>Invalidation\<close>

definition invalidated :: "'w mc_env \<Rightarrow> string list \<Rightarrow> string \<Rightarrow> bool" where
  "invalidated E changed region \<longleftrightarrow>
     (\<exists>path \<in> set changed. case mc_region E path of None \<Rightarrow> True | Some (parent, _) \<Rightarrow> parent = region)"

definition confined ::
  "'w mc_env \<Rightarrow> ('w \<Rightarrow> string \<Rightarrow> json option) \<Rightarrow> string \<Rightarrow> string list \<Rightarrow> string list \<Rightarrow> bool" where
  \<comment> \<open>the command changes no other document, and of its own one only regions the changed paths name\<close>
  "confined E doc key command changed \<longleftrightarrow>
     (\<forall>w reply w'. me_exec E command w = (reply, w') \<longrightarrow>
        (\<forall>d. d \<noteq> key \<longrightarrow> doc w' d = doc w d)
        \<and> (\<forall>k. mc_region_ok E k \<longrightarrow> \<not> invalidated E changed k \<longrightarrow>
             mc_stored E doc w' key k = mc_stored E doc w key k))"

definition shrunk :: "string \<Rightarrow> (string \<Rightarrow> bool) \<Rightarrow> cache_manager \<Rightarrow> cache_manager \<Rightarrow> bool" where
  \<comment> \<open>the second cache is the first without the given regions of a document, and maybe without the document\<close>
  "shrunk key gone m m' \<longleftrightarrow>
     (\<forall>d. d \<noteq> key \<longrightarrow> cm_cache m' d = cm_cache m d)
     \<and> (\<forall>r'. cm_cache m' key = Some r' \<longrightarrow> (\<exists>r. cm_cache m key = Some r
          \<and> set (rl_dirty r') \<subseteq> set (rl_dirty r)
          \<and> (\<forall>k v. rl_cached r' k = Some v \<longrightarrow> \<not> gone k \<and> rl_cached r k = Some v)))"

context redis_json
begin

lemma invalidate_step:
  assumes "cm_ok (mc_region_ok E) (mc_value_ok E) m"
  shows "cm_ok (mc_region_ok E) (mc_value_ok E) (mc_invalidate E key path m)"
    "shrunk key (invalidated E [path]) m (mc_invalidate E key path m)"
proof -
  let ?m = "mc_invalidate E key path m"
  have "cm_ok (mc_region_ok E) (mc_value_ok E) ?m \<and> shrunk key (invalidated E [path]) m ?m"
  proof (cases "mc_region E path")
    case None
    then have m: "?m = (if cm_cache m key = None then m else cm_drop key m)"
      by (simp add: mc_invalidate_def cm_removeDocument_def cm_cache_def)
    have "cm_inv ?m" using m cm_ok_inv[OF assms] cm_inv_drop by simp
    moreover have c: "cm_cache ?m = (cm_cache m)(key := None)" using m by auto
    ultimately show ?thesis
      using cm_ok_cache[OF assms] by (auto simp: cm_ok_def shrunk_def split: if_splits)
  next
    case (Some pr)
    then obtain parent relative where pr: "mc_region E path = Some (parent, relative)" by (cases pr) auto
    then have m: "?m = cm_removeRegion key parent m" by (simp add: mc_invalidate_def)
    have c: "cm_cache ?m d
        = (if d = key then map_option (rl_remove parent) (cm_cache m key) else cm_cache m d)" for d
      by (simp add: m cm_removeRegion_def cm_find_eq split: option.splits)
    have "cm_inv ?m"
    proof (cases "cm_cache m key")
      case (Some r)
      then show ?thesis using cm_inv_store_same(1)[OF cm_ok_inv[OF assms] Some, of "rl_remove parent r"]
          cm_cacheE(1)[OF cm_ok_inv[OF assms] Some]
        by (simp add: m cm_removeRegion_def cm_find_eq)
    qed (simp add: m cm_removeRegion_def cm_find_eq cm_ok_inv[OF assms])
    moreover have "rl_ok (mc_region_ok E) (mc_value_ok E) r" if r: "cm_cache ?m d = Some r" for d r
    proof -
      obtain r0 where r0: "cm_cache m d = Some r0" "r = rl_remove parent r0 \<or> r = r0"
        using r c[of d] by (auto split: if_splits)
      from cm_ok_cache[OF assms r0(1)] r0(2) show ?thesis by (auto simp: rl_ok_def split: if_splits)
    qed
    ultimately show ?thesis
      using c pr by (auto simp: cm_ok_def shrunk_def invalidated_def split: if_splits)
  qed
  then show "cm_ok (mc_region_ok E) (mc_value_ok E) ?m" "shrunk key (invalidated E [path]) m ?m" by auto
qed

lemma shrunk_trans: "shrunk key p m m1 \<Longrightarrow> shrunk key q m1 m2 \<Longrightarrow> shrunk key (\<lambda>k. p k \<or> q k) m m2"
  by (fastforce simp: shrunk_def)

lemma invalidate_all:
  assumes "cm_ok (mc_region_ok E) (mc_value_ok E) m"
  shows "cm_ok (mc_region_ok E) (mc_value_ok E) (fold (mc_invalidate E key) changed m)
    \<and> shrunk key (invalidated E changed) m (fold (mc_invalidate E key) changed m)"
  using assms
proof (induction changed arbitrary: m)
  case Nil
  then show ?case by (auto simp: shrunk_def invalidated_def)
next
  case (Cons path changed)
  note step = invalidate_step[OF Cons.prems, of key path]
  have eq: "(\<lambda>k. invalidated E [path] k \<or> invalidated E changed k) = invalidated E (path # changed)"
    by (simp add: invalidated_def fun_eq_iff)
  show ?case
    using shrunk_trans[OF step(2), of "invalidated E changed"] Cons.IH[OF step(1)] eq by simp
qed

lemma shrunk_coherent:
  assumes "coh m w" "\<And>r. cm_cache m key = Some r \<Longrightarrow> rl_dirty r = []"
    "cm_ok (mc_region_ok E) (mc_value_ok E) m'" "shrunk key gone m m'"
    "\<And>d k. d \<noteq> key \<Longrightarrow> mc_stored E doc w' d k = mc_stored E doc w d k"
    "\<And>k. mc_region_ok E k \<Longrightarrow> \<not> gone k \<Longrightarrow> mc_stored E doc w' key k = mc_stored E doc w key k"
  shows "coh m' w'" "d \<noteq> key \<Longrightarrow> val_of m' w' d k = val_of m w d k"
    "val_of m' w' key k = mc_stored E doc w' key k"
proof -
  have same: "cm_cache m' d = cm_cache m d" if "d \<noteq> key" for d using assms(4) that by (simp add: shrunk_def)
  have "cm_coherent (mc_core E) (mc_stored E doc) m' w'"
    unfolding cm_coherent_def rl_coherent_def
  proof (intro allI impI)
    fix d r k v
    assume r: "cm_cache m' d = Some r" "rl_cached r k = Some v" "k \<notin> set (rl_dirty r)"
    obtain r0 where r0: "cm_cache m d = Some r0" "rl_cached r0 k = Some v" "k \<notin> set (rl_dirty r0)"
        "d = key \<longrightarrow> \<not> gone k"
    proof (cases "d = key")
      case True
      then obtain r0 where r0: "cm_cache m d = Some r0" "rl_cached r0 k = Some v" "\<not> gone k"
        using assms(4) r by (auto simp: shrunk_def)
      then show thesis using assms(2) True that by auto
    next
      case False
      then show thesis using same[OF False] r that[of r] by simp
    qed
    have "mc_region_ok E k" using cm_ok_cache[OF cohD(1)[OF assms(1)] r0(1)] r0(2) by (simp add: rl_ok_def)
    then have "mc_stored E doc w' d k = mc_stored E doc w d k" using assms(5,6) r0(4) by (cases "d = key") auto
    then show "map_option (mc_core E) (mc_stored E doc w' d k) = Some v"
      using cohD(2)[OF assms(1)] r0 by (simp add: cm_coherent_def rl_coherent_def)
  qed
  with assms(3) show "coh m' w'" by (rule cohI)
  show "val_of m' w' d k = val_of m w d k" if "d \<noteq> key"
    using same[OF that] assms(5)[OF that, of k]
    by (cases "cm_cache m d") (simp_all add: mc_value_def cm_view_def rl_view_def)
  show "val_of m' w' key k = mc_stored E doc w' key k"
  proof (cases "cm_cache m' key")
    case (Some r')
    then obtain r where "cm_cache m key = Some r" "set (rl_dirty r') \<subseteq> set (rl_dirty r)"
      using assms(4) by (auto simp: shrunk_def)
    then have "rl_dirty r' = []" using assms(2) by auto
    then show ?thesis using Some by (simp add: mc_value_def cm_view_def rl_view_def)
  qed (simp add: mc_value_def cm_view_def)
qed

lemma atomic_value:
  assumes "coh m w" "mc_executeAtomic E key command changed m w = (Some res, m', w')"
    "confined E doc key command changed"
  shows "coh m' w'" "mc_region_ok E k \<Longrightarrow> d \<noteq> key \<Longrightarrow> val_of m' w' d k = val_of m w d k"
    "mc_region_ok E k \<Longrightarrow> \<not> invalidated E changed k \<Longrightarrow> val_of m' w' key k = val_of m w key k"
    "res = Some reply \<Longrightarrow> \<exists>m1 w1. mc_flush E key m w = (Some True, m1, w1) \<and> me_exec E command w1 = (Some reply, w')
       \<and> (\<forall>k. mc_region_ok E k \<longrightarrow> mc_stored E doc w1 key k = val_of m w key k)
       \<and> (\<forall>k. val_of m' w' key k = mc_stored E doc w' key k)"
proof -
  obtain b m1 w1 where fl: "mc_flush E key m w = (b, m1, w1)" by (metis prod_cases3)
  note fv = flush_value[OF assms(1) fl]
  have run: "coh m' w' \<and> (mc_region_ok E k \<longrightarrow> d \<noteq> key \<longrightarrow> val_of m' w' d k = val_of m w d k)
    \<and> (mc_region_ok E k \<longrightarrow> \<not> invalidated E changed k \<longrightarrow> val_of m' w' key k = val_of m w key k)
    \<and> (res = Some reply \<longrightarrow> (\<exists>m1 w1. mc_flush E key m w = (Some True, m1, w1) \<and> me_exec E command w1 = (Some reply, w')
       \<and> (\<forall>k. mc_region_ok E k \<longrightarrow> mc_stored E doc w1 key k = val_of m w key k)
       \<and> (\<forall>k. val_of m' w' key k = mc_stored E doc w' key k)))" for d k reply
  proof (cases "b = Some True")
    case False
    then have "res = None" "m' = m1" "w' = w1"
      using assms(2) fl
      by (auto simp: mc_executeAtomic_def mc_flush_def split: option.splits bool.splits)
    then show ?thesis using fv by auto
  next
    case True
    obtain r w2 where ex: "me_exec E command w1 = (r, w2)" by force
    have out: "m' = fold (mc_invalidate E key) changed m1" "w' = w2" "res = Some reply \<Longrightarrow> r = Some reply" for reply
      using assms(2) fl True ex by (auto simp: mc_executeAtomic_def mc_flush_def split: if_splits)
    have keep: "d \<noteq> key \<Longrightarrow> doc w2 d = doc w1 d"
      "mc_region_ok E k \<Longrightarrow> \<not> invalidated E changed k \<Longrightarrow> mc_stored E doc w2 key k = mc_stored E doc w1 key k" for d k
      using assms(3) ex by (auto simp: confined_def)
    note inv = invalidate_all[OF cohD(1)[OF fv(1)], of key changed, folded out(1)]
    have st: "mc_stored E doc w2 d k = mc_stored E doc w1 d k" if "d \<noteq> key" for d k
      using keep that by (simp add: mc_stored_def)
    have keep': "mc_stored E doc w2 key k = mc_stored E doc w1 key k"
      if "mc_region_ok E k" "\<not> invalidated E changed k" for k using keep that by blast
    have clean: "cm_cache m1 key = Some r \<Longrightarrow> rl_dirty r = []" for r using fv(4) True by blast
    note sc = shrunk_coherent[OF fv(1) clean inv[THEN conjunct1] inv[THEN conjunct2] st keep']
    have "coh m' w'" using sc(1) out(2) by blast
    moreover have "val_of m' w' d k = val_of m w d k" if "mc_region_ok E k" "d \<noteq> key"
      using sc(2)[where d = d] that fv(2)[OF that(1)] out(2) by metis
    moreover have st': "val_of m' w' key k = mc_stored E doc w' key k" for k using sc(3) out(2) by blast
    moreover have "val_of m' w' key k = val_of m w key k" if "mc_region_ok E k" "\<not> invalidated E changed k"
      using st'[of k] keep'[OF that] fv(3)[OF True that(1)] out(2) by simp
    moreover have "res = Some reply \<longrightarrow> (\<exists>m1 w1. mc_flush E key m w = (Some True, m1, w1) \<and> me_exec E command w1 = (Some reply, w')
       \<and> (\<forall>k. mc_region_ok E k \<longrightarrow> mc_stored E doc w1 key k = val_of m w key k)
       \<and> (\<forall>k. val_of m' w' key k = mc_stored E doc w' key k))"
      using fl ex True out(2,3) fv(3)[OF True] st' by auto
    ultimately show ?thesis by blast
  qed
  show "coh m' w'" "mc_region_ok E k \<Longrightarrow> d \<noteq> key \<Longrightarrow> val_of m' w' d k = val_of m w d k"
    "mc_region_ok E k \<Longrightarrow> \<not> invalidated E changed k \<Longrightarrow> val_of m' w' key k = val_of m w key k"
    "res = Some reply \<Longrightarrow> \<exists>m1 w1. mc_flush E key m w = (Some True, m1, w1) \<and> me_exec E command w1 = (Some reply, w')
       \<and> (\<forall>k. mc_region_ok E k \<longrightarrow> mc_stored E doc w1 key k = val_of m w key k)
       \<and> (\<forall>k. val_of m' w' key k = mc_stored E doc w' key k)"
    using run by blast+
qed

end

section \<open>Properties\<close>

text \<open>
  C15. Commands on the server keep the cache transparent. When a command changes only its own document,
  and of that one no region that the changed paths leave alone, then after \<open>executeAtomic\<close>, whether it
  answers or not, the cache is coherent, every region of every other document and every region the
  changed paths leave alone shows the value it showed before; and when it answers, every region of the
  document shows what the server now holds.
\<close>

theorem atomic_commands_keep_cache_coherent:
  assumes "redis_json_ok E doc" "remote_stable (me_options E)" "mc_coherent E doc m w"
    "mc_executeAtomic E key command changed m w = (Some res, m', w')"
    "confined E doc key command changed"
  shows "mc_coherent E doc m' w'
    \<and> (\<forall>d k. mc_region_ok E k \<longrightarrow> d \<noteq> key \<or> \<not> invalidated E changed k \<longrightarrow>
         mc_value E doc m' w' d k = mc_value E doc m w d k)
    \<and> (res \<noteq> None \<longrightarrow> (\<forall>k. mc_value E doc m' w' key k = mc_stored E doc w' key k))"
proof -
  note av = redis_json.atomic_value[OF redis_json.intro[OF assms(1,2)] assms(3-5)]
  have "mc_value E doc m' w' d k = mc_value E doc m w d k"
    if "mc_region_ok E k" "d \<noteq> key \<or> \<not> invalidated E changed k" for d k
    using av(2)[OF that(1)] av(3)[OF that(1)] that(2) by (cases "d = key") auto
  moreover have "mc_value E doc m' w' key k = mc_stored E doc w' key k" if "res \<noteq> None" for k
    using av(4) that by blast
  ultimately show ?thesis using av(1) by blast
qed

text \<open>A server that runs one script, on top of the reference server.\<close>

definition runs_script ::
  "'w mc_env \<Rightarrow> ('w \<Rightarrow> string \<Rightarrow> json option) \<Rightarrow> string \<Rightarrow> string list
   \<Rightarrow> (json option \<Rightarrow> string option \<times> json option) \<Rightarrow> bool" where
  \<comment> \<open>\<^verbatim>\<open>EVAL\<close>: the script runs on the document of its key, atomically, and its reply is returned; a reply that
     is an error or lost leaves open whether it ran\<close>
  "runs_script E doc key command script \<longleftrightarrow>
     (\<forall>w r w'. me_exec E command w = (r, w') \<longrightarrow>
        (\<forall>d. d \<noteq> key \<longrightarrow> doc w' d = doc w d)
        \<and> (doc w' key = snd (script (doc w key)) \<and> (reply_error r \<or> r = fst (script (doc w key)))
           \<or> doc w' key = doc w key \<and> reply_error r))"

definition script_exec ::
  "string \<Rightarrow> (json option \<Rightarrow> string option \<times> json option) \<Rightarrow> ref_world executor" where
  "script_exec key script cmd w =
     (if cmd \<noteq> [] \<and> hd cmd = ''EVAL'' then
        (let (reply, stored) = script (ref_doc w key)
         in case stored of
              Some j \<Rightarrow> if json_wf j then (reply, AList.update key j w) else (None, w)
            | None \<Rightarrow> (reply, AList.delete key w))
      else ref_exec cmd w)"

definition script_env :: "string \<Rightarrow> (json option \<Rightarrow> string option \<times> json option) \<Rightarrow> ref_world mc_env" where
  "script_env key script = ref_env\<lparr>me_exec := script_exec key script\<rparr>"

lemma script_env_simps [simp]:
  "me_lib (script_env key script) = ref_lib" "me_options (script_env key script) = ref_options"
  "me_exec (script_env key script) = script_exec key script"
  by (simp_all add: script_env_def ref_env_def)

lemma script_contract: "redis_json_ok (script_env key script) ref_doc"
proof -
  have same: "script_exec key script [''JSON.GET'', k, p] w = ref_exec [''JSON.GET'', k, p] w"
    "script_exec key script [''JSON.SET'', k, p, t] w = ref_exec [''JSON.SET'', k, p, t] w" for k p t w
    by (simp_all add: script_exec_def)
  have lib: "me_lib ref_env = ref_lib" "me_exec ref_env = ref_exec" by (simp_all add: ref_env_def)
  show ?thesis using ref_contract unfolding redis_json_ok_def script_env_simps same lib .
qed

lemma script_env_runs: "runs_script (script_env key script) ref_doc key (''EVAL'' # rest) script"
  unfolding runs_script_def script_env_simps
  by (auto simp: script_exec_def ref_doc_def update_conv' delete_conv' reply_error_def
      split: prod.splits option.splits if_splits simp del: json_wf.simps)

lemma script_stable: "remote_stable (me_options (script_env key script))"
  by (simp add: ref_stable)

lemma script_env_coherent: "mc_coherent (script_env key script) ref_doc m w = mc_coherent ref_env ref_doc m w"
proof -
  have lib: "me_lib ref_env = ref_lib" "me_options ref_env = ref_options" by (simp_all add: ref_env_def)
  show ?thesis
    unfolding mc_coherent_def mc_region_ok_def[abs_def] mc_value_ok_def[abs_def] mc_core_def[abs_def]
      mc_stored_def[abs_def] script_env_simps lib ..
qed

definition sample_generation :: "ref_world mc_env" where
  "sample_generation = script_env ''canvas:1'' (generation_script ref_rj ''g'')"

lemma script_confined:
  assumes "runs_script E doc key command script" "mc_region E path = None" "path \<in> set changed"
  shows "confined E doc key command changed"
proof -
  have "invalidated E changed k" for k using assms(2,3) by (auto simp: invalidated_def intro!: bexI[of _ path])
  then show ?thesis using assms(1) by (auto simp: confined_def runs_script_def)
qed

theorem atomic_commands_keep_cache_coherent_witness:
  "\<exists>m' w'. mc_executeAtomic sample_generation ''canvas:1''
      (eval_command ''deleteIfCacheGenerationMatches'' ''canvas:1'' [''g'']) [''$'']
      (fst sample_dirty) (snd sample_dirty) = (Some (Some ''CONFLICT''), m', w')
    \<and> mc_coherent sample_generation ref_doc m' w'
    \<and> mc_value sample_generation ref_doc m' w' ''canvas:1'' (sample_region ''n'')
        = mc_stored sample_generation ref_doc w' ''canvas:1'' (sample_region ''n'')"
proof -
  let ?c = "eval_command ''deleteIfCacheGenerationMatches'' ''canvas:1'' [''g'']"
  let ?r = "mc_executeAtomic sample_generation ''canvas:1'' ?c [''$''] (fst sample_dirty) (snd sample_dirty)"
  obtain res m' w' where r: "?r = (res, m', w')" by (metis prod_cases3)
  have "fst ?r = Some (Some ''CONFLICT'')" by code_simp
  with r have res: "?r = (Some (Some ''CONFLICT''), m', w')" by simp
  have none: "mc_region sample_generation ''$'' = None" by code_simp
  have "runs_script sample_generation ref_doc ''canvas:1'' ?c (generation_script ref_rj ''g'')"
    unfolding sample_generation_def eval_command_def using script_env_runs by simp
  from script_confined[OF this none] have con: "confined sample_generation ref_doc ''canvas:1'' ?c [''$'']" by simp
  have c: "mc_coherent sample_generation ref_doc (fst sample_dirty) (snd sample_dirty)"
    using sample_dirty_coherent by (simp add: sample_generation_def script_env_coherent)
  show ?thesis
    using atomic_commands_keep_cache_coherent[OF script_contract script_stable c[unfolded sample_generation_def]
        res[unfolded sample_generation_def] con[unfolded sample_generation_def]] res
    by (auto simp: sample_generation_def)
qed

lemma sync_region: "mo_region_depth (me_options E) = 2 \<Longrightarrow> mc_region E ''$[\"__broker_sync\"]'' = None"
  by (auto simp: mc_region_def parseJsonPath_def parse_segments.simps[of "me_lib E"] Let_def
      split: option.splits list.splits json.splits)

lemma atomic_not_error: "mc_executeAtomic E key command changed m w = (Some (Some reply), m', w') \<Longrightarrow>
    \<not> reply_error (Some reply)"
  by (auto simp: mc_executeAtomic_def split: option.splits prod.splits bool.splits if_splits)

definition batch_command ::
  "json_lib \<Rightarrow> int \<Rightarrow> string \<Rightarrow> int \<Rightarrow> string \<Rightarrow> string \<Rightarrow> (string \<times> json) list \<Rightarrow> (string \<times> json) list
   \<Rightarrow> string list" where
  \<comment> \<open>the command that \<open>applyBrokerBatch\<close> sends\<close>
  "batch_command L i client cnt request digest items expected =
     eval_command ''applyBrokerBatch'' (canvasKey i)
       [client_path L client, int_text cnt, request, digest, jl_dump L (encoded_items L items),
        jl_dump L (JObj expected)]"

lemma item_region:
  assumes "json_lib_ok (me_lib E)" "mo_region_depth (me_options E) = 2"
  shows "mc_region_ok E (canonical (me_lib E) (item_path item))"
    "mc_stored E doc w key (canonical (me_lib E) (item_path item))
       = (case doc w key of None \<Rightarrow> None | Some j \<Rightarrow> findJsonPathValue j (item_path item))"
proof -
  have "parseJsonPath (me_lib E) (canonical (me_lib E) (item_path item)) = Some (item_path item)"
    using parse_canonical[OF assms(1)] by (simp add: segment_ok_def item_path_def)
  then show "mc_region_ok E (canonical (me_lib E) (item_path item))"
    "mc_stored E doc w key (canonical (me_lib E) (item_path item))
       = (case doc w key of None \<Rightarrow> None | Some j \<Rightarrow> findJsonPathValue j (item_path item))"
    using assms(2) by (simp_all add: mc_region_ok_def mc_stored_def item_path_def split: option.splits)
qed


definition sample_broker :: "ref_world mc_env" where
  "sample_broker = script_env ''canvas:1''
     (broker_eval ref_rj ref_lua ''c'' 1 ''q'' ''h'' sample_change [(''n'', JInt 0)])"


end
