(* ===== verification/Document_Store.thy ===== *)
theory Document_Store
  imports Json_Codec
begin

text \<open>
  \<^verbatim>\<open>cpp/include/memory/JsonDocumentStore.hpp\<close>, the port of the durable documents, and
  \<^verbatim>\<open>cpp/src/memory/ElasticsearchMemory.cpp\<close>, its implementation over HTTP. The HTTP client is a parameter:
  a function from a request to a response (\<open>None\<close> for a failed connection) and the new state of the server.
\<close>

section \<open>The port\<close>

record 'w document_store =
  ds_get :: "string \<Rightarrow> string \<Rightarrow> 'w \<Rightarrow> json option \<times> 'w"
  ds_put :: "string \<Rightarrow> string \<Rightarrow> json \<Rightarrow> 'w \<Rightarrow> bool \<times> 'w"
  ds_patch :: "string \<Rightarrow> string \<Rightarrow> json \<Rightarrow> 'w \<Rightarrow> bool \<times> 'w"
  ds_delete :: "string \<Rightarrow> string \<Rightarrow> 'w \<Rightarrow> bool \<times> 'w"
  ds_search :: "string \<Rightarrow> json \<Rightarrow> 'w \<Rightarrow> json option \<times> 'w"

section \<open>ElasticsearchMemory\<close>

datatype http_method = Get | Put | Post | Delete

record http_response =
  hr_status :: int
  hr_body :: string

type_synonym 'w http_client = "http_method \<Rightarrow> string \<Rightarrow> string \<Rightarrow> 'w \<Rightarrow> http_response option \<times> 'w"

record 'w es_memory =
  es_lib :: json_lib
  es_user :: string
  es_pass :: string
  es_client :: "'w http_client option"

definition unreserved :: "char \<Rightarrow> bool" where
  "unreserved c \<longleftrightarrow> isalnum c \<or> c \<in> set ''-_.~''"

definition upper_hex :: string where
  "upper_hex = ''0123456789ABCDEF''"

definition encode_byte :: "char \<Rightarrow> string" where
  "encode_byte c =
     (if unreserved c then [c]
      else [CHR 0x25, upper_hex ! (code_of c div 16), upper_hex ! (code_of c mod 16)])"

definition encodePathSegment :: "string \<Rightarrow> string" where
  "encodePathSegment s = concat (map encode_byte s)"

definition makeAuthenticatedClient :: "'w es_memory \<Rightarrow> 'w http_client option" where
  "makeAuthenticatedClient M = (if es_user M = [] \<or> es_pass M = [] then None else es_client M)"

definition doc_path :: "string \<Rightarrow> string \<Rightarrow> string" where
  "doc_path index i = ''/'' @ encodePathSegment index @ ''/_doc/'' @ encodePathSegment i"

definition succeeded :: "http_response option \<Rightarrow> bool" where
  "succeeded r \<longleftrightarrow> (case r of None \<Rightarrow> False | Some x \<Rightarrow> 200 \<le> hr_status x \<and> hr_status x < 300)"

definition es_getDocument :: "'w es_memory \<Rightarrow> string \<Rightarrow> string \<Rightarrow> 'w \<Rightarrow> json option \<times> 'w" where
  "es_getDocument M index i w =
     (if index = [] \<or> i = [] then (None, w)
      else
        (case makeAuthenticatedClient M of
           None \<Rightarrow> (None, w)
         | Some client \<Rightarrow>
             (let (response, w1) = client Get (doc_path index i) [] w
              in (case response of
                    None \<Rightarrow> None
                  | Some r \<Rightarrow>
                      if hr_status r \<noteq> 200 then None
                      else (case jl_parse (es_lib M) (hr_body r) of
                              None \<Rightarrow> None
                            | Some body \<Rightarrow> jget body ''_source''), w1))))"

definition es_putDocument :: "'w es_memory \<Rightarrow> string \<Rightarrow> string \<Rightarrow> json \<Rightarrow> 'w \<Rightarrow> bool \<times> 'w" where
  "es_putDocument M index i document w =
     (if index = [] \<or> i = [] \<or> \<not> is_object document then (False, w)
      else
        (case makeAuthenticatedClient M of
           None \<Rightarrow> (False, w)
         | Some client \<Rightarrow>
             apfst succeeded (client Put (doc_path index i) (jl_dump (es_lib M) document) w)))"

definition es_patchDocument :: "'w es_memory \<Rightarrow> string \<Rightarrow> string \<Rightarrow> json \<Rightarrow> 'w \<Rightarrow> bool \<times> 'w" where
  "es_patchDocument M index i entries w =
     (if index = [] \<or> i = [] \<or> \<not> is_object entries \<or> json_size entries = 0 then (False, w)
      else
        (case makeAuthenticatedClient M of
           None \<Rightarrow> (False, w)
         | Some client \<Rightarrow>
             apfst succeeded (client Post
               (''/'' @ encodePathSegment index @ ''/_update/'' @ encodePathSegment i
                @ ''?retry_on_conflict=3&refresh=true'')
               (jl_dump (es_lib M) (JObj [(''doc'', entries)])) w)))"

definition es_deleteDocument :: "'w es_memory \<Rightarrow> string \<Rightarrow> string \<Rightarrow> 'w \<Rightarrow> bool \<times> 'w" where
  "es_deleteDocument M index i w =
     (if index = [] \<or> i = [] then (False, w)
      else
        (case makeAuthenticatedClient M of
           None \<Rightarrow> (False, w)
         | Some client \<Rightarrow> apfst succeeded (client Delete (doc_path index i) [] w)))"

definition es_searchDocuments :: "'w es_memory \<Rightarrow> string \<Rightarrow> json \<Rightarrow> 'w \<Rightarrow> json option \<times> 'w" where
  "es_searchDocuments M index query w =
     (if index = [] \<or> \<not> is_object query then (None, w)
      else
        (case makeAuthenticatedClient M of
           None \<Rightarrow> (None, w)
         | Some client \<Rightarrow>
             (let (response, w1) = client Post (''/'' @ encodePathSegment index @ ''/_search'')
                (jl_dump (es_lib M) query) w
              in (if succeeded response then jl_parse (es_lib M) (hr_body (the response)) else None, w1))))"

definition elasticsearch :: "'w es_memory \<Rightarrow> 'w document_store" where
  "elasticsearch M = \<lparr>ds_get = es_getDocument M, ds_put = es_putDocument M, ds_patch = es_patchDocument M,
     ds_delete = es_deleteDocument M, ds_search = es_searchDocuments M\<rparr>"

section \<open>Paths address documents\<close>

lemma upper_hex_nth: "n < 16 \<Longrightarrow> unreserved (upper_hex ! n) \<and> upper_hex ! n \<noteq> CHR 0x2F"
proof -
  have "\<forall>n \<in> set [0..<16]. unreserved (upper_hex ! n) \<and> upper_hex ! n \<noteq> CHR 0x2F" by code_simp
  then show "n < 16 \<Longrightarrow> ?thesis" by simp
qed

lemma upper_hex_inject: "m < 16 \<Longrightarrow> n < 16 \<Longrightarrow> upper_hex ! m = upper_hex ! n \<longleftrightarrow> m = n"
proof -
  have "distinct upper_hex" "length upper_hex = 16" by code_simp+
  then show "m < 16 \<Longrightarrow> n < 16 \<Longrightarrow> ?thesis" by (simp add: nth_eq_iff_index_eq)
qed

lemma code_of_bound: "code_of c < 256"
  by (simp add: code_of_def)

lemma code_of_inject: "code_of c = code_of d \<longleftrightarrow> c = d"
  by (simp add: code_of_def)

lemma percent_reserved: "\<not> unreserved (CHR 0x25)" "\<not> unreserved (CHR 0x2F)" "CHR 0x25 \<noteq> CHR 0x2F"
  by code_simp+

lemma encode_byte_chars: "x \<in> set (encode_byte c) \<Longrightarrow> x = CHR 0x25 \<or> unreserved x"
proof -
  have "code_of c div 16 < 16" "code_of c mod 16 < 16" using code_of_bound[of c] by auto
  then show "x \<in> set (encode_byte c) \<Longrightarrow> x = CHR 0x25 \<or> unreserved x"
    using upper_hex_nth by (auto simp: encode_byte_def split: if_splits)
qed

lemma encodePathSegment_chars: "x \<in> set (encodePathSegment s) \<Longrightarrow> x = CHR 0x25 \<or> unreserved x"
  using encode_byte_chars by (auto simp: encodePathSegment_def)

lemma encode_byte_append:
  assumes "encode_byte c @ s = encode_byte d @ t"
  shows "c = d \<and> s = t"
proof (cases "unreserved c \<or> unreserved d")
  case True
  then show ?thesis using assms percent_reserved(1) by (auto simp: encode_byte_def split: if_splits)
next
  case False
  have b: "code_of c div 16 < 16" "code_of d div 16 < 16" "code_of c mod 16 < 16" "code_of d mod 16 < 16"
    using code_of_bound[of c] code_of_bound[of d] by auto
  have "upper_hex ! (code_of c div 16) = upper_hex ! (code_of d div 16)"
    "upper_hex ! (code_of c mod 16) = upper_hex ! (code_of d mod 16)" and st: "s = t"
    using False assms by (auto simp: encode_byte_def)
  then have "code_of c div 16 = code_of d div 16" "code_of c mod 16 = code_of d mod 16"
    using upper_hex_inject b by blast+
  then have "code_of c = code_of d" by (metis div_mult_mod_eq)
  then show ?thesis using st code_of_inject by blast
qed

lemma encodePathSegment_inject: "encodePathSegment s = encodePathSegment t \<longleftrightarrow> s = t"
proof
  assume "encodePathSegment s = encodePathSegment t"
  then show "s = t"
  proof (induction s arbitrary: t)
    case Nil
    then show ?case by (cases t) (auto simp: encodePathSegment_def encode_byte_def split: if_splits)
  next
    case (Cons c s)
    then obtain d u where t: "t = d # u"
      by (cases t) (auto simp: encodePathSegment_def encode_byte_def split: if_splits)
    then have "encode_byte c @ encodePathSegment s = encode_byte d @ encodePathSegment u"
      using Cons.prems by (simp add: encodePathSegment_def)
    then show ?case using encode_byte_append Cons.IH t by blast
  qed
qed simp

lemma slash_split: "CHR 0x2F \<notin> set a \<Longrightarrow> CHR 0x2F \<notin> set b \<Longrightarrow>
    a @ CHR 0x2F # s = b @ CHR 0x2F # t \<longleftrightarrow> a = b \<and> s = t"
proof (induction a arbitrary: b)
  case Nil
  then show ?case by (cases b) auto
next
  case (Cons x a)
  then show ?case by (cases b) auto
qed

text \<open>
  Every document has its own address. The request paths of two documents are the same only when
  their index and identifier are, whatever characters these contain, and a path holds nothing but
  unreserved characters, percent escapes and the three separators.
\<close>

theorem document_paths_are_injective:
  "(doc_path index i = doc_path index' i' \<longleftrightarrow> index = index' \<and> i = i')
   \<and> set (doc_path index i) \<subseteq> {c. unreserved c \<or> c = CHR 0x25 \<or> c = CHR 0x2F}"
proof -
  have n: "CHR 0x2F \<notin> set (encodePathSegment s)" for s
    using encodePathSegment_chars percent_reserved by blast
  have "doc_path index i = doc_path index' i' \<longleftrightarrow> index = index' \<and> i = i'"
    using slash_split[OF n n] by (simp add: doc_path_def encodePathSegment_inject)
  moreover have "set (doc_path index i) \<subseteq> {c. unreserved c \<or> c = CHR 0x25 \<or> c = CHR 0x2F}"
  proof -
    have "unreserved (CHR ''_'')" "unreserved (CHR ''d'')" "unreserved (CHR ''o'')" "unreserved (CHR ''c'')"
      by code_simp+
    then show ?thesis using encodePathSegment_chars by (auto simp: doc_path_def)
  qed
  ultimately show ?thesis by blast
qed

end
