(* ===== verification/Canvas_Snapshots.thy ===== *)
theory Canvas_Snapshots
  imports Document_Store Canvas_Password
begin

text \<open>
  \<^verbatim>\<open>cpp/src/service_memory/CanvasSnapshotMemory.cpp\<close>: the durable form of a canvas document. Three fields
  with arbitrary keys are stored as arrays of base64 chunks, and a password is stored as a hash only.
  OpenSSL's block encoder and decoder are a parameter (\<open>b64_lib\<close>); the decoder returns the bytes it
  reports, padding included.
\<close>

record b64_lib =
  b64_encode :: "string \<Rightarrow> string"
  b64_decode :: "string \<Rightarrow> string option"

section \<open>Encoded fields\<close>

definition chunk_bytes :: nat where
  "chunk_bytes = 8190"

function chunks :: "string \<Rightarrow> string list" where
  "chunks raw = (if raw = [] then [] else take chunk_bytes raw # chunks (drop chunk_bytes raw))"
  by pat_completeness auto
termination by (relation "measure length") (auto simp: chunk_bytes_def)

declare chunks.simps [simp del]

definition encodeItems :: "json_lib \<Rightarrow> b64_lib \<Rightarrow> json \<Rightarrow> json" where
  "encodeItems L B items = JArr (map (\<lambda>c. JStr (b64_encode B c)) (chunks (jl_dump L items)))"

definition padding_of :: "string \<Rightarrow> nat" where
  "padding_of encoded =
     (if last encoded = CHR ''='' then 1 else 0)
     + (if length encoded > 1 \<and> encoded ! (length encoded - 2) = CHR ''='' then 1 else 0)"

definition decode_chunk :: "b64_lib \<Rightarrow> string \<Rightarrow> string option" where
  "decode_chunk B encoded =
     (if encoded = [] \<or> length encoded mod 4 \<noteq> 0 \<or> length encoded > 4 * ((chunk_bytes + 2) div 3) then None
      else
        (case b64_decode B encoded of
           None \<Rightarrow> None
         | Some bytes \<Rightarrow>
             if length bytes < padding_of encoded then None
             else Some (take (length bytes - padding_of encoded) bytes)))"

fun decode_chunks :: "b64_lib \<Rightarrow> json list \<Rightarrow> string option" where
  "decode_chunks B [] = Some []"
| "decode_chunks B (chunk # rest) =
     (case chunk of
        JStr encoded \<Rightarrow>
          (case decode_chunk B encoded of
             None \<Rightarrow> None
           | Some decoded \<Rightarrow> map_option (\<lambda>raw. decoded @ raw) (decode_chunks B rest))
      | _ \<Rightarrow> None)"

definition restoreItems :: "json_lib \<Rightarrow> b64_lib \<Rightarrow> string \<Rightarrow> string \<Rightarrow> json \<Rightarrow> json option" where
  "restoreItems L B field encoded_field source =
     (case source of
        JObj ms \<Rightarrow>
          (case map_of ms encoded_field of
             None \<Rightarrow> Some source
           | Some (JArr (c # cs)) \<Rightarrow>
               (case decode_chunks B (c # cs) of
                  None \<Rightarrow> None
                | Some raw \<Rightarrow>
                    (case jl_parse L raw of
                       Some (JObj items) \<Rightarrow> Some (JObj (obj_erase encoded_field (obj_put field (JObj items) ms)))
                     | _ \<Rightarrow> None))
           | Some _ \<Rightarrow> None)
      | _ \<Rightarrow> Some source)"

definition encoded_fields :: "(string \<times> string) list" where
  "encoded_fields = [(''items'', ''items-b64''), (''__broker_sync'', ''broker-sync-b64''),
     (''mention-states'', ''mention-states-b64'')]"

fun restore_fields :: "json_lib \<Rightarrow> b64_lib \<Rightarrow> (string \<times> string) list \<Rightarrow> json \<Rightarrow> json option" where
  "restore_fields L B [] source = Some source"
| "restore_fields L B ((field, encoded) # rest) source =
     (case restoreItems L B field encoded source of
        None \<Rightarrow> None | Some document \<Rightarrow> restore_fields L B rest document)"

definition restoreDocument :: "json_lib \<Rightarrow> b64_lib \<Rightarrow> json \<Rightarrow> json option" where
  "restoreDocument L B source = restore_fields L B encoded_fields source"

section \<open>Saving\<close>

definition seal_field :: "json_lib \<Rightarrow> b64_lib \<Rightarrow> string \<times> string \<Rightarrow> (string \<times> json) list \<Rightarrow> (string \<times> json) list option" where
  "seal_field L B = (\<lambda>(field, encoded) ms.
     (case map_of ms field of
        None \<Rightarrow> Some ms
      | Some v \<Rightarrow> if is_object v then Some (obj_erase field (obj_put encoded (encodeItems L B v) ms)) else None))"

fun seal_fields :: "json_lib \<Rightarrow> b64_lib \<Rightarrow> (string \<times> string) list \<Rightarrow> (string \<times> json) list \<Rightarrow> (string \<times> json) list option" where
  "seal_fields L B [] ms = Some ms"
| "seal_fields L B (f # fs) ms =
     (case seal_field L B f ms of None \<Rightarrow> None | Some ms1 \<Rightarrow> seal_fields L B fs ms1)"

definition password_field :: string where
  "password_field = ''canvas-password-hash''"

definition legacy_fields :: "string list" where
  "legacy_fields = [''canvas-password'', ''canvasPassword'', ''canvas_password_hash'']"

definition seal_password :: "crypto_lib \<Rightarrow> (string \<times> json) list \<Rightarrow> (string \<times> json) list option" where
  "seal_password C ms =
     (case map_of ms password_field of
        Some (JStr stored) \<Rightarrow>
          map_option (\<lambda>hash. obj_put password_field (JStr hash) ms) (normalizeCanvasPassword C stored)
      | _ \<Rightarrow> Some ms)"

fun seal_legacy :: "crypto_lib \<Rightarrow> string list \<Rightarrow> (string \<times> json) list \<Rightarrow> (string \<times> json) list option" where
  "seal_legacy C [] ms = Some ms"
| "seal_legacy C (legacy # rest) ms =
     (case map_of ms legacy of
        None \<Rightarrow> seal_legacy C rest ms
      | Some v \<Rightarrow>
          (case (map_of ms password_field, v) of
             (None, JStr stored) \<Rightarrow>
               (case normalizeCanvasPassword C stored of
                  None \<Rightarrow> None
                | Some hash \<Rightarrow> seal_legacy C rest (obj_erase legacy (obj_put password_field (JStr hash) ms)))
           | _ \<Rightarrow> seal_legacy C rest (obj_erase legacy ms)))"

definition seal_document :: "json_lib \<Rightarrow> b64_lib \<Rightarrow> crypto_lib \<Rightarrow> json \<Rightarrow> json option" where
  \<comment> \<open>what is stored for a document; a value that is not an object has none of the fields\<close>
  "seal_document L B C document =
     (case document of
        JObj ms \<Rightarrow>
          (case seal_fields L B encoded_fields ms of
             None \<Rightarrow> None
           | Some ms1 \<Rightarrow>
               (case seal_password C ms1 of
                  None \<Rightarrow> None
                | Some ms2 \<Rightarrow> map_option JObj (seal_legacy C legacy_fields ms2)))
      | _ \<Rightarrow> Some document)"

section \<open>Operations\<close>

record 'w snapshot_memory =
  sm_lib :: json_lib
  sm_b64 :: b64_lib
  sm_crypto :: crypto_lib
  sm_storage :: "'w document_store"
  sm_index :: string

definition doc_id :: "int \<Rightarrow> string" where
  "doc_id i = (if i < 0 then CHR ''-'' # to_string (nat (- i)) else to_string (nat i))"

definition canvas_query :: "int \<Rightarrow> json" where
  "canvas_query i = JObj [(''query'', JObj [(''term'', JObj [(''canvas-id'', JInt i)])]), (''size'', JInt 1)]"

definition first_hit :: "json \<Rightarrow> json option" where
  \<comment> \<open>\<open>hits.front().at("_source")\<close> of the answer to a search, \<open>None\<close> also for a missing member\<close>
  "first_hit response =
     (case jget response ''hits'' of
        None \<Rightarrow> None
      | Some h \<Rightarrow> (case jget h ''hits'' of Some (JArr (x # _)) \<Rightarrow> jget x ''_source'' | _ \<Rightarrow> None))"

definition getCanvasDocument :: "'w snapshot_memory \<Rightarrow> int \<Rightarrow> 'w \<Rightarrow> json option \<times> 'w" where
  "getCanvasDocument S i w =
     (if sm_index S = [] then (None, w)
      else
        (case ds_get (sm_storage S) (sm_index S) (doc_id i) w of
           (Some document, w1) \<Rightarrow> (restoreDocument (sm_lib S) (sm_b64 S) document, w1)
         | (None, w1) \<Rightarrow>
             (case ds_search (sm_storage S) (sm_index S) (canvas_query i) w1 of
                (None, w2) \<Rightarrow> (None, w2)
              | (Some response, w2) \<Rightarrow>
                  (case first_hit response of
                     None \<Rightarrow> (None, w2)
                   | Some source \<Rightarrow> (restoreDocument (sm_lib S) (sm_b64 S) source, w2)))))"

definition saveCanvasDocument :: "'w snapshot_memory \<Rightarrow> int \<Rightarrow> json \<Rightarrow> 'w \<Rightarrow> bool \<times> 'w" where
  "saveCanvasDocument S i document w =
     (if sm_index S = [] then (False, w)
      else
        (case seal_document (sm_lib S) (sm_b64 S) (sm_crypto S) document of
           None \<Rightarrow> (False, w)
         | Some safe \<Rightarrow> ds_put (sm_storage S) (sm_index S) (doc_id i) safe w))"

fun normalize_fields :: "crypto_lib \<Rightarrow> (string \<times> json) list \<Rightarrow> (string \<times> json) list \<Rightarrow> (string \<times> json) list option" where
  "normalize_fields C [] normalized = Some normalized"
| "normalize_fields C ((field, v) # rest) normalized =
     (case (field = password_field, v) of
        (True, JStr stored) \<Rightarrow>
          (case normalizeCanvasPassword C stored of
             None \<Rightarrow> None
           | Some password \<Rightarrow> normalize_fields C rest (obj_put field (JStr password) normalized))
      | _ \<Rightarrow> normalize_fields C rest (obj_put field v normalized))"

definition patchCanvasFields :: "'w snapshot_memory \<Rightarrow> int \<Rightarrow> (string \<times> json) list \<Rightarrow> 'w \<Rightarrow> bool \<times> 'w" where
  "patchCanvasFields S i entries w =
     (if entries = [] \<or> sm_index S = [] then (False, w)
      else
        (case normalize_fields (sm_crypto S) entries [] of
           None \<Rightarrow> (False, w)
         | Some normalized \<Rightarrow> ds_patch (sm_storage S) (sm_index S) (doc_id i) (JObj normalized) w))"

section \<open>Base64 chunks\<close>

text \<open>
  A block of up to 8190 bytes is encoded to four characters for every three bytes begun; decoding gives
  the block back with the padding as zero bytes, and as many equals signs at the end of the text.
\<close>

definition padding_size :: "nat \<Rightarrow> nat" where
  "padding_size n = (3 - n mod 3) mod 3"

definition b64_ok :: "b64_lib \<Rightarrow> bool" where
  "b64_ok B \<longleftrightarrow>
     (\<forall>s. s \<noteq> [] \<longrightarrow> length s \<le> chunk_bytes \<longrightarrow>
        length (b64_encode B s) = 4 * ((length s + 2) div 3)
        \<and> b64_decode B (b64_encode B s) = Some (s @ replicate (padding_size (length s)) (CHR 0x00))
        \<and> padding_of (b64_encode B s) = padding_size (length s))"

lemma decode_chunk_encode:
  assumes "b64_ok B" "s \<noteq> []" "length s \<le> chunk_bytes"
  shows "decode_chunk B (b64_encode B s) = Some s"
proof -
  have e: "length (b64_encode B s) = 4 * ((length s + 2) div 3)"
    "b64_decode B (b64_encode B s) = Some (s @ replicate (padding_size (length s)) (CHR 0x00))"
    "padding_of (b64_encode B s) = padding_size (length s)"
    using assms by (auto simp: b64_ok_def)
  have "(length s + 2) div 3 \<le> (chunk_bytes + 2) div 3" using assms(3) by (intro div_le_mono) simp
  moreover have "0 < (length s + 2) div 3" using assms(2) by (cases s) auto
  ultimately have "b64_encode B s \<noteq> []" "\<not> length (b64_encode B s) > 4 * ((chunk_bytes + 2) div 3)"
    using e(1) by (auto simp del: length_0_conv simp: length_0_conv[symmetric])
  then show ?thesis using e by (simp add: decode_chunk_def)
qed

lemma decode_chunks_encode:
  assumes "b64_ok B"
  shows "decode_chunks B (map (\<lambda>c. JStr (b64_encode B c)) (chunks raw)) = Some raw"
proof (induction raw rule: chunks.induct)
  case (1 raw)
  show ?case
  proof (cases "raw = []")
    case False
    have "take chunk_bytes raw \<noteq> []" using False by (simp add: chunk_bytes_def)
    then have "decode_chunk B (b64_encode B (take chunk_bytes raw)) = Some (take chunk_bytes raw)"
      using decode_chunk_encode[OF assms] by simp
    then show ?thesis using 1[OF False] False by (subst chunks.simps) simp
  qed (simp add: chunks.simps)
qed

lemma restore_encoded:
  assumes "json_lib_ok L" "b64_ok B" "jl_parse L [] = None" "json_wf (JObj items)"
    "map_of ms e = Some (encodeItems L B (JObj items))"
  shows "restoreItems L B f e (JObj ms) = Some (JObj (obj_erase e (obj_put f (JObj items) ms)))"
proof -
  have p: "jl_parse L (jl_dump L (JObj items)) = Some (JObj items)"
    using json_lib_okD(1)[OF assms(1,4)] .
  then have "jl_dump L (JObj items) \<noteq> []" using assms(3) by auto
  then obtain c cs where c: "map (\<lambda>c. JStr (b64_encode B c)) (chunks (jl_dump L (JObj items))) = c # cs"
    by (subst (asm) chunks.simps[of "jl_dump L (JObj items)"]) (auto simp: chunks.simps[of "jl_dump L (JObj items)"])
  show ?thesis
    using assms(5) decode_chunks_encode[OF assms(2), of "jl_dump L (JObj items)"] c p
    by (simp add: restoreItems_def encodeItems_def)
qed

section \<open>Fields after saving and restoring\<close>

definition password_fields :: "string set" where
  "password_fields = insert password_field (set legacy_fields)"

lemma seal_field_map:
  assumes "seal_field L B (f, e) ms = Some ms'"
  shows "sorted_wrt (<) (map fst ms) \<Longrightarrow> sorted_wrt (<) (map fst ms')"
    "map_of ms' = (case map_of ms f of None \<Rightarrow> map_of ms
       | Some v \<Rightarrow> (map_of ms)(e \<mapsto> encodeItems L B v, f := None))"
    "map_of ms f = Some v \<Longrightarrow> is_object v"
  using assms by (auto simp: seal_field_def intro!: sorted_obj_put sorted_obj_erase split: option.splits if_splits)

lemma seal_password_agree:
  assumes "\<forall>k \<in> password_fields. map_of a k = map_of b k" "seal_password C a = Some a'"
  obtains b' where "seal_password C b = Some b'" "\<forall>k \<in> password_fields. map_of a' k = map_of b' k"
    "\<forall>k. k \<notin> password_fields \<longrightarrow> map_of a' k = map_of a k \<and> map_of b' k = map_of b k"
    "sorted_wrt (<) (map fst a) \<Longrightarrow> sorted_wrt (<) (map fst a')"
    "sorted_wrt (<) (map fst b) \<Longrightarrow> sorted_wrt (<) (map fst b')"
proof -
  have "map_of b password_field = map_of a password_field" using assms(1) by (simp add: password_fields_def)
  then obtain b' where b': "seal_password C b = Some b'"
    "a' = a \<and> b' = b \<or> (\<exists>v. a' = obj_put password_field v a \<and> b' = obj_put password_field v b)"
    using assms(2) by (auto simp: seal_password_def split: option.splits json.splits)
  show thesis
    by (rule that[OF b'(1)]) (use b'(2) assms(1) sorted_obj_put in \<open>auto simp: password_fields_def\<close>)
qed

lemma seal_legacy_agree:
  assumes "\<forall>k \<in> password_fields. map_of a k = map_of b k" "seal_legacy C ls a = Some a'" "set ls \<subseteq> password_fields"
  shows "\<exists>b'. seal_legacy C ls b = Some b' \<and> (\<forall>k \<in> password_fields. map_of a' k = map_of b' k)
    \<and> (\<forall>k. k \<notin> password_fields \<longrightarrow> map_of a' k = map_of a k \<and> map_of b' k = map_of b k)
    \<and> (sorted_wrt (<) (map fst a) \<longrightarrow> sorted_wrt (<) (map fst a'))
    \<and> (sorted_wrt (<) (map fst b) \<longrightarrow> sorted_wrt (<) (map fst b'))"
  using assms
proof (induction ls arbitrary: a b)
  case (Cons l ls)
  have l: "l \<in> password_fields" "password_field \<in> password_fields"
    using Cons.prems(3) by (auto simp: password_fields_def)
  have eq: "map_of b l = map_of a l" "map_of b password_field = map_of a password_field"
    using Cons.prems(1) l by simp_all
  have step: ?case
    if ab: "seal_legacy C (l # ls) a = seal_legacy C ls a1" "seal_legacy C (l # ls) b = seal_legacy C ls b1"
      "\<forall>k \<in> password_fields. map_of a1 k = map_of b1 k"
      "\<forall>k. k \<notin> password_fields \<longrightarrow> map_of a1 k = map_of a k \<and> map_of b1 k = map_of b k"
      "sorted_wrt (<) (map fst a) \<longrightarrow> sorted_wrt (<) (map fst a1)"
      "sorted_wrt (<) (map fst b) \<longrightarrow> sorted_wrt (<) (map fst b1)" for a1 b1
  proof -
    obtain b' where b': "seal_legacy C ls b1 = Some b'" "\<forall>k \<in> password_fields. map_of a' k = map_of b' k"
        "\<forall>k. k \<notin> password_fields \<longrightarrow> map_of a' k = map_of a1 k \<and> map_of b' k = map_of b1 k"
        "sorted_wrt (<) (map fst a1) \<longrightarrow> sorted_wrt (<) (map fst a')"
        "sorted_wrt (<) (map fst b1) \<longrightarrow> sorted_wrt (<) (map fst b')"
      using Cons.IH[OF ab(3)] Cons.prems(2,3) ab(1) by auto
    show ?thesis by (rule exI[of _ b']) (use b' ab in simp)
  qed
  show ?case
  proof (cases "map_of a l")
    case None
    show ?thesis by (rule step[of a b]) (use None eq Cons.prems(1) in auto)
  next
    case (Some v)
    show ?thesis
    proof (cases "\<exists>stored. map_of a password_field = None \<and> v = JStr stored")
      case True
      then obtain stored where st: "map_of a password_field = None" "v = JStr stored" by blast
      then obtain hash where h: "normalizeCanvasPassword C stored = Some hash"
        using Cons.prems(2) Some by (auto split: option.splits)
      let ?put = "\<lambda>ms. obj_erase l (obj_put password_field (JStr hash) ms)"
      have run: "seal_legacy C (l # ls) ms = seal_legacy C ls (?put ms)"
        if "map_of ms l = map_of a l" "map_of ms password_field = map_of a password_field" for ms
        using that st h Some by simp
      have sorted: "sorted_wrt (<) (map fst ms) \<longrightarrow> sorted_wrt (<) (map fst (?put ms))" for ms :: "(string \<times> json) list"
        by (intro impI sorted_obj_erase sorted_obj_put)
      show ?thesis
        by (rule step[OF run[OF refl refl] run[OF eq] _ _ sorted sorted]) (use l Cons.prems(1) in auto)
    next
      case False
      have run: "seal_legacy C (l # ls) ms = seal_legacy C ls (obj_erase l ms)"
        if "map_of ms l = map_of a l" "map_of ms password_field = map_of a password_field" for ms
        using that False Some by (auto split: option.splits json.splits)
      have sorted: "sorted_wrt (<) (map fst ms) \<longrightarrow> sorted_wrt (<) (map fst (obj_erase l ms))" for ms :: "(string \<times> json) list"
        by (intro impI sorted_obj_erase)
      show ?thesis
        by (rule step[OF run[OF refl refl] run[OF eq] _ _ sorted sorted]) (use l Cons.prems(1) in auto)
    qed
  qed
qed auto

definition field_keys :: "(string \<times> string) list \<Rightarrow> string set" where
  "field_keys fs = fst ` set fs \<union> snd ` set fs"

lemma seal_fields_other: "seal_fields L B fs ms = Some ms' \<Longrightarrow> k \<notin> field_keys fs \<Longrightarrow> map_of ms' k = map_of ms k"
proof (induction fs arbitrary: ms)
  case (Cons p fs)
  obtain f e where p: "p = (f, e)" by force
  obtain ms1 where ms1: "seal_field L B (f, e) ms = Some ms1" "seal_fields L B fs ms1 = Some ms'"
    using Cons.prems(1) p by (auto split: option.splits)
  have "k \<noteq> f" "k \<noteq> e" "k \<notin> field_keys fs" using Cons.prems(2) p by (auto simp: field_keys_def)
  then show ?case using Cons.IH[OF ms1(2)] seal_field_map(2)[OF ms1(1)] by (auto split: option.splits)
qed simp

lemma restore_sealed:
  assumes "json_lib_ok L" "b64_ok B" "jl_parse L [] = None" "distinct (map fst fs @ map snd fs)"
    "\<forall>f \<in> fst ` set fs. \<forall>v. map_of ms f = Some v \<longrightarrow> json_wf v" "\<forall>e \<in> snd ` set fs. map_of ms e = None"
    "seal_fields L B fs ms = Some ms'" "\<forall>k \<in> field_keys fs. map_of ms2 k = map_of ms' k" "sorted_wrt (<) (map fst ms2)"
  shows "\<exists>r. restore_fields L B fs (JObj ms2) = Some (JObj r) \<and> sorted_wrt (<) (map fst r)
    \<and> (\<forall>k. map_of r k = (if k \<in> field_keys fs then map_of ms k else map_of ms2 k))"
  using assms(4-9)
proof (induction fs arbitrary: ms ms2)
  case Nil
  then show ?case by (simp add: field_keys_def)
next
  case (Cons p fs)
  obtain f e where p: "p = (f, e)" by force
  have keys: "field_keys (p # fs) = insert f (insert e (field_keys fs))" using p by (auto simp: field_keys_def)
  have fe: "f \<noteq> e" "f \<notin> field_keys fs" "e \<notin> field_keys fs" "distinct (map fst fs @ map snd fs)"
    using Cons.prems(1) p by (auto simp: field_keys_def)
  obtain ms1 where ms1: "seal_field L B (f, e) ms = Some ms1" "seal_fields L B fs ms1 = Some ms'"
    using Cons.prems(4) p by (auto split: option.splits)
  note m1 = seal_field_map[OF ms1(1)]
  have ms2: "map_of ms2 f = map_of ms1 f" "map_of ms2 e = map_of ms1 e"
    using Cons.prems(5) keys fe seal_fields_other[OF ms1(2)] by simp_all
  have ms_e: "map_of ms e = None" using Cons.prems(3) p by simp
  have k1: "map_of ms1 k = map_of ms k" if "k \<in> field_keys fs" for k
    using m1(2) that fe by (auto split: option.splits)
  have ih: "\<exists>r. restore_fields L B fs (JObj ms3) = Some (JObj r) \<and> sorted_wrt (<) (map fst r)
      \<and> (\<forall>k. map_of r k = (if k \<in> field_keys fs then map_of ms k else map_of ms3 k))"
    if "sorted_wrt (<) (map fst ms3)" "\<And>k. k \<noteq> f \<Longrightarrow> k \<noteq> e \<Longrightarrow> map_of ms3 k = map_of ms2 k" for ms3
  proof -
    have "\<forall>f \<in> fst ` set fs. \<forall>v. map_of ms1 f = Some v \<longrightarrow> json_wf v" "\<forall>e \<in> snd ` set fs. map_of ms1 e = None"
      using Cons.prems(2,3) k1 by (auto simp: field_keys_def)
    moreover have "\<forall>k \<in> field_keys fs. map_of ms3 k = map_of ms' k"
      using that(2) fe Cons.prems(5) keys by (metis insertCI)
    ultimately have "\<exists>r. restore_fields L B fs (JObj ms3) = Some (JObj r) \<and> sorted_wrt (<) (map fst r)
        \<and> (\<forall>k. map_of r k = (if k \<in> field_keys fs then map_of ms1 k else map_of ms3 k))"
      using Cons.IH[OF fe(4) _ _ ms1(2) _ that(1)] by blast
    moreover have "(if k \<in> field_keys fs then map_of ms1 k else map_of ms3 k)
        = (if k \<in> field_keys fs then map_of ms k else map_of ms3 k)" for k using k1 by simp
    ultimately show ?thesis by simp
  qed
  show ?case
  proof (cases "map_of ms f")
    case None
    then have "restore_fields L B (p # fs) (JObj ms2) = restore_fields L B fs (JObj ms2)"
      using p ms2 m1(2) ms_e by (simp add: restoreItems_def)
    then show ?thesis using ih[OF Cons.prems(6)] None ms_e ms2 m1(2) keys by (auto split: option.splits)
  next
    case (Some v)
    then obtain items where v: "v = JObj items" "json_wf (JObj items)"
      using m1(3) Cons.prems(2) p by (auto simp: is_object_iff)
    let ?ms3 = "obj_erase e (obj_put f (JObj items) ms2)"
    have "restoreItems L B f e (JObj ms2) = Some (JObj ?ms3)"
      using restore_encoded[OF assms(1-3) v(2)] ms2(2) m1(2) Some v(1) fe(1) by simp
    then have "restore_fields L B (p # fs) (JObj ms2) = restore_fields L B fs (JObj ?ms3)" using p by simp
    then show ?thesis
      using ih[of ?ms3] sorted_obj_erase[OF sorted_obj_put[OF Cons.prems(6)]] Some v(1) ms_e fe keys by auto
  qed
qed

lemma restore_seal:
  assumes "json_lib_ok L" "b64_ok B" "jl_parse L [] = None" "json_wf (JObj ms)"
    "\<forall>e \<in> snd ` set encoded_fields. map_of ms e = None"
    "seal_document L B C (JObj ms) = Some safe"
  shows "\<exists>ms1 ms2. seal_password C ms = Some ms1 \<and> seal_legacy C legacy_fields ms1 = Some ms2
    \<and> restoreDocument L B safe = Some (JObj ms2)
    \<and> (\<forall>k. k \<notin> password_fields \<longrightarrow> map_of ms2 k = map_of ms k)"
proof -
  obtain a a1 a2 where a: "seal_fields L B encoded_fields ms = Some a" "seal_password C a = Some a1"
      "seal_legacy C legacy_fields a1 = Some a2" "safe = JObj a2"
    using assms(6) by (auto simp: seal_document_def split: option.splits)
  have dis: "password_fields \<inter> field_keys encoded_fields = {}" "distinct (map fst encoded_fields @ map snd encoded_fields)"
    by code_simp+
  have sorted: "sorted_wrt (<) (map fst ms)" using assms(4) by simp
  have sealed: "sorted_wrt (<) (map fst y)" if "seal_fields L B fs x = Some y" "sorted_wrt (<) (map fst x)" for fs x y
    using that
  proof (induction fs arbitrary: x)
    case (Cons p fs)
    then show ?case using seal_field_map(1)[of L B "fst p" "snd p" x] by (auto split: option.splits)
  qed simp
  have agree: "\<forall>k \<in> password_fields. map_of a k = map_of ms k"
    using seal_fields_other[OF a(1)] dis(1) by blast
  obtain ms1 where ms1: "seal_password C ms = Some ms1" "\<forall>k \<in> password_fields. map_of a1 k = map_of ms1 k"
      "\<forall>k. k \<notin> password_fields \<longrightarrow> map_of a1 k = map_of a k \<and> map_of ms1 k = map_of ms k"
      "sorted_wrt (<) (map fst a1)" "sorted_wrt (<) (map fst ms1)"
    using seal_password_agree[OF agree a(2)] sorted sealed[OF a(1) sorted] by metis
  have "set legacy_fields \<subseteq> password_fields" by (simp add: password_fields_def subset_insertI)
  from seal_legacy_agree[OF ms1(2) a(3) this]
  obtain ms2 where ms2: "seal_legacy C legacy_fields ms1 = Some ms2" "\<forall>k \<in> password_fields. map_of a2 k = map_of ms2 k"
      "\<forall>k. k \<notin> password_fields \<longrightarrow> map_of a2 k = map_of a1 k \<and> map_of ms2 k = map_of ms1 k"
      "sorted_wrt (<) (map fst a2)" "sorted_wrt (<) (map fst ms2)"
    using ms1(4,5) by auto
  have wf: "\<forall>f \<in> fst ` set encoded_fields. \<forall>v. map_of ms f = Some v \<longrightarrow> json_wf v"
    using json_wf_lookup[OF assms(4)] by blast
  have same: "\<forall>k \<in> field_keys encoded_fields. map_of a2 k = map_of a k"
    using ms2(3) ms1(3) dis(1) by (metis disjoint_iff)
  obtain r where r: "restore_fields L B encoded_fields (JObj a2) = Some (JObj r)" "sorted_wrt (<) (map fst r)"
      "\<forall>k. map_of r k = (if k \<in> field_keys encoded_fields then map_of ms k else map_of a2 k)"
    using restore_sealed[OF assms(1-3) dis(2) wf assms(5) a(1) same ms2(4)] by blast
  have "map_of r k = map_of ms2 k" for k
    using r(3) ms1(3) ms2(2,3) seal_fields_other[OF a(1), of k] dis(1)
    by (cases "k \<in> password_fields"; cases "k \<in> field_keys encoded_fields") auto
  then have "r = ms2" using sorted_alist_eq[OF r(2) ms2(5)] by auto
  then show ?thesis using ms1(1,3) ms2(1,3) r(1) a(4) by (auto simp: restoreDocument_def)
qed

lemma seal_fields_gone:
  assumes "seal_fields L B fs x = Some y" "distinct (map fst fs @ map snd fs)" "f \<in> fst ` set fs"
  shows "map_of y f = None"
  using assms
proof (induction fs arbitrary: x)
  case (Cons p fs)
  obtain g e where p: "p = (g, e)" by force
  obtain x1 where x1: "seal_field L B (g, e) x = Some x1" "seal_fields L B fs x1 = Some y"
    using Cons.prems(1) p by (auto split: option.splits)
  show ?case
  proof (cases "f = g")
    case True
    have "map_of x1 g = None" using seal_field_map(2)[OF x1(1)] by (auto split: option.splits)
    moreover have "g \<notin> field_keys fs" using Cons.prems(2) p by (auto simp: field_keys_def)
    ultimately show ?thesis using seal_fields_other[OF x1(2)] True by simp
  next
    case False
    then show ?thesis using Cons.IH[OF x1(2)] Cons.prems(2,3) p by auto
  qed
qed simp

section \<open>A codec and a store that satisfy the laws\<close>

fun flat_encode :: "string \<Rightarrow> string" where
  "flat_encode [] = []"
| "flat_encode [a] = [a, CHR ''A'', CHR ''='', CHR ''='']"
| "flat_encode [a, b] = [a, b, CHR ''A'', CHR ''='']"
| "flat_encode (a # b # c # s) =
     (if c = CHR ''='' then [a, b, CHR ''A'', CHR ''!''] else [a, b, c, CHR ''A'']) @ flat_encode s"

fun flat_decode :: "string \<Rightarrow> string option" where
  "flat_decode (a # b # c # d # s) =
     map_option (\<lambda>r. (if d = CHR ''!'' then [a, b, CHR ''='']
        else if d = CHR ''='' then (if c = CHR ''='' then [a, CHR 0x00, CHR 0x00] else [a, b, CHR 0x00])
        else [a, b, c]) @ r) (flat_decode s)"
| "flat_decode [] = Some []"
| "flat_decode _ = None"

definition flat_b64 :: b64_lib where
  "flat_b64 = \<lparr>b64_encode = flat_encode, b64_decode = flat_decode\<rparr>"

lemma padding_append: "length t > 1 \<Longrightarrow> padding_of (s @ t) = padding_of t"
  by (auto simp: padding_of_def nth_append last_append)

lemma flat_b64_ok: "b64_ok flat_b64"
proof -
  have "length (flat_encode s) = 4 * ((length s + 2) div 3)
      \<and> flat_decode (flat_encode s) = Some (s @ replicate (padding_size (length s)) (CHR 0x00))
      \<and> (s \<noteq> [] \<longrightarrow> padding_of (flat_encode s) = padding_size (length s))" for s
  proof (induction s rule: flat_encode.induct)
    case (4 a b c s)
    have l: "(length (a # b # c # s) + 2) div 3 = Suc ((length s + 2) div 3)"
      "padding_size (length (a # b # c # s)) = padding_size (length s)"
      by (simp_all add: padding_size_def)
    have "padding_of (flat_encode (a # b # c # s)) = padding_size (length s)"
    proof (cases "s = []")
      case False
      then have "length (flat_encode s) > 1" using 4 by (cases s) auto
      then show ?thesis using 4 False padding_append by auto
    qed (simp add: padding_of_def padding_size_def)
    then show ?case using 4 l by auto
  qed (simp_all add: padding_of_def padding_size_def numeral_2_eq_2)
  then show ?thesis by (simp add: b64_ok_def flat_b64_def)
qed

type_synonym ref_store = "((string \<times> string) \<times> json) list"

definition ref_documents :: "ref_store document_store" where
  "ref_documents = \<lparr>ds_get = (\<lambda>x i w. (map_of w (x, i), w)), ds_put = (\<lambda>x i d w. (True, AList.update (x, i) d w)),
     ds_patch = (\<lambda>x i d w. (False, w)), ds_delete = (\<lambda>x i w. (True, AList.delete (x, i) w)),
     ds_search = (\<lambda>x q w. (None, w))\<rparr>"

definition put_get_law :: "'w document_store \<Rightarrow> bool" where
  \<comment> \<open>a document that was put can be read back\<close>
  "put_get_law D \<longleftrightarrow>
     (\<forall>x i d w w'. ds_put D x i d w = (True, w') \<longrightarrow> fst (ds_get D x i w') = Some d)"

definition sample_snapshots :: "ref_store snapshot_memory" where
  "sample_snapshots = \<lparr>sm_lib = ref_lib, sm_b64 = flat_b64, sm_crypto = sample_crypto,
     sm_storage = ref_documents, sm_index = ''canvases''\<rparr>"

lemma ref_documents_law: "put_get_law ref_documents"
  by (auto simp: put_get_law_def ref_documents_def update_conv')

lemma save_then_get:
  assumes "put_get_law (sm_storage S)" "saveCanvasDocument S i doc w = (True, w')"
  shows "\<exists>safe. seal_document (sm_lib S) (sm_b64 S) (sm_crypto S) doc = Some safe
    \<and> fst (getCanvasDocument S i w') = restoreDocument (sm_lib S) (sm_b64 S) safe"
proof -
  obtain safe where s: "sm_index S \<noteq> []" "seal_document (sm_lib S) (sm_b64 S) (sm_crypto S) doc = Some safe"
      "ds_put (sm_storage S) (sm_index S) (doc_id i) safe w = (True, w')"
    using assms(2) by (auto simp: saveCanvasDocument_def split: option.splits if_splits)
  obtain found w2 where g: "ds_get (sm_storage S) (sm_index S) (doc_id i) w' = (found, w2)" by force
  then have "found = Some safe" using assms(1) s(3) by (auto simp: put_get_law_def dest!: spec)
  then show ?thesis using s(1,2) g by (simp add: getCanvasDocument_def)
qed

section \<open>Properties\<close>

text \<open>
  C37. Saving and restoring a canvas is the identity, up to the password. When a well-formed document
  whose encoded fields are unused has been saved, reading it back gives the same document with its
  password normalised and its legacy password fields removed: every other field has its value, and
  nothing is added.
\<close>

theorem snapshot_roundtrip:
  assumes "json_lib_ok (sm_lib S)" "b64_ok (sm_b64 S)" "jl_parse (sm_lib S) [] = None"
    "put_get_law (sm_storage S)" "json_wf (JObj ms)" "\<forall>e \<in> snd ` set encoded_fields. map_of ms e = None"
    "saveCanvasDocument S i (JObj ms) w = (True, w')"
  shows "\<exists>ms1 ms2. seal_password (sm_crypto S) ms = Some ms1
    \<and> seal_legacy (sm_crypto S) legacy_fields ms1 = Some ms2
    \<and> fst (getCanvasDocument S i w') = Some (JObj ms2)
    \<and> (\<forall>k. k \<notin> password_fields \<longrightarrow> map_of ms2 k = map_of ms k)"
proof -
  obtain safe where "seal_document (sm_lib S) (sm_b64 S) (sm_crypto S) (JObj ms) = Some safe"
      "fst (getCanvasDocument S i w') = restoreDocument (sm_lib S) (sm_b64 S) safe"
    using save_then_get[OF assms(4,7)] by blast
  then show ?thesis using restore_seal[OF assms(1-3,5,6)] by simp
qed

theorem snapshot_roundtrip_witness:
  "\<exists>ms2. fst (getCanvasDocument sample_snapshots 3 (snd (saveCanvasDocument sample_snapshots 3
       (JObj [(''canvas-name'', JStr ''c''), (''items'', JObj [(''n'', JObj [(''x'', JInt 1)])])]) [])))
       = Some (JObj ms2)
    \<and> map_of ms2 ''items'' = Some (JObj [(''n'', JObj [(''x'', JInt 1)])])"
proof -
  let ?ms = "[(''canvas-name'', JStr ''c''), (''items'', JObj [(''n'', JObj [(''x'', JInt 1)])])]"
  let ?r = "saveCanvasDocument sample_snapshots 3 (JObj ?ms) []"
  have "fst ?r" by code_simp
  then have r: "?r = (True, snd ?r)" by (simp add: prod_eq_iff)
  have e: "\<forall>e \<in> snd ` set encoded_fields. map_of ?ms e = None" by (simp add: encoded_fields_def)
  have wf: "json_wf (JObj ?ms)" by code_simp
  have s: "json_lib_ok (sm_lib sample_snapshots)" "b64_ok (sm_b64 sample_snapshots)"
    "jl_parse (sm_lib sample_snapshots) [] = None" "put_get_law (sm_storage sample_snapshots)"
    using ref_lib_ok flat_b64_ok ref_documents_law
    by (simp_all add: sample_snapshots_def ref_lib_def ref_parse_def)
  have k: "''items'' \<notin> password_fields" by code_simp
  from snapshot_roundtrip[OF s wf e r] k show ?thesis by fastforce
qed

text \<open>
  C38. A stored snapshot holds no secret in the clear. Whatever the document, what is stored has none of
  the fields with private keys and none of the legacy password fields, and if it has a password text,
  that is empty or has the form of a hash.
\<close>

theorem snapshot_hides_secrets:
  assumes "crypto_ok C" "seal_document L B C (JObj ms) = Some safe"
  shows "\<exists>s. safe = JObj s
    \<and> (\<forall>f \<in> fst ` set encoded_fields \<union> set legacy_fields. map_of s f = None)
    \<and> (\<forall>p. map_of s password_field = Some (JStr p) \<longrightarrow> p = [] \<or> isCanvasPasswordHash p)"
proof -
  obtain a b c where s: "seal_fields L B encoded_fields ms = Some a" "seal_password C a = Some b"
      "seal_legacy C legacy_fields b = Some c" "safe = JObj c"
    using assms(2) by (auto simp: seal_document_def split: option.splits)
  have norm: "normalizeCanvasPassword C x = Some h \<Longrightarrow> h = [] \<or> isCanvasPasswordHash h" for x h
    using hash_is_hash[OF assms(1)] by (auto simp: normalizeCanvasPassword_def split: if_splits)
  let ?hashed = "\<lambda>ms. \<forall>p. map_of ms password_field = Some (JStr p) \<longrightarrow> p = [] \<or> isCanvasPasswordHash p"
  have b: "?hashed b"
    using s(2) by (auto simp: seal_password_def split: option.splits json.splits dest: norm)
  have "?hashed y \<and> (\<forall>l. map_of x l = None \<longrightarrow> l \<noteq> password_field \<longrightarrow> map_of y l = None)
      \<and> (\<forall>l \<in> set ls. map_of y l = None)"
    if "seal_legacy C ls x = Some y" "?hashed x" "password_field \<notin> set ls" for ls x y
    using that
  proof (induction ls arbitrary: x)
    case (Cons l ls)
    obtain x1 where x1: "seal_legacy C ls x1 = Some y" "map_of x1 l = None"
        "\<forall>k. map_of x k = None \<longrightarrow> k \<noteq> password_field \<longrightarrow> map_of x1 k = None" "?hashed x1"
      using Cons.prems norm by (auto split: option.splits json.splits)
    then show ?case using Cons.IH[OF x1(1,4)] Cons.prems(3) by auto
  qed simp
  moreover have "password_field \<notin> set legacy_fields" by code_simp
  ultimately have c: "?hashed c" "\<forall>l \<in> set legacy_fields. map_of c l = None"
    "\<forall>l. map_of b l = None \<longrightarrow> l \<noteq> password_field \<longrightarrow> map_of c l = None"
    using s(3) b by blast+
  have dist: "distinct (map fst encoded_fields @ map snd encoded_fields)" by code_simp
  have a: "\<forall>f \<in> fst ` set encoded_fields. map_of a f = None"
    by (intro ballI seal_fields_gone[OF s(1) dist])
  have np: "password_field \<notin> fst ` set encoded_fields" by code_simp
  have "map_of b f = map_of a f" if "f \<noteq> password_field" for f
    using that s(2) by (auto simp: seal_password_def split: option.splits json.splits)
  then have "map_of b f = None" if "f \<in> fst ` set encoded_fields" for f 
    using bspec[OF a that] np that by metis
  then have "\<forall>f \<in> fst ` set encoded_fields. map_of c f = None" using c(3) np by metis
  then have "\<forall>f \<in> fst ` set encoded_fields \<union> set legacy_fields. map_of c f = None"
    using c(2) unfolding ball_Un by (rule conjI)
  with c(1) s(4) show ?thesis by (intro exI[of _ c] conjI)
qed

theorem snapshot_hides_secrets_witness:
  "\<exists>s. seal_document ref_lib flat_b64 sample_crypto (JObj [(''canvasPassword'', JStr ''pw'')]) = Some (JObj s)
    \<and> map_of s ''canvasPassword'' = None"
proof -
  let ?d = "JObj [(''canvasPassword'', JStr ''pw'')]"
  have "\<not> isCanvasPasswordHash ''pw''" by code_simp
  then have "seal_document ref_lib flat_b64 sample_crypto ?d \<noteq> None"
    by (simp add: seal_document_def encoded_fields_def seal_field_def seal_password_def password_field_def
        legacy_fields_def normalizeCanvasPassword_def hashCanvasPassword_def sample_crypto_def obj_erase_def)
  then obtain safe where safe: "seal_document ref_lib flat_b64 sample_crypto ?d = Some safe" by auto
  have c: "crypto_ok sample_crypto" by (auto simp: crypto_ok_def sample_crypto_def)
  from snapshot_hides_secrets[OF c safe] safe show ?thesis by (auto simp: legacy_fields_def)
qed

end
