(* ===== verification/Canvas_Initialization.thy ===== *)
theory Canvas_Initialization
  imports Canvas_Commands Canvas_Snapshots
begin

text \<open>
  \<^verbatim>\<open>cpp/src/service_memory/CanvasServiceMemory.cpp\<close>, \<open>initializeCanvas\<close>: bringing a canvas into Redis,
  from the document that is already there or from its snapshot, with old password fields migrated. The
  state has three parts, the cache, the Redis server and the document store. An outer \<open>None\<close> is an
  exception, an inner one the \<open>std::nullopt\<close> returned.
\<close>

fun migrate_legacy :: "string list \<Rightarrow> (string \<times> json) list \<Rightarrow> (string \<times> json) list \<times> bool" where
  "migrate_legacy [] ms = (ms, False)"
| "migrate_legacy (legacy # rest) ms =
     (case map_of ms legacy of
        None \<Rightarrow> migrate_legacy rest ms
      | Some v \<Rightarrow>
          (let ms1 = (if map_of ms password_field = None then obj_put password_field v ms else ms)
           in (fst (migrate_legacy rest (obj_erase legacy ms1)), True)))"

definition migrate_password :: "crypto_lib \<Rightarrow> (string \<times> json) list \<Rightarrow> ((string \<times> json) list \<times> bool) option" where
  \<comment> \<open>the normalised password, and whether that changed it\<close>
  "migrate_password C ms =
     (case map_of ms password_field of
        Some (JStr stored) \<Rightarrow>
          map_option (\<lambda>hash. (obj_put password_field (JStr hash) ms, hash \<noteq> stored))
            (normalizeCanvasPassword C stored)
      | _ \<Rightarrow> Some (ms, False))"

definition migrate :: "crypto_lib \<Rightarrow> (string \<times> json) list \<Rightarrow> ((string \<times> json) list \<times> bool) option" where
  "migrate C ms =
     (let (ms1, migrated) = migrate_legacy legacy_fields ms
      in map_option (\<lambda>(ms2, changed). (ms2, migrated \<or> changed)) (migrate_password C ms1))"

definition load_source ::
  "'w mc_env \<Rightarrow> 'v snapshot_memory \<Rightarrow> (string \<Rightarrow> bool) \<Rightarrow> int \<Rightarrow> bool \<Rightarrow> cache_manager \<Rightarrow> 'w \<Rightarrow> 'v
   \<Rightarrow> json option option \<times> cache_manager \<times> 'w \<times> 'v" where
  \<comment> \<open>the document to start from\<close>
  "load_source E S try_lock i already_cached m w v =
     (if already_cached then
        (let (serialized, m1, w1) = loadCanvas E try_lock i m w
         in (map_option (\<lambda>r. case r of None \<Rightarrow> None | Some t \<Rightarrow> jl_parse (me_lib E) t) serialized, m1, w1, v))
      else
        (let (document, v1) = getCanvasDocument S i v in (Some document, m, w, v1)))"

definition initializeCanvas ::
  "'w mc_env \<Rightarrow> 'v snapshot_memory \<Rightarrow> (string \<Rightarrow> bool) \<Rightarrow> int \<Rightarrow> bool \<Rightarrow> string \<Rightarrow> cache_manager \<Rightarrow> 'w \<Rightarrow> 'v
   \<Rightarrow> json option option \<times> cache_manager \<times> 'w \<times> 'v" where
  "initializeCanvas E S try_lock i already_cached generation m w v =
     (case load_source E S try_lock i already_cached m w v of
        (None, m1, w1, v1) \<Rightarrow> (None, m1, w1, v1)
      | (Some (Some (JObj ms)), m1, w1, v1) \<Rightarrow>
          (case migrate (sm_crypto S) ms of
             None \<Rightarrow> (Some None, m1, w1, v1)
           | Some (ms1, migrated) \<Rightarrow>
               (let (saved, v2) = (if migrated then saveCanvasDocument S i (JObj ms1) v1 else (True, v1))
                in if \<not> saved then (Some None, m1, w1, v2)
                   else
                     (let document = JObj (obj_put ''_cache_generation'' (JStr generation) ms1)
                      in case storeCanvas E i document m1 w1 of
                           (None, m2, w2) \<Rightarrow> (None, m2, w2, v2)
                         | (Some False, m2, w2) \<Rightarrow> (Some None, m2, w2, v2)
                         | (Some True, m2, w2) \<Rightarrow> (Some (Some document), m2, w2, v2))))
      | (Some _, m1, w1, v1) \<Rightarrow> (Some None, m1, w1, v1))"

section \<open>Properties\<close>

lemma migrate_legacy_gone:
  "password_field \<notin> set ls \<Longrightarrow> l \<in> set ls \<Longrightarrow> map_of (fst (migrate_legacy ls ms)) l = None"
proof (induction ls arbitrary: ms)
  case (Cons x ls)
  have keep: "map_of (fst (migrate_legacy ls ms)) k = None" if "map_of ms k = None" "k \<noteq> password_field" for ls ms k
    using that by (induction ls arbitrary: ms) (auto simp: Let_def split: option.splits)
  show ?case
  proof (cases "l \<in> set ls")
    case True
    then show ?thesis using Cons.IH Cons.prems by (auto simp: Let_def split: option.splits)
  next
    case False
    then have "l = x" "l \<noteq> password_field" using Cons.prems by auto
    then show ?thesis by (auto simp: Let_def keep split: option.splits)
  qed
qed simp

lemma migrated_document:
  assumes "crypto_ok C" "migrate C ms = Some (ms', migrated)"
  shows "\<forall>l \<in> set legacy_fields. map_of ms' l = None"
    "map_of ms' password_field = Some (JStr p) \<Longrightarrow> p = [] \<or> isCanvasPasswordHash p"
proof -
  obtain ms1 c where ms1: "ms1 = fst (migrate_legacy legacy_fields ms)" "migrate_password C ms1 = Some (ms', c)"
    using assms(2) by (auto simp: migrate_def split: prod.splits)
  have np: "password_field \<notin> set legacy_fields" by code_simp
  have same: "map_of ms' l = map_of ms1 l" if "l \<noteq> password_field" for l
    using ms1(2) that by (auto simp: migrate_password_def split: option.splits json.splits)
  show "\<forall>l \<in> set legacy_fields. map_of ms' l = None"
    using same migrate_legacy_gone[OF np] ms1(1) np by metis
  have norm: "normalizeCanvasPassword C x = Some h \<Longrightarrow> h = [] \<or> isCanvasPasswordHash h" for x h
    using hash_is_hash[OF assms(1)] by (auto simp: normalizeCanvasPassword_def split: if_splits)
  show "map_of ms' password_field = Some (JStr p) \<Longrightarrow> p = [] \<or> isCanvasPasswordHash p"
    using ms1(2) by (auto simp: migrate_password_def split: option.splits json.splits dest: norm)
qed

lemma root_region: "mo_region_depth (me_options E) \<noteq> 0 \<Longrightarrow> mc_region E ''$'' = None"
  by (simp add: mc_region_def parseJsonPath_def parse_segments.simps)

lemma root_write_stores:
  assumes "redis_json_ok E doc" "mo_region_depth (me_options E) \<noteq> 0" "json_wf v"
    "mc_write E key v ''$'' m w = (Some True, m', w')"
  shows "doc w' key = Some v" "cm_cache m' key = None"
proof -
  have lib: "jl_parse (me_lib E) (jl_dump (me_lib E) v) = Some v" "parseJsonPath (me_lib E) ''$'' = Some []"
    using json_lib_okD(1)[OF _ assms(3)] assms(1)
    by (auto simp: redis_json_ok_def parseJsonPath_def parse_segments.simps)
  have set: "doc w2 key = Some v" if "me_exec E [''JSON.SET'', key, ''$'', jl_dump (me_lib E) v] w1 = (Some ''OK'', w2)" for w1 w2
    using assms(1) lib that by (fastforce simp: redis_json_ok_def json_set_effect_def)
  obtain m1 w1 where t: "mc_write_through E key v ''$'' m1 w1 = (Some True, m', w')"
    using assms(4) root_region[OF assms(2)]
    by (auto simp: mc_write_def split: prod.splits option.splits bool.splits)
  obtain w2 where "me_exec E [''JSON.SET'', key, ''$'', jl_dump (me_lib E) v] w2 = (Some ''OK'', w')"
      "m' = mc_invalidate E key ''$'' m1"
    using t by (auto simp: mc_write_through_def Let_def split: prod.splits if_splits)
  then show "doc w' key = Some v" "cm_cache m' key = None"
    using set root_region[OF assms(2)] by (auto simp: mc_invalidate_def cm_removeDocument_def cm_cache_def[symmetric])
qed

text \<open>
  An initialised canvas is in Redis, tagged and without plain passwords. When \<open>initializeCanvas\<close>
  returns a document, the server holds exactly that document under the canvas key and the cache holds
  nothing older; the document carries the given generation, none of the legacy password fields, and a
  password text only if it is empty or has the form of a hash.
\<close>

theorem initialized_canvas_is_stored:
  assumes "redis_json_ok E doc" "mo_region_depth (me_options E) \<noteq> 0" "crypto_ok (sm_crypto S)" "json_wf d"
    "initializeCanvas E S try_lock i already_cached generation m w v = (Some (Some d), m', w', v')"
  shows "doc w' (canvasKey i) = Some d \<and> cm_cache m' (canvasKey i) = None
    \<and> jget d ''_cache_generation'' = Some (JStr generation)
    \<and> (\<forall>l \<in> set legacy_fields. jget d l = None)
    \<and> (\<forall>p. jget d password_field = Some (JStr p) \<longrightarrow> p = [] \<or> isCanvasPasswordHash p)"
proof -
  obtain ms ms1 migrated m1 w1 where d: "migrate (sm_crypto S) ms = Some (ms1, migrated)"
      "d = JObj (obj_put ''_cache_generation'' (JStr generation) ms1)"
      "storeCanvas E i d m1 w1 = (Some True, m', w')"
    using assms(5)
    by (auto simp: initializeCanvas_def Let_def split: prod.splits option.splits json.splits bool.splits if_splits)
  note r = root_write_stores[OF assms(1,2,4) d(3)[unfolded storeCanvas_def]]
  have ne: "''_cache_generation'' \<notin> set legacy_fields" "''_cache_generation'' \<noteq> password_field" by code_simp+
  note m = migrated_document[OF assms(3) d(1)]
  have "jget d l = map_of ms1 l" if "l \<noteq> ''_cache_generation''" for l using d(2) that by simp
  then have "\<forall>l \<in> set legacy_fields. jget d l = None" "jget d password_field = map_of ms1 password_field"
    using m(1) ne by metis+
  moreover have "jget d ''_cache_generation'' = Some (JStr generation)" using d(2) by simp
  ultimately show ?thesis using r m(2) by metis
qed

theorem initialized_canvas_is_stored_witness:
  "\<exists>m' w' v'. initializeCanvas ref_env sample_snapshots (\<lambda>_. True) 1 False ''g'' (createState ref_options)
      [] [((''canvases'', ''1''), JObj [(''canvas-name'', JStr ''c'')])]
    = (Some (Some (JObj [(''_cache_generation'', JStr ''g''), (''canvas-name'', JStr ''c'')])), m', w', v')
    \<and> ref_doc w' ''canvas:1'' = Some (JObj [(''_cache_generation'', JStr ''g''), (''canvas-name'', JStr ''c'')])"
proof -
  let ?r = "initializeCanvas ref_env sample_snapshots (\<lambda>_. True) 1 False ''g'' (createState ref_options)
      [] [((''canvases'', ''1''), JObj [(''canvas-name'', JStr ''c'')])]"
  let ?d = "JObj [(''_cache_generation'', JStr ''g''), (''canvas-name'', JStr ''c'')]"
  obtain res m' w' v' where r: "?r = (res, m', w', v')" by (metis prod_cases4)
  have "fst ?r = Some (Some ?d)" by code_simp
  with r have res: "?r = (Some (Some ?d), m', w', v')" by simp
  have c: "mo_region_depth (me_options ref_env) \<noteq> 0" "crypto_ok (sm_crypto sample_snapshots)" "json_wf ?d"
    by (auto simp: ref_env_def ref_options_def sample_snapshots_def crypto_ok_def sample_crypto_def)
  have key: "canvasKey 1 = ''canvas:1''" by code_simp
  from initialized_canvas_is_stored[OF ref_contract c res] res key show ?thesis by simp
qed

end
