(* ===== verification/Canvas_Mentions.thy ===== *)
theory Canvas_Mentions
  imports Prelude
begin

text \<open>
  \<^verbatim>\<open>cpp/include/service/CanvasMentions.hpp\<close>: finding the handles \<open>@nickname#tag\<close> in the text of a chat
  message. The index loops of the source run over the suffix of the text that starts at the index; the
  set \<open>seen\<close> always holds what \<open>result\<close> holds.
\<close>

definition mentionStartBoundary :: "char \<Rightarrow> bool" where
  "mentionStartBoundary c \<longleftrightarrow> isspace c \<or> c \<in> set ''([{''"

definition mentionEndBoundary :: "char \<Rightarrow> bool" where
  "mentionEndBoundary c \<longleftrightarrow> isspace c \<or> c \<in> set ''.,!?;:)}]''"

definition line_break :: "char \<Rightarrow> bool" where
  "line_break c \<longleftrightarrow> c = CHR 0x0A \<or> c = CHR 0x0D"

fun read_tag :: "nat \<Rightarrow> nat \<Rightarrow> string \<Rightarrow> nat \<times> nat \<times> string" where
  \<comment> \<open>the digit loop: the tag, the number of digits taken, and what follows them\<close>
  "read_tag tag n [] = (tag, n, [])"
| "read_tag tag n (c # cs) =
     (if \<not> isdigit c then (tag, n, c # cs)
      else
        (let tag' = tag * 10 + (code_of c - 48) in
         if int tag' > int_max then (tag', n, c # cs) else read_tag tag' (n + 1) cs))"

fun scan_hash :: "string \<Rightarrow> nat \<Rightarrow> string \<Rightarrow> (string \<times> nat) option" where
  \<comment> \<open>the loop over \<open>hash\<close>: the name read so far, reversed, its length, and the text from \<open>hash\<close> on\<close>
  "scan_hash name k [] = None"
| "scan_hash name k (c # cs) =
     (if k > 400 \<or> line_break c then None
      else if c \<noteq> CHR 0x23 \<or> k = 0 then scan_hash (c # name) (k + 1) cs
      else
        (let (tag, n, after) = read_tag 0 0 cs in
         if n = 0 \<or> int tag > int_max \<or> (after \<noteq> [] \<and> \<not> mentionEndBoundary (hd after))
         then scan_hash (c # name) (k + 1) cs
         else Some (rev name, tag)))"

fun mention_loop :: "char option \<Rightarrow> string \<Rightarrow> (string \<times> nat) list \<Rightarrow> (string \<times> nat) list" where
  \<comment> \<open>the loop over \<open>at\<close>; the first argument is the character before it\<close>
  "mention_loop before [] result = result"
| "mention_loop before (c # cs) result =
     (if length result \<ge> 20 then result
      else if c \<noteq> CHR 0x40 \<or> (case before of None \<Rightarrow> False | Some b \<Rightarrow> \<not> mentionStartBoundary b)
      then mention_loop (Some c) cs result
      else
        (case scan_hash [] 0 cs of
           None \<Rightarrow> mention_loop (Some c) cs result
         | Some v \<Rightarrow> mention_loop (Some c) cs (if v \<in> set result then result else result @ [v])))"

definition parseMentionHandles :: "string \<Rightarrow> (string \<times> nat) list" where
  "parseMentionHandles t = mention_loop None t []"

section \<open>Properties\<close>

lemma read_tag_spec:
  assumes "read_tag tag n cs = (tag', n', after)" "int tag \<le> int_max"
  shows "\<exists>digits. cs = digits @ after \<and> list_all isdigit digits \<and> n' = n + length digits
    \<and> (int tag' \<le> int_max \<longrightarrow> tag' = foldl (\<lambda>m c. m * 10 + (code_of c - 48)) tag digits
         \<and> (after = [] \<or> \<not> isdigit (hd after)))"
  using assms
proof (induction tag n cs rule: read_tag.induct)
  case (2 tag n c cs)
  show ?case
  proof (cases "isdigit c \<and> int (tag * 10 + (code_of c - 48)) \<le> int_max")
    case True
    then obtain digits where d: "cs = digits @ after" "list_all isdigit digits" "n' = n + 1 + length digits"
        "int tag' \<le> int_max \<longrightarrow> tag' = foldl (\<lambda>m c. m * 10 + (code_of c - 48)) (tag * 10 + (code_of c - 48)) digits
           \<and> (after = [] \<or> \<not> isdigit (hd after))"
      using 2 by (auto simp: Let_def)
    then show ?thesis using True by (intro exI[of _ "c # digits"]) auto
  next
    case False
    then show ?thesis using "2.prems" by (intro exI[of _ "[]"]) (auto simp: Let_def split: if_splits)
  qed
qed simp

definition handle_text :: "string \<Rightarrow> string \<Rightarrow> string \<Rightarrow> nat \<Rightarrow> bool" where
  \<comment> \<open>the text begins with the name, a hash and the digits of the tag, followed by its end or a boundary\<close>
  "handle_text t name digits tag \<longleftrightarrow>
     (\<exists>after. t = name @ CHR 0x23 # digits @ after \<and> list_all isdigit digits \<and> digits \<noteq> []
        \<and> digits_value digits = tag \<and> (after = [] \<or> mentionEndBoundary (hd after)))
     \<and> name \<noteq> [] \<and> length name \<le> 400 \<and> \<not> list_ex line_break name \<and> int tag \<le> int_max"

lemma scan_hash_spec:
  assumes "scan_hash name k cs = Some (found, tag)" "k = length name" "\<not> list_ex line_break name"
  shows "\<exists>digits. handle_text (rev name @ cs) found digits tag"
  using assms
proof (induction cs arbitrary: name k)
  case (Cons c cs)
  have go: "\<not> (k > 400 \<or> line_break c)" using Cons.prems(1) by (auto split: if_splits)
  have step: ?case if "scan_hash (c # name) (k + 1) cs = Some (found, tag)"
    using Cons.IH[OF that] Cons.prems(2,3) go by simp
  show ?case
  proof (cases "c \<noteq> CHR 0x23 \<or> k = 0")
    case True
    then show ?thesis using step Cons.prems(1) go by simp
  next
    case False
    obtain t n after where r: "read_tag 0 0 cs = (t, n, after)" by (metis prod_cases3)
    show ?thesis
    proof (cases "n = 0 \<or> int t > int_max \<or> (after \<noteq> [] \<and> \<not> mentionEndBoundary (hd after))")
      case True
      then show ?thesis using step Cons.prems(1) go False r by auto
    next
      case stop: False
      then have e: "found = rev name" "tag = t" using Cons.prems(1) go False r by auto
      obtain digits where d: "cs = digits @ after" "list_all isdigit digits" "n = length digits"
          "t = digits_value digits"
        using read_tag_spec[OF r] stop by (auto simp: digits_value_def int_max_def not_less)
      show ?thesis
        using d stop False go Cons.prems(2,3) e
        by (intro exI[of _ digits]) (auto simp: handle_text_def list_ex_iff)
    qed
  qed
qed simp

definition handle_at :: "char option \<Rightarrow> string \<Rightarrow> string \<times> nat \<Rightarrow> bool" where
  \<comment> \<open>the handle stands somewhere in the text, which the first character precedes\<close>
  "handle_at before t v \<longleftrightarrow>
     (\<exists>a b digits. t = a @ CHR 0x40 # b \<and> handle_text b (fst v) digits (snd v)
        \<and> (if a = [] then before = None \<or> mentionStartBoundary (the before) else mentionStartBoundary (last a)))"

lemma handle_at_Cons:
  assumes "handle_at (Some c) cs v"
  shows "handle_at before (c # cs) v"
proof -
  obtain a b digits where a: "cs = a @ CHR 0x40 # b" "handle_text b (fst v) digits (snd v)"
      "if a = [] then Some c = None \<or> mentionStartBoundary (the (Some c)) else mentionStartBoundary (last a)"
    using assms unfolding handle_at_def by blast
  show ?thesis
    unfolding handle_at_def by (rule exI[of _ "c # a"], rule exI[of _ b], rule exI[of _ digits]) (use a in \<open>auto split: if_splits\<close>)
qed

lemma mention_loop_spec:
  assumes "\<forall>v \<in> set result. P v" "distinct result" "length result \<le> 20" "\<forall>v. handle_at before t v \<longrightarrow> P v"
  shows "(\<forall>v \<in> set (mention_loop before t result). P v) \<and> distinct (mention_loop before t result)
    \<and> length (mention_loop before t result) \<le> 20"
  using assms
proof (induction t arbitrary: before result)
  case (Cons c cs)
  have next_at: "\<forall>v. handle_at (Some c) cs v \<longrightarrow> P v" using Cons.prems(4) handle_at_Cons by blast
  show ?case
  proof (cases "length result \<ge> 20 \<or> c \<noteq> CHR 0x40 \<or> (case before of None \<Rightarrow> False | Some b \<Rightarrow> \<not> mentionStartBoundary b)")
    case True
    then show ?thesis using Cons.IH[OF Cons.prems(1-3) next_at] Cons.prems(1-3) by auto
  next
    case False
    show ?thesis
    proof (cases "scan_hash [] 0 cs")
      case None
      then show ?thesis using Cons.IH[OF Cons.prems(1-3) next_at] False by auto
    next
      case (Some v)
      obtain digits where "handle_text cs (fst v) digits (snd v)"
        using scan_hash_spec[of "[]" 0 cs "fst v" "snd v"] Some by auto
      then have "handle_at before (c # cs) v"
        using False unfolding handle_at_def
        by (intro exI[of _ "[]"] exI[of _ cs] exI[of _ digits]) (auto split: option.splits)
      then have "P v" using Cons.prems(4) by blast
      then have r: "\<forall>x \<in> set (result @ [v]). P x" using Cons.prems(1) by auto
      show ?thesis
      proof (cases "v \<in> set result")
        case True
        then show ?thesis using Cons.IH[OF Cons.prems(1-3) next_at] False Some by auto
      next
        case new: False
        then have "distinct (result @ [v])" "length (result @ [v]) \<le> 20" using Cons.prems(2) False by auto
        from Cons.IH[OF r this next_at] show ?thesis using new False Some by auto
      qed
    qed
  qed
qed simp

text \<open>
  Parsed handles are real and bounded. There are at most 20, all different; each stands in the text as
  an at sign at the start or after a blank or an opening bracket, a name of 1 to 400 characters without a
  line break, a hash, and digits that end at the end of the text or at a boundary; and the tag is the
  value of the digits and fits an \<^verbatim>\<open>int\<close>.
\<close>

theorem parsed_handles_occur:
  "length (parseMentionHandles t) \<le> 20 \<and> distinct (parseMentionHandles t)
   \<and> (\<forall>(name, tag) \<in> set (parseMentionHandles t). \<exists>a b digits. t = a @ CHR 0x40 # b
        \<and> (a = [] \<or> mentionStartBoundary (last a)) \<and> handle_text b name digits tag)"
proof -
  have "(\<forall>v \<in> set (mention_loop None t []). handle_at None t v)
    \<and> distinct (mention_loop None t []) \<and> length (mention_loop None t []) \<le> 20"
    by (rule mention_loop_spec) simp_all
  moreover have "handle_at None t (name, tag) \<Longrightarrow> \<exists>a b digits. t = a @ CHR 0x40 # b
      \<and> (a = [] \<or> mentionStartBoundary (last a)) \<and> handle_text b name digits tag" for name tag
    unfolding handle_at_def by (auto split: if_splits)
  ultimately show ?thesis by (fastforce simp: parseMentionHandles_def)
qed

theorem parsed_handles_occur_witness:
  "\<exists>a b digits. ''hi @kim#1!'' = a @ CHR 0x40 # b \<and> handle_text b ''kim'' digits 1"
proof -
  have "parseMentionHandles ''hi @kim#1!'' = [(''kim'', 1)]" by code_simp
  then have "(''kim'', 1) \<in> set (parseMentionHandles ''hi @kim#1!'')" by simp
  then show ?thesis using parsed_handles_occur[of "''hi @kim#1!''"] by fastforce
qed

lemma read_tag_digits:
  assumes "list_all isdigit ds" "int (foldl (\<lambda>m c. m * 10 + (code_of c - 48)) tag ds) \<le> int_max"
  shows "read_tag tag n ds = (foldl (\<lambda>m c. m * 10 + (code_of c - 48)) tag ds, n + length ds, [])"
  using assms
proof (induction ds arbitrary: tag n)
  case (Cons c ds)
  let ?f = "\<lambda>m c. m * 10 + (code_of c - 48)"
  have grow: "m \<le> foldl ?f m xs" for m xs
  proof (induction xs arbitrary: m)
    case (Cons x xs)
    have "m \<le> ?f m x" by simp
    also have "\<dots> \<le> foldl ?f (?f m x) xs" by (rule Cons.IH)
    finally show ?case by simp
  qed simp
  have "int (?f tag c) \<le> int_max" using grow[of "?f tag c" ds] Cons.prems(2) by simp
  then show ?case using Cons by (simp add: Let_def)
qed simp

lemma mention_loop_plain: "CHR 0x40 \<notin> set cs \<Longrightarrow> mention_loop before cs result = result"
  by (induction cs arbitrary: before) auto

lemma scan_hash_name:
  assumes "CHR 0x23 \<notin> set cs" "\<not> list_ex line_break cs" "k + length cs \<le> 400" "0 < k + length cs"
    "list_all isdigit ds" "ds \<noteq> []" "int (digits_value ds) \<le> int_max"
  shows "scan_hash name k (cs @ CHR 0x23 # ds) = Some (rev name @ cs, digits_value ds)"
  using assms(1-4)
proof (induction cs arbitrary: name k)
  case Nil
  have "read_tag 0 0 ds = (digits_value ds, length ds, [])"
    using read_tag_digits[of ds 0 0] assms(5,7) by (simp add: digits_value_def)
  moreover have "\<not> line_break (CHR 0x23)" by code_simp
  ultimately show ?case using Nil assms(6,7) by simp
qed auto

text \<open>
  A written handle is read back: the text \<open>@name#tag\<close>, for a name of 1 to 400 characters with no
  at sign, hash or line break and a tag that fits an \<^verbatim>\<open>int\<close>, is parsed to exactly this handle.
\<close>

theorem handle_roundtrip:
  assumes "name \<noteq> []" "length name \<le> 400" "CHR 0x23 \<notin> set name" "CHR 0x40 \<notin> set name"
    "\<not> list_ex line_break name" "int tag \<le> int_max"
  shows "parseMentionHandles (CHR 0x40 # name @ CHR 0x23 # to_string tag) = [(name, tag)]"
proof -
  have d: "list_all isdigit (to_string tag)" using to_string_digits by (simp add: list_all_iff)
  have "\<not> isdigit (CHR 0x40)" by code_simp
  then have "CHR 0x40 \<notin> set (to_string tag)" using d by (auto simp: list_all_iff)
  then have rest: "mention_loop (Some (CHR 0x40)) (name @ CHR 0x23 # to_string tag) [(name, tag)] = [(name, tag)]"
    using assms(4) by (intro mention_loop_plain) auto
  have "scan_hash [] 0 (name @ CHR 0x23 # to_string tag) = Some (name, tag)"
    using scan_hash_name[OF assms(3,5) _ _ d, of 0 "[]"] assms(1,2,6) by simp
  then show ?thesis using rest by (simp add: parseMentionHandles_def)
qed

theorem handle_roundtrip_witness: "parseMentionHandles ''@kim lee#12'' = [(''kim lee'', 12)]"
proof -
  have "parseMentionHandles (CHR 0x40 # ''kim lee'' @ CHR 0x23 # to_string 12) = [(''kim lee'', 12)]"
    by (rule handle_roundtrip) code_simp+
  moreover have "to_string 12 = ''12''" by code_simp
  ultimately show ?thesis by simp
qed

end
