(* ===== verification/Redis_Protocol.thy ===== *)
theory Redis_Protocol
  imports Prelude
begin

text \<open>
  \<^verbatim>\<open>cpp/src/memory/RedisClient.cpp\<close>: the RESP transport. A connection holds the bytes its peer
  will send and how many bytes each coming \<open>read\<close> and \<open>write\<close> call moves (0 for a call that fails), so
  every way in which the network cuts the two streams is a value of the record. Commands are encoded as
  arrays of bulk strings; replies are read by the recursive \<open>readResponse\<close>. Shown here: a reply that
  a server sends in any pieces is read back as that reply with nothing of the next one consumed, reading
  ends for every input, and no argument of a command can be taken for protocol.
\<close>

section \<open>The connection\<close>

record redis_conn =
  conn_peer :: "(string \<times> int) option" \<comment> \<open>\<open>socket_fd_\<close> and the endpoint it was opened to; \<open>None\<close> for -1\<close>
  conn_input :: string                  \<comment> \<open>what the peer still sends before the stream ends\<close>
  conn_reads :: "nat list"              \<comment> \<open>the most bytes each of the next \<open>read\<close> calls yields\<close>
  conn_output :: string                 \<comment> \<open>what was written to this socket\<close>
  conn_writes :: "nat list"             \<comment> \<open>the most bytes each of the next \<open>write\<close> calls takes\<close>

abbreviation conn_open :: "redis_conn \<Rightarrow> bool" where
  "conn_open c \<equiv> conn_peer c \<noteq> None"

definition closed_conn :: redis_conn where
  "closed_conn = \<lparr>conn_peer = None, conn_input = [], conn_reads = [], conn_output = [], conn_writes = []\<rparr>"

definition disconnect :: "redis_conn \<Rightarrow> redis_conn" where
  "disconnect c = c\<lparr>conn_peer := None\<rparr>"

definition call_size :: "nat list \<Rightarrow> nat \<Rightarrow> nat" where
  \<comment> \<open>what one call moves of \<open>amount\<close> bytes; after the listed calls every call moves all of them\<close>
  "call_size calls amount = (case calls of [] \<Rightarrow> amount | n # _ \<Rightarrow> min n amount)"

text \<open>On a closed socket both calls fail.\<close>

definition readTransport :: "nat \<Rightarrow> redis_conn \<Rightarrow> string \<times> redis_conn" where
  "readTransport amount c =
     (let n = (if conn_open c then call_size (conn_reads c) amount else 0)
      in (take n (conn_input c), c\<lparr>conn_input := drop n (conn_input c), conn_reads := tl (conn_reads c)\<rparr>))"

definition writeTransport :: "string \<Rightarrow> redis_conn \<Rightarrow> nat \<times> redis_conn" where
  "writeTransport bytes c =
     (let n = (if conn_open c then call_size (conn_writes c) (length bytes) else 0)
      in (n, c\<lparr>conn_output := conn_output c @ take n bytes, conn_writes := tl (conn_writes c)\<rparr>))"

lemma conn_simps [simp]:
  "conn_peer (disconnect c) = None" "conn_input (disconnect c) = conn_input c"
  "conn_peer (snd (readTransport n c)) = conn_peer c" "conn_peer (snd (writeTransport s c)) = conn_peer c"
  "conn_output (snd (readTransport n c)) = conn_output c" "conn_output (disconnect c) = conn_output c"
  "conn_input (snd (writeTransport s c)) = conn_input c"
  by (simp_all add: disconnect_def readTransport_def writeTransport_def Let_def)

lemma readTransport_split: "fst (readTransport n c) @ conn_input (snd (readTransport n c)) = conn_input c"
  by (simp add: readTransport_def Let_def)

lemma readTransport_consumes:
  "(bytes, c') = readTransport n c \<Longrightarrow> length (conn_input c) = length bytes + length (conn_input c')"
  by (metis fst_conv snd_conv readTransport_split length_append)

lemma readTransport_length: "length (fst (readTransport n c)) \<le> n"
  by (auto simp: readTransport_def call_size_def Let_def split: list.splits)

section \<open>Commands\<close>

abbreviation CR :: char where "CR \<equiv> CHR 0x0D"
abbreviation LF :: char where "LF \<equiv> CHR 0x0A"

definition encode_arg :: "string \<Rightarrow> string" where
  "encode_arg arg = CHR ''$'' # to_string (length arg) @ [CR, LF] @ arg @ [CR, LF]"

definition encode_command :: "string list \<Rightarrow> string" where
  "encode_command args = CHR ''*'' # to_string (length args) @ [CR, LF] @ concat (map encode_arg args)"

text \<open>The write loop: a call that takes nothing drops the connection.\<close>

function write_all :: "string \<Rightarrow> redis_conn \<Rightarrow> bool \<times> redis_conn" where
  "write_all message c =
     (if message = [] then (True, c)
      else (let (sent, c1) = writeTransport message c
            in if sent = 0 then (False, disconnect c1) else write_all (drop sent message) c1))"
  by pat_completeness auto
termination
  by (relation "measure (\<lambda>(message, _). length message)") auto

declare write_all.simps [simp del]

text \<open>\<open>sendCommand\<close> on an open socket (\<open>connect\<close> is in \<open>Redis_Sentinel\<close>).\<close>

definition send_open :: "string list \<Rightarrow> redis_conn \<Rightarrow> bool \<times> redis_conn" where
  "send_open args c = write_all (encode_command args) c"

section \<open>Numbers\<close>

text \<open>
  \<^verbatim>\<open>std::stoll\<close> and \<^verbatim>\<open>std::stoi\<close>: leading blanks, a sign, digits; an exception without digits or
  out of range. The result is the number and what follows it.
\<close>

definition parse_integer :: "int \<Rightarrow> int \<Rightarrow> string \<Rightarrow> (int \<times> string) option" where
  "parse_integer lowest highest s =
     (let t = dropWhile isspace s;
          negative = (t \<noteq> [] \<and> hd t = CHR ''-'');
          u = (if t \<noteq> [] \<and> hd t \<in> {CHR ''-'', CHR ''+''} then tl t else t);
          ds = takeWhile isdigit u;
          v = (if negative then - int (digits_value ds) else int (digits_value ds))
      in if ds = [] \<or> v < lowest \<or> v > highest then None else Some (v, dropWhile isdigit u))"

definition stoll_prefix :: "string \<Rightarrow> (int \<times> string) option" where
  "stoll_prefix = parse_integer (- (2 ^ 63)) (2 ^ 63 - 1)"

definition stoi :: "string \<Rightarrow> (int \<times> string) option" where
  "stoi = parse_integer (- (2 ^ 31)) (2 ^ 31 - 1)"

definition parseRespLength :: "string \<Rightarrow> int option" where
  "parseRespLength text =
     (if text = [] then None
      else (case stoll_prefix text of Some (n, []) \<Rightarrow> Some n | _ \<Rightarrow> None))"

section \<open>Replies\<close>

definition kMaximumRedisBulkReplyBytes :: int where
  "kMaximumRedisBulkReplyBytes = 256 * 1024 * 1024"

definition kMaximumRedisArrayElements :: int where
  "kMaximumRedisArrayElements = 1000000"

definition kRedisErrorMarker :: char where
  "kRedisErrorMarker = CHR 0x01"

definition maximum_line :: nat where
  "maximum_line = 64 * 1024"

function read_line :: "string \<Rightarrow> redis_conn \<Rightarrow> string \<times> redis_conn" where
  "read_line line c =
     (if \<not> conn_open c then (line, c)
      else (let (received, c1) = readTransport 1 c
            in if received = [] then ([], disconnect c1)
               else if hd received = CR then
                 (let (following, c2) = readTransport 1 c1
                  in if following = [LF] then (line, c2) else ([], disconnect c2))
               else if length line \<ge> maximum_line then ([], disconnect c1)
               else read_line (line @ [hd received]) c1))"
  by pat_completeness auto
termination
proof (relation "measure (\<lambda>(_, c). length (conn_input c))", goal_cases)
  case (2 line c t received c1)
  then show ?case using readTransport_consumes[of received c1 1 c] by (cases received) auto
qed simp

declare read_line.simps [simp del]

definition readLine :: "redis_conn \<Rightarrow> string \<times> redis_conn" where
  "readLine = read_line []"

text \<open>The two read loops of a bulk reply: they stop at the first call that yields nothing.\<close>

function read_fully :: "nat \<Rightarrow> redis_conn \<Rightarrow> string \<times> redis_conn" where
  "read_fully amount c =
     (if amount = 0 then ([], c)
      else (let (bytes, c1) = readTransport amount c
            in if bytes = [] then ([], c1)
               else (let (rest, c2) = read_fully (amount - length bytes) c1 in (bytes @ rest, c2))))"
  by pat_completeness auto
termination
  by (relation "measure fst") auto

declare read_fully.simps [simp del]

definition read_bulk :: "nat \<Rightarrow> redis_conn \<Rightarrow> string \<times> redis_conn" where
  "read_bulk amount c =
     (let (result, c1) = read_fully amount c;
          (crlf, c2) = read_fully 2 c1
      in if length result \<noteq> amount \<or> crlf \<noteq> [CR, LF] then ([], disconnect c2) else (result, c2))"

definition join_items :: "string list \<Rightarrow> string" where
  "join_items items = (case items of [] \<Rightarrow> [] | x # xs \<Rightarrow> x @ concat (map (\<lambda>y. CHR '' '' # y) xs))"

definition failover_error :: "string \<Rightarrow> bool" where
  "failover_error error \<longleftrightarrow> take 8 error = ''READONLY'' \<or> take 10 error = ''MASTERDOWN''"

text \<open>
  \<open>readResponse\<close>. The first argument bounds the depth of nested arrays: the code recurses once per
  level, and a level costs the peer bytes, so \<open>Suc (length (conn_input c))\<close> levels always suffice
  (\<open>reply_reading_terminates\<close>); \<open>None\<close> stands for running out of it.
\<close>

function read_response :: "nat \<Rightarrow> redis_conn \<Rightarrow> (string \<times> redis_conn) option"
  and read_items :: "nat \<Rightarrow> nat \<Rightarrow> redis_conn \<Rightarrow> (string list \<times> redis_conn) option" where
  "read_response 0 c = None"
| "read_response (Suc fuel) c =
     (if \<not> conn_open c then Some ([], c)
      else (case readLine c of
          ([], c1) \<Rightarrow> Some ([], c1)
        | (kind # payload, c1) \<Rightarrow>
            if kind = CHR ''-'' then
              Some (kRedisErrorMarker # payload, if failover_error payload then disconnect c1 else c1)
            else if kind = CHR ''+'' \<or> kind = CHR '':'' then Some (payload, c1)
            else if kind = CHR ''$'' then
              (case parseRespLength payload of
                 None \<Rightarrow> Some ([], disconnect c1)
               | Some n \<Rightarrow>
                   if n < -1 \<or> n > kMaximumRedisBulkReplyBytes then Some ([], disconnect c1)
                   else if n = -1 then Some ([], c1)
                   else Some (read_bulk (nat n) c1))
            else if kind = CHR ''*'' then
              (case parseRespLength payload of
                 None \<Rightarrow> Some ([], disconnect c1)
               | Some n \<Rightarrow>
                   if n < -1 \<or> n > kMaximumRedisArrayElements then Some ([], disconnect c1)
                   else if n = -1 then Some ([], c1)
                   else (case read_items fuel (nat n) c1 of
                       None \<Rightarrow> None
                     | Some (items, c2) \<Rightarrow> Some (join_items items, c2)))
            else Some (kind # payload, c1)))"
| "read_items fuel 0 c = Some ([], c)"
| "read_items fuel (Suc n) c =
     (case read_response fuel c of
        None \<Rightarrow> None
      | Some (item, c1) \<Rightarrow>
          (case read_items fuel n c1 of None \<Rightarrow> None | Some (items, c2) \<Rightarrow> Some (item # items, c2)))"
  by pat_completeness auto
termination
  by (relation "measures [\<lambda>x. case x of Inl (fuel, _) \<Rightarrow> fuel | Inr (fuel, _, _) \<Rightarrow> fuel,
                          \<lambda>x. case x of Inl _ \<Rightarrow> 0 | Inr (_, n, _) \<Rightarrow> Suc n]") auto

definition readResponse :: "redis_conn \<Rightarrow> string \<times> redis_conn" where
  "readResponse c =
     (case read_response (Suc (length (conn_input c))) c of Some r \<Rightarrow> r | None \<Rightarrow> ([], c))"


section \<open>Reading ends\<close>

lemma read_line_shrinks:
  "read_line line c = (t, c') \<Longrightarrow> length (conn_input c') \<le> length (conn_input c)
     \<and> (line = [] \<longrightarrow> t \<noteq> [] \<longrightarrow> length (conn_input c') < length (conn_input c))"
proof (induction line c arbitrary: t c' rule: read_line.induct)
  case (1 line c)
  show ?case
  proof (cases "conn_open c")
    case False
    then show ?thesis using 1(2) by (auto simp: read_line.simps[of line c])
  next
    case True
    obtain received c1 where r: "readTransport 1 c = (received, c1)" by force
    obtain following c2 where f: "readTransport 1 c1 = (following, c2)" by force
    have len: "length (conn_input c) = length received + length (conn_input c1)"
        "length (conn_input c1) = length following + length (conn_input c2)"
      using readTransport_consumes r f by metis+
    show ?thesis
      using 1(2)[unfolded read_line.simps[of line c]] True r f len 1(1)[OF _ r[symmetric] refl, of t c']
      by (cases received; auto simp: Let_def split: if_splits)
  qed
qed

lemma read_fully_split: "read_fully n c = (bytes, c') \<Longrightarrow> conn_input c = bytes @ conn_input c'"
proof (induction n c arbitrary: bytes c' rule: read_fully.induct)
  case (1 n c)
  obtain b c1 where b: "readTransport n c = (b, c1)" by force
  have "conn_input c = b @ conn_input c1" using readTransport_split[of n c] b by simp
  then show ?case
    using 1(2)[unfolded read_fully.simps[of n c]] b 1(1)[OF _ b[symmetric] refl]
    by (auto simp: Let_def split: if_splits prod.splits)
qed

lemma read_bulk_shrinks: "read_bulk n c = (t, c') \<Longrightarrow> length (conn_input c') \<le> length (conn_input c)"
  by (auto simp: read_bulk_def Let_def split: prod.splits if_splits dest!: read_fully_split)

lemma reply_shrinks:
  "read_response fuel c = Some (t, c') \<Longrightarrow> length (conn_input c') \<le> length (conn_input c)"
  "read_items fuel n c = Some (ts, c') \<Longrightarrow> length (conn_input c') \<le> length (conn_input c)"
proof (induction fuel c and fuel n c arbitrary: t c' and ts c' rule: read_response_read_items.induct)
  case (2 fuel c)
  obtain line c1 where l: "readLine c = (line, c1)" by force
  have "length (conn_input c1) \<le> length (conn_input c)"
    using read_line_shrinks[of "[]" c] l by (simp add: readLine_def)
  then show ?case
    using 2 l read_bulk_shrinks
    by (force split: if_splits list.splits option.splits simp: le_trans)
next
  case (4 fuel n c)
  then show ?case by (fastforce split: option.splits)
qed auto

lemma reply_fuel:
  "length (conn_input c) < fuel \<Longrightarrow> read_response fuel c \<noteq> None"
  "length (conn_input c) < fuel \<Longrightarrow> read_items fuel n c \<noteq> None"
proof (induction fuel c and fuel n c rule: read_response_read_items.induct)
  case (2 fuel c)
  obtain line c1 where l: "readLine c = (line, c1)" by force
  have "line \<noteq> [] \<Longrightarrow> length (conn_input c1) < fuel"
    using read_line_shrinks[of "[]" c] l 2(2) by (auto simp: readLine_def)
  then show ?case
    using 2(1)[OF _ l[symmetric]] l by (auto split: list.splits option.splits) fastforce+
next
  case (4 fuel n c)
  then show ?case using reply_shrinks(1)[of fuel c] by (fastforce split: option.splits)
qed auto

section \<open>What a server sends\<close>

text \<open>
  The reply protocol, stated as data: how a value is laid out on the wire and what the client's callers
  get for it (an array becomes its items joined by blanks, an absent value the empty text).
\<close>

datatype resp = Status string | Failure string | Number int | Bulk string | Absent | Absent_Array | Array "resp list"

definition number_text :: "int \<Rightarrow> string" where
  "number_text i = (if i < 0 then CHR ''-'' # to_string (nat (- i)) else to_string (nat i))"

fun encode_reply :: "resp \<Rightarrow> string" where
  "encode_reply (Status s) = CHR ''+'' # s @ [CR, LF]"
| "encode_reply (Failure s) = CHR ''-'' # s @ [CR, LF]"
| "encode_reply (Number i) = CHR '':'' # number_text i @ [CR, LF]"
| "encode_reply (Bulk s) = CHR ''$'' # to_string (length s) @ [CR, LF] @ s @ [CR, LF]"
| "encode_reply Absent = ''$-1'' @ [CR, LF]"
| "encode_reply Absent_Array = ''*-1'' @ [CR, LF]"
| "encode_reply (Array rs) = CHR ''*'' # to_string (length rs) @ [CR, LF] @ concat (map encode_reply rs)"

fun reply_text :: "resp \<Rightarrow> string" where
  "reply_text (Status s) = s"
| "reply_text (Failure s) = kRedisErrorMarker # s"
| "reply_text (Number i) = number_text i"
| "reply_text (Bulk s) = s"
| "reply_text Absent = []"
| "reply_text Absent_Array = []"
| "reply_text (Array rs) = join_items (map reply_text rs)"

definition line_ok :: "string \<Rightarrow> bool" where
  "line_ok s \<longleftrightarrow> CR \<notin> set s \<and> length s < maximum_line"

fun resp_ok :: "resp \<Rightarrow> bool" where
  "resp_ok (Status s) = line_ok s"
| "resp_ok (Failure s) = (line_ok s \<and> \<not> failover_error s)"
| "resp_ok (Number i) = line_ok (number_text i)"
| "resp_ok (Bulk s) = (int (length s) \<le> kMaximumRedisBulkReplyBytes)"
| "resp_ok (Array rs) = (int (length rs) \<le> kMaximumRedisArrayElements \<and> (\<forall>r \<in> set rs. resp_ok r))"
| "resp_ok _ = True"

text \<open>One connection after another when \<open>bytes\<close> were read, with no failing call ahead.\<close>

definition calls_ok :: "redis_conn \<Rightarrow> bool" where
  "calls_ok c \<longleftrightarrow> conn_open c \<and> 0 \<notin> set (conn_reads c)"

definition took :: "string \<Rightarrow> redis_conn \<Rightarrow> redis_conn \<Rightarrow> bool" where
  "took bytes c c' \<longleftrightarrow> conn_input c = bytes @ conn_input c' \<and> calls_ok c'
     \<and> conn_peer c' = conn_peer c \<and> conn_output c' = conn_output c \<and> conn_writes c' = conn_writes c"

lemma took_Nil: "calls_ok c \<Longrightarrow> took [] c c"
  by (simp add: took_def)

lemma took_trans: "took a c c1 \<Longrightarrow> took b c1 c2 \<Longrightarrow> took (a @ b) c c2"
  by (auto simp: took_def)

lemma took_ok: "took a c c' \<Longrightarrow> calls_ok c'"
  by (simp add: took_def)

lemma readTransport_took:
  assumes "calls_ok c" "conn_input c = x # rest" "0 < n"
  obtains bytes c1 where "readTransport n c = (bytes, c1)" "bytes \<noteq> []" "length bytes \<le> n" "took bytes c c1"
proof -
  have "0 < call_size (conn_reads c) n"
    using assms by (cases "conn_reads c") (auto simp: call_size_def calls_ok_def)
  moreover have "0 \<notin> set (tl (conn_reads c))"
    using assms(1) by (cases "conn_reads c") (auto simp: calls_ok_def)
  ultimately show ?thesis
    using assms(1,2) readTransport_length[of n c] that[OF prod.collapse[symmetric]]
    by (auto simp: readTransport_def Let_def took_def calls_ok_def)
qed

lemma read_char_took:
  assumes "calls_ok c" "conn_input c = x # rest"
  obtains c1 where "readTransport 1 c = ([x], c1)" "took [x] c c1" "conn_input c1 = rest"
proof -
  obtain bytes c1 where "readTransport 1 c = (bytes, c1)" "bytes \<noteq> []" "length bytes \<le> 1" "took bytes c c1"
    using readTransport_took[OF assms] by auto
  moreover from this have "bytes = [x]" "conn_input c1 = rest"
    using assms(2) by (cases bytes; simp add: took_def)+
  ultimately show ?thesis using that by blast
qed

lemma read_line_took:
  assumes "calls_ok c" "conn_input c = s @ CR # LF # rest" "CR \<notin> set s" "length line + length s \<le> maximum_line"
  shows "\<exists>c'. read_line line c = (line @ s, c') \<and> took (s @ [CR, LF]) c c'"
  using assms
proof (induction s arbitrary: line c)
  case Nil
  obtain c1 where c1: "readTransport 1 c = ([CR], c1)" "took [CR] c c1" "conn_input c1 = LF # rest"
    using read_char_took[of c CR] Nil by auto
  obtain c2 where c2: "readTransport 1 c1 = ([LF], c2)" "took [LF] c1 c2"
    using read_char_took[OF took_ok[OF c1(2)] c1(3)] by blast
  have "took [CR, LF] c c2" using took_trans[OF c1(2) c2(2)] by simp
  then show ?case
    using c1(1) c2(1) Nil.prems(1) by (auto simp: read_line.simps[of line c] calls_ok_def)
next
  case (Cons x s)
  obtain c1 where c1: "readTransport 1 c = ([x], c1)" "took [x] c c1" "conn_input c1 = s @ CR # LF # rest"
    using read_char_took[of c x] Cons.prems by auto
  have "calls_ok c1" using c1(2) by (simp add: took_def)
  then obtain c' where "read_line (line @ [x]) c1 = ((line @ [x]) @ s, c')" "took (s @ [CR, LF]) c1 c'"
    using Cons.IH[of c1 "line @ [x]"] c1(3) Cons.prems by auto
  moreover have "took (x # s @ [CR, LF]) c c'" using took_trans[OF c1(2)] calculation(2) by fastforce
  ultimately show ?case
    using c1(1) Cons.prems by (auto simp: read_line.simps[of line c] calls_ok_def)
qed

lemma read_fully_took:
  assumes "calls_ok c" "conn_input c = s @ rest" "length s = n"
  shows "\<exists>c'. read_fully n c = (s, c') \<and> took s c c'"
  using assms
proof (induction n c arbitrary: s rule: read_fully.induct)
  case (1 n c)
  show ?case
  proof (cases "n = 0")
    case True
    then show ?thesis using 1 took_Nil by (auto simp: read_fully.simps[of 0])
  next
    case False
    obtain x xs where x: "s = x # xs" using False 1(4) by (cases s) auto
    obtain b c1 where b: "readTransport n c = (b, c1)" "b \<noteq> []" "length b \<le> n" "took b c c1"
      using readTransport_took[of c x "xs @ rest" n] 1(2,3) x False by auto
    obtain s' where s': "s = b @ s'" "conn_input c1 = s' @ rest"
    proof (rule that)
      have "b @ conn_input c1 = s @ rest" using b(4) 1(3) by (simp add: took_def)
      then show "conn_input c1 = drop (length b) s @ rest" "s = b @ drop (length b) s"
        using b(3) 1(4) by (auto simp: append_eq_append_conv_if) (metis append_take_drop_id)
    qed
    have "\<exists>c'. read_fully (n - length b) c1 = (s', c') \<and> took s' c1 c'"
      using 1(1)[OF False b(1)[symmetric] refl b(2) took_ok[OF b(4)] s'(2)] s'(1) 1(4) by simp
    then show ?thesis
      using b took_trans[OF b(4)] s'(1) False by (auto simp: read_fully.simps[of n c])
  qed
qed

section \<open>Numbers on the wire\<close>

lemma not_digits [simp]: "\<not> isdigit CR" "\<not> isdigit (CHR ''-'')" "\<not> isdigit (CHR ''+'')" "\<not> isspace (CHR ''-'')"
  by code_simp+

lemma digit_not_space: "isdigit c \<Longrightarrow> \<not> isspace c \<and> c \<noteq> CHR ''-'' \<and> c \<noteq> CHR ''+'' \<and> c \<noteq> CR"
  using not_digits by (auto simp: isdigit_def isspace_def)

lemma to_string_set: "c \<in> set (to_string n) \<Longrightarrow> isdigit c"
  using to_string_digits[of n] by blast

lemma parse_integer_digits:
  assumes "list_all isdigit ds" "ds \<noteq> []" "rest = [] \<or> \<not> isdigit (hd rest)" "lowest \<le> int (digits_value ds)"
    "int (digits_value ds) \<le> highest"
  shows "parse_integer lowest highest (ds @ rest) = Some (int (digits_value ds), rest)"
proof -
  obtain d ds' where d: "ds = d # ds'" "isdigit d" using assms(1,2) by (cases ds) auto
  have "takeWhile isdigit rest = []" "dropWhile isdigit rest = rest" using assms(3) by (cases rest; simp)+
  then have "takeWhile isdigit (ds @ rest) = ds" "dropWhile isdigit (ds @ rest) = rest"
    using assms(1) by (auto simp: list_all_iff takeWhile_append dropWhile_append)
  then show ?thesis
    using assms(2,4,5) digit_not_space[OF d(2)] d(1) by (simp add: parse_integer_def Let_def)
qed

lemma parseRespLength_to_string: "int n < 2 ^ 63 \<Longrightarrow> parseRespLength (to_string n) = Some (int n)"
  using parse_integer_digits[of "to_string n" "[]" "- (2 ^ 63)" "2 ^ 63 - 1"] to_string_digits[of n]
  by (simp add: parseRespLength_def stoll_prefix_def list_all_iff)

lemma parseRespLength_minus: "parseRespLength ''-1'' = Some (-1)"
  by code_simp

lemma CR_not_in_number: "CR \<notin> set (to_string n)"
  using to_string_set digit_not_space by blast

section \<open>Reading back what was sent\<close>

lemma to_string_length: "length (to_string n) \<le> Suc n"
proof (induction n rule: to_string.induct)
  case (1 n)
  then show ?case by (cases "n < 10") (simp_all add: to_string.simps[of n])
qed

lemma to_string_short: "n < 10 ^ k \<Longrightarrow> 0 < k \<Longrightarrow> length (to_string n) \<le> k"
proof (induction n arbitrary: k rule: to_string.induct)
  case (1 n)
  show ?case
  proof (cases "n < 10")
    case True
    then show ?thesis using 1(3) by (simp add: to_string.simps[of n])
  next
    case False
    obtain j where k: "k = Suc j" using 1(3) by (cases k) auto
    then have j: "k = Suc j" "0 < j" using 1(2) False by (cases j; simp)+
    then have "n div 10 < 10 ^ j" using 1(2) by simp
    then show ?thesis using 1(1)[OF False, of j] j False by (simp add: to_string.simps[of n])
  qed
qed

lemma read_header:
  assumes "calls_ok c" "conn_input c = kind # s @ CR # LF # rest" "CR \<notin> set (kind # s)" "length s < maximum_line"
  obtains c1 where "readLine c = (kind # s, c1)" "took (kind # s @ [CR, LF]) c c1" "conn_input c1 = rest"
proof -
  obtain c1 where "read_line [] c = (kind # s, c1)" "took (kind # s @ [CR, LF]) c c1"
    using read_line_took[OF assms(1), of "kind # s" rest "[]"] assms(2-) by auto
  moreover from this(2) have "conn_input c1 = rest" using assms(2) by (simp add: took_def)
  ultimately show ?thesis using that by (simp add: readLine_def)
qed

lemma read_bulk_took:
  assumes "calls_ok c" "conn_input c = s @ [CR, LF] @ rest"
  shows "\<exists>c'. read_bulk (length s) c = (s, c') \<and> took (s @ [CR, LF]) c c'"
proof -
  obtain c1 where c1: "read_fully (length s) c = (s, c1)" "took s c c1"
    using read_fully_took[OF assms refl] by blast
  have "conn_input c1 = [CR, LF] @ rest" using c1(2) assms(2) by (simp add: took_def)
  then obtain c2 where c2: "read_fully 2 c1 = ([CR, LF], c2)" "took [CR, LF] c1 c2"
    using read_fully_took[OF took_ok[OF c1(2)], of "[CR, LF]" rest 2] by auto
  then show ?thesis using c1(1) took_trans[OF c1(2) c2(2)] by (simp add: read_bulk_def)
qed

definition reads_back :: "resp \<Rightarrow> bool" where
  "reads_back r \<longleftrightarrow> (\<forall>c rest fuel. calls_ok c \<longrightarrow> conn_input c = encode_reply r @ rest
      \<longrightarrow> length (conn_input c) < fuel
      \<longrightarrow> (\<exists>c'. read_response fuel c = Some (reply_text r, c') \<and> took (encode_reply r) c c'))"

lemma read_items_took:
  assumes "\<forall>r \<in> set rs. reads_back r" and "calls_ok c" "conn_input c = concat (map encode_reply rs) @ rest" "length (conn_input c) < fuel"
  shows "\<exists>c'. read_items fuel (length rs) c = Some (map reply_text rs, c')
      \<and> took (concat (map encode_reply rs)) c c'"
  using assms
proof (induction rs arbitrary: c)
  case Nil
  then show ?case using took_Nil by auto
next
  case (Cons r rs)
  obtain c1 where c1: "read_response fuel c = Some (reply_text r, c1)" "took (encode_reply r) c c1"
    using Cons.prems(1)[simplified, THEN conjunct1, unfolded reads_back_def, rule_format, of c _ fuel]
      Cons.prems(2-) by simp blast
  have i: "conn_input c1 = concat (map encode_reply rs) @ rest"
    using c1(2) Cons.prems(3) by (simp add: took_def)
  have "length (conn_input c1) < fuel" using i Cons.prems(3,4) by simp
  then obtain c2 where c2: "read_items fuel (length rs) c1 = Some (map reply_text rs, c2)"
      "took (concat (map encode_reply rs)) c1 c2"
    using Cons.IH[OF _ took_ok[OF c1(2)] i] Cons.prems(1) by auto
  then show ?case using c1(1) took_trans[OF c1(2) c2(2)] by simp
qed

lemma number_line: "int n \<le> 2 ^ 30 \<Longrightarrow> length (to_string n) < maximum_line"
  using to_string_short[of n 10] by (simp add: maximum_line_def)

lemma reply_read:
  assumes "resp_ok r" "calls_ok c" "conn_input c = encode_reply r @ rest" "length (conn_input c) < fuel"
  shows "\<exists>c'. read_response fuel c = Some (reply_text r, c') \<and> took (encode_reply r) c c'"
  using assms
proof (induction r arbitrary: c rest fuel)
  case (Array rs)
  have b: "\<forall>r \<in> set rs. reads_back r"
    unfolding reads_back_def using Array.IH Array.prems(1) by simp
  have n: "int (length rs) \<le> 2 ^ 30" using Array.prems(1) by (simp add: kMaximumRedisArrayElements_def)
  obtain m where m: "fuel = Suc m" using Array.prems(4) by (cases fuel) auto
  let ?h = "CHR ''*'' # to_string (length rs) @ [CR, LF]"
  obtain c1 where c1: "readLine c = (CHR ''*'' # to_string (length rs), c1)" "took ?h c c1"
      "conn_input c1 = concat (map encode_reply rs) @ rest"
    using read_header[of c "CHR ''*''" "to_string (length rs)" "concat (map encode_reply rs) @ rest"]
      Array.prems(2,3) CR_not_in_number number_line[OF n] by auto
  have "length (conn_input c1) < m" using c1(3) Array.prems(3,4) m by simp
  then obtain c2 where "read_items m (length rs) c1 = Some (map reply_text rs, c2)"
      "took (concat (map encode_reply rs)) c1 c2"
    using read_items_took[OF b took_ok[OF c1(2)] c1(3)] by auto
  then show ?case
    using c1(1) took_trans[OF c1(2)] m n Array.prems(1,2) parseRespLength_to_string[of "length rs"]
    by (auto simp: calls_ok_def)
next
  case (Bulk s)
  have n: "int (length s) \<le> 2 ^ 30" using Bulk.prems(1) by (simp add: kMaximumRedisBulkReplyBytes_def)
  obtain m where m: "fuel = Suc m" using Bulk.prems(4) by (cases fuel) auto
  let ?h = "CHR ''$'' # to_string (length s) @ [CR, LF]"
  obtain c1 where c1: "readLine c = (CHR ''$'' # to_string (length s), c1)" "took ?h c c1"
      "conn_input c1 = s @ [CR, LF] @ rest"
    using read_header[of c "CHR ''$''" "to_string (length s)" "s @ [CR, LF] @ rest"]
      Bulk.prems(2,3) CR_not_in_number number_line[OF n] by auto
  obtain c2 where "read_bulk (length s) c1 = (s, c2)" "took (s @ [CR, LF]) c1 c2"
    using read_bulk_took[OF took_ok[OF c1(2)] c1(3)] by auto
  then show ?case
    using c1(1) took_trans[OF c1(2)] m n Bulk.prems(1,2) parseRespLength_to_string[of "length s"]
    by (auto simp: calls_ok_def)
next
  case (Status s)
  obtain m where m: "fuel = Suc m" using Status.prems(4) by (cases fuel) auto
  show ?case
    using read_header[of c "CHR ''+''" s rest] Status.prems m by (force simp: line_ok_def calls_ok_def)
next
  case (Failure s)
  obtain m where m: "fuel = Suc m" using Failure.prems(4) by (cases fuel) auto
  show ?case
    using read_header[of c "CHR ''-''" s rest] Failure.prems m by (force simp: line_ok_def calls_ok_def)
next
  case (Number i)
  obtain m where m: "fuel = Suc m" using Number.prems(4) by (cases fuel) auto
  show ?case
    using read_header[of c "CHR '':''" "number_text i" rest] Number.prems m by (force simp: line_ok_def calls_ok_def)
next
  case Absent
  obtain m where m: "fuel = Suc m" using Absent.prems(4) by (cases fuel) auto
  show ?case
    using read_header[of c "CHR ''$''" "''-1''" rest] Absent.prems m parseRespLength_minus
    by (force simp: maximum_line_def calls_ok_def kMaximumRedisBulkReplyBytes_def)
next
  case Absent_Array
  obtain m where m: "fuel = Suc m" using Absent_Array.prems(4) by (cases fuel) auto
  show ?case
    using read_header[of c "CHR ''*''" "''-1''" rest] Absent_Array.prems m parseRespLength_minus
    by (force simp: maximum_line_def calls_ok_def kMaximumRedisArrayElements_def)
qed

text \<open>
  Whatever the peer sends, in whatever pieces, and wherever the stream ends, \<open>readResponse\<close> returns:
  the recursion over nested arrays and all its loops end, and input is only consumed.
\<close>

theorem reply_reading_terminates:
  "\<exists>t c'. read_response (Suc (length (conn_input c))) c = Some (t, c') \<and> readResponse c = (t, c')
     \<and> length (conn_input c') \<le> length (conn_input c)"
proof -
  obtain t c' where r: "read_response (Suc (length (conn_input c))) c = Some (t, c')"
    using reply_fuel(1)[of c "Suc (length (conn_input c))"] by fastforce
  then show ?thesis using reply_shrinks(1)[OF r] by (simp add: readResponse_def del: read_response.simps)
qed

lemma readResponse_took:
  assumes "resp_ok r" "calls_ok c" "conn_input c = encode_reply r @ rest"
  obtains c' where "readResponse c = (reply_text r, c')" "took (encode_reply r) c c'" "conn_input c' = rest"
proof -
  obtain c' where "read_response (Suc (length (conn_input c))) c = Some (reply_text r, c')"
      "took (encode_reply r) c c'"
    using reply_read[OF assms] by blast
  moreover from this(2) have "conn_input c' = rest" using assms(3) by (simp add: took_def)
  ultimately show ?thesis using that by (simp add: readResponse_def del: read_response.simps)
qed

text \<open>
  C31. A reply within the limits (lines below 64 KiB, bulk strings up to 256 MiB, arrays up to a million
  items) is read back exactly, in whatever pieces the network delivers it: \<open>readResponse\<close> returns its
  text, keeps the connection and leaves every byte of what follows for the next reply.
\<close>

theorem reply_is_read_back:
  assumes "resp_ok r" "calls_ok c" "conn_input c = encode_reply r @ rest"
  shows "\<exists>c'. readResponse c = (reply_text r, c') \<and> conn_peer c' = conn_peer c \<and> conn_input c' = rest
    \<and> calls_ok c'"
proof -
  obtain c' where "readResponse c = (reply_text r, c')" "took (encode_reply r) c c'" "conn_input c' = rest"
    using readResponse_took[OF assms] .
  then show ?thesis by (auto simp: took_def)
qed

definition sample_conn :: redis_conn where
  \<comment> \<open>an array of a bulk string and an absent value, a byte at a time, and then a status\<close>
  "sample_conn = \<lparr>conn_peer = Some (''db'', 6379),
     conn_input = encode_reply (Array [Bulk [CR, LF], Absent]) @ encode_reply (Status ''OK''),
     conn_reads = replicate 12 1, conn_output = [], conn_writes = []\<rparr>"

theorem reply_is_read_back_witness:
  "\<exists>c'. readResponse sample_conn = ([CR, LF, CHR '' ''], c') \<and> conn_peer c' = Some (''db'', 6379)
     \<and> conn_input c' = encode_reply (Status ''OK'') \<and> calls_ok c'"
proof -
  have "resp_ok (Array [Bulk [CR, LF], Absent])" "calls_ok sample_conn"
    by (simp_all add: calls_ok_def sample_conn_def kMaximumRedisBulkReplyBytes_def kMaximumRedisArrayElements_def)
  then show ?thesis
    using reply_is_read_back[of "Array [Bulk [CR, LF], Absent]" sample_conn "encode_reply (Status ''OK'')"]
    by (simp add: sample_conn_def join_items_def)
qed

section \<open>Commands cannot be injected\<close>

lemma number_line_inject:
  "to_string m @ CR # x = to_string n @ CR # y \<longleftrightarrow> m = n \<and> x = y"
proof
  assume e: "to_string m @ CR # x = to_string n @ CR # y"
  have "takeWhile isdigit (to_string k @ CR # z) = to_string k" for k z
    using to_string_digits[of k] by (simp add: takeWhile_append)
  then have "to_string m = to_string n" using e by metis
  then have "m = n" using digits_value_to_string by metis
  then show "m = n \<and> x = y" using e by simp
qed simp

lemma encode_arg_inject: "encode_arg a @ x = encode_arg b @ y \<longleftrightarrow> a = b \<and> x = y"
  by (auto simp: encode_arg_def number_line_inject)

text \<open>
  What \<open>sendCommand\<close> writes determines the arguments and where the command ends, whatever bytes the
  arguments hold: a line break, a dollar sign or a whole command inside a key or a document is data. Two
  different command lines never look alike, and no command is the beginning of another.
\<close>

theorem commands_cannot_be_injected:
  "encode_command as @ x = encode_command bs @ y \<longleftrightarrow> as = bs \<and> x = y"
proof -
  have "length as = length bs \<Longrightarrow>
      concat (map encode_arg as) @ x = concat (map encode_arg bs) @ y \<longleftrightarrow> as = bs \<and> x = y"
    by (induction as bs rule: list_induct2) (auto simp: encode_arg_inject)
  then show ?thesis by (auto simp: encode_command_def number_line_inject)
qed

end
