(* ===== verification/Redis_Sentinel.thy ===== *)
theory Redis_Sentinel
  imports Redis_Protocol Json
begin

text \<open>
  \<^verbatim>\<open>cpp/src/memory/RedisClient.cpp\<close>: how a client finds the writable Redis primary through its
  Sentinels, and \<open>sendCommand\<close>, \<open>ping\<close> and \<open>execute\<close> on top of the transport of \<open>Redis_Protocol\<close>; with
  \<^verbatim>\<open>Environment.hpp\<close> (configuration values) and \<^verbatim>\<open>StorageEndpointRoutes.hpp\<close> (which address an
  endpoint is dialled at). The operating system and OpenSSL are a parameter: for the n-th dial it says
  how each resolved address behaves and what its peer will send. Waiting and logging are not modelled.
\<close>

section \<open>Configuration\<close>

text \<open>\<open>environmentValue\<close>: the variable, or the content of the file named by its \<open>_FILE\<close> variant.\<close>

definition environmentValue :: "(string \<Rightarrow> string option) \<Rightarrow> (string \<Rightarrow> string option) \<Rightarrow> string \<Rightarrow> string" where
  "environmentValue getenv read_file name =
     (case getenv name of
        Some (c # cs) \<Rightarrow> c # cs
      | _ \<Rightarrow>
          (case getenv (name @ ''_FILE'') of
             Some (p # ps) \<Rightarrow>
               (case read_file (p # ps) of
                  None \<Rightarrow> []
                | Some content \<Rightarrow> rev (dropWhile (\<lambda>c. c = LF \<or> c = CR) (rev content)))
           | _ \<Rightarrow> []))"

definition envOr :: "(string \<Rightarrow> string) \<Rightarrow> string \<Rightarrow> string \<Rightarrow> string" where
  "envOr env name configured = (if configured \<noteq> [] then configured else env name)"

definition tolower_char :: "char \<Rightarrow> char" where
  "tolower_char c = (if 65 \<le> code_of c \<and> code_of c \<le> 90 then char_of (code_of c + 32) else c)"

definition envEnabled :: "(string \<Rightarrow> string option) \<Rightarrow> string \<Rightarrow> bool" where
  "envEnabled getenv name =
     (case getenv name of
        None \<Rightarrow> True
      | Some configured \<Rightarrow> configured = [] \<or> map tolower_char configured \<in> {''true'', ''1'', ''yes''})"

text \<open>\<open>parseSentinelSeeds\<close>.\<close>

definition seed_blank :: "char \<Rightarrow> bool" where
  "seed_blank c \<longleftrightarrow> c = CHR '' '' \<or> c = CHR 0x09 \<or> c = CR \<or> c = LF"

definition trim_blanks :: "string \<Rightarrow> string" where
  "trim_blanks s = rev (dropWhile seed_blank (rev (dropWhile seed_blank s)))"

fun split_commas :: "string \<Rightarrow> string list" where
  "split_commas [] = [[]]"
| "split_commas (c # cs) =
     (if c = CHR '','' then [] # split_commas cs
      else (case split_commas cs of [] \<Rightarrow> [[c]] | w # ws \<Rightarrow> (c # w) # ws))"

definition split_seed :: "string \<Rightarrow> (string \<times> string) option" where
  \<comment> \<open>the host and the text of the port: \<open>[v6 address]:port\<close>, or up to the last colon\<close>
  "split_seed entry =
     (if entry \<noteq> [] \<and> hd entry = CHR ''['' then
        (case dropWhile (\<lambda>c. c \<noteq> CHR '']'') entry of
           _ # c # port_text \<Rightarrow>
             if c = CHR '':'' then Some (takeWhile (\<lambda>c. c \<noteq> CHR '']'') (tl entry), port_text) else None
         | _ \<Rightarrow> None)
      else if CHR '':'' \<notin> set entry then None
      else Some (rev (tl (dropWhile (\<lambda>c. c \<noteq> CHR '':'') (rev entry))),
                 rev (takeWhile (\<lambda>c. c \<noteq> CHR '':'') (rev entry))))"

definition parse_seed :: "string \<Rightarrow> (string \<times> int) option" where
  "parse_seed entry =
     (case split_seed entry of
        None \<Rightarrow> None
      | Some (host, port_text) \<Rightarrow>
          (case stoi port_text of
             None \<Rightarrow> None
           | Some (port, _) \<Rightarrow> if host \<noteq> [] \<and> port > 0 \<and> port \<le> 65535 then Some (host, port) else None))"

definition parseSentinelSeeds :: "string option \<Rightarrow> (string \<times> int) list" where
  "parseSentinelSeeds configured =
     (case configured of
        None \<Rightarrow> []
      | Some s \<Rightarrow>
          List.map_filter parse_seed (filter (\<lambda>entry. entry \<noteq> []) (map trim_blanks (split_commas s))))"

text \<open>\<open>resolveStorageDialAddress\<close>: with routes configured, an endpoint outside of them is not dialled.\<close>

definition endpoint_name :: "string \<Rightarrow> int \<Rightarrow> string" where
  "endpoint_name host port = host @ CHR '':'' # number_text port"

definition resolveStorageDialAddress :: "json_lib \<Rightarrow> string \<Rightarrow> string \<Rightarrow> int \<Rightarrow> (string \<times> int) option" where
  "resolveStorageDialAddress L routes identity port =
     (if routes = [] then Some (identity, port)
      else (case jl_parse L routes of
          None \<Rightarrow> None
        | Some mapping \<Rightarrow>
            if \<not> is_object mapping then None
            else (case jget mapping (endpoint_name identity port) of
                None \<Rightarrow> None
              | Some entry \<Rightarrow>
                  if \<not> is_object entry then None
                  else (case (jget entry ''host'', jget entry ''port'') of
                      (Some (JStr host), Some (JInt target)) \<Rightarrow>
                        if host = [] \<or> as_int64 target < 1 \<or> as_int64 target > 65535 then None
                        else Some (host, as_int64 target)
                    | _ \<Rightarrow> None))))"

section \<open>Dialling\<close>

text \<open>
  How one resolved address behaves: whether a socket can be made, what the non-blocking \<open>connect\<close>
  does, which of the OpenSSL calls succeed, and the streams of the connection it gives.
\<close>

datatype connect_result = Connected | Refused | In_Progress bool bool
  \<comment> \<open>in progress: whether \<open>poll\<close> reports the socket in time, and whether it then shows no error\<close>

record dial_attempt =
  da_socket :: bool
  da_connect :: connect_result
  da_ssl_new :: bool
  da_is_ip :: bool
  da_sni_set :: bool
  da_identity_set :: bool
  da_handshake :: bool
  da_verified :: bool
  da_input :: string
  da_reads :: "nat list"
  da_writes :: "nat list"

record redis_client =
  rc_user :: string
  rc_password :: string
  rc_master_name :: string
  rc_sentinel_user :: string
  rc_sentinel_password :: string
  rc_seeds :: "(string \<times> int) list"
  rc_tls :: bool
  rc_tls_valid :: bool
  rc_routes :: string
  rc_conn :: redis_conn
  rc_dials :: nat                        \<comment> \<open>how many dials were made: the moment in the network's life\<close>

record network =
  nw_json :: json_lib
  nw_dial :: "nat \<Rightarrow> string \<times> int \<Rightarrow> nat \<Rightarrow> dial_attempt list"
    \<comment> \<open>the n-th dial, its address and timeout: the addresses \<open>getaddrinfo\<close> gives, empty when it fails\<close>

definition tcp_connected :: "dial_attempt \<Rightarrow> bool" where
  "tcp_connected a \<longleftrightarrow> da_socket a
     \<and> (case da_connect a of
          Connected \<Rightarrow> True | Refused \<Rightarrow> False | In_Progress in_time no_error \<Rightarrow> in_time \<and> no_error)"

definition tls_accepted :: "dial_attempt \<Rightarrow> bool" where
  "tls_accepted a \<longleftrightarrow> da_ssl_new a
     \<and> \<not> ((\<not> da_is_ip a \<and> \<not> da_sni_set a) \<or> \<not> da_identity_set a \<or> \<not> da_handshake a \<or> \<not> da_verified a)"

definition usable :: "bool \<Rightarrow> dial_attempt \<Rightarrow> bool" where
  "usable tls a \<longleftrightarrow> tcp_connected a \<and> (tls \<longrightarrow> tls_accepted a)"

definition on_conn :: "(redis_conn \<Rightarrow> 'a \<times> redis_conn) \<Rightarrow> redis_client \<Rightarrow> 'a \<times> redis_client" where
  "on_conn f s = (let (x, c) = f (rc_conn s) in (x, s\<lparr>rc_conn := c\<rparr>))"

definition drop_conn :: "redis_client \<Rightarrow> redis_client" where
  "drop_conn s = s\<lparr>rc_conn := disconnect (rc_conn s)\<rparr>"

definition connectTo :: "network \<Rightarrow> string \<times> int \<Rightarrow> nat \<Rightarrow> redis_client \<Rightarrow> bool \<times> redis_client" where
  "connectTo N endpoint timeout s =
     (let s0 = (if conn_open (rc_conn s) then drop_conn s else s)
      in (case resolveStorageDialAddress (nw_json N) (rc_routes s) (fst endpoint) (snd endpoint) of
            None \<Rightarrow> (False, s0)
          | Some dial \<Rightarrow>
              (case find (usable (rc_tls s)) (nw_dial N (rc_dials s) dial timeout) of
                 None \<Rightarrow> (False, s0\<lparr>rc_dials := Suc (rc_dials s)\<rparr>)
               | Some a \<Rightarrow>
                   (True, s0\<lparr>rc_dials := Suc (rc_dials s),
                            rc_conn := \<lparr>conn_peer = Some endpoint, conn_input = da_input a,
                              conn_reads = da_reads a, conn_output = [], conn_writes = da_writes a\<rparr>\<rparr>))))"

section \<open>Sentinel discovery\<close>

text \<open>\<^verbatim>\<open>std::istringstream >> word >> number\<close>, and \<open>>> word\<close>.\<close>

definition stream_word :: "string \<Rightarrow> string \<times> string" where
  "stream_word s = (let t = dropWhile isspace s in (takeWhile (\<lambda>c. \<not> isspace c) t, dropWhile (\<lambda>c. \<not> isspace c) t))"

definition parse_master :: "string \<Rightarrow> (string \<times> int) option" where
  "parse_master reply =
     (let (host, rest) = stream_word reply
      in if host = [] then None
         else (case stoi rest of
             None \<Rightarrow> None
           | Some (port, _) \<Rightarrow> if port \<le> 0 \<or> port > 65535 then None else Some (host, port)))"

text \<open>
  Every command of the discovery is sent on the socket that was just opened, so \<open>sendCommand\<close> does not
  call \<open>connect\<close> again; the commands below use \<open>send_open\<close> (\<open>discovery_sends_open\<close>).
\<close>

definition request_reply :: "string list \<Rightarrow> redis_client \<Rightarrow> string option \<times> redis_client" where
  \<comment> \<open>\<open>sendCommand\<close> and then \<open>readResponse\<close>; \<open>None\<close> when the command could not be sent\<close>
  "request_reply args s =
     (let (sent, s1) = on_conn (send_open args) s
      in if \<not> sent then (None, s1)
         else (let (reply, s2) = on_conn readResponse s1 in (Some reply, s2)))"

definition auth_command :: "redis_client \<Rightarrow> string list" where
  "auth_command s = (if rc_user s = [] then [''AUTH'', rc_password s] else [''AUTH'', rc_user s, rc_password s])"

definition authenticate :: "redis_client \<Rightarrow> bool \<times> redis_client" where
  "authenticate s =
     (case request_reply (auth_command s) s of
        (None, s1) \<Rightarrow> (False, s1)
      | (Some response, s1) \<Rightarrow> if response \<noteq> ''OK'' then (False, drop_conn s1) else (True, s1))"

definition ask_sentinel :: "redis_client \<Rightarrow> (string \<times> int) option \<times> redis_client" where
  \<comment> \<open>on a connection to a Sentinel: the primary it names; the connection is dropped\<close>
  "ask_sentinel s =
     (case request_reply [''AUTH'', rc_sentinel_user s, rc_sentinel_password s] s of
        (Some reply, s1) \<Rightarrow>
          if reply \<noteq> ''OK'' then (None, drop_conn s1)
          else (case request_reply [''SENTINEL'', ''get-master-addr-by-name'', rc_master_name s1] s1 of
              (None, s2) \<Rightarrow> (None, drop_conn s2)
            | (Some master_reply, s2) \<Rightarrow> (parse_master master_reply, drop_conn s2))
      | (None, s1) \<Rightarrow> (None, drop_conn s1))"

definition verify_role :: "redis_client \<Rightarrow> bool \<times> redis_client" where
  "verify_role s =
     (case request_reply [''ROLE''] s of
        (None, s1) \<Rightarrow> (False, s1)
      | (Some reply, s1) \<Rightarrow>
          if fst (stream_word reply) = ''master'' then (True, s1) else (False, drop_conn s1))"

definition try_seed :: "network \<Rightarrow> string \<times> int \<Rightarrow> redis_client \<Rightarrow> bool \<times> redis_client" where
  "try_seed N seed s =
     (case connectTo N seed 700 (drop_conn s) of
        (False, s1) \<Rightarrow> (False, s1)
      | (True, s1) \<Rightarrow>
          (case ask_sentinel s1 of
             (None, s2) \<Rightarrow> (False, s2)
           | (Some master, s2) \<Rightarrow>
               (case connectTo N master 1200 s2 of
                  (False, s3) \<Rightarrow> (False, s3)
                | (True, s3) \<Rightarrow>
                    (case authenticate s3 of (False, s4) \<Rightarrow> (False, s4) | (True, s4) \<Rightarrow> verify_role s4))))"

fun try_seeds :: "network \<Rightarrow> (string \<times> int) list \<Rightarrow> redis_client \<Rightarrow> bool \<times> redis_client" where
  "try_seeds N [] s = (False, s)"
| "try_seeds N (seed # seeds) s =
     (case try_seed N seed s of (True, s1) \<Rightarrow> (True, s1) | (False, s1) \<Rightarrow> try_seeds N seeds s1)"

fun try_attempts :: "network \<Rightarrow> nat \<Rightarrow> redis_client \<Rightarrow> bool \<times> redis_client" where
  "try_attempts N 0 s = (False, drop_conn s)"
| "try_attempts N (Suc n) s =
     (case try_seeds N (rc_seeds s) s of (True, s1) \<Rightarrow> (True, s1) | (False, s1) \<Rightarrow> try_attempts N n s1)"

definition discovery_configured :: "redis_client \<Rightarrow> bool" where
  "discovery_configured s \<longleftrightarrow> rc_password s \<noteq> [] \<and> \<not> (rc_tls s \<and> \<not> rc_tls_valid s)
     \<and> rc_seeds s \<noteq> [] \<and> rc_sentinel_user s \<noteq> [] \<and> rc_sentinel_password s \<noteq> []"

definition client_connect :: "network \<Rightarrow> redis_client \<Rightarrow> bool \<times> redis_client" where
  "client_connect N s =
     (if conn_open (rc_conn s) then (True, s)
      else if \<not> discovery_configured s then (False, s)
      else try_attempts N 3 s)"

definition sendCommand :: "network \<Rightarrow> string list \<Rightarrow> redis_client \<Rightarrow> bool \<times> redis_client" where
  "sendCommand N args s =
     (if conn_open (rc_conn s) then on_conn (send_open args) s
      else (case client_connect N s of
          (False, s1) \<Rightarrow> (False, s1)
        | (True, s1) \<Rightarrow> on_conn (send_open args) s1))"

definition ping :: "network \<Rightarrow> redis_client \<Rightarrow> bool \<times> redis_client" where
  "ping N s =
     (case sendCommand N [''PING''] s of
        (False, s1) \<Rightarrow> (False, s1)
      | (True, s1) \<Rightarrow> (let (res, s2) = on_conn readResponse s1 in (res = ''PONG'', s2)))"

definition client_execute :: "network \<Rightarrow> string list \<Rightarrow> redis_client \<Rightarrow> string option \<times> redis_client" where
  "client_execute N command s =
     (case sendCommand N command s of
        (False, s1) \<Rightarrow> (None, s1)
      | (True, s1) \<Rightarrow>
          (let (response, s2) = on_conn readResponse s1
           in if \<not> conn_open (rc_conn s2) then (None, s2) else (Some response, s2)))"


section \<open>The constructor\<close>

definition new_redis_client ::
  "(string \<Rightarrow> string option) \<Rightarrow> (string \<Rightarrow> string option) \<Rightarrow> bool \<Rightarrow> bool \<Rightarrow> bool \<Rightarrow> string \<Rightarrow> string \<Rightarrow> redis_client" where
  \<comment> \<open>the three booleans: whether OpenSSL makes a context, accepts TLS 1.3 as its minimum, loads the CA file\<close>
  "new_redis_client getenv read_file ctx_new tls13 ca_loaded user password =
     (let env = environmentValue getenv read_file;
          tls = envEnabled getenv ''REDIS_TLS_ENABLED'';
          ca = envOr env ''REDIS_TLS_CA_CERT'' []
      in \<lparr>rc_user = envOr env ''REDIS_USER'' user,
          rc_password = envOr env ''REDIS_USER_PASSWORD'' password,
          rc_master_name = envOr env ''REDIS_SENTINEL_MASTER_NAME'' ''agora-master'',
          rc_sentinel_user = envOr env ''REDIS_SENTINEL_USER'' [],
          rc_sentinel_password = envOr env ''REDIS_SENTINEL_PASSWORD'' [],
          rc_seeds = parseSentinelSeeds (getenv ''REDIS_SENTINELS''),
          rc_tls = tls,
          rc_tls_valid = (\<not> tls \<or> (ca \<noteq> [] \<and> ctx_new \<and> tls13 \<and> ca_loaded)),
          rc_routes = env ''REDIS_BROKER_ROUTES'',
          rc_conn = closed_conn,
          rc_dials = 0\<rparr>)"

section \<open>What reading and writing leave alone\<close>

definition same_socket :: "redis_conn \<Rightarrow> redis_conn \<Rightarrow> bool" where
  "same_socket c c' \<longleftrightarrow> conn_output c' = conn_output c \<and> (conn_peer c' = conn_peer c \<or> conn_peer c' = None)"

lemma same_socket_refl [simp]: "same_socket c c"
  by (simp add: same_socket_def)

lemma same_socket_disconnect: "same_socket c c' \<Longrightarrow> same_socket c (disconnect c')"
  by (simp add: same_socket_def)

lemma same_socket_trans: "same_socket a b \<Longrightarrow> same_socket b c \<Longrightarrow> same_socket a c"
  by (auto simp: same_socket_def)

lemma readTransport_socket: "readTransport n c = (b, c') \<Longrightarrow> same_socket c c'"
  by (auto simp: same_socket_def readTransport_def Let_def)

lemma read_line_socket: "read_line line c = (t, c') \<Longrightarrow> same_socket c c'"
proof (induction line c arbitrary: t c' rule: read_line.induct)
  case (1 line c)
  obtain received c1 where r: "readTransport 1 c = (received, c1)" by force
  obtain following c2 where f: "readTransport 1 c1 = (following, c2)" by force
  have s: "same_socket c c1" "same_socket c c2"
    using readTransport_socket[OF r] readTransport_socket[OF f] same_socket_trans by blast+
  show ?case
    using 1(2)[unfolded read_line.simps[of line c]] r f s 1(1)[OF _ r[symmetric] refl, of t c'] same_socket_trans[OF s(1), of c']
    by (auto simp: Let_def same_socket_disconnect split: if_splits)
qed

lemma read_fully_socket: "read_fully n c = (t, c') \<Longrightarrow> same_socket c c'"
proof (induction n c arbitrary: t c' rule: read_fully.induct)
  case (1 n c)
  obtain b c1 where b: "readTransport n c = (b, c1)" by force
  show ?case
    using 1(2)[unfolded read_fully.simps[of n c]] b 1(1)[OF _ b[symmetric] refl] readTransport_socket[OF b]
      same_socket_trans[of c c1]
    by (auto simp: Let_def split: if_splits prod.splits)
qed

lemma read_bulk_socket: "read_bulk n c = (t, c') \<Longrightarrow> same_socket c c'"
  by (auto simp: read_bulk_def Let_def split: prod.splits if_splits dest!: read_fully_socket
      intro: same_socket_disconnect same_socket_trans)

lemma read_response_socket:
  "read_response fuel c = Some (t, c') \<Longrightarrow> same_socket c c'"
  "read_items fuel n c = Some (ts, c') \<Longrightarrow> same_socket c c'"
proof (induction fuel c and fuel n c arbitrary: t c' and ts c' rule: read_response_read_items.induct)
  case (2 fuel c)
  obtain line c1 where l: "readLine c = (line, c1)" by force
  have s: "same_socket c c1" using read_line_socket[of "[]" c] l by (simp add: readLine_def)
  have b: "read_bulk n c1 = (t, c') \<Longrightarrow> same_socket c c'" for n
    using read_bulk_socket same_socket_trans[OF s] by blast
  have i: "read_items fuel n c1 = Some (ts, c'') \<Longrightarrow> n = nat k \<Longrightarrow> line = CHR ''*'' # p \<Longrightarrow> parseRespLength p = Some k
      \<Longrightarrow> conn_open c \<Longrightarrow> \<not> (k < -1 \<or> k > kMaximumRedisArrayElements) \<Longrightarrow> k \<noteq> -1 \<Longrightarrow> same_socket c c''" for n ts c'' p k
    using 2(1)[OF _ l[symmetric], of "CHR ''*''" p k ts c''] same_socket_trans[OF s] by simp
  show ?case
    using 2(2) l s b i
    by (auto split: if_splits list.splits option.splits simp: same_socket_disconnect)
next
  case (4 fuel n c)
  then show ?case by (auto split: option.splits intro: same_socket_trans) (metis same_socket_trans)
qed auto

lemma readResponse_socket: "readResponse c = (t, c') \<Longrightarrow> same_socket c c'"
  using read_response_socket(1)
  by (auto simp: readResponse_def simp del: read_response.simps split: option.splits)

lemma write_all_sent:
  "write_all message c = (ok, c') \<Longrightarrow>
     (if ok then conn_peer c' = conn_peer c \<and> conn_output c' = conn_output c @ message else conn_peer c' = None)"
proof (induction message c arbitrary: ok c' rule: write_all.induct)
  case (1 message c)
  obtain sent c1 where w: "writeTransport message c = (sent, c1)" by force
  have "conn_peer c1 = conn_peer c" "conn_output c1 = conn_output c @ take sent message"
    using w by (auto simp: writeTransport_def Let_def)
  then show ?case
    using 1(2)[unfolded write_all.simps[of message c]] w 1(1)[OF _ w[symmetric]]
    by (auto simp: Let_def split: if_splits)
qed

lemma request_reply_socket:
  assumes "request_reply args s = (reply, s')"
  shows "case reply of None \<Rightarrow> \<not> conn_open (rc_conn s')
    | Some r \<Rightarrow> (conn_peer (rc_conn s') = conn_peer (rc_conn s) \<or> \<not> conn_open (rc_conn s'))
        \<and> conn_output (rc_conn s') = conn_output (rc_conn s) @ encode_command args"
  using assms
  by (auto simp: request_reply_def on_conn_def send_open_def Let_def same_socket_def
      dest!: write_all_sent readResponse_socket split: prod.splits if_splits)

lemma master_name_is_fixed:
  "rc_master_name (new_redis_client getenv read_file ctx_new tls13 ca_loaded user password) = ''agora-master''"
  by (simp add: new_redis_client_def envOr_def Let_def)

section \<open>Discovery\<close>

definition settings :: "redis_client \<Rightarrow> redis_client" where
  \<comment> \<open>the part of a client that operations never change\<close>
  "settings s = s\<lparr>rc_conn := closed_conn, rc_dials := 0\<rparr>"

lemma settings_simps [simp]:
  "settings (drop_conn s) = settings s" "settings (s\<lparr>rc_conn := c\<rparr>) = settings s"
  "settings (s\<lparr>rc_dials := n\<rparr>) = settings s" "rc_dials (drop_conn s) = rc_dials s"
  "conn_peer (rc_conn (drop_conn s)) = None"
  by (simp_all add: settings_def drop_conn_def)

lemma settings_fields:
  assumes "settings s = settings t"
  shows "rc_tls s = rc_tls t" "rc_routes s = rc_routes t" "rc_seeds s = rc_seeds t"
    "auth_command s = auth_command t"
proof -
  show "rc_tls s = rc_tls t" "rc_routes s = rc_routes t" "rc_seeds s = rc_seeds t"
    using arg_cong[OF assms, of rc_tls] arg_cong[OF assms, of rc_routes] arg_cong[OF assms, of rc_seeds]
    by (simp_all add: settings_def)
  show "auth_command s = auth_command t"
    using arg_cong[OF assms, of rc_user] arg_cong[OF assms, of rc_password]
    by (simp add: settings_def auth_command_def)
qed

lemma request_reply_frame:
  "request_reply args s = (reply, s') \<Longrightarrow> settings s' = settings s \<and> rc_dials s' = rc_dials s"
  by (auto simp: request_reply_def on_conn_def Let_def split: prod.splits if_splits)

lemma connectTo_frame:
  "connectTo N e t s = (ok, s') \<Longrightarrow> settings s' = settings s \<and> rc_dials s' \<le> Suc (rc_dials s)"
  by (auto simp: connectTo_def Let_def split: option.splits if_splits)

lemma connectTo_opened:
  "connectTo N e t s = (True, s') \<Longrightarrow>
     conn_peer (rc_conn s') = Some e \<and> conn_output (rc_conn s') = []
     \<and> (\<exists>n dial a. resolveStorageDialAddress (nw_json N) (rc_routes s) (fst e) (snd e) = Some dial
          \<and> a \<in> set (nw_dial N n dial t) \<and> usable (rc_tls s) a)"
  by (auto simp: connectTo_def Let_def find_Some_iff split: option.splits if_splits) (metis nth_mem)+

lemma ask_sentinel_frame:
  "ask_sentinel s = (m, s') \<Longrightarrow> settings s' = settings s \<and> rc_dials s' = rc_dials s
     \<and> (\<forall>host port. m = Some (host, port) \<longrightarrow> host \<noteq> [] \<and> 0 < port \<and> port \<le> 65535)"
  by (auto simp: ask_sentinel_def parse_master_def Let_def dest!: request_reply_frame
      split: prod.splits option.splits if_splits)

lemma authenticate_frame: "authenticate s = (ok, s') \<Longrightarrow> settings s' = settings s \<and> rc_dials s' = rc_dials s"
  by (auto simp: authenticate_def dest!: request_reply_frame split: prod.splits option.splits if_splits)

lemma verify_role_frame: "verify_role s = (ok, s') \<Longrightarrow> settings s' = settings s \<and> rc_dials s' = rc_dials s"
  by (auto simp: verify_role_def dest!: request_reply_frame split: prod.splits option.splits if_splits)

lemma try_seed_frame:
  "try_seed N seed s = (ok, s') \<Longrightarrow> settings s' = settings s \<and> rc_dials s' \<le> 2 + rc_dials s"
  by (force simp: try_seed_def dest!: connectTo_frame ask_sentinel_frame authenticate_frame verify_role_frame
      split: prod.splits option.splits bool.splits)

section \<open>The socket stays open\<close>

lemma readTransport_peer: "readTransport n c = (b, c') \<Longrightarrow> conn_peer c' = conn_peer c"
  using conn_simps(3)[of n c] by simp

lemma read_line_open: "read_line line c = (t, c') \<Longrightarrow> conn_open c \<Longrightarrow> t \<noteq> [] \<Longrightarrow> conn_open c'"
proof (induction line c arbitrary: t c' rule: read_line.induct)
  case (1 line c)
  obtain received c1 where r: "readTransport 1 c = (received, c1)" by force
  obtain following c2 where f: "readTransport 1 c1 = (following, c2)" by force
  have s: "conn_open c1" "conn_open c2"
    using readTransport_peer[OF r] readTransport_peer[OF f] 1(3) by simp_all
  show ?case
    using 1(2)[unfolded read_line.simps[of line c]] r f s 1(3,4) 1(1)[OF _ r[symmetric] refl, of t c']
    by (auto simp: Let_def split: if_splits)
qed

lemma read_bulk_open: "read_bulk n c = (t, c') \<Longrightarrow> conn_open c \<Longrightarrow> conn_open c' \<or> t = []"
proof -
  have "read_fully n c = (b, c1) \<Longrightarrow> conn_peer c1 = conn_peer c" for n c b c1
  proof (induction n c arbitrary: b c1 rule: read_fully.induct)
    case (1 n c)
    obtain d c2 where d: "readTransport n c = (d, c2)" by force
    have "conn_peer c2 = conn_peer c" by (rule readTransport_peer[OF d])
    then show ?case
      using 1(2)[unfolded read_fully.simps[of n c]] d 1(1)[OF _ d[symmetric] refl]
      by (auto simp: Let_def split: if_splits prod.splits)
  qed
  then show "read_bulk n c = (t, c') \<Longrightarrow> conn_open c \<Longrightarrow> conn_open c' \<or> t = []"
    by (auto simp: read_bulk_def Let_def split: prod.splits if_splits)
qed

text \<open>A reply during which the connection was lost is empty, an error, or an array of several items.\<close>

definition lost_text :: "string \<Rightarrow> bool" where
  "lost_text t \<longleftrightarrow> t = [] \<or> hd t = kRedisErrorMarker \<or> CHR '' '' \<in> set t"

lemma lost_text_simps [simp]: "lost_text []" "lost_text (kRedisErrorMarker # t)"
  by (simp_all add: lost_text_def)

lemma read_items_length: "read_items fuel n c = Some (ts, c') \<Longrightarrow> length ts = n"
  by (induction n arbitrary: c ts c') (auto split: option.splits)

lemma join_two: "length ts \<ge> 2 \<Longrightarrow> lost_text (join_items ts)"
  by (cases ts; cases "tl ts") (auto simp: join_items_def lost_text_def)

lemma closed_reply:
  "read_response fuel c = Some (t, c') \<Longrightarrow> conn_open c \<Longrightarrow> \<not> conn_open c' \<Longrightarrow> lost_text t"
  "read_items fuel n c = Some (ts, c') \<Longrightarrow> conn_open c \<Longrightarrow> \<not> conn_open c' \<Longrightarrow> lost_text (join_items ts)"
proof (induction fuel c and fuel n c arbitrary: t c' and ts c' rule: read_response_read_items.induct)
  case (2 fuel c)
  obtain line c1 where l: "readLine c = (line, c1)" by force
  have o: "line \<noteq> [] \<Longrightarrow> conn_open c1" using read_line_open[of "[]" c] l 2(3) by (simp add: readLine_def)
  have b: "read_bulk n c1 = (t, c') \<Longrightarrow> conn_open c1 \<Longrightarrow> lost_text t" for n
    using read_bulk_open 2(4) lost_text_simps(1) by blast
  have i: "read_items fuel (nat k) c1 = Some (ts, c') \<Longrightarrow> line = CHR ''*'' # p \<Longrightarrow> parseRespLength p = Some k
      \<Longrightarrow> \<not> (k < -1 \<or> k > kMaximumRedisArrayElements) \<Longrightarrow> k \<noteq> -1 \<Longrightarrow> lost_text (join_items ts)" for ts p k
    using 2(1)[OF _ l[symmetric], of "CHR ''*''" p k ts c'] 2(3,4) o by simp
  show ?case
    using 2(2-4) l o b i
    by (auto split: if_splits list.splits option.splits)
next
  case (4 fuel n c)
  obtain item c1 items where r: "read_response fuel c = Some (item, c1)"
      "read_items fuel n c1 = Some (items, c')" "ts = item # items"
    using 4(3) by (auto split: option.splits)
  show ?case
  proof (cases n)
    case 0
    then show ?thesis using r 4(1)[OF r(1)] 4(4,5) by (auto simp: join_items_def)
  next
    case (Suc m)
    then show ?thesis using join_two[of ts] read_items_length[OF r(2)] r(3) by simp
  qed
qed auto

lemma ok_reply_open:
  assumes "readResponse c = (t, c')" "conn_open c" "\<not> lost_text t"
  shows "conn_open c'"
proof -
  have "read_response (Suc (length (conn_input c))) c = Some (t, c')"
    using assms(1) reply_fuel(1)[of c "Suc (length (conn_input c))"]
    by (auto simp: readResponse_def simp del: read_response.simps split: option.splits)
  then show ?thesis using closed_reply(1) assms(2,3) by blast
qed

lemma write_all_closed:
  assumes "write_all message c = (True, c')" "message \<noteq> []"
  shows "conn_open c \<and> conn_open c'"
proof -
  have "conn_open c"
  proof (rule ccontr)
    assume "\<not> conn_open c"
    then have "fst (writeTransport message c) = 0" by (simp add: writeTransport_def Let_def)
    then show False
      using assms(1)[unfolded write_all.simps[of message c]] assms(2) by (auto simp: Let_def split: prod.splits)
  qed
  then show ?thesis using write_all_sent[OF assms(1)] by simp
qed

lemma encode_command_nonempty [simp]: "encode_command args \<noteq> []"
  by (simp add: encode_command_def)

text \<open>
  After an \<open>OK\<close> the socket is open, so the second command on it (\<open>SENTINEL\<close>, and \<open>ROLE\<close> after
  \<open>authenticate\<close>) is never sent through a nested \<open>connect\<close>.
\<close>

lemma discovery_sends_open:
  assumes "request_reply args s = (Some ''OK'', s')"
  shows "conn_open (rc_conn s')"
proof -
  obtain c c' where "write_all (encode_command args) (rc_conn s) = (True, c)" "readResponse c = (''OK'', c')"
      "rc_conn s' = c'"
    using assms by (auto simp: request_reply_def on_conn_def send_open_def Let_def split: prod.splits if_splits)
  moreover have "conn_open c"
    using calculation(1,2) write_all_closed by auto
  moreover have "\<not> lost_text ''OK''" by code_simp
  ultimately show ?thesis using ok_reply_open by blast
qed

definition reached_primary :: "network \<Rightarrow> redis_client \<Rightarrow> redis_client \<Rightarrow> bool" where
  \<comment> \<open>the second client came out of a discovery by the first, which ended at a primary\<close>
  "reached_primary N s s' \<longleftrightarrow>
     (\<exists>host port. (conn_open (rc_conn s') \<longrightarrow> conn_peer (rc_conn s') = Some (host, port))
        \<and> host \<noteq> [] \<and> 0 < port \<and> port \<le> 65535
        \<and> (\<exists>n dial a. resolveStorageDialAddress (nw_json N) (rc_routes s) host port = Some dial
             \<and> a \<in> set (nw_dial N n dial 1200) \<and> usable (rc_tls s) a))
     \<and> conn_output (rc_conn s') = encode_command (auth_command s) @ encode_command [''ROLE'']
     \<and> (\<exists>c reply. readResponse c = (reply, rc_conn s') \<and> fst (stream_word reply) = ''master'')"

lemma reached_primary_settings: "settings t = settings s \<Longrightarrow> reached_primary N t s' = reached_primary N s s'"
  using settings_fields[of t s] by (simp add: reached_primary_def)

lemma authenticate_opened:
  assumes "authenticate s = (True, s')"
  shows "conn_peer (rc_conn s') = conn_peer (rc_conn s)
    \<and> conn_output (rc_conn s') = conn_output (rc_conn s) @ encode_command (auth_command s)"
proof -
  have r: "request_reply (auth_command s) s = (Some ''OK'', s')"
    using assms by (auto simp: authenticate_def split: prod.splits option.splits if_splits)
  show ?thesis using request_reply_socket[OF r] discovery_sends_open[OF r] by auto
qed

lemma verify_role_opened:
  assumes "verify_role s = (True, s')"
  shows "(conn_open (rc_conn s') \<longrightarrow> conn_peer (rc_conn s') = conn_peer (rc_conn s))
    \<and> conn_output (rc_conn s') = conn_output (rc_conn s) @ encode_command [''ROLE'']
    \<and> (\<exists>c reply. readResponse c = (reply, rc_conn s') \<and> fst (stream_word reply) = ''master'')"
proof -
  obtain reply where r: "request_reply [''ROLE''] s = (Some reply, s')" "fst (stream_word reply) = ''master''"
    using assms by (auto simp: verify_role_def split: prod.splits option.splits if_splits)
  have "\<exists>c. readResponse c = (reply, rc_conn s')"
    using r(1) by (auto simp: request_reply_def on_conn_def Let_def split: prod.splits if_splits)
  then show ?thesis using request_reply_socket[OF r(1)] r(2) by auto
qed

lemma try_seed_reached:
  assumes "try_seed N seed s = (True, s')"
  shows "reached_primary N s s'"
proof -
  obtain ok1 s1 where s1: "connectTo N seed 700 (drop_conn s) = (ok1, s1)" by force
  obtain master s2 where s2: "ask_sentinel s1 = (master, s2)" by force
  obtain host port where m: ok1 "master = Some (host, port)"
    using assms s1 s2 by (auto simp: try_seed_def split: bool.splits option.splits)
  obtain ok3 s3 where s3: "connectTo N (host, port) 1200 s2 = (ok3, s3)" by force
  obtain ok4 s4 where s4: "authenticate s3 = (ok4, s4)" by force
  have s: "connectTo N seed 700 (drop_conn s) = (True, s1)"
      "ask_sentinel s1 = (Some (host, port), s2)" "connectTo N (host, port) 1200 s2 = (True, s3)"
      "authenticate s3 = (True, s4)" "verify_role s4 = (True, s')"
    using assms s1 s2 m s3 s4 by (simp_all add: try_seed_def split: bool.splits)
  have e: "settings s2 = settings s" "settings s3 = settings s"
    using connectTo_frame[OF s(1)] connectTo_frame[OF s(3)] ask_sentinel_frame[OF s(2)] by simp_all
  have "host \<noteq> []" "0 < port" "port \<le> 65535" using ask_sentinel_frame[OF s(2)] by auto
  moreover have "conn_output (rc_conn s') = encode_command (auth_command s) @ encode_command [''ROLE'']"
    using connectTo_opened[OF s(3)] authenticate_opened[OF s(4)] verify_role_opened[OF s(5)]
      settings_fields(4)[OF e(2)] by simp
  moreover have "conn_open (rc_conn s') \<longrightarrow> conn_peer (rc_conn s') = Some (host, port)"
    using connectTo_opened[OF s(3)] authenticate_opened[OF s(4)] verify_role_opened[OF s(5)] by simp
  moreover obtain n dial a where "resolveStorageDialAddress (nw_json N) (rc_routes s) host port = Some dial"
      "a \<in> set (nw_dial N n dial 1200)" "usable (rc_tls s) a"
    using connectTo_opened[OF s(3)] settings_fields[OF e(1)] by auto
  ultimately show ?thesis
    using verify_role_opened[OF s(5)] unfolding reached_primary_def by blast
qed

lemma try_seeds_frame:
  "try_seeds N seeds s = (ok, s') \<Longrightarrow>
     settings s' = settings s \<and> rc_dials s' \<le> 2 * length seeds + rc_dials s \<and> (ok \<longrightarrow> reached_primary N s s')"
proof (induction seeds arbitrary: s)
  case (Cons seed seeds)
  obtain ok1 s1 where s1: "try_seed N seed s = (ok1, s1)" by force
  have f: "settings s1 = settings s" "rc_dials s1 \<le> 2 + rc_dials s" using try_seed_frame[OF s1] by auto
  show ?case
  proof (cases ok1)
    case True
    then show ?thesis using Cons.prems s1 f try_seed_reached by auto
  next
    case False
    then show ?thesis
      using Cons.IH[of s1] Cons.prems s1 f reached_primary_settings[OF f(1)] by auto
  qed
qed auto

lemma try_attempts_frame:
  "try_attempts N n s = (ok, s') \<Longrightarrow>
     settings s' = settings s \<and> rc_dials s' \<le> 2 * length (rc_seeds s) * n + rc_dials s
     \<and> (if ok then reached_primary N s s' else \<not> conn_open (rc_conn s'))"
proof (induction n arbitrary: s)
  case (Suc n)
  obtain ok1 s1 where s1: "try_seeds N (rc_seeds s) s = (ok1, s1)" by force
  have f: "settings s1 = settings s" "rc_dials s1 \<le> 2 * length (rc_seeds s) + rc_dials s"
    using try_seeds_frame[OF s1] by auto
  show ?case
  proof (cases ok1)
    case True
    then show ?thesis using Suc.prems s1 f try_seeds_frame[OF s1] by auto
  next
    case False
    then show ?thesis
      using Suc.IH[of s1] Suc.prems s1 f reached_primary_settings[OF f(1)] settings_fields(3)[OF f(1)] by auto
  qed
qed auto

lemma client_connect_frame:
  "client_connect N s = (ok, s') \<Longrightarrow>
     rc_dials s' \<le> 6 * length (rc_seeds s) + rc_dials s
     \<and> (if ok then (conn_open (rc_conn s) \<and> s' = s) \<or> (discovery_configured s \<and> reached_primary N s s')
        else \<not> conn_open (rc_conn s'))"
  using try_attempts_frame[of N 3 s] by (auto simp: client_connect_def simp del: try_attempts.simps split: if_splits)


section \<open>A responsive primary is found\<close>

text \<open>A server that takes everything and answers with the given replies in this order.\<close>

definition answering :: "resp list \<Rightarrow> redis_client \<Rightarrow> bool" where
  "answering rs s \<longleftrightarrow> calls_ok (rc_conn s) \<and> 0 \<notin> set (conn_writes (rc_conn s)) \<and> list_all resp_ok rs
     \<and> conn_input (rc_conn s) = concat (map encode_reply rs)"

definition serves :: "network \<Rightarrow> redis_client \<Rightarrow> string \<times> int \<Rightarrow> nat \<Rightarrow> resp list \<Rightarrow> bool" where
  \<comment> \<open>whenever the endpoint is dialled\<close>
  "serves N s endpoint timeout rs \<longleftrightarrow>
     (\<exists>dial. resolveStorageDialAddress (nw_json N) (rc_routes s) (fst endpoint) (snd endpoint) = Some dial
        \<and> (\<forall>n. \<exists>a. find (usable (rc_tls s)) (nw_dial N n dial timeout) = Some a
             \<and> da_input a = concat (map encode_reply rs) \<and> 0 \<notin> set (da_reads a) \<and> 0 \<notin> set (da_writes a)))
     \<and> list_all resp_ok rs"

lemma write_all_ok:
  assumes "conn_open c" "0 \<notin> set (conn_writes c)"
  shows "\<exists>c'. write_all message c = (True, c') \<and> conn_peer c' = conn_peer c \<and> conn_input c' = conn_input c
    \<and> conn_reads c' = conn_reads c \<and> 0 \<notin> set (conn_writes c')"
  using assms
proof (induction message c rule: write_all.induct)
  case (1 message c)
  obtain sent c1 where w: "writeTransport message c = (sent, c1)" by force
  have s: "message \<noteq> [] \<Longrightarrow> 0 < sent" and
    c1: "conn_peer c1 = conn_peer c" "conn_input c1 = conn_input c" "conn_reads c1 = conn_reads c"
      "0 \<notin> set (conn_writes c1)"
    using w 1(2,3) by (cases "conn_writes c"; auto simp: writeTransport_def call_size_def Let_def)+
  show ?case
  proof (cases "message = []")
    case False
    then show ?thesis
      using 1(1)[OF False w[symmetric]] s c1 1(2) w by (auto simp: write_all.simps[of message c])
  qed (use 1 in \<open>auto simp: write_all.simps[of "[]"]\<close>)
qed

lemma request_reply_answer:
  assumes "answering (r # rs) s"
  obtains s' where "request_reply args s = (Some (reply_text r), s')" "answering rs s'" "settings s' = settings s"
proof -
  obtain c where c: "write_all (encode_command args) (rc_conn s) = (True, c)" "conn_peer c = conn_peer (rc_conn s)"
      "conn_input c = conn_input (rc_conn s)" "conn_reads c = conn_reads (rc_conn s)" "0 \<notin> set (conn_writes c)"
    using write_all_ok[of "rc_conn s" "encode_command args"] assms by (auto simp: answering_def calls_ok_def)
  have "resp_ok r" "calls_ok c" "conn_input c = encode_reply r @ concat (map encode_reply rs)"
    using assms c by (simp_all add: answering_def calls_ok_def)
  then obtain c' where c': "readResponse c = (reply_text r, c')" "took (encode_reply r) c c'"
      "conn_input c' = concat (map encode_reply rs)"
    by (rule readResponse_took)
  have "request_reply args s = (Some (reply_text r), s\<lparr>rc_conn := c'\<rparr>)"
    using c(1) c'(1) by (simp add: request_reply_def on_conn_def send_open_def)
  moreover have "answering rs (s\<lparr>rc_conn := c'\<rparr>)"
    using assms c(5) c' by (simp add: answering_def took_def)
  ultimately show ?thesis using that settings_simps(2) by blast
qed

lemma connectTo_serves:
  assumes "serves N s endpoint timeout rs" "settings t = settings s"
  obtains t' where "connectTo N endpoint timeout t = (True, t')" "answering rs t'" "settings t' = settings s"
proof -
  obtain dial where dial: "resolveStorageDialAddress (nw_json N) (rc_routes s) (fst endpoint) (snd endpoint) = Some dial"
      "\<forall>n. \<exists>a. find (usable (rc_tls s)) (nw_dial N n dial timeout) = Some a
             \<and> da_input a = concat (map encode_reply rs) \<and> 0 \<notin> set (da_reads a) \<and> 0 \<notin> set (da_writes a)"
    using assms(1) unfolding serves_def by blast
  obtain a where a: "find (usable (rc_tls s)) (nw_dial N (rc_dials t) dial timeout) = Some a"
      "da_input a = concat (map encode_reply rs)" "0 \<notin> set (da_reads a)" "0 \<notin> set (da_writes a)"
    using spec[OF dial(2), of "rc_dials t"] by blast
  note d = dial(1) a settings_fields[OF assms(2)]
  define t' where "t' = snd (connectTo N endpoint timeout t)"
  have "connectTo N endpoint timeout t = (True, t')" using d by (simp add: t'_def connectTo_def)
  moreover have "answering rs t'"
    using d assms(1) by (simp add: t'_def connectTo_def answering_def calls_ok_def serves_def)
  moreover have "settings t' = settings s" using connectTo_frame[OF calculation(1)] assms(2) by simp
  ultimately show ?thesis by (rule that)
qed

definition word_ok :: "string \<Rightarrow> bool" where
  "word_ok w \<longleftrightarrow> w \<noteq> [] \<and> list_all (\<lambda>c. \<not> isspace c) w"

lemma stream_word_ok:
  assumes "word_ok w" "rest = [] \<or> isspace (hd rest)"
  shows "stream_word (w @ rest) = (w, rest)"
proof -
  have "dropWhile isspace (w @ rest) = w @ rest"
    using assms(1) by (cases w) (auto simp: word_ok_def)
  moreover have "takeWhile (\<lambda>c. \<not> isspace c) rest = []" "dropWhile (\<lambda>c. \<not> isspace c) rest = rest"
    using assms(2) by (cases rest; simp)+
  ultimately show ?thesis
    using assms(1) by (auto simp: stream_word_def word_ok_def list_all_iff takeWhile_append dropWhile_append)
qed

lemma parse_master_reply:
  assumes "word_ok host" "0 < port" "port \<le> 65535"
  shows "parse_master (join_items [host, number_text port]) = Some (host, port)"
proof -
  have sp: "isspace (CHR '' '')" by code_simp
  obtain n where n: "port = int n" using assms(2) by (metis zero_le_imp_eq_int less_le)
  have "stream_word (host @ CHR '' '' # to_string n) = (host, CHR '' '' # to_string n)"
    using stream_word_ok[OF assms(1), of "CHR '' '' # to_string n"] sp by simp
  moreover have "stoi (CHR '' '' # to_string n) = stoi (to_string n)"
    using sp by (simp add: stoi_def parse_integer_def)
  moreover have "stoi (to_string n) = Some (int n, [])"
    using parse_integer_digits[of "to_string n" "[]" "- (2 ^ 31)" "2 ^ 31 - 1"] to_string_digits[of n] assms(3) n
    by (simp add: stoi_def list_all_iff)
  ultimately show ?thesis
    using assms n by (simp add: parse_master_def join_items_def number_text_def word_ok_def)
qed

lemma role_word: "fst (stream_word (join_items (''master'' # ts))) = ''master''"
proof -
  have "word_ok ''master''" "isspace (CHR '' '')" by code_simp+
  then show ?thesis
    using stream_word_ok[of "''master''" "concat (map (\<lambda>y. CHR '' '' # y) ts)"]
    by (cases ts) (simp_all add: join_items_def)
qed

lemma try_seed_finds:
  assumes "serves N s seed 700 [Status ''OK'', Array [Bulk host, Bulk (number_text port)]]"
    and "serves N s (host, port) 1200 [Status ''OK'', Array (Bulk ''master'' # extra)]"
    and "word_ok host" "0 < port" "port \<le> 65535" "settings t = settings s"
  shows "fst (try_seed N seed t)"
proof -
  have "settings (drop_conn t) = settings s" using assms(6) by simp
  then obtain t1 where t1: "connectTo N seed 700 (drop_conn t) = (True, t1)"
      "answering [Status ''OK'', Array [Bulk host, Bulk (number_text port)]] t1" "settings t1 = settings s"
    using connectTo_serves[OF assms(1)] by blast
  from request_reply_answer[OF t1(2)]
  obtain t2 where t2: "request_reply [''AUTH'', rc_sentinel_user t1, rc_sentinel_password t1] t1 = (Some (reply_text (Status ''OK'')), t2)"
      "answering [Array [Bulk host, Bulk (number_text port)]] t2" "settings t2 = settings t1"
    by blast
  from request_reply_answer[OF t2(2)]
  obtain t3 where t3: "request_reply [''SENTINEL'', ''get-master-addr-by-name'', rc_master_name t2] t2
      = (Some (reply_text (Array [Bulk host, Bulk (number_text port)])), t3)" "settings t3 = settings t2"
    by blast
  have a: "ask_sentinel t1 = (Some (host, port), drop_conn t3)"
    using t2(1) t3(1) parse_master_reply[OF assms(3-5)] by (simp add: ask_sentinel_def)
  have "settings (drop_conn t3) = settings s" using t1(3) t2(3) t3(2) by simp
  then obtain t4 where t4: "connectTo N (host, port) 1200 (drop_conn t3) = (True, t4)"
      "answering [Status ''OK'', Array (Bulk ''master'' # extra)] t4"
    using connectTo_serves[OF assms(2)] by blast
  from request_reply_answer[OF t4(2)]
  obtain t5 where t5: "request_reply (auth_command t4) t4 = (Some (reply_text (Status ''OK'')), t5)"
      "answering [Array (Bulk ''master'' # extra)] t5"
    by blast
  from request_reply_answer[OF t5(2)]
  obtain t6 where t6: "request_reply [''ROLE''] t5 = (Some (reply_text (Array (Bulk ''master'' # extra))), t6)"
    by blast
  show ?thesis
    using t1(1) a t4(1) t5(1) t6 role_word[of "map reply_text extra"]
    by (simp add: try_seed_def authenticate_def verify_role_def)
qed

lemma try_seeds_finds:
  assumes "seed \<in> set seeds" "settings t = settings s" "\<And>t. settings t = settings s \<Longrightarrow> fst (try_seed N seed t)"
  shows "fst (try_seeds N seeds t)"
  using assms(1,2)
proof (induction seeds arbitrary: t)
  case (Cons x seeds)
  obtain ok t1 where t1: "try_seed N x t = (ok, t1)" by force
  have e: "settings t1 = settings s" using try_seed_frame[OF t1] Cons.prems(2) by simp
  show ?case
    using t1 Cons.IH[OF _ e] Cons.prems assms(3)[OF Cons.prems(2)] by (cases ok) auto
qed simp

lemma client_connect_finds:
  assumes "discovery_configured s" "seed \<in> set (rc_seeds s)"
    and "serves N s seed 700 [Status ''OK'', Array [Bulk host, Bulk (number_text port)]]"
    and "serves N s (host, port) 1200 [Status ''OK'', Array (Bulk ''master'' # extra)]"
    and "word_ok host" "0 < port" "port \<le> 65535"
  shows "fst (client_connect N s)"
proof -
  have "fst (try_seeds N (rc_seeds s) s)"
    using try_seeds_finds[OF assms(2) refl] try_seed_finds[OF assms(3-7)] by blast
  then have "fst (try_attempts N 3 s)" by (auto simp: numeral_3_eq_3 split: prod.splits bool.splits)
  then show ?thesis using assms(1) by (simp add: client_connect_def del: try_attempts.simps)
qed

definition sample_attempt :: "string \<Rightarrow> dial_attempt" where
  "sample_attempt bytes = \<lparr>da_socket = True, da_connect = In_Progress True True, da_ssl_new = True, da_is_ip = False,
     da_sni_set = True, da_identity_set = True, da_handshake = True, da_verified = True, da_input = bytes,
     da_reads = [], da_writes = []\<rparr>"

definition sample_network :: network where
  \<comment> \<open>a Sentinel that names db:6379, which answers as the primary\<close>
  "sample_network = \<lparr>nw_json = \<lparr>jl_parse = (\<lambda>_. None), jl_dump = (\<lambda>_. [])\<rparr>,
     nw_dial = (\<lambda>n dial timeout. [sample_attempt (concat (map encode_reply
        (if dial = (''s1'', 26379) then [Status ''OK'', Array [Bulk ''db'', Bulk (number_text 6379)]]
         else [Status ''OK'', Array [Bulk ''master'', Absent]])))])\<rparr>"

definition sample_client :: redis_client where
  "sample_client = \<lparr>rc_user = ''agora'', rc_password = ''pw'', rc_master_name = ''agora-master'',
     rc_sentinel_user = ''su'', rc_sentinel_password = ''sp'', rc_seeds = [(''s1'', 26379)], rc_tls = True,
     rc_tls_valid = True, rc_routes = [], rc_conn = closed_conn, rc_dials = 0\<rparr>"

lemma sample_serves:
  "discovery_configured sample_client" "(''s1'', 26379) \<in> set (rc_seeds sample_client)"
  "serves sample_network sample_client (''s1'', 26379) 700 [Status ''OK'', Array [Bulk ''db'', Bulk (number_text 6379)]]"
  "serves sample_network sample_client (''db'', 6379) 1200 [Status ''OK'', Array (Bulk ''master'' # [Absent])]"
  "word_ok ''db''"
proof -
  have u: "usable True (sample_attempt bytes)" for bytes
    by (simp add: usable_def tcp_connected_def tls_accepted_def sample_attempt_def)
  have "length (number_text 6379) \<le> 4"
    using to_string_short[of 6379 4] by (simp add: number_text_def)
  then have l: "int (length (number_text 6379)) \<le> kMaximumRedisBulkReplyBytes"
    by (simp add: kMaximumRedisBulkReplyBytes_def)
  show "discovery_configured sample_client" "(''s1'', 26379) \<in> set (rc_seeds sample_client)"
    by (simp_all add: discovery_configured_def sample_client_def)
  show "serves sample_network sample_client (''s1'', 26379) 700 [Status ''OK'', Array [Bulk ''db'', Bulk (number_text 6379)]]"
    using u l
    by (simp add: serves_def resolveStorageDialAddress_def sample_client_def sample_network_def sample_attempt_def
        line_ok_def maximum_line_def kMaximumRedisBulkReplyBytes_def kMaximumRedisArrayElements_def)
  show "serves sample_network sample_client (''db'', 6379) 1200 [Status ''OK'', Array (Bulk ''master'' # [Absent])]"
    using u
    by (simp add: serves_def resolveStorageDialAddress_def sample_client_def sample_network_def sample_attempt_def
        line_ok_def maximum_line_def kMaximumRedisBulkReplyBytes_def kMaximumRedisArrayElements_def)
  show "word_ok ''db''" by code_simp
qed


text \<open>
  If one of the configured Sentinels answers whenever it is dialled and names a primary that answers as
  the master whenever it is dialled, over any pattern of successful partial reads and writes, then
  \<open>connect\<close> succeeds, whatever the other Sentinels do.
\<close>

theorem responsive_primary_is_found:
  assumes "discovery_configured s" "seed \<in> set (rc_seeds s)"
    and "serves N s seed 700 [Status ''OK'', Array [Bulk host, Bulk (number_text port)]]"
    and "serves N s (host, port) 1200 [Status ''OK'', Array (Bulk ''master'' # extra)]"
    and "word_ok host" "0 < port" "port \<le> 65535"
  shows "fst (client_connect N s)"
  using client_connect_finds[OF assms] .

theorem responsive_primary_is_found_witness:
  "fst (client_connect sample_network sample_client)"
  by (rule responsive_primary_is_found[OF sample_serves(1-5)]) simp_all

text \<open>
  A \<open>ROLE\<close> reply that breaks off after its first item still begins with the word \<open>master\<close>: the role check
  succeeds, and with it \<open>connect\<close>, although \<open>readResponse\<close> has already closed the socket.
\<close>

definition cut_off_client :: redis_client where
  "cut_off_client = sample_client\<lparr>rc_conn := \<lparr>conn_peer = Some (''db'', 6379),
     conn_input = ''*2'' @ [CR, LF] @ ''$6'' @ [CR, LF] @ ''master'' @ [CR, LF],
     conn_reads = [], conn_output = [], conn_writes = []\<rparr>\<rparr>"

lemma digit_strings: "parseRespLength ''2'' = Some 2" "parseRespLength ''6'' = Some 6"
  by code_simp+

lemma at_end:
  assumes "conn_input c = []" "conn_open c"
  shows "\<exists>c'. read_response (Suc n) c = Some ([], c') \<and> \<not> conn_open c'"
proof -
  have "fst (readTransport 1 c) = []" using assms(1) by (simp add: readTransport_def Let_def)
  then show ?thesis
    using assms(2) by (auto simp: readLine_def read_line.simps[of "[]" c] Let_def split: prod.splits)
qed

lemma encoded_master: "encode_reply (Bulk ''master'') = ''$6'' @ [CR, LF] @ ''master'' @ [CR, LF]"
proof -
  have "to_string 6 = ''6''" by code_simp
  moreover have "length ''master'' = 6" by simp
  ultimately show ?thesis by (simp only: encode_reply.simps) simp
qed

lemma role_check_without_socket:
  "fst (verify_role cut_off_client) \<and> \<not> conn_open (rc_conn (snd (verify_role cut_off_client)))"
proof -
  let ?in = "''*2'' @ [CR, LF] @ ''$6'' @ [CR, LF] @ ''master'' @ [CR, LF]"
  obtain c where c: "write_all (encode_command [''ROLE'']) (rc_conn cut_off_client) = (True, c)"
      "conn_peer c = Some (''db'', 6379)" "conn_input c = ?in" "conn_reads c = []"
    using write_all_ok[of "rc_conn cut_off_client" "encode_command [''ROLE'']"]
    by (auto simp: cut_off_client_def)
  have ok: "calls_ok c" using c by (simp add: calls_ok_def)
  obtain c1 where c1: "readLine c = (CHR ''*'' # ''2'', c1)" "took (CHR ''*'' # ''2'' @ [CR, LF]) c c1"
      "conn_input c1 = ''$6'' @ [CR, LF] @ ''master'' @ [CR, LF]"
    using read_header[OF ok, of "CHR ''*''" "''2''"] c(3) by (auto simp: maximum_line_def)
  have p1: "conn_peer c1 = Some (''db'', 6379)" using c1(2) c(2) by (simp add: took_def)
  obtain c2 where c2: "read_response 16 c1 = Some (''master'', c2)" "took (encode_reply (Bulk ''master'')) c1 c2"
  proof -
    have "conn_input c1 = encode_reply (Bulk ''master'') @ []" "length (conn_input c1) < 16"
      unfolding encoded_master c1(3) by simp_all
    moreover have "resp_ok (Bulk ''master'')" by (simp add: kMaximumRedisBulkReplyBytes_def)
    ultimately show ?thesis
      using reply_read[OF _ took_ok[OF c1(2)], of "Bulk ''master''" "[]" 16] that by (auto simp del: encode_reply.simps)
  qed
  have i2: "conn_input c2 = []" "conn_open c2"
    using c2(2) c1(3) took_ok[OF c2(2)] unfolding encoded_master by (simp_all add: took_def calls_ok_def)
  obtain c3 where c3: "read_response 16 c2 = Some ([], c3)" "\<not> conn_open c3"
    using at_end[OF i2, of 15] by auto
  have "read_items 16 (nat 2) c1 = Some ([''master'', []], c3)"
    using c2(1) c3(1) by (simp add: numeral_2_eq_2 del: read_response.simps)
  then have "read_response (Suc 16) c = Some (join_items [''master'', []], c3)"
    using c1(1) c(2) digit_strings(1) unfolding read_response.simps(2)[of 16]
    by (simp add: kMaximumRedisArrayElements_def)
  moreover have "length (conn_input c) = 16" using c(3) by simp
  ultimately have "readResponse c = (join_items [''master'', []], c3)"
    unfolding readResponse_def by (simp only: option.case)
  then have r: "request_reply [''ROLE''] cut_off_client = (Some (join_items [''master'', []]), cut_off_client\<lparr>rc_conn := c3\<rparr>)"
    using c(1) by (simp add: request_reply_def on_conn_def send_open_def)
  show ?thesis using r c3(2) role_word[of "[[]]"] by (simp add: verify_role_def)
qed

lemma on_conn_sent:
  assumes "on_conn (send_open args) s = (sent, s1)"
  shows "if sent then conn_output (rc_conn s1) = conn_output (rc_conn s) @ encode_command args
    else \<not> conn_open (rc_conn s1)"
proof -
  obtain c where c: "write_all (encode_command args) (rc_conn s) = (sent, c)" "rc_conn s1 = c"
    using assms by (auto simp: on_conn_def send_open_def Let_def split: prod.splits)
  show ?thesis using write_all_sent[OF c(1)] c(2) by auto
qed


end
