(* ===== verification/Canvas_Events.thy ===== *)
theory Canvas_Events
  imports Canvas_Commands Broker_Ops
begin

text \<open>
  \<^verbatim>\<open>cpp/src/service_memory/CanvasEventMemory.cpp\<close>: how one queued canvas event is written to the
  cached canvas. An event is JSON that was parsed from a message, so a non-negative integer is unsigned.
  A result \<open>None\<close> is an exception that leaves \<open>apply\<close>; the worker counts it as a failed event.
\<close>

section \<open>Parts of an event\<close>

definition canvasItemId :: "json \<Rightarrow> string" where
  "canvasItemId value =
     (case value of JStr s \<Rightarrow> s | JInt i \<Rightarrow> int_text (as_int64 i) | _ \<Rightarrow> [])"

definition object_of :: "(string \<times> json) list \<Rightarrow> json" where
  \<comment> \<open>an initializer list of members\<close>
  "object_of ms = JObj (fold (\<lambda>(k, v). obj_put k v) ms [])"

definition get_uint64 :: "json \<Rightarrow> nat outcome" where
  "get_uint64 j = (case j of
       JInt i \<Rightarrow> Inr (nat (i mod 2 ^ 64))
     | JFloat b \<Rightarrow> Inr (nat (double_trunc b mod 2 ^ 64))
     | JBool b \<Rightarrow> Inr (if b then 1 else 0)
     | _ \<Rightarrow> Inl JsonException)"

definition storedChatMessage :: "json \<Rightarrow> json outcome" where
  "storedChatMessage event =
     bindE (value_with get_uint64 event ''sequence'' 0) (\<lambda>sequence.
     bindE (value_string event ''text'' []) (\<lambda>text.
     bindE (value_string event ''sender'' []) (\<lambda>sender.
     bindE (value_int event ''sender_user_id'' 0) (\<lambda>user.
     bindE (value_int event ''tag_number'' 0) (\<lambda>tag.
     bindE (value_int64 event ''created_at'' 0) (\<lambda>created.
       let stored = object_of [(''sequence'', JInt (int sequence)), (''text'', JStr text), (''sender'', JStr sender),
                      (''sender_user_id'', JInt user), (''tag_number'', JInt tag), (''created_at'', JInt created)]
       in Inr (case jget event ''request_id'' of
            Some (JStr r) \<Rightarrow> put_field ''request_id'' (JStr r) stored
          | _ \<Rightarrow> stored)))))))"

definition first_reply :: "json_lib \<Rightarrow> string option \<Rightarrow> json option" where
  \<comment> \<open>the first match of a reply; a missing or unusable reply has none\<close>
  "first_reply L reply =
     (case reply of
        None \<Rightarrow> None
      | Some t \<Rightarrow> (case jl_parse L t of Some (JArr (x # _)) \<Rightarrow> Some x | _ \<Rightarrow> None))"

section \<open>Chat rooms keep their history\<close>

definition with_history :: "json_lib \<Rightarrow> string option \<Rightarrow> json \<Rightarrow> json" where
  "with_history L old_data item =
     (case first_reply L old_data of Some d \<Rightarrow> put_field ''data'' d item | None \<Rightarrow> item)"

definition with_numbering :: "json_lib \<Rightarrow> string option \<Rightarrow> json \<Rightarrow> json" where
  "with_numbering L old_next item =
     (let next_sequence = chatRoomNextSequence item
      in put_field ''next_sequence'' (JInt (int (case first_reply L old_next of
             Some v \<Rightarrow> max next_sequence (positiveSequence v) | None \<Rightarrow> next_sequence))) item)"

definition snapshot_room ::
  "'w mc_env \<Rightarrow> (string \<Rightarrow> bool) \<Rightarrow> int \<Rightarrow> string \<Rightarrow> json \<Rightarrow> cache_manager \<Rightarrow> 'w
   \<Rightarrow> json option \<times> cache_manager \<times> 'w" where
  \<comment> \<open>one step of the loop over the items of a whole snapshot\<close>
  "snapshot_room E try_lock i item_id item m w =
     (if \<not> isChatRoomItem item \<or> contains item ''data'' then (Some item, m, w)
      else (case readItem E try_lock i item_id ''data'' m w of
          (None, m1, w1) \<Rightarrow> (None, m1, w1)
        | (Some old_data, m1, w1) \<Rightarrow>
            (let item1 = with_history (me_lib E) old_data item;
                 item2 = (if contains item1 ''data'' then item1 else put_field ''data'' (JArr []) item1)
             in (case readItem E try_lock i item_id ''next_sequence'' m1 w1 of
                   (None, m2, w2) \<Rightarrow> (None, m2, w2)
                 | (Some old_next, m2, w2) \<Rightarrow> (Some (with_numbering (me_lib E) old_next item2), m2, w2)))))"

fun snapshot_rooms ::
  "'w mc_env \<Rightarrow> (string \<Rightarrow> bool) \<Rightarrow> int \<Rightarrow> (string \<times> json) list \<Rightarrow> cache_manager \<Rightarrow> 'w
   \<Rightarrow> (string \<times> json) list option \<times> cache_manager \<times> 'w" where
  "snapshot_rooms E try_lock i [] m w = (Some [], m, w)"
| "snapshot_rooms E try_lock i ((item_id, item) # rest) m w =
     (case snapshot_room E try_lock i item_id item m w of
        (None, m1, w1) \<Rightarrow> (None, m1, w1)
      | (Some item', m1, w1) \<Rightarrow>
          (case snapshot_rooms E try_lock i rest m1 w1 of
             (None, m2, w2) \<Rightarrow> (None, m2, w2)
           | (Some rest', m2, w2) \<Rightarrow> (Some ((item_id, item') # rest'), m2, w2)))"

definition preserve_chat ::
  "'w mc_env \<Rightarrow> (string \<Rightarrow> bool) \<Rightarrow> int \<Rightarrow> string \<Rightarrow> json \<Rightarrow> cache_manager \<Rightarrow> 'w
   \<Rightarrow> json option \<times> cache_manager \<times> 'w" where
  \<comment> \<open>a chat room saved as a single item with \<open>_preserve_chat_history\<close>\<close>
  "preserve_chat E try_lock i item_key item m w =
     (case readItem E try_lock i item_key ''data'' m w of
        (None, m1, w1) \<Rightarrow> (None, m1, w1)
      | (Some old_data, m1, w1) \<Rightarrow>
          (let item1 = with_history (me_lib E) old_data item
           in (case jget item1 ''data'' of
                 Some (JArr messages) \<Rightarrow>
                   (case readItem E try_lock i item_key ''next_sequence'' m1 w1 of
                      (None, m2, w2) \<Rightarrow> (None, m2, w2)
                    | (Some old_next, m2, w2) \<Rightarrow> (Some (with_numbering (me_lib E) old_next item1), m2, w2))
               | _ \<Rightarrow> (Some item1, m1, w1))))"

section \<open>Automerge histories are united\<close>

fun append_changes :: "json list \<Rightarrow> string set \<times> json list \<Rightarrow> string set \<times> json list" where
  "append_changes [] (seen, merged) = (seen, merged)"
| "append_changes (change # changes) (seen, merged) =
     (case jget change ''change'' of
        Some (JStr encoded) \<Rightarrow>
          append_changes changes
            (if encoded \<in> seen then (seen, merged) else (insert encoded seen, merged @ [change]))
      | _ \<Rightarrow> append_changes changes (seen, merged))"

definition changes_of :: "json \<Rightarrow> json list" where
  "changes_of item = (case jget item ''automerge_changes'' of Some (JArr changes) \<Rightarrow> changes | _ \<Rightarrow> [])"

definition united_changes :: "json \<Rightarrow> json \<Rightarrow> json list" where
  "united_changes previous_item item =
     snd (append_changes (changes_of item) (append_changes (changes_of previous_item) ({}, [])))"

definition unite_history :: "json \<Rightarrow> string \<Rightarrow> json \<Rightarrow> json" where
  \<comment> \<open>on the stored item that was read; a stored \<open>kind\<close> that is no string throws and leaves the item\<close>
  "unite_history previous_item item_kind item =
     (if value_string previous_item ''kind'' [] = Inr item_kind then
        (let item1 = (case jget previous_item ''automerge_snapshot'' of
                        Some (JStr s) \<Rightarrow> put_field ''automerge_snapshot'' (JStr s) item | _ \<Rightarrow> item)
         in put_field ''automerge_changes'' (JArr (united_changes previous_item item1)) item1)
      else item)"

definition preserve_automerge ::
  "'w mc_env \<Rightarrow> (string \<Rightarrow> bool) \<Rightarrow> int \<Rightarrow> string \<Rightarrow> string \<Rightarrow> json \<Rightarrow> cache_manager \<Rightarrow> 'w
   \<Rightarrow> json option \<times> cache_manager \<times> 'w" where
  "preserve_automerge E try_lock i item_key item_kind item m w =
     (if \<not> text_kind item_kind then (Some item, m, w)
      else (case readItem E try_lock i item_key [] m w of
          (None, m1, w1) \<Rightarrow> (None, m1, w1)
        | (Some stored, m1, w1) \<Rightarrow>
            (Some (case first_reply (me_lib E) stored of
               Some previous_item \<Rightarrow> if is_object previous_item then unite_history previous_item item_kind item else item
             | None \<Rightarrow> item), m1, w1)))"

section \<open>Applying an event\<close>

definition apply_chat ::
  "'w mc_env \<Rightarrow> int \<Rightarrow> json \<Rightarrow> cache_manager \<Rightarrow> 'w \<Rightarrow> bool option \<times> cache_manager \<times> 'w" where
  "apply_chat E i event m w =
     (case (jget event ''room_id'', jget event ''sequence'') of
        (Some (JStr room_id), Some (JInt sequence)) \<Rightarrow>
          if sequence < 0 \<or> room_id = [] then (Some False, m, w)
          else (case bindE (storedChatMessage event) (\<lambda>message.
                       bindE (value_bool event ''room_created'' False) (\<lambda>created.
                         if created then bindE (value_json event ''room_permission'' (JArr [])) (\<lambda>p. Inr (message, Some p))
                         else Inr (message, None))) of
              Inl _ \<Rightarrow> (None, m, w)
            | Inr (message, Some permission) \<Rightarrow>
                storeItem E i room_id
                  (object_of [(''type'', JStr ''chat_room''), (''permission'', permission), (''data'', JArr [message]),
                     (''next_sequence'', JInt ((sequence + 1) mod 2 ^ 64))]) m w
            | Inr (message, None) \<Rightarrow> appendMessage E i room_id sequence message m w)
      | _ \<Rightarrow> (Some False, m, w))"

definition apply_snapshot ::
  "'w mc_env \<Rightarrow> (string \<Rightarrow> bool) \<Rightarrow> int \<Rightarrow> (string \<times> json) list \<Rightarrow> cache_manager \<Rightarrow> 'w
   \<Rightarrow> bool option \<times> cache_manager \<times> 'w" where
  "apply_snapshot E try_lock i items m w =
     (case snapshot_rooms E try_lock i items m w of
        (None, m1, w1) \<Rightarrow> (None, m1, w1)
      | (Some items', m1, w1) \<Rightarrow> replaceItems E i (JObj items') m1 w1)"

definition event_item_id :: "json \<Rightarrow> json option" where
  "event_item_id event =
     (case jget event ''item_id'' of Some v \<Rightarrow> Some v | None \<Rightarrow> jget event ''item-id'')"

definition item_payload :: "json \<Rightarrow> json option" where
  "item_payload event =
     (case jget event ''item'' of
        Some (JObj ms) \<Rightarrow> Some (JObj ms)
      | _ \<Rightarrow> (case jget event ''data'' of Some (JObj ms) \<Rightarrow> Some (JObj ms) | _ \<Rightarrow> None))"

definition apply_item ::
  "'w mc_env \<Rightarrow> (string \<Rightarrow> bool) \<Rightarrow> int \<Rightarrow> json \<Rightarrow> string \<Rightarrow> json \<Rightarrow> cache_manager \<Rightarrow> 'w
   \<Rightarrow> bool option \<times> cache_manager \<times> 'w" where
  "apply_item E try_lock i event item_key item m w =
     (case value_string item ''kind'' [] of
        Inl _ \<Rightarrow> (None, m, w)
      | Inr item_kind \<Rightarrow>
          (case preserve_automerge E try_lock i item_key item_kind item m w of
             (None, m1, w1) \<Rightarrow> (None, m1, w1)
           | (Some item1, m1, w1) \<Rightarrow>
               (case value_bool event ''_preserve_chat_history'' False of
                  Inl _ \<Rightarrow> (None, m1, w1)
                | Inr preserve \<Rightarrow>
                    if preserve \<and> isChatRoomItem item1 then
                      (case preserve_chat E try_lock i item_key item1 m1 w1 of
                         (None, m2, w2) \<Rightarrow> (None, m2, w2)
                       | (Some item2, m2, w2) \<Rightarrow> storeItem E i item_key item2 m2 w2)
                    else storeItem E i item_key item1 m1 w1)))"

definition apply_event ::
  "'w mc_env \<Rightarrow> (string \<Rightarrow> bool) \<Rightarrow> int \<Rightarrow> json \<Rightarrow> cache_manager \<Rightarrow> 'w
   \<Rightarrow> bool option \<times> cache_manager \<times> 'w" where
  \<comment> \<open>\<open>CanvasEventMemory::apply\<close> on an existing canvas\<close>
  "apply_event E try_lock i event m w =
     (if \<not> is_object event then (Some False, m, w)
      else (case value_string event ''type'' [] of
          Inl _ \<Rightarrow> (None, m, w)
        | Inr kind \<Rightarrow>
            if kind \<in> {''ping'', ''pong'', ''item_crdt_change''} then (Some True, m, w)
            else if kind = ''chat'' then apply_chat E i event m w
            else (case jget event ''items'' of
                Some (JObj items) \<Rightarrow> apply_snapshot E try_lock i items m w
              | _ \<Rightarrow>
                  (case event_item_id event of
                     None \<Rightarrow> (Some False, m, w)
                   | Some v \<Rightarrow>
                       (let item_key = canvasItemId v
                        in if item_key = [] then (Some False, m, w)
                           else if kind \<in> {''item_delete'', ''delete_item''} then removeItem E i item_key m w
                           else (case item_payload event of
                               Some item \<Rightarrow> apply_item E try_lock i event item_key item m w
                             | None \<Rightarrow> (Some False, m, w)))))))"

definition drain_apply ::
  "'w mc_env \<Rightarrow> (string \<Rightarrow> bool) \<Rightarrow> int \<Rightarrow> json \<Rightarrow> cache_manager \<times> 'w \<Rightarrow> bool \<times> (cache_manager \<times> 'w)" where
  \<comment> \<open>the \<open>try\<close> block of \<open>CanvasPersistenceService::drain\<close> around it\<close>
  "drain_apply E try_lock i event s =
     (case apply_event E try_lock i event (fst s) (snd s) of
        (None, s') \<Rightarrow> (False, s')
      | (Some ok, s') \<Rightarrow> (ok, s'))"


section \<open>The union of two histories\<close>

definition change_text :: "json \<Rightarrow> string option" where
  "change_text change = (case jget change ''change'' of Some (JStr s) \<Rightarrow> Some s | _ \<Rightarrow> None)"

definition change_texts :: "json list \<Rightarrow> string set" where
  "change_texts changes = {s. \<exists>change \<in> set changes. change_text change = Some s}"

lemma append_changes_spec:
  assumes "append_changes changes (seen, merged) = (seen', merged')"
    and "distinct (map change_text merged)" "Some ` seen = set (map change_text merged)"
  shows "distinct (map change_text merged') \<and> Some ` seen' = set (map change_text merged')
    \<and> seen' = seen \<union> change_texts changes \<and> (\<exists>extra. merged' = merged @ extra \<and> set extra \<subseteq> set changes)"
  using assms
proof (induction changes arbitrary: seen merged)
  case Nil
  then show ?case by (simp add: change_texts_def)
next
  case (Cons change changes)
  show ?case
  proof (cases "change_text change")
    case None
    then have "append_changes changes (seen, merged) = (seen', merged')"
      using Cons.prems(1) by (auto simp: change_text_def split: option.splits json.splits)
    moreover have "change_texts (change # changes) = change_texts changes"
      using None by (auto simp: change_texts_def)
    ultimately show ?thesis using Cons.IH[OF _ Cons.prems(2,3)] by fastforce
  next
    case (Some s)
    let ?old = "s \<in> seen"
    have c: "append_changes changes (if ?old then (seen, merged) else (insert s seen, merged @ [change])) = (seen', merged')"
      using Cons.prems(1) Some by (auto simp: change_text_def split: option.splits json.splits)
    have t: "change_texts (change # changes) = insert s (change_texts changes)"
      using Some by (auto simp: change_texts_def)
    show ?thesis
    proof (cases ?old)
      case True
      then show ?thesis using Cons.IH[OF _ Cons.prems(2,3)] c t by fastforce
    next
      case False
      then have "Some s \<notin> set (map change_text merged)" using Cons.prems(3) by (metis imageE option.inject)
      then have "distinct (map change_text (merged @ [change]))"
          "Some ` insert s seen = set (map change_text (merged @ [change]))"
        using Cons.prems(2,3) Some by auto
      then show ?thesis using Cons.IH[of "insert s seen" "merged @ [change]"] c t False by fastforce
    qed
  qed
qed

lemma united_changes_spec:
  "distinct (map change_text (united_changes p item))"
  "set (map change_text (united_changes p item)) = Some ` (change_texts (changes_of p) \<union> change_texts (changes_of item))"
  "set (united_changes p item) \<subseteq> set (changes_of p) \<union> set (changes_of item)"
proof -
  obtain s1 m1 where a: "append_changes (changes_of p) ({}, []) = (s1, m1)" by force
  obtain s2 m2 where b: "append_changes (changes_of item) (s1, m1) = (s2, m2)" by force
  have a': "distinct (map change_text m1)" "Some ` s1 = set (map change_text m1)" "s1 = change_texts (changes_of p)"
      "set m1 \<subseteq> set (changes_of p)"
    using append_changes_spec[OF a] by auto
  note b' = append_changes_spec[OF b a'(1,2)]
  have u: "united_changes p item = m2" using a b by (simp add: united_changes_def)
  show "distinct (map change_text (united_changes p item))"
    "set (map change_text (united_changes p item)) = Some ` (change_texts (changes_of p) \<union> change_texts (changes_of item))"
    using a'(3) b' u by auto
  obtain e1 e2 where "m1 = e1" "set e1 \<subseteq> set (changes_of p)" "m2 = m1 @ e2" "set e2 \<subseteq> set (changes_of item)"
    using a'(4) b' by auto
  then show "set (united_changes p item) \<subseteq> set (changes_of p) \<union> set (changes_of item)" using u by auto
qed

lemma put_field_wf: "json_wf item \<Longrightarrow> json_wf v \<Longrightarrow> json_wf (put_field f v item)"
  by (cases item) (auto simp: put_field_def simp del: json_wf.simps intro: json_wf_put)

lemma put_field_get: "is_object item \<Longrightarrow> jget (put_field f v item) g = (if g = f then Some v else jget item g)"
  by (auto simp: put_field_def is_object_iff)

lemma changes_of_wf: "json_wf item \<Longrightarrow> change \<in> set (changes_of item) \<Longrightarrow> json_wf change"
proof -
  assume w: "json_wf item" and "change \<in> set (changes_of item)"
  then obtain cs where cs: "jget item ''automerge_changes'' = Some (JArr cs)" "change \<in> set cs"
    by (cases "jget item ''automerge_changes''") (auto simp: changes_of_def split: json.splits)
  show "json_wf change" using jget_wf[OF w cs(1)] cs(2) by simp
qed

lemma unite_history_wf:
  assumes "json_wf p" "json_wf item"
  shows "json_wf (unite_history p kind item)"
proof -
  let ?i = "case jget p ''automerge_snapshot'' of Some (JStr s) \<Rightarrow> put_field ''automerge_snapshot'' (JStr s) item | _ \<Rightarrow> item"
  have i: "json_wf ?i" using assms(2) put_field_wf by (auto split: option.splits json.splits)
  have "json_wf (JArr (united_changes p ?i))"
    using united_changes_spec(3)[of p ?i] changes_of_wf[OF assms(1)] changes_of_wf[OF i] by (auto simp del: set_map)
  then show ?thesis using put_field_wf[OF i] assms(2) by (auto simp: unite_history_def Let_def)
qed

lemma unite_history_fields:
  assumes "is_object item" "value_string p ''kind'' [] = Inr kind"
  shows "jget (unite_history p kind item) ''automerge_changes'' = Some (JArr (united_changes p item))"
    "f \<noteq> ''automerge_changes'' \<Longrightarrow> f \<noteq> ''automerge_snapshot'' \<Longrightarrow> jget (unite_history p kind item) f = jget item f"
    "is_object (unite_history p kind item)"
proof -
  let ?i = "case jget p ''automerge_snapshot'' of Some (JStr s) \<Rightarrow> put_field ''automerge_snapshot'' (JStr s) item | _ \<Rightarrow> item"
  have o: "is_object ?i" using assms(1) by (auto simp: put_field_def is_object_iff split: option.splits json.splits)
  have g: "jget ?i f = jget item f" if "f \<noteq> ''automerge_snapshot''" for f
    using that assms(1) by (auto simp: put_field_get split: option.splits json.splits)
  have "changes_of ?i = changes_of item" using g[of "''automerge_changes''"] by (simp add: changes_of_def)
  then have u: "united_changes p ?i = united_changes p item" by (simp add: united_changes_def)
  show "jget (unite_history p kind item) ''automerge_changes'' = Some (JArr (united_changes p item))"
    "f \<noteq> ''automerge_changes'' \<Longrightarrow> f \<noteq> ''automerge_snapshot'' \<Longrightarrow> jget (unite_history p kind item) f = jget item f"
    "is_object (unite_history p kind item)"
    using assms(2) o g u put_field_get[OF o]
    by (auto simp: unite_history_def Let_def put_field_def is_object_iff)
qed

section \<open>Saving a text item through the cache\<close>

lemma item_json_path:
  assumes "json_lib_ok L" "jl_parse L ''\"items\"'' = Some (JStr ''items'')"
  shows "parseJsonPath L (canvasItemJsonPath L i) = Some (item_path i)"
proof -
  have "parse_segments L (canonical_segment L (Key i) @ []) = Some [Key i]"
    using parse_canonical_segment[OF assms(1), of "Key i" "[]"]
    by (simp add: segment_ok_def parse_segments.simps[of L "[]"])
  then show ?thesis
    using assms(2) by (simp add: parseJsonPath_def canvasItemJsonPath_def canonical_segment_def item_path_def
        parse_segments.simps[of L "CHR ''['' # _"])
qed

lemma item_json_region:
  assumes "json_lib_ok L" "jl_parse L ''\"items\"'' = Some (JStr ''items'')" "L = me_lib E"
    "mo_region_depth (me_options E) = 2"
  shows "mc_region E (canvasItemJsonPath L i) = Some (canonical L (item_path i), [])"
  using item_json_path[OF assms(1,2)] assms(3,4) by (simp add: mc_region_def item_path_def)

lemma core_inject:
  assumes "json_lib_ok (me_lib E)" "json_wf x" "json_wf v" "mo_remote_fields (me_options E) = canvas_remote_fields"
    "\<not> isChatRoomItem x" "mc_core E v = mc_core E x"
  shows "v = x"
proof -
  have t: "jget (mc_project (me_options E) y) ''type'' = jget y ''type''" for y
    using assms(4) by (auto simp: mc_project_def mc_remote_def canvas_remote_fields_def jget_def split: json.splits)
  have same: "mc_project (me_options E) y = y" if "\<not> isChatRoomItem y" for y
    using that assms(4)
    by (auto simp: mc_project_def mc_remote_def canvas_remote_fields_def isChatRoomItem_def split: json.splits)
  have w: "json_wf (mc_project (me_options E) y)" if "json_wf y" for y
    using that json_wf_erase_all by (cases y) (auto simp: mc_project_def simp del: json_wf.simps)
  have e: "mc_project (me_options E) v = mc_project (me_options E) x"
    using assms(6) dump_inject[OF assms(1) w[OF assms(3)] w[OF assms(2)]] by (simp add: mc_core_def)
  then have "jget v ''type'' = jget x ''type''" using t by metis
  then have "\<not> isChatRoomItem v" using assms(5) by (simp add: isChatRoomItem_def)
  then show ?thesis using e same assms(5) by simp
qed

definition text_item_event :: "json \<Rightarrow> string \<Rightarrow> string \<Rightarrow> json \<Rightarrow> bool" where
  \<comment> \<open>the event saves a text, note or code item of the given kind under the given id\<close>
  "text_item_event event key kind item \<longleftrightarrow>
     is_object event
     \<and> (case value_string event ''type'' [] of
          Inl _ \<Rightarrow> False
        | Inr t \<Rightarrow> t \<notin> {''ping'', ''pong'', ''item_crdt_change'', ''chat'', ''item_delete'', ''delete_item''})
     \<and> (case jget event ''items'' of Some v \<Rightarrow> \<not> is_object v | None \<Rightarrow> True)
     \<and> map_option canvasItemId (event_item_id event) = Some key \<and> key \<noteq> []
     \<and> item_payload event = Some item \<and> value_string item ''kind'' [] = Inr kind
     \<and> text_kind kind \<and> \<not> isChatRoomItem item"

lemma apply_text_item:
  assumes "text_item_event event key kind item"
  shows "apply_event E try_lock i event m w = apply_item E try_lock i event key item m w"
proof -
  obtain v where "event_item_id event = Some v" "canvasItemId v = key"
    using assms by (auto simp: text_item_event_def)
  then show ?thesis
    using assms by (auto simp: text_item_event_def apply_event_def Let_def is_object_def
        split: sum.splits option.splits json.splits)
qed

lemma item_payload_object: "item_payload event = Some item \<Longrightarrow> is_object item"
  by (auto simp: item_payload_def split: option.splits json.splits)

lemma item_payload_wf: "json_wf event \<Longrightarrow> item_payload event = Some item \<Longrightarrow> json_wf item"
  using jget_wf[of event] by (auto simp: item_payload_def split: option.splits json.splits simp del: json_wf.simps)


definition stored_change :: "string \<Rightarrow> json" where
  "stored_change s = JObj [(''change'', JStr s)]"

definition sample_text :: "string list \<Rightarrow> json" where
  "sample_text ss = JObj [(''automerge_changes'', JArr (map stored_change ss)), (''kind'', JStr ''text'')]"

definition sample_text_event :: json where
  "sample_text_event = JObj [(''item'', sample_text [''b'', ''c'']), (''item_id'', JStr ''n''), (''type'', JStr ''item_update'')]"

definition sample_text_world :: ref_world where
  "sample_text_world = [(''canvas:1'', JObj [(''items'', JObj [(''n'', sample_text [''a'', ''b''])])])]"


section \<open>Saving a whole snapshot keeps chat histories\<close>

lemma next_sequence_pos: "1 \<le> chatRoomNextSequence item"
proof -
  have "1 \<le> n \<Longrightarrow> 1 \<le> fold next_after ms n" for n ms
    using fold_next_after_mono[of n ms] by linarith
  then show ?thesis by (simp add: chatRoomNextSequence_def Let_def split: option.splits json.splits)
qed

lemma next_sequence_covers:
  "jget item ''data'' = Some (JArr messages) \<Longrightarrow> message \<in> set messages \<Longrightarrow> jget message ''sequence'' = Some s
     \<Longrightarrow> positiveSequence s < uint64_max \<Longrightarrow> positiveSequence s < chatRoomNextSequence item"
  using fold_next_after_covers by (simp add: chatRoomNextSequence_def Let_def)

lemma with_numbering_spec:
  assumes "is_object item"
  obtains n where "jget (with_numbering L old_next item) ''next_sequence'' = Some (JInt (int n))"
    "chatRoomNextSequence item \<le> n" "\<And>v. first_reply L old_next = Some v \<Longrightarrow> positiveSequence v \<le> n"
    "\<And>f. f \<noteq> ''next_sequence'' \<Longrightarrow> jget (with_numbering L old_next item) f = jget item f"
proof -
  let ?n = "case first_reply L old_next of Some v \<Rightarrow> max (chatRoomNextSequence item) (positiveSequence v)
      | None \<Rightarrow> chatRoomNextSequence item"
  show ?thesis
  proof (rule that[of ?n])
    show "jget (with_numbering L old_next item) ''next_sequence'' = Some (JInt (int ?n))"
      using assms by (simp add: with_numbering_def Let_def put_field_get)
    show "jget (with_numbering L old_next item) f = jget item f" if "f \<noteq> ''next_sequence''" for f
      using that assms by (simp add: with_numbering_def Let_def put_field_get)
  qed (auto split: option.splits)
qed


definition sample_room_item :: json where
  "sample_room_item = JObj [(''permission'', JArr []), (''type'', JStr ''chat_room'')]"

definition sample_room_world :: ref_world where
  "sample_room_world = [(''canvas:1'', JObj [(''items'', JObj [
     (''r'', JObj [(''data'', JArr [JObj [(''sequence'', JInt 4)]]), (''next_sequence'', JInt 7), (''type'', JStr ''chat_room'')])])])]"


end
