(* ===== verification/Broker_Socket.thy ===== *)
theory Broker_Socket
  imports Json_Codec "HOL-Library.AList"
begin

text \<open>
  \<^verbatim>\<open>cpp/src/service/BrokerQuerySocketService.cpp\<close>: the WebSocket front of the query service. Queries
  wait in a bounded queue for sixteen workers; replies are handed to the event loop, queued per
  connection and sent in fragments as the socket takes them. The WebSocket library is a parameter: a
  socket carries the buffered amount and the result that each coming send will meet, and the frames it
  has accepted. The state also keeps, as history, the replies accepted for each connection. Shown here:
  the byte counters, the bounds, and that every reply arrives whole, once and in order.
\<close>

section \<open>Sockets\<close>

datatype send_status = SUCCESS | BACKPRESSURE | DROPPED

datatype frame = Whole | First_Fragment | Fragment | Last_Fragment

record broker_socket =
  sk_plan :: "(nat \<times> send_status) list" \<comment> \<open>per send: \<open>getBufferedAmount\<close> before it and its result; later sends succeed at 0\<close>
  sk_frames :: "(frame \<times> string) list"
  sk_accepted :: "string list"            \<comment> \<open>history: the replies queued for this connection\<close>

record reply =
  rp_data :: string
  rp_offset :: nat

record work =
  wk_connection :: nat
  wk_payload :: string

record broker_service =
  bs_accepting :: bool
  bs_stopping :: bool
  bs_token :: string
  bs_next_connection :: nat
  bs_connections :: "(nat \<times> broker_socket) list"
  bs_queue :: "work list"
  bs_queued_bytes :: nat
  bs_taken :: "work list"                 \<comment> \<open>entries the workers are executing\<close>
  bs_deferred :: "(nat \<times> string) list"   \<comment> \<open>replies handed to the event loop\<close>
  bs_replies :: "nat \<Rightarrow> reply list option"
  bs_reply_bytes :: nat

definition service_new :: "string \<Rightarrow> broker_service" where
  \<comment> \<open>after \<open>start\<close>\<close>
  "service_new token = \<lparr>bs_accepting = True, bs_stopping = False, bs_token = token, bs_next_connection = 0,
     bs_connections = [], bs_queue = [], bs_queued_bytes = 0, bs_taken = [], bs_deferred = [],
     bs_replies = Map.empty, bs_reply_bytes = 0\<rparr>"

section \<open>Sending\<close>

definition fragment_bytes :: nat where
  "fragment_bytes = 128 * 1024"

definition buffered_limit :: nat where
  "buffered_limit = 256 * 1024"

definition frame_kind :: "bool \<Rightarrow> bool \<Rightarrow> frame" where
  "frame_kind is_first is_last =
     (if is_first then (if is_last then Whole else First_Fragment)
      else (if is_last then Last_Fragment else Fragment))"

definition next_send :: "broker_socket \<Rightarrow> nat \<times> send_status" where
  "next_send sk = (case sk_plan sk of [] \<Rightarrow> (0, SUCCESS) | p # _ \<Rightarrow> p)"

text \<open>
  The loop of \<open>drainReplies\<close> over the queue of one connection. An offset is never beyond the data; with
  the comparison below the loop also ends on one that is.
\<close>

function drain_loop :: "broker_socket \<Rightarrow> reply list \<Rightarrow> nat \<Rightarrow> broker_socket \<times> reply list \<times> nat" where
  "drain_loop sk [] bytes = (sk, [], bytes)"
| "drain_loop sk (r # rs) bytes =
     (let sk1 = sk\<lparr>sk_plan := tl (sk_plan sk)\<rparr>
      in if fst (next_send sk) \<ge> buffered_limit then (sk1, r # rs, bytes)
         else (let amount = min fragment_bytes (length (rp_data r) - rp_offset r);
                   chunk = take amount (drop (rp_offset r) (rp_data r));
                   is_last = (rp_offset r + amount \<ge> length (rp_data r))
               in if snd (next_send sk) = DROPPED then (sk1, r # rs, bytes)
                  else (let sk2 = sk1\<lparr>sk_frames := sk_frames sk @ [(frame_kind (rp_offset r = 0) is_last, chunk)]\<rparr>;
                            queue' = (if is_last then rs else r\<lparr>rp_offset := rp_offset r + amount\<rparr> # rs);
                            bytes' = (if is_last then bytes - length (rp_data r) else bytes)
                        in if snd (next_send sk) = BACKPRESSURE then (sk2, queue', bytes')
                           else drain_loop sk2 queue' bytes')))"
  by pat_completeness auto
termination
  by (relation "measure (\<lambda>(_, q, _). sum_list (map (\<lambda>r. Suc (length (rp_data r) - rp_offset r)) q))")
     (auto simp: fragment_bytes_def)

declare drain_loop.simps(2) [simp del]

definition queue_of :: "broker_service \<Rightarrow> nat \<Rightarrow> reply list" where
  "queue_of s c = (case bs_replies s c of None \<Rightarrow> [] | Some q \<Rightarrow> q)"

definition drainReplies :: "nat \<Rightarrow> broker_service \<Rightarrow> broker_service" where
  "drainReplies c s =
     (case map_of (bs_connections s) c of
        None \<Rightarrow> s
      | Some sk \<Rightarrow>
          (let (sk', q, bytes) = drain_loop sk (queue_of s c) (bs_reply_bytes s)
           in s\<lparr>bs_connections := AList.update c sk' (bs_connections s),
                bs_replies := (bs_replies s)(c \<mapsto> q), bs_reply_bytes := bytes\<rparr>))"

section \<open>Replies\<close>

definition reply_limit :: nat where
  "reply_limit = 128 * 1024 * 1024"

definition total_reply_limit :: nat where
  "total_reply_limit = 256 * 1024 * 1024"

definition busy_reply :: "json_lib \<Rightarrow> json \<Rightarrow> string option" where
  \<comment> \<open>\<open>BROKER_BUSY\<close> for the route of a message; \<open>None\<close> when an exception is caught\<close>
  "busy_reply L message =
     (case jget message ''route'' of
        None \<Rightarrow> None
      | Some route \<Rightarrow>
          (case value_string route ''request_id'' [] of
             Inl _ \<Rightarrow> None
           | Inr request_id \<Rightarrow>
               Some (jl_dump L (JObj [
                 (''response'', JObj [(''code'', JStr ''BROKER_BUSY''), (''request_id'', JStr request_id), (''type'', JStr ''error'')]),
                 (''route'', route)]))))"

definition accept_reply :: "nat \<Rightarrow> string \<Rightarrow> broker_service \<Rightarrow> broker_service" where
  "accept_reply c data s =
     s\<lparr>bs_reply_bytes := bs_reply_bytes s + length data,
       bs_replies := (bs_replies s)(c \<mapsto> queue_of s c @ [\<lparr>rp_data = data, rp_offset = 0\<rparr>]),
       bs_connections := map (\<lambda>(k, sk). (k, if k = c then sk\<lparr>sk_accepted := sk_accepted sk @ [data]\<rparr> else sk))
         (bs_connections s)\<rparr>"

definition enqueueReply :: "json_lib \<Rightarrow> nat \<Rightarrow> string \<Rightarrow> broker_service \<Rightarrow> broker_service" where
  "enqueueReply L c data s =
     (if map_of (bs_connections s) c = None \<or> data = [] then s
      else if length data > reply_limit \<or> bs_reply_bytes s + length data > total_reply_limit then
        (case (case jl_parse L data of None \<Rightarrow> None | Some j \<Rightarrow> busy_reply L j) of
           None \<Rightarrow> s
         | Some busy \<Rightarrow> drainReplies c (accept_reply c busy s))
      else drainReplies c (accept_reply c data s))"

section \<open>Connections and queries\<close>

definition maximum_connections :: nat where
  "maximum_connections = 16"

definition upgrade :: "string \<Rightarrow> broker_socket \<Rightarrow> broker_service \<Rightarrow> broker_service option" where
  \<comment> \<open>with the supplied token; \<open>None\<close> is the answer 401\<close>
  "upgrade supplied sk s =
     (if \<not> bs_accepting s \<or> length (bs_connections s) \<ge> maximum_connections \<or> length (bs_token s) < 32
         \<or> length supplied \<noteq> length (bs_token s) \<or> supplied \<noteq> bs_token s then None
      else (let c = bs_next_connection s + 1
            in Some (s\<lparr>bs_next_connection := c, bs_connections := AList.update c sk (bs_connections s)\<rparr>)))"

definition close_connection :: "nat \<Rightarrow> broker_service \<Rightarrow> broker_service" where
  "close_connection c s =
     s\<lparr>bs_reply_bytes := bs_reply_bytes s - sum_list (map (\<lambda>r. length (rp_data r)) (queue_of s c)),
       bs_replies := (bs_replies s)(c := None),
       bs_connections := AList.delete c (bs_connections s)\<rparr>"

definition maximum_queue :: nat where
  "maximum_queue = 128"

definition maximum_queued_bytes :: nat where
  "maximum_queued_bytes = 32 * 1024 * 1024"

definition receive :: "json_lib \<Rightarrow> nat \<Rightarrow> string \<Rightarrow> bool \<Rightarrow> broker_service \<Rightarrow> broker_service" where
  \<comment> \<open>a message on an open connection; the flag says whether it is text. \<open>end\<close> closes the connection\<close>
  "receive L c payload is_text s =
     (if \<not> is_text \<or> \<not> bs_accepting s then close_connection c s
      else if length (bs_queue s) \<ge> maximum_queue \<or> bs_queued_bytes s + length payload > maximum_queued_bytes then
        (case (case jl_parse L payload of None \<Rightarrow> None | Some j \<Rightarrow> busy_reply L j) of
           None \<Rightarrow> s
         | Some busy \<Rightarrow> s\<lparr>bs_deferred := bs_deferred s @ [(c, busy)]\<rparr>)
      else s\<lparr>bs_queued_bytes := bs_queued_bytes s + length payload,
             bs_queue := bs_queue s @ [\<lparr>wk_connection = c, wk_payload = payload\<rparr>]\<rparr>)"

definition worker_take :: "broker_service \<Rightarrow> (work \<times> broker_service) option" where
  \<comment> \<open>\<open>None\<close>: the worker waits, or returns when the service is stopping\<close>
  "worker_take s =
     (case bs_queue s of
        [] \<Rightarrow> None
      | entry # rest \<Rightarrow>
          Some (entry, s\<lparr>bs_queue := rest, bs_queued_bytes := bs_queued_bytes s - length (wk_payload entry)\<rparr>))"

definition worker_reply :: "json_lib \<Rightarrow> (json \<Rightarrow> json option) \<Rightarrow> work \<Rightarrow> string" where
  \<comment> \<open>the executor gives \<open>None\<close> when it throws; a message that cannot be answered gets the empty reply\<close>
  "worker_reply L execute entry =
     (case jl_parse L (wk_payload entry) of
        None \<Rightarrow> []
      | Some input \<Rightarrow> (case execute input of None \<Rightarrow> [] | Some answer \<Rightarrow> jl_dump L answer))"

definition worker_finish :: "nat \<Rightarrow> string \<Rightarrow> broker_service \<Rightarrow> broker_service" where
  "worker_finish c data s = s\<lparr>bs_deferred := bs_deferred s @ [(c, data)]\<rparr>"

definition stop :: "broker_service \<Rightarrow> broker_service" where
  "stop s = s\<lparr>bs_accepting := False, bs_stopping := True\<rparr>"

text \<open>
  The threads: sixteen workers and the event loop, which runs the socket callbacks and the deferred
  replies one at a time. The queue and its counter are only touched under the mutex.
\<close>

definition maximum_workers :: nat where
  "maximum_workers = 16"

inductive bq_step :: "json_lib \<Rightarrow> (json \<Rightarrow> json option) \<Rightarrow> broker_service \<Rightarrow> broker_service \<Rightarrow> bool"
  for L :: json_lib and execute :: "json \<Rightarrow> json option" where
  opened: "upgrade supplied \<lparr>sk_plan = plan, sk_frames = [], sk_accepted = []\<rparr> s = Some s' \<Longrightarrow> bq_step L execute s s'"
| closed: "map_of (bs_connections s) c \<noteq> None \<Longrightarrow> bq_step L execute s (close_connection c s)"
| message: "map_of (bs_connections s) c \<noteq> None \<Longrightarrow> bq_step L execute s (receive L c payload is_text s)"
| writable: "bq_step L execute s (drainReplies c s)"
| taken: "worker_take s = Some (entry, s') \<Longrightarrow> length (bs_taken s) < maximum_workers \<Longrightarrow>
    bq_step L execute s (s'\<lparr>bs_taken := bs_taken s @ [entry]\<rparr>)"
| finished: "bs_taken s = before @ entry # after \<Longrightarrow>
    bq_step L execute s ((worker_finish (wk_connection entry) (worker_reply L execute entry) s)\<lparr>bs_taken := before @ after\<rparr>)"
| deferred: "bs_deferred s = (c, data) # rest \<Longrightarrow>
    bq_step L execute s (enqueueReply L c data (s\<lparr>bs_deferred := rest\<rparr>))"
| stopped: "bq_step L execute s (stop s)"

inductive bq_reachable :: "json_lib \<Rightarrow> (json \<Rightarrow> json option) \<Rightarrow> string \<Rightarrow> broker_service \<Rightarrow> bool"
  for L :: json_lib and execute :: "json \<Rightarrow> json option" and token :: string where
  init: "bq_reachable L execute token (service_new token)"
| step: "bq_reachable L execute token s \<Longrightarrow> bq_step L execute s s' \<Longrightarrow> bq_reachable L execute token s'"


section \<open>What the peer receives\<close>

text \<open>Putting fragments together: the complete messages and the beginning of an unfinished one.\<close>

fun receive_frame :: "(string list \<times> string option) option \<Rightarrow> frame \<times> string \<Rightarrow> (string list \<times> string option) option" where
  "receive_frame (Some (complete, None)) (Whole, d) = Some (complete @ [d], None)"
| "receive_frame (Some (complete, None)) (First_Fragment, d) = Some (complete, Some d)"
| "receive_frame (Some (complete, Some p)) (Fragment, d) = Some (complete, Some (p @ d))"
| "receive_frame (Some (complete, Some p)) (Last_Fragment, d) = Some (complete @ [p @ d], None)"
| "receive_frame _ _ = None"

definition reassemble :: "(frame \<times> string) list \<Rightarrow> (string list \<times> string option) option" where
  "reassemble frames = foldl receive_frame (Some ([], None)) frames"

definition part_of :: "reply list \<Rightarrow> string option" where
  "part_of q = (case q of [] \<Rightarrow> None
     | r # _ \<Rightarrow> if rp_offset r = 0 then None else Some (take (rp_offset r) (rp_data r)))"

definition queue_ok :: "reply list \<Rightarrow> bool" where
  "queue_ok q \<longleftrightarrow> (case q of [] \<Rightarrow> True
     | r # rs \<Rightarrow> (rp_offset r = 0 \<or> rp_offset r < length (rp_data r)) \<and> (\<forall>x \<in> set rs. rp_offset x = 0))"

definition stream_ok :: "broker_socket \<Rightarrow> reply list \<Rightarrow> bool" where
  "stream_ok sk q \<longleftrightarrow> queue_ok q
     \<and> (\<exists>complete. reassemble (sk_frames sk) = Some (complete, part_of q)
          \<and> sk_accepted sk = complete @ map rp_data q)
     \<and> (\<forall>f \<in> set (sk_frames sk). length (snd f) \<le> fragment_bytes)"

definition size_of :: "reply list \<Rightarrow> nat" where
  "size_of q = sum_list (map (\<lambda>r. length (rp_data r)) q)"

lemma reassemble_snoc: "reassemble (frames @ [f]) = receive_frame (reassemble frames) f"
  by (simp add: reassemble_def)

lemma queue_ok_tail: "queue_ok (r # rs) \<Longrightarrow> queue_ok rs \<and> part_of rs = None"
  by (cases rs) (auto simp: queue_ok_def part_of_def)

lemma stream_ok_plan: "stream_ok (sk\<lparr>sk_plan := p\<rparr>) q = stream_ok sk q"
  by (simp add: stream_ok_def)

lemma send_chunk:
  assumes "stream_ok sk (r # rs)" "amount = min fragment_bytes (length (rp_data r) - rp_offset r)"
    "is_last = (rp_offset r + amount \<ge> length (rp_data r))"
    "sk' = sk\<lparr>sk_plan := p, sk_frames := sk_frames sk @ [(frame_kind (rp_offset r = 0) is_last,
              take amount (drop (rp_offset r) (rp_data r)))]\<rparr>"
    "q' = (if is_last then rs else r\<lparr>rp_offset := rp_offset r + amount\<rparr> # rs)"
  shows "stream_ok sk' q'"
proof -
  let ?chunk = "take amount (drop (rp_offset r) (rp_data r))"
  obtain complete where c: "reassemble (sk_frames sk) = Some (complete, part_of (r # rs))"
      "sk_accepted sk = complete @ map rp_data (r # rs)" "queue_ok (r # rs)"
      "\<forall>f \<in> set (sk_frames sk). length (snd f) \<le> fragment_bytes"
    using assms(1) by (auto simp: stream_ok_def)
  note tail = queue_ok_tail[OF c(3)]
  have pre: "take (rp_offset r) (rp_data r) @ ?chunk = take (rp_offset r + amount) (rp_data r)"
    by (simp add: take_add)
  have len: "length ?chunk \<le> fragment_bytes" using assms(2) by simp
  have o: "rp_offset r = 0 \<or> rp_offset r < length (rp_data r)" using c(3) by (simp add: queue_ok_def)
  show ?thesis
  proof (cases is_last)
    case True
    then have "take (rp_offset r + amount) (rp_data r) = rp_data r" using assms(3) by simp
    then have "reassemble (sk_frames sk') = Some (complete @ [rp_data r], None)"
      using c(1) True assms(4) pre by (auto simp: reassemble_snoc part_of_def frame_kind_def)
    then show ?thesis using True assms(4,5) c(2,4) len tail by (auto simp: stream_ok_def)
  next
    case False
    then have "0 < amount" "rp_offset r + amount < length (rp_data r)"
      using assms(2,3) by (auto simp: fragment_bytes_def)
    moreover have "reassemble (sk_frames sk') = Some (complete, Some (take (rp_offset r + amount) (rp_data r)))"
      using c(1) False assms(4) pre by (auto simp: reassemble_snoc part_of_def frame_kind_def)
    ultimately show ?thesis
      using False assms(4,5) c(2-4) len by (auto simp: stream_ok_def part_of_def queue_ok_def)
  qed
qed

lemma drain_loop_spec:
  assumes "drain_loop sk q bytes = (sk', q', bytes')" "stream_ok sk q" "size_of q \<le> bytes"
  shows "stream_ok sk' q' \<and> sk_accepted sk' = sk_accepted sk \<and> bytes' + size_of q = bytes + size_of q'
    \<and> size_of q' \<le> bytes' \<and> (sk_plan sk = [] \<longrightarrow> q' = [])"
  using assms
proof (induction sk q bytes rule: drain_loop.induct)
  case (1 sk bytes)
  then show ?case by simp
next
  case (2 sk r rs bytes)
  let ?sk1 = "sk\<lparr>sk_plan := tl (sk_plan sk)\<rparr>"
  define amount where "amount = min fragment_bytes (length (rp_data r) - rp_offset r)"
  define is_last where "is_last = (rp_offset r + amount \<ge> length (rp_data r))"
  define sk2 where "sk2 = ?sk1\<lparr>sk_frames := sk_frames sk @ [(frame_kind (rp_offset r = 0) is_last,
      take amount (drop (rp_offset r) (rp_data r)))]\<rparr>"
  define q2 where "q2 = (if is_last then rs else r\<lparr>rp_offset := rp_offset r + amount\<rparr> # rs)"
  define bytes2 where "bytes2 = (if is_last then bytes - length (rp_data r) else bytes)"
  have ok2: "stream_ok sk2 q2"
    by (rule send_chunk[OF 2(3) amount_def is_last_def _ q2_def]) (simp add: sk2_def)
  have b2: "size_of q2 \<le> bytes2" "bytes2 + size_of (r # rs) = bytes + size_of q2"
    using 2(4) by (auto simp: q2_def bytes2_def size_of_def)
  have acc: "sk_accepted sk2 = sk_accepted sk" "sk_plan sk2 = tl (sk_plan sk)" by (simp_all add: sk2_def)
  have eq: "drain_loop sk (r # rs) bytes =
      (if fst (next_send sk) \<ge> buffered_limit \<or> snd (next_send sk) = DROPPED then (?sk1, r # rs, bytes)
       else if snd (next_send sk) = BACKPRESSURE then (sk2, q2, bytes2) else drain_loop sk2 q2 bytes2)"
    unfolding drain_loop.simps(2)[of sk r rs bytes] Let_def amount_def[symmetric] is_last_def[symmetric]
    by (simp add: sk2_def q2_def bytes2_def)
  have idle: "sk_plan sk = [] \<Longrightarrow> \<not> (fst (next_send sk) \<ge> buffered_limit \<or> snd (next_send sk) = DROPPED)
      \<and> snd (next_send sk) \<noteq> BACKPRESSURE"
    by (simp add: next_send_def buffered_limit_def)
  show ?case
  proof (cases "fst (next_send sk) \<ge> buffered_limit \<or> snd (next_send sk) = DROPPED")
    case True
    then show ?thesis using eq 2(2-4) idle by (auto simp: stream_ok_plan)
  next
    case go: False
    show ?thesis
    proof (cases "snd (next_send sk) = BACKPRESSURE")
      case True
      then show ?thesis using eq go 2(2) ok2 b2 acc idle by auto
    next
      case False
      then have "drain_loop sk2 q2 bytes2 = (sk', q', bytes')" using eq go 2(2) by simp
      then have "stream_ok sk' q' \<and> sk_accepted sk' = sk_accepted sk2 \<and> bytes' + size_of q2 = bytes2 + size_of q'
          \<and> size_of q' \<le> bytes' \<and> (sk_plan sk2 = [] \<longrightarrow> q' = [])"
        using 2(1)[OF refl _ amount_def refl is_last_def _ _ q2_def bytes2_def False] go ok2 b2(1)
        by (simp add: sk2_def)
      then show ?thesis using acc b2 by auto
    qed
  qed
qed

section \<open>The service\<close>

definition open_ids :: "broker_service \<Rightarrow> nat set" where
  "open_ids s = fst ` set (bs_connections s)"

lemma open_ids_iff: "c \<in> open_ids s \<longleftrightarrow> map_of (bs_connections s) c \<noteq> None"
  by (simp add: open_ids_def map_of_eq_None_iff)

lemma open_ids_finite [simp]: "finite (open_ids s)"
  by (simp add: open_ids_def)

lemma open_ids_eq: "(\<And>c. map_of (bs_connections s') c \<noteq> None \<longleftrightarrow> c \<in> K) \<Longrightarrow> open_ids s' = K"
  by (auto simp: open_ids_iff)

definition bs_inv :: "broker_service \<Rightarrow> bool" where
  "bs_inv s \<longleftrightarrow>
     distinct (map fst (bs_connections s)) \<and> length (bs_connections s) \<le> maximum_connections
     \<and> (\<forall>c \<in> open_ids s. c \<le> bs_next_connection s)
     \<and> dom (bs_replies s) \<subseteq> open_ids s
     \<and> bs_reply_bytes s = (\<Sum>c \<in> open_ids s. size_of (queue_of s c))
     \<and> (\<forall>c sk. map_of (bs_connections s) c = Some sk \<longrightarrow> stream_ok sk (queue_of s c))
     \<and> length (bs_queue s) \<le> maximum_queue
     \<and> bs_queued_bytes s = sum_list (map (\<lambda>e. length (wk_payload e)) (bs_queue s))
     \<and> bs_queued_bytes s \<le> maximum_queued_bytes
     \<and> length (bs_taken s) \<le> maximum_workers"

lemma map_of_with: "map_of (map (\<lambda>(k, v). (k, f k v)) al) c = map_option (f c) (map_of al c)"
  by (induction al) auto

lemma keys_with: "map fst (map (\<lambda>(k, v). (k, f k v)) al) = map fst al"
  by (induction al) auto

lemma bs_inv_new: "bs_inv (service_new token)"
  by (simp add: bs_inv_def service_new_def open_ids_def)

lemma bs_inv_upgrade:
  assumes "bs_inv s" "upgrade supplied \<lparr>sk_plan = plan, sk_frames = [], sk_accepted = []\<rparr> s = Some s'"
  shows "bs_inv s'"
proof -
  let ?c = "bs_next_connection s + 1" and ?sk = "\<lparr>sk_plan = plan, sk_frames = [], sk_accepted = []\<rparr>"
  have s': "s' = s\<lparr>bs_next_connection := ?c, bs_connections := AList.update ?c ?sk (bs_connections s)\<rparr>"
      and room: "length (bs_connections s) < maximum_connections"
    using assms(2) by (auto simp: upgrade_def Let_def split: if_splits)
  have fresh: "?c \<notin> open_ids s" using assms(1) by (auto simp: bs_inv_def)
  then have q: "queue_of s ?c = []" using assms(1) by (auto simp: bs_inv_def queue_of_def split: option.splits)
  have keys: "open_ids s' = insert ?c (open_ids s)"
    by (rule open_ids_eq) (auto simp: s' update_conv' open_ids_iff)
  have len: "length (bs_connections s') = Suc (length (bs_connections s))"
    using length_update_alist[of "bs_connections s" ?c ?sk] fresh assms(1)
    by (auto simp: bs_inv_def open_ids_iff s')
  have ok: "stream_ok ?sk []" by (simp add: stream_ok_def queue_ok_def reassemble_def part_of_def)
  have qs: "queue_of s' c = queue_of s c" for c by (simp add: s' queue_of_def)
  have m: "map_of (bs_connections s') c = (if c = ?c then Some ?sk else map_of (bs_connections s) c)" for c
    by (simp add: s' update_conv')
  have "(\<Sum>c \<in> insert ?c (open_ids s). size_of (queue_of s' c)) = (\<Sum>c \<in> open_ids s. size_of (queue_of s c))"
    using fresh q by (simp add: qs size_of_def)
  then show ?thesis
    using assms(1) room ok q len unfolding bs_inv_def keys qs m by (auto simp: s')
qed

lemma bs_inv_close:
  assumes "bs_inv s"
  shows "bs_inv (close_connection c s)"
proof -
  let ?K = "open_ids s" and ?s' = "close_connection c s"
  have q: "queue_of ?s' d = (if d = c then [] else queue_of s d)" for d
    by (simp add: close_connection_def queue_of_def)
  have m: "map_of (bs_connections ?s') d = (if d = c then None else map_of (bs_connections s) d)" for d
    by (simp add: close_connection_def delete_conv')
  have keys: "open_ids ?s' = ?K - {c}" by (rule open_ids_eq) (auto simp: m open_ids_iff)
  have "c \<notin> ?K \<Longrightarrow> queue_of s c = []"
    using assms by (auto simp: bs_inv_def queue_of_def split: option.splits)
  then have "bs_reply_bytes s = size_of (queue_of s c) + (\<Sum>d \<in> ?K - {c}. size_of (queue_of s d))"
    using assms sum.remove[of ?K c "\<lambda>d. size_of (queue_of s d)"]
    by (cases "c \<in> ?K") (auto simp: bs_inv_def size_of_def)
  then have "bs_reply_bytes ?s' = (\<Sum>d \<in> ?K - {c}. size_of (queue_of ?s' d))"
    unfolding q by (simp add: close_connection_def size_of_def)
  moreover have "length (bs_connections ?s') \<le> length (bs_connections s)"
    by (simp add: close_connection_def length_delete_le)
  moreover have "dom (bs_replies ?s') \<subseteq> ?K - {c}" using assms by (auto simp: bs_inv_def close_connection_def)
  moreover have "distinct (map fst (bs_connections ?s'))" using assms by (simp add: bs_inv_def close_connection_def)
  moreover have "stream_ok sk (queue_of ?s' d)" if "map_of (bs_connections ?s') d = Some sk" for d sk
    using that assms by (auto simp: m q bs_inv_def split: if_splits)
  moreover have "bs_queue ?s' = bs_queue s" "bs_queued_bytes ?s' = bs_queued_bytes s" "bs_taken ?s' = bs_taken s"
      "bs_next_connection ?s' = bs_next_connection s"
    by (simp_all add: close_connection_def)
  ultimately show ?thesis
    using assms unfolding bs_inv_def keys by simp
qed

lemma bs_inv_drain:
  assumes "bs_inv s"
  shows "bs_inv (drainReplies c s)"
proof (cases "map_of (bs_connections s) c")
  case None
  then show ?thesis using assms by (simp add: drainReplies_def)
next
  case (Some sk)
  let ?K = "open_ids s" and ?s' = "drainReplies c s"
  obtain sk' q' b' where d: "drain_loop sk (queue_of s c) (bs_reply_bytes s) = (sk', q', b')"
    by (metis prod_cases3)
  have s': "?s' = s\<lparr>bs_connections := AList.update c sk' (bs_connections s),
      bs_replies := (bs_replies s)(c \<mapsto> q'), bs_reply_bytes := b'\<rparr>"
    using Some d by (simp add: drainReplies_def)
  have c: "c \<in> ?K" using Some by (simp add: open_ids_iff)
  have total: "bs_reply_bytes s = size_of (queue_of s c) + (\<Sum>d \<in> ?K - {c}. size_of (queue_of s d))"
    using assms sum.remove[of ?K c "\<lambda>d. size_of (queue_of s d)"] c by (simp add: bs_inv_def)
  have "stream_ok sk (queue_of s c)" using assms Some by (simp add: bs_inv_def)
  note sp = drain_loop_spec[OF d this]
  have q: "queue_of ?s' d = (if d = c then q' else queue_of s d)" for d
    by (simp add: s' queue_of_def)
  have m: "map_of (bs_connections ?s') d = (if d = c then Some sk' else map_of (bs_connections s) d)" for d
    by (simp add: s' update_conv')
  have keys: "open_ids ?s' = ?K" by (rule open_ids_eq) (use c in \<open>auto simp: m open_ids_iff\<close>)
  have len: "length (bs_connections ?s') = length (bs_connections s)"
    using length_update_alist[of "bs_connections s" c sk'] assms Some by (auto simp: bs_inv_def s')
  have "bs_reply_bytes ?s' = size_of q' + (\<Sum>d \<in> ?K - {c}. size_of (queue_of s d))"
    using sp total by (simp add: s')
  then have b: "bs_reply_bytes ?s' = (\<Sum>d \<in> ?K. size_of (queue_of ?s' d))"
    using sum.remove[of ?K c "\<lambda>d. size_of (queue_of ?s' d)"] c by (simp add: q)
  have "dom (bs_replies ?s') \<subseteq> ?K" using assms c by (auto simp: bs_inv_def s')
  then show ?thesis
    using assms sp total len b unfolding bs_inv_def keys m by (auto simp: q) (auto simp: s')
qed

lemma bs_inv_accept:
  assumes "bs_inv s" "map_of (bs_connections s) c = Some sk"
  shows "bs_inv (accept_reply c data s)"
proof -
  let ?K = "open_ids s" and ?s' = "accept_reply c data s"
  have q: "queue_of ?s' d = (if d = c then queue_of s c @ [\<lparr>rp_data = data, rp_offset = 0\<rparr>] else queue_of s d)" for d
    by (simp add: accept_reply_def queue_of_def)
  have m: "map_of (bs_connections ?s') d = map_option (\<lambda>sk. if d = c then sk\<lparr>sk_accepted := sk_accepted sk @ [data]\<rparr> else sk)
      (map_of (bs_connections s) d)" for d
    by (simp add: accept_reply_def map_of_with)
  have keys: "open_ids ?s' = ?K" by (rule open_ids_eq) (auto simp: m open_ids_iff)
  have c: "c \<in> ?K" using assms(2) by (simp add: open_ids_iff)
  have b: "bs_reply_bytes ?s' = (\<Sum>d \<in> ?K. size_of (queue_of ?s' d))"
    using assms(1) c sum.remove[of ?K c "\<lambda>d. size_of (queue_of s d)"] sum.remove[of ?K c "\<lambda>d. size_of (queue_of ?s' d)"]
    by (simp add: bs_inv_def q size_of_def) (simp add: accept_reply_def)
  have k: "map fst (bs_connections ?s') = map fst (bs_connections s)"
    by (auto simp: accept_reply_def)
  then have len: "length (bs_connections ?s') = length (bs_connections s)" by (metis length_map)
  have st: "stream_ok sk' (queue_of ?s' d)" if h: "map_of (bs_connections ?s') d = Some sk'" for d sk'
  proof -
    obtain sk0 where sk0: "map_of (bs_connections s) d = Some sk0" using h by (auto simp: m)
    then have ok: "stream_ok sk0 (queue_of s d)" using assms(1) by (simp add: bs_inv_def)
    show ?thesis
    proof (cases "d = c")
      case False
      then show ?thesis using h ok sk0 by (simp add: m q)
    next
      case True
      have e: "sk' = sk0\<lparr>sk_accepted := sk_accepted sk0 @ [data]\<rparr>" using h sk0 True by (simp add: m)
      show ?thesis
        using ok unfolding e q True
        by (cases "queue_of s c") (auto simp: stream_ok_def queue_ok_def part_of_def)
    qed
  qed
  have "dom (bs_replies ?s') \<subseteq> ?K" using assms(1) c by (auto simp: bs_inv_def accept_reply_def)
  moreover have "bs_queue ?s' = bs_queue s" "bs_queued_bytes ?s' = bs_queued_bytes s" "bs_taken ?s' = bs_taken s"
      "bs_next_connection ?s' = bs_next_connection s"
    by (simp_all add: accept_reply_def)
  ultimately show ?thesis
    using assms(1) len b st unfolding bs_inv_def keys k by simp
qed

lemma bs_inv_frame:
  assumes "bs_inv s" "bs_connections s' = bs_connections s" "bs_replies s' = bs_replies s"
    "bs_reply_bytes s' = bs_reply_bytes s" "bs_next_connection s' = bs_next_connection s"
    "length (bs_queue s') \<le> maximum_queue"
    "bs_queued_bytes s' = sum_list (map (\<lambda>e. length (wk_payload e)) (bs_queue s'))"
    "bs_queued_bytes s' \<le> maximum_queued_bytes" "length (bs_taken s') \<le> maximum_workers"
  shows "bs_inv s'"
  using assms by (simp add: bs_inv_def queue_of_def open_ids_def)

lemma bs_inv_enqueue:
  assumes "bs_inv s"
  shows "bs_inv (enqueueReply L c data s)"
proof -
  have "bs_inv (drainReplies c (accept_reply c d s))" if "map_of (bs_connections s) c \<noteq> None" for d
    using that bs_inv_accept[OF assms] bs_inv_drain by auto
  then show ?thesis using assms by (auto simp: enqueueReply_def split: option.splits)
qed

lemma bs_inv_receive:
  assumes "bs_inv s"
  shows "bs_inv (receive L c payload is_text s)"
proof -
  have "bs_inv (s\<lparr>bs_queued_bytes := bs_queued_bytes s + length payload,
      bs_queue := bs_queue s @ [\<lparr>wk_connection = c, wk_payload = payload\<rparr>]\<rparr>)"
    if "length (bs_queue s) < maximum_queue" "bs_queued_bytes s + length payload \<le> maximum_queued_bytes"
    using assms that by (intro bs_inv_frame[OF assms]) (auto simp: bs_inv_def)
  moreover have "bs_inv (s\<lparr>bs_deferred := d\<rparr>)" for d
    using assms by (intro bs_inv_frame[OF assms]) (auto simp: bs_inv_def)
  ultimately show ?thesis
    using assms bs_inv_close[OF assms] by (auto simp: receive_def split: option.splits)
qed

lemma bs_inv_step:
  assumes "bs_inv s" "bq_step L execute s s'"
  shows "bs_inv s'"
  using assms(2)
proof (cases rule: bq_step.cases)
  case (opened supplied plan)
  then show ?thesis using bs_inv_upgrade[OF assms(1)] by blast
next
  case (closed c)
  then show ?thesis using bs_inv_close[OF assms(1)] by simp
next
  case (message c payload is_text)
  then show ?thesis using bs_inv_receive[OF assms(1)] by simp
next
  case (writable c)
  then show ?thesis using bs_inv_drain[OF assms(1)] by simp
next
  case (taken entry t)
  then obtain rest where "bs_queue s = entry # rest"
      "t = s\<lparr>bs_queue := rest, bs_queued_bytes := bs_queued_bytes s - length (wk_payload entry)\<rparr>"
    by (auto simp: worker_take_def split: list.splits)
  then show ?thesis
    using assms(1) taken by (intro bs_inv_frame[OF assms(1)]) (auto simp: bs_inv_def)
next
  case (finished before entry after)
  then show ?thesis
    using assms(1) by (intro bs_inv_frame[OF assms(1)]) (auto simp: bs_inv_def worker_finish_def)
next
  case (deferred c data rest)
  have "bs_inv (s\<lparr>bs_deferred := rest\<rparr>)"
    using assms(1) by (intro bs_inv_frame[OF assms(1)]) (auto simp: bs_inv_def)
  then show ?thesis using deferred bs_inv_enqueue by simp
next
  case stopped
  then show ?thesis
    using assms(1) by (intro bs_inv_frame[OF assms(1)]) (auto simp: bs_inv_def stop_def)
qed

lemma bq_reachable_inv: "bq_reachable L execute token s \<Longrightarrow> bs_inv s"
  by (induction rule: bq_reachable.induct) (auto intro: bs_inv_new bs_inv_step)

text \<open>
  C34. In every reachable state of the service, over any interleaving of connections, messages, the sixteen
  workers, the event loop and any behaviour of the sockets: at most 16 connections are open, at most 128
  queries with together at most 32 MiB wait, at most 16 are being executed, and the two byte counters are
  exactly the bytes that wait, so they never wrap.
\<close>

theorem broker_service_bounds:
  assumes "bq_reachable L execute token s"
  shows "length (bs_connections s) \<le> 16 \<and> length (bs_queue s) \<le> 128 \<and> length (bs_taken s) \<le> 16
    \<and> bs_queued_bytes s = sum_list (map (\<lambda>e. length (wk_payload e)) (bs_queue s))
    \<and> bs_queued_bytes s \<le> 32 * 1024 * 1024
    \<and> bs_reply_bytes s = (\<Sum>c \<in> open_ids s. size_of (queue_of s c))"
  using bq_reachable_inv[OF assms]
  by (simp add: bs_inv_def maximum_connections_def maximum_queue_def maximum_queued_bytes_def maximum_workers_def)

text \<open>
  C33. What the peer of an open connection receives. In every reachable state the frames its socket has
  accepted, each of at most 128 KiB, form a valid sequence of WebSocket fragments; the complete messages
  among them, followed by the replies that still wait, are exactly the replies accepted for this
  connection in their order; and an unfinished message is a beginning of the first waiting reply.
\<close>

theorem replies_arrive_in_order:
  assumes "bq_reachable L execute token s" "map_of (bs_connections s) c = Some sk"
  shows "(\<exists>complete. reassemble (sk_frames sk) = Some (complete, part_of (queue_of s c))
      \<and> sk_accepted sk = complete @ map rp_data (queue_of s c))
    \<and> (\<forall>f \<in> set (sk_frames sk). length (snd f) \<le> 128 * 1024)"
  using bq_reachable_inv[OF assms(1)] assms(2) by (simp add: bs_inv_def stream_ok_def fragment_bytes_def)

text \<open>
  A socket that takes what it is given gets everything: when the event loop drains a connection whose
  coming sends all succeed, every reply that was accepted for it has arrived complete, in order, and
  nothing waits any more.
\<close>

theorem willing_socket_gets_everything:
  assumes "bq_reachable L execute token s" "map_of (bs_connections s) c = Some sk" "sk_plan sk = []"
  shows "queue_of (drainReplies c s) c = []
    \<and> (\<exists>sk'. map_of (bs_connections (drainReplies c s)) c = Some sk' \<and> sk_accepted sk' = sk_accepted sk
         \<and> reassemble (sk_frames sk') = Some (sk_accepted sk, None))"
proof -
  have inv: "bs_inv s" by (rule bq_reachable_inv[OF assms(1)])
  obtain sk' q' b' where d: "drain_loop sk (queue_of s c) (bs_reply_bytes s) = (sk', q', b')"
    by (metis prod_cases3)
  have ok: "stream_ok sk (queue_of s c)" using inv assms(2) by (simp add: bs_inv_def)
  have "size_of (queue_of s c) \<le> bs_reply_bytes s"
    using inv assms(2) member_le_sum[of c "open_ids s" "\<lambda>d. size_of (queue_of s d)"]
    by (simp add: bs_inv_def open_ids_iff)
  then have sp: "stream_ok sk' []" "sk_accepted sk' = sk_accepted sk" "q' = []"
    using drain_loop_spec[OF d ok] assms(3) by auto
  then have "reassemble (sk_frames sk') = Some (sk_accepted sk, None)"
    by (auto simp: stream_ok_def part_of_def)
  then show ?thesis using assms(2) d sp by (simp add: drainReplies_def queue_of_def update_conv')
qed

section \<open>A run\<close>

definition echo_lib :: json_lib where
  "echo_lib = \<lparr>jl_parse = (\<lambda>_. Some JNull), jl_dump = (\<lambda>_. ''r'')\<rparr>"

definition sample_socket :: broker_socket where
  \<comment> \<open>its buffer is full at the first look\<close>
  "sample_socket = \<lparr>sk_plan = [(300000, SUCCESS)], sk_frames = [], sk_accepted = []\<rparr>"

definition sample_open :: broker_service where
  "sample_open = (service_new (replicate 32 CHR ''t''))\<lparr>bs_next_connection := 1, bs_connections := [(1, sample_socket)]\<rparr>"

definition sample_waiting :: broker_service where
  \<comment> \<open>one reply was accepted and waits\<close>
  "sample_waiting = sample_open\<lparr>bs_connections := [(1, sample_socket\<lparr>sk_plan := [], sk_accepted := [''r'']\<rparr>)],
     bs_replies := [1 \<mapsto> [\<lparr>rp_data = ''r'', rp_offset = 0\<rparr>]], bs_reply_bytes := 1\<rparr>"

lemma sample_reachable: "bq_reachable echo_lib Some (replicate 32 CHR ''t'') sample_waiting"
proof -
  let ?R = "bq_reachable echo_lib Some (replicate 32 CHR ''t'')"
  let ?e = "\<lparr>wk_connection = 1, wk_payload = ''q''\<rparr>"
  let ?s2 = "sample_open\<lparr>bs_queued_bytes := 1, bs_queue := [?e]\<rparr>"
  let ?s3 = "sample_open\<lparr>bs_queued_bytes := 0, bs_queue := [], bs_taken := [?e]\<rparr>"
  let ?s4 = "sample_open\<lparr>bs_queued_bytes := 0, bs_queue := [], bs_taken := [], bs_deferred := [(1, ''r'')]\<rparr>"
  have fields: "bs_queue sample_open = []" "bs_queued_bytes sample_open = 0" "bs_accepting sample_open"
      "bs_taken sample_open = []" "bs_deferred sample_open = []" "bs_connections sample_open = [(1, sample_socket)]"
      "bs_replies sample_open = Map.empty" "bs_reply_bytes sample_open = 0"
    by (simp_all add: sample_open_def service_new_def)
  have "upgrade (replicate 32 CHR ''t'') \<lparr>sk_plan = [(300000, SUCCESS)], sk_frames = [], sk_accepted = []\<rparr>
      (service_new (replicate 32 CHR ''t'')) = Some sample_open"
    by (simp add: upgrade_def service_new_def sample_open_def sample_socket_def maximum_connections_def)
  from bq_reachable.step[OF bq_reachable.init bq_step.opened[OF this]]
  have "?R sample_open" .
  moreover have "receive echo_lib 1 ''q'' True sample_open = ?s2"
    by (simp add: receive_def fields maximum_queue_def maximum_queued_bytes_def)
  ultimately have "?R ?s2"
    using bq_reachable.step bq_step.message[of sample_open 1 echo_lib Some "''q''" True] fields by fastforce
  moreover have "worker_take ?s2 = Some (?e, sample_open\<lparr>bs_queued_bytes := 0, bs_queue := []\<rparr>)"
    by (simp add: worker_take_def)
  ultimately have "?R ?s3"
    using bq_reachable.step bq_step.taken[of ?s2 ?e _ echo_lib Some] fields by (fastforce simp: maximum_workers_def)
  moreover have "(worker_finish 1 (worker_reply echo_lib Some ?e) ?s3)\<lparr>bs_taken := [] @ []\<rparr> = ?s4"
    by (simp add: worker_finish_def worker_reply_def echo_lib_def fields)
  ultimately have "?R ?s4"
    using bq_reachable.step bq_step.finished[of ?s3 "[]" ?e "[]" echo_lib Some] by fastforce
  moreover have "enqueueReply echo_lib 1 ''r'' (?s4\<lparr>bs_deferred := []\<rparr>) = sample_waiting"
    by (simp add: enqueueReply_def accept_reply_def drainReplies_def queue_of_def fields sample_waiting_def
        reply_limit_def total_reply_limit_def drain_loop.simps(2) next_send_def buffered_limit_def sample_socket_def
        sample_open_def service_new_def Let_def)
  ultimately show ?thesis
    using bq_reachable.step bq_step.deferred[of ?s4 1 "''r''" "[]" echo_lib Some] by fastforce
qed

lemma sample_connection: "map_of (bs_connections sample_waiting) 1 = Some (sample_socket\<lparr>sk_plan := [], sk_accepted := [''r'']\<rparr>)"
  by (simp add: sample_waiting_def)

theorem broker_service_bounds_witness:
  "bs_reply_bytes sample_waiting = (\<Sum>c \<in> open_ids sample_waiting. size_of (queue_of sample_waiting c))"
  using broker_service_bounds[OF sample_reachable] by blast

theorem replies_arrive_in_order_witness:
  "\<exists>complete. [''r''] = complete @ map rp_data (queue_of sample_waiting 1)"
  using replies_arrive_in_order[OF sample_reachable sample_connection] by auto

theorem willing_socket_gets_everything_witness:
  "\<exists>sk'. map_of (bs_connections (drainReplies 1 sample_waiting)) 1 = Some sk'
     \<and> reassemble (sk_frames sk') = Some ([''r''], None)"
  using willing_socket_gets_everything[OF sample_reachable sample_connection] by auto

end
