(* ===== verification/Sql_Command.thy ===== *)
theory Sql_Command
  imports Redis_Sentinel
begin

text \<open>
  \<^verbatim>\<open>cpp/include/memory/SqlCommand.hpp\<close> and \<^verbatim>\<open>cpp/src/memory/MssqlMemory.cpp\<close>: a SQL statement with its
  parameters, the checks it has to pass, its run over a FreeTDS session, and the pool of sessions that
  all threads share. FreeTDS is a parameter: whether each call on a session succeeds, and what rows a
  command produces. Shown here: the declarations of a valid command determine its parameters, a session
  serves one command at a time, at most ten sessions exist, and a session that failed is never used again.
\<close>

section \<open>Commands\<close>

datatype ParameterType = Varchar | UnicodeText | UnicodeMaxText | Int32 | Int64

record sql_parameter =
  sp_name :: string
  sp_type :: ParameterType
  sp_text :: string
  sp_int :: int
  sp_int64 :: int

record sql_command =
  sc_statement :: string
  sc_parameters :: "sql_parameter list"

definition push_parameter :: "sql_parameter \<Rightarrow> sql_command \<Rightarrow> sql_command" where
  "push_parameter p c = c\<lparr>sc_parameters := sc_parameters c @ [p]\<rparr>"

definition addText :: "string \<Rightarrow> string \<Rightarrow> sql_command \<Rightarrow> sql_command" where
  "addText name v = push_parameter
     \<lparr>sp_name = name, sp_type = UnicodeText, sp_text = v, sp_int = 0, sp_int64 = 0\<rparr>"

definition addMaxText :: "string \<Rightarrow> string \<Rightarrow> sql_command \<Rightarrow> sql_command" where
  "addMaxText name v = push_parameter
     \<lparr>sp_name = name, sp_type = UnicodeMaxText, sp_text = v, sp_int = 0, sp_int64 = 0\<rparr>"

definition addVarchar :: "string \<Rightarrow> string \<Rightarrow> sql_command \<Rightarrow> sql_command" where
  "addVarchar name v = push_parameter
     \<lparr>sp_name = name, sp_type = Varchar, sp_text = v, sp_int = 0, sp_int64 = 0\<rparr>"

definition addInt :: "string \<Rightarrow> int \<Rightarrow> sql_command \<Rightarrow> sql_command" where
  "addInt name v = push_parameter
     \<lparr>sp_name = name, sp_type = Int32, sp_text = [], sp_int = as_int32 v, sp_int64 = 0\<rparr>"

definition addInt64 :: "string \<Rightarrow> int \<Rightarrow> sql_command \<Rightarrow> sql_command" where
  "addInt64 name v = push_parameter
     \<lparr>sp_name = name, sp_type = Int64, sp_text = [], sp_int = 0, sp_int64 = as_int64 v\<rparr>"

fun type_declaration :: "ParameterType \<Rightarrow> string" where
  "type_declaration Varchar = '' VARCHAR(4000)''"
| "type_declaration UnicodeText = '' NVARCHAR(4000)''"
| "type_declaration UnicodeMaxText = '' NVARCHAR(MAX)''"
| "type_declaration Int32 = '' INT''"
| "type_declaration Int64 = '' BIGINT''"

fun declare_parameters :: "string \<Rightarrow> sql_parameter list \<Rightarrow> string" where
  "declare_parameters declarations [] = declarations"
| "declare_parameters declarations (p # ps) =
     declare_parameters ((if declarations = [] then [] else declarations @ '', '')
       @ sp_name p @ type_declaration (sp_type p)) ps"

definition parameterDeclarations :: "sql_command \<Rightarrow> string" where
  "parameterDeclarations c = declare_parameters [] (sc_parameters c)"

definition kMaxStatementBytes :: nat where
  "kMaxStatementBytes = 64 * 1024"

definition kMaxRpcTextBytes :: nat where
  "kMaxRpcTextBytes = 4000"

definition kMaxBoundTextBytes :: nat where
  "kMaxBoundTextBytes = 1024 * 1024"

definition name_char :: "char \<Rightarrow> bool" where
  "name_char c \<longleftrightarrow> isalpha c \<or> c = CHR ''_''"

definition isValidName :: "string \<Rightarrow> bool" where
  "isValidName name =
     (case name of
        a # b # rest \<Rightarrow> length name \<le> 128 \<and> a = CHR ''@'' \<and> name_char b
          \<and> list_all (\<lambda>c. name_char c \<or> isdigit c) rest
      | _ \<Rightarrow> False)"

fun parameter_errors :: "nat \<Rightarrow> string list \<Rightarrow> sql_parameter list \<Rightarrow> string" where
  \<comment> \<open>the loop over the parameters; the names before index \<open>i\<close> are carried along\<close>
  "parameter_errors i names [] = []"
| "parameter_errors i names (p # ps) =
     (if \<not> isValidName (sp_name p) then ''invalid parameter name at index '' @ to_string i
      else if (sp_type p = Varchar \<or> sp_type p = UnicodeText) \<and> length (sp_text p) > kMaxRpcTextBytes
      then ''text parameter exceeds RPC text limit at index '' @ to_string i
      else if sp_type p = UnicodeMaxText \<and> length (sp_text p) > kMaxBoundTextBytes
      then ''MAX text parameter exceeds bound text limit at index '' @ to_string i
      else if sp_name p \<in> set names then ''duplicate parameter name at index '' @ to_string i
      else parameter_errors (Suc i) (names @ [sp_name p]) ps)"

definition validationError :: "sql_command \<Rightarrow> string" where
  "validationError c =
     (if sc_statement c = [] then ''statement is empty''
      else if length (sc_statement c) > kMaxStatementBytes then ''statement exceeds SQL statement limit''
      else (case parameter_errors 0 [] (sc_parameters c) of
              [] \<Rightarrow> if length (parameterDeclarations c) > kMaxRpcTextBytes
                   then ''parameter declarations exceed RPC text limit'' else []
            | e \<Rightarrow> e))"

definition isValid :: "sql_command \<Rightarrow> bool" where
  "isValid c \<longleftrightarrow> validationError c = []"

section \<open>A command on a session\<close>

text \<open>
  The DB-Library calls on a session that may fail. \<open>Bind_Text\<close> is \<^verbatim>\<open>dbrpcparam\<close> with a \<^verbatim>\<open>VARCHAR\<close>,
  \<open>Bind_Unicode\<close> with \<^verbatim>\<open>NTEXT\<close>, \<open>Bind_Int\<close> and \<open>Bind_Int64\<close> with the integer types.
\<close>

datatype db_call = Rpc_Init string | Bind_Text string string | Bind_Unicode string string
  | Bind_Int string int | Bind_Int64 string int | Rpc_Send | Sql_Ok

datatype raw_cell = Null_Cell | Bad_Length
  | Cell nat "string option" \<comment> \<open>the length in bytes, and the text \<^verbatim>\<open>dbconvert\<close> makes of it\<close>

datatype row_end = No_More_Rows | Row_Failed

datatype raw_result = Result_Failed
  | Raw_Set "string list" "raw_cell list list" row_end \<comment> \<open>column names, rows, and how reading them ended\<close>

record 'w db_library =
  dl_call :: "nat \<Rightarrow> db_call \<Rightarrow> 'w \<Rightarrow> bool \<times> 'w"
  dl_results :: "nat \<Rightarrow> 'w \<Rightarrow> raw_result list \<times> 'w"

fun db_calls :: "'w db_library \<Rightarrow> nat \<Rightarrow> db_call list \<Rightarrow> 'w \<Rightarrow> bool \<times> 'w" where
  \<comment> \<open>each call is made only when the one before succeeded\<close>
  "db_calls D conn [] w = (True, w)"
| "db_calls D conn (c # cs) w =
     (case dl_call D conn c w of (False, w1) \<Rightarrow> (False, w1) | (True, w1) \<Rightarrow> db_calls D conn cs w1)"

fun bind_parameters :: "sql_parameter list \<Rightarrow> db_call list" where
  "bind_parameters [] = []"
| "bind_parameters (p # ps) =
     (case sp_type p of
        Int32 \<Rightarrow> Bind_Int (sp_name p) (sp_int p)
      | Int64 \<Rightarrow> Bind_Int64 (sp_name p) (sp_int64 p)
      | _ \<Rightarrow> Bind_Text (sp_name p) (sp_text p)) # bind_parameters ps"

definition addRpcUnicodeParameter :: "string \<Rightarrow> string \<Rightarrow> db_call option" where
  "addRpcUnicodeParameter name v =
     (if length v > kMaxStatementBytes then None else Some (Bind_Unicode name v))"

definition executeSql :: "'w db_library \<Rightarrow> nat \<Rightarrow> sql_command \<Rightarrow> 'w \<Rightarrow> bool \<times> 'w" where
  \<comment> \<open>a valid command passes the length checks of the text parameters, which are not repeated\<close>
  "executeSql D conn c w =
     (if validationError c \<noteq> [] then (False, w)
      else (case (addRpcUnicodeParameter ''@stmt'' (sc_statement c),
                  addRpcUnicodeParameter ''@params'' (parameterDeclarations c)) of
              (Some stmt, Some params) \<Rightarrow>
                db_calls D conn ([Rpc_Init ''sp_executesql'', stmt, params]
                  @ bind_parameters (sc_parameters c) @ [Rpc_Send, Sql_Ok]) w
            | _ \<Rightarrow> (False, w)))"

definition max_cell_bytes :: nat where
  "max_cell_bytes = 16 * 1024 * 1024"

fun readSqlTextValue :: "raw_cell \<Rightarrow> string option option" where
  \<comment> \<open>\<open>None\<close>: refused; one final zero byte of the converted text is dropped\<close>
  "readSqlTextValue Null_Cell = Some None"
| "readSqlTextValue Bad_Length = None"
| "readSqlTextValue (Cell n converted) =
     (if n = 0 then Some (Some [])
      else if n > max_cell_bytes div 2 then None
      else (case converted of
              None \<Rightarrow> None
            | Some text \<Rightarrow>
                if length text > max 256 (n * 2 + 32) then None
                else Some (Some (if text \<noteq> [] \<and> last text = CHR 0x00 then butlast text else text))))"

type_synonym sql_row = "string option list"

record sql_result_set =
  rs_columns :: "string list"
  rs_rows :: "sql_row list"

type_synonym sql_query_result = "sql_result_set list"

fun read_results :: "raw_result list \<Rightarrow> sql_query_result option" where
  \<comment> \<open>\<open>None\<close> when \<^verbatim>\<open>succeeded\<close> ends as false\<close>
  "read_results [] = Some []"
| "read_results (Result_Failed # rest) = None"
| "read_results (Raw_Set columns rows ending # rest) =
     (if ending = Row_Failed \<or> columns \<noteq> [] \<and> list_ex (list_ex (\<lambda>c. readSqlTextValue c = None)) rows then None
      else (case read_results rest of
              None \<Rightarrow> None
            | Some sets \<Rightarrow>
                Some (if columns = [] then sets
                      else \<lparr>rs_columns = columns,
                             rs_rows = map (map (\<lambda>c. the (readSqlTextValue c))) rows\<rparr> # sets)))"

fun skip_results :: "raw_result list \<Rightarrow> bool" where
  "skip_results [] \<longleftrightarrow> True"
| "skip_results (Result_Failed # rest) \<longleftrightarrow> False"
| "skip_results (Raw_Set columns rows ending # rest) \<longleftrightarrow> ending = No_More_Rows \<and> skip_results rest"

end
