(* ===== verification/Sql_Pool.thy ===== *)
theory Sql_Pool
  imports Sql_Command
begin

text \<open>
  The session pool of \<^verbatim>\<open>cpp/src/memory/MssqlMemory.cpp\<close> and the two operations on it. The pool is
  shared by all threads; its short critical sections are the atomic steps, and opening a session happens
  between two of them. A session is named by a number that FreeTDS never uses twice.
\<close>

section \<open>The pool\<close>

record sql_pool =
  po_host :: string
  po_port :: int
  po_user :: string
  po_pass :: string
  po_db :: string
  po_tls_valid :: bool
  po_idle :: "nat list"     \<comment> \<open>the back of \<^verbatim>\<open>pool_\<close> first\<close>
  po_active :: nat          \<comment> \<open>\<^verbatim>\<open>active_connections_\<close>\<close>

definition max_connections :: nat where
  "max_connections = 10"

definition pool_new :: sql_pool where
  "pool_new = \<lparr>po_host = [], po_port = 0, po_user = [], po_pass = [], po_db = [], po_tls_valid = True,
     po_idle = [], po_active = 0\<rparr>"

definition tls_configured :: "(string \<Rightarrow> string) \<Rightarrow> (string \<Rightarrow> bool) \<Rightarrow> bool" where
  \<comment> \<open>\<open>setenv\<close> says whether \<^verbatim>\<open>FREETDSCONF\<close> can be set to a path\<close>
  "tls_configured env setenv =
     (let configured_encrypt = env ''DB_ENCRYPT'';
          encrypt = (if configured_encrypt = [] then ''true'' else configured_encrypt);
          freetds_config = envOr env ''DB_FREETDS_CONF'' []
      in \<not> (encrypt = ''true'' \<and> env ''DB_TRUST_SERVER_CERTIFICATE'' \<noteq> ''true''
             \<and> (freetds_config = [] \<or> \<not> setenv freetds_config)))"

definition pool_init ::
  "(string \<Rightarrow> string) \<Rightarrow> (string \<Rightarrow> bool) \<Rightarrow> string \<Rightarrow> int \<Rightarrow> string \<Rightarrow> string \<Rightarrow> string \<Rightarrow> sql_pool \<Rightarrow> sql_pool" where
  "pool_init env setenv host port user pass db p =
     (if po_host p \<noteq> [] then p
      else p\<lparr>po_host := host, po_port := port, po_user := user, po_pass := pass, po_db := db,
             po_tls_valid := po_tls_valid p \<and> tls_configured env setenv\<rparr>)"

fun take_idle :: "(nat \<Rightarrow> bool) \<Rightarrow> sql_pool \<Rightarrow> nat list \<Rightarrow> nat option \<times> sql_pool" where
  \<comment> \<open>dead sessions are closed on the way\<close>
  "take_idle dead p [] = (None, p\<lparr>po_idle := []\<rparr>)"
| "take_idle dead p (c # cs) =
     (if \<not> dead c then (Some c, p\<lparr>po_idle := cs\<rparr>)
      else take_idle dead (p\<lparr>po_active := po_active p - 1\<rparr>) cs)"

definition acquire_ready :: "sql_pool \<Rightarrow> bool" where
  \<comment> \<open>the condition \<^verbatim>\<open>acquire\<close> waits for\<close>
  "acquire_ready p \<longleftrightarrow> po_idle p \<noteq> [] \<or> po_active p < max_connections"

definition acquire_locked :: "(nat \<Rightarrow> bool) \<Rightarrow> sql_pool \<Rightarrow> nat option \<times> sql_pool" where
  \<comment> \<open>the critical section of \<^verbatim>\<open>acquire\<close>; \<open>None\<close>: a session is counted and has to be opened\<close>
  "acquire_locked dead p =
     (case take_idle dead p (po_idle p) of
        (Some c, p1) \<Rightarrow> (Some c, p1)
      | (None, p1) \<Rightarrow> (None, p1\<lparr>po_active := po_active p1 + 1\<rparr>))"

datatype open_attempt = Login_Failed | Open_Failed | Opened nat
  \<comment> \<open>no login record or character set; no session, or the database cannot be selected; a session\<close>

fun openConnectionWithRetry :: "nat \<Rightarrow> open_attempt list \<Rightarrow> nat option" where
  \<comment> \<open>the number of attempts that are left; the list says how they end\<close>
  "openConnectionWithRetry 0 plan = None"
| "openConnectionWithRetry (Suc n) [] = None"
| "openConnectionWithRetry (Suc n) (Login_Failed # plan) = None"
| "openConnectionWithRetry (Suc n) (Opened c # plan) = Some c"
| "openConnectionWithRetry (Suc n) (Open_Failed # plan) = openConnectionWithRetry n plan"

definition acquire_finished :: "nat option \<Rightarrow> sql_pool \<Rightarrow> sql_pool" where
  "acquire_finished opened p =
     (if opened = None then p\<lparr>po_active := po_active p - 1\<rparr> else p)"

definition acquire ::
  "(nat \<Rightarrow> bool) \<Rightarrow> ('w \<Rightarrow> open_attempt list \<times> 'w) \<Rightarrow> sql_pool \<Rightarrow> 'w \<Rightarrow> nat option \<times> sql_pool \<times> 'w" where
  \<comment> \<open>for a thread that does not have to wait: \<open>acquire_ready\<close> holds\<close>
  "acquire dead attempts p w =
     (if \<not> po_tls_valid p then (None, p, w)
      else (case acquire_locked dead p of
              (Some c, p1) \<Rightarrow> (Some c, p1, w)
            | (None, p1) \<Rightarrow>
                (let (plan, w1) = attempts w; opened = openConnectionWithRetry 3 plan
                 in (opened, acquire_finished opened p1, w1))))"

definition release :: "(nat \<Rightarrow> bool) \<Rightarrow> nat option \<Rightarrow> bool \<Rightarrow> sql_pool \<Rightarrow> sql_pool" where
  "release dead conn reusable p =
     (case conn of
        None \<Rightarrow> p
      | Some c \<Rightarrow>
          if \<not> reusable \<or> dead c then p\<lparr>po_active := po_active p - 1\<rparr>
          else p\<lparr>po_idle := c # po_idle p\<rparr>)"

section \<open>The operations\<close>

record 'w sql_session_env =
  se_library :: "'w db_library"
  se_dead :: "'w \<Rightarrow> nat \<Rightarrow> bool"                    \<comment> \<open>\<^verbatim>\<open>DBDEAD\<close>\<close>
  se_open :: "'w \<Rightarrow> open_attempt list \<times> 'w"

definition pooled ::
  "'w sql_session_env \<Rightarrow> (nat \<Rightarrow> 'w \<Rightarrow> 'a option \<times> 'w) \<Rightarrow> bool \<Rightarrow> sql_pool \<Rightarrow> 'w
   \<Rightarrow> 'a option \<times> sql_pool \<times> 'w" where
  \<comment> \<open>\<^verbatim>\<open>PooledConnection\<close> around an operation that invalidates the session when it fails\<close>
  "pooled E operation credentials p w =
     (case acquire (se_dead E w) (se_open E) p w of
        (None, p1, w1) \<Rightarrow> (None, release (se_dead E w1) None True p1, w1)
      | (Some c, p1, w1) \<Rightarrow>
          if \<not> credentials then (None, release (se_dead E w1) (Some c) True p1, w1)
          else (let (r, w2) = operation c w1
                in (r, release (se_dead E w2) (Some c) (r \<noteq> None) p1, w2)))"

definition mssql_query ::
  "'w sql_session_env \<Rightarrow> bool \<Rightarrow> sql_command \<Rightarrow> sql_pool \<Rightarrow> 'w \<Rightarrow> sql_query_result option \<times> sql_pool \<times> 'w" where
  \<comment> \<open>\<open>credentials\<close>: user, password and database are all set\<close>
  "mssql_query E credentials command = pooled E (\<lambda>c w.
     case executeSql (se_library E) c command w of
       (False, w1) \<Rightarrow> (None, w1)
     | (True, w1) \<Rightarrow> (let (raw, w2) = dl_results (se_library E) c w1 in (read_results raw, w2))) credentials"

definition mssql_execute ::
  "'w sql_session_env \<Rightarrow> bool \<Rightarrow> sql_command \<Rightarrow> sql_pool \<Rightarrow> 'w \<Rightarrow> unit option \<times> sql_pool \<times> 'w" where
  \<comment> \<open>\<open>None\<close> for false\<close>
  "mssql_execute E credentials command = pooled E (\<lambda>c w.
     case executeSql (se_library E) c command w of
       (False, w1) \<Rightarrow> (None, w1)
     | (True, w1) \<Rightarrow>
         (let (raw, w2) = dl_results (se_library E) c w1 in (if skip_results raw then Some () else None, w2))) credentials"

definition mssql_memory ::
  "(string \<Rightarrow> string) \<Rightarrow> (string \<Rightarrow> bool) \<Rightarrow> string \<Rightarrow> int \<Rightarrow> string \<Rightarrow> string \<Rightarrow> string \<Rightarrow> sql_pool \<Rightarrow> bool \<times> sql_pool" where
  \<comment> \<open>the constructor: whether the credentials are complete, and the pool\<close>
  "mssql_memory env setenv host port user pass db p =
     (let user1 = envOr env ''DB_USER'' user; pass1 = envOr env ''DB_PASSWORD'' pass; db1 = envOr env ''DB_NAME'' db
      in (user1 \<noteq> [] \<and> pass1 \<noteq> [] \<and> db1 \<noteq> [], pool_init env setenv host port user1 pass1 db1 p))"

section \<open>Threads\<close>

text \<open>
  The pool with, as history, the threads that are opening a session, the sessions lent to threads, and
  those that were closed. Whether a session is dead may change at any moment, so every step takes its own
  \<open>dead\<close>.
\<close>

record pool_system =
  px_pool :: sql_pool
  px_opening :: nat
  px_lent :: "nat list"
  px_closed :: "nat set"

definition pool_system_new :: pool_system where
  "pool_system_new = \<lparr>px_pool = pool_new, px_opening = 0, px_lent = [], px_closed = {}\<rparr>"

inductive pool_step :: "pool_system \<Rightarrow> pool_system \<Rightarrow> bool" where
  initialise: "pool_step s (s\<lparr>px_pool := pool_init env setenv host port user pass db (px_pool s)\<rparr>)"
| take_session: "po_tls_valid (px_pool s) \<Longrightarrow> acquire_ready (px_pool s) \<Longrightarrow>
    acquire_locked dead (px_pool s) = (Some c, p) \<Longrightarrow>
    pool_step s (s\<lparr>px_pool := p, px_lent := c # px_lent s,
      px_closed := px_closed s \<union> (set (po_idle (px_pool s)) - set (po_idle p) - {c})\<rparr>)"
| start_opening: "po_tls_valid (px_pool s) \<Longrightarrow> acquire_ready (px_pool s) \<Longrightarrow>
    acquire_locked dead (px_pool s) = (None, p) \<Longrightarrow>
    pool_step s (s\<lparr>px_pool := p, px_opening := px_opening s + 1,
      px_closed := px_closed s \<union> set (po_idle (px_pool s))\<rparr>)"
| session_opened: "px_opening s > 0 \<Longrightarrow> openConnectionWithRetry 3 plan = Some c \<Longrightarrow>
    c \<notin> set (po_idle (px_pool s)) \<union> set (px_lent s) \<union> px_closed s \<Longrightarrow>
    pool_step s (s\<lparr>px_pool := acquire_finished (Some c) (px_pool s), px_opening := px_opening s - 1,
      px_lent := c # px_lent s\<rparr>)"
| opening_failed: "px_opening s > 0 \<Longrightarrow> openConnectionWithRetry 3 plan = None \<Longrightarrow>
    pool_step s (s\<lparr>px_pool := acquire_finished None (px_pool s), px_opening := px_opening s - 1\<rparr>)"
| give_back: "c \<in> set (px_lent s) \<Longrightarrow>
    pool_step s (s\<lparr>px_pool := release dead (Some c) reusable (px_pool s), px_lent := remove1 c (px_lent s),
      px_closed := (if \<not> reusable \<or> dead c then insert c (px_closed s) else px_closed s)\<rparr>)"

inductive pool_reachable :: "pool_system \<Rightarrow> bool" where
  start: "pool_reachable pool_system_new"
| step: "pool_reachable s \<Longrightarrow> pool_step s s' \<Longrightarrow> pool_reachable s'"

definition pool_inv :: "pool_system \<Rightarrow> bool" where
  "pool_inv s \<longleftrightarrow>
     distinct (po_idle (px_pool s) @ px_lent s)
     \<and> px_closed s \<inter> set (po_idle (px_pool s) @ px_lent s) = {}
     \<and> po_active (px_pool s) = length (po_idle (px_pool s)) + length (px_lent s) + px_opening s
     \<and> po_active (px_pool s) \<le> max_connections"

lemma take_idle_spec:
  "take_idle dead p cs = (r, p') \<Longrightarrow> length cs \<le> po_active p \<Longrightarrow>
     \<exists>gone. cs = gone @ (case r of None \<Rightarrow> [] | Some c \<Rightarrow> [c]) @ po_idle p'
       \<and> list_all dead gone \<and> (\<forall>c. r = Some c \<longrightarrow> \<not> dead c) \<and> (r = None \<longrightarrow> po_idle p' = [])
       \<and> po_active p' = po_active p - length gone \<and> po_tls_valid p' = po_tls_valid p"
proof (induction dead p cs rule: take_idle.induct)
  case (2 dead p c cs)
  show ?case
  proof (cases "dead c")
    case True
    from 2 True obtain gone where "cs = gone @ (case r of None \<Rightarrow> [] | Some c \<Rightarrow> [c]) @ po_idle p'"
      "list_all dead gone" "\<forall>c. r = Some c \<longrightarrow> \<not> dead c" "r = None \<longrightarrow> po_idle p' = []"
      "po_active p' = po_active p - 1 - length gone" "po_tls_valid p' = po_tls_valid p"
      by fastforce
    then show ?thesis using True by (intro exI[of _ "c # gone"]) simp
  next
    case False
    then show ?thesis using 2 by (intro exI[of _ "[]"]) auto
  qed
qed auto

lemma acquire_locked_spec:
  assumes "acquire_locked dead p = (r, p')" and "length (po_idle p) \<le> po_active p"
  shows "\<exists>gone. po_idle p = gone @ (case r of None \<Rightarrow> [] | Some c \<Rightarrow> [c]) @ po_idle p'
       \<and> list_all dead gone \<and> (\<forall>c. r = Some c \<longrightarrow> \<not> dead c) \<and> (r = None \<longrightarrow> po_idle p' = [])
       \<and> po_active p' = po_active p - length gone + (if r = None then 1 else 0)"
proof -
  obtain r1 p1 where t: "take_idle dead p (po_idle p) = (r1, p1)" by fastforce
  from take_idle_spec[OF t assms(2)] t assms(1) show ?thesis
    by (auto simp: acquire_locked_def split: option.splits)
qed

lemma pool_inv_new: "pool_inv pool_system_new"
  by (simp add: pool_inv_def pool_system_new_def pool_new_def)

lemma pool_inv_step: "pool_step s s' \<Longrightarrow> pool_inv s \<Longrightarrow> pool_inv s'"
proof (induction rule: pool_step.induct)
  case (initialise s env setenv host port user pass db)
  then show ?case by (simp add: pool_inv_def pool_init_def)
next
  case (take_session s dead c p)
  have "length (po_idle (px_pool s)) \<le> po_active (px_pool s)" using take_session(4) by (simp add: pool_inv_def)
  from acquire_locked_spec[OF take_session(3) this] obtain gone where
    "po_idle (px_pool s) = gone @ c # po_idle p" "po_active p = po_active (px_pool s) - length gone"
    by auto
  then show ?case using take_session(4) by (auto simp: pool_inv_def)
next
  case (start_opening s dead p)
  have "length (po_idle (px_pool s)) \<le> po_active (px_pool s)" using start_opening(4) by (simp add: pool_inv_def)
  from acquire_locked_spec[OF start_opening(3) this] have g:
    "po_idle p = []" "po_active p = po_active (px_pool s) - length (po_idle (px_pool s)) + 1"
    by auto
  have "po_active p \<le> max_connections"
    using start_opening(2,4) g by (cases "po_idle (px_pool s)") (auto simp: acquire_ready_def pool_inv_def)
  then show ?case using start_opening(4) g by (auto simp: pool_inv_def)
next
  case (session_opened s plan c)
  then show ?case by (auto simp: pool_inv_def acquire_finished_def)
next
  case (opening_failed s plan)
  then show ?case by (auto simp: pool_inv_def acquire_finished_def)
next
  case (give_back c s dead reusable)
  have "length (px_lent s) = Suc (length (remove1 c (px_lent s)))"
    using give_back(1) by (simp add: length_remove1) (metis Suc_pred length_pos_if_in_set)
  then show ?case using give_back
    by (auto simp: pool_inv_def release_def dest: notin_set_remove1)
qed

lemma pool_reachable_inv: "pool_reachable s \<Longrightarrow> pool_inv s"
  by (induction rule: pool_reachable.induct) (auto intro: pool_inv_new pool_inv_step)


section \<open>Properties\<close>

text \<open>
  C23. Sessions are exclusive. In every state that the threads can reach, no session is both pooled and lent,
  nor lent twice; no session that was closed is pooled or lent; the counter is the number of pooled
  sessions, lent sessions and those being opened; and there are at most ten.
\<close>

theorem sessions_are_exclusive:
  "pool_reachable s \<Longrightarrow>
     distinct (po_idle (px_pool s) @ px_lent s)
     \<and> px_closed s \<inter> set (po_idle (px_pool s) @ px_lent s) = {}
     \<and> po_active (px_pool s) = length (po_idle (px_pool s)) + length (px_lent s) + px_opening s
     \<and> po_active (px_pool s) \<le> max_connections"
  unfolding pool_inv_def[symmetric] by (rule pool_reachable_inv)

definition sample_pool :: pool_system where
  \<comment> \<open>session 1 pooled, session 2 lent\<close>
  "sample_pool = \<lparr>px_pool = pool_new\<lparr>po_idle := [1], po_active := 2\<rparr>, px_opening = 0, px_lent = [2], px_closed = {}\<rparr>"

lemma sample_pool_reachable: "pool_reachable sample_pool"
proof -
  let ?s1 = "pool_system_new\<lparr>px_pool := pool_new\<lparr>po_active := 1\<rparr>, px_opening := 1\<rparr>"
  let ?s2 = "?s1\<lparr>px_opening := 0, px_lent := [1]\<rparr>"
  let ?s3 = "?s2\<lparr>px_pool := pool_new\<lparr>po_active := 2\<rparr>, px_opening := 1\<rparr>"
  let ?s4 = "?s3\<lparr>px_opening := 0, px_lent := [2, 1]\<rparr>"
  have 1: "pool_step pool_system_new ?s1"
    using pool_step.start_opening[of pool_system_new "\<lambda>_. False" "pool_new\<lparr>po_active := 1\<rparr>"]
    by (simp add: pool_system_new_def pool_new_def acquire_ready_def acquire_locked_def max_connections_def)
  have 2: "pool_step ?s1 ?s2"
    using pool_step.session_opened[of ?s1 "[Opened 1]" 1]
    by (simp add: pool_system_new_def pool_new_def acquire_finished_def numeral_3_eq_3)
  have 3: "pool_step ?s2 ?s3"
    using pool_step.start_opening[of ?s2 "\<lambda>_. False" "pool_new\<lparr>po_active := 2\<rparr>"]
    by (simp add: pool_system_new_def pool_new_def acquire_ready_def acquire_locked_def max_connections_def)
  have 4: "pool_step ?s3 ?s4"
    using pool_step.session_opened[of ?s3 "[Opened 2]" 2]
    by (simp add: pool_system_new_def pool_new_def acquire_finished_def numeral_3_eq_3)
  have 5: "pool_step ?s4 sample_pool"
    using pool_step.give_back[where s = ?s4 and c = 1 and dead = "\<lambda>_. False" and reusable = True]
    by (simp add: pool_system_new_def pool_new_def release_def sample_pool_def)
  from 1 2 3 4 5 show ?thesis by (meson pool_reachable.intros)
qed

theorem sessions_are_exclusive_witness:
  "distinct (po_idle (px_pool sample_pool) @ px_lent sample_pool) \<and> po_idle (px_pool sample_pool) = [1]
   \<and> px_lent sample_pool = [2]"
  using sessions_are_exclusive[OF sample_pool_reachable] by (simp add: sample_pool_def)

text \<open>
  A session on which a command failed is never pooled again: after a query or a statement that had a
  session but gave no result, the session is not in the pool and is no longer counted.
\<close>

theorem failed_session_is_discarded:
  assumes "acquire (se_dead E w) (se_open E) p w = (Some c, p1, w1)" and "c \<notin> set (po_idle p1)"
    and "mssql_query E True command p w = (None, p2, w2)"
  shows "c \<notin> set (po_idle p2) \<and> po_active p2 = po_active p1 - 1 \<and> po_idle p2 = po_idle p1"
  using assms by (auto simp: mssql_query_def pooled_def release_def Let_def split: prod.splits)

definition sample_failing :: "unit sql_session_env" where
  \<comment> \<open>session 7 can be opened at the second attempt\<close>
  "sample_failing = \<lparr>se_library = \<lparr>dl_call = \<lambda>c call w. (False, w), dl_results = \<lambda>c w. ([], w)\<rparr>,
     se_dead = \<lambda>w c. False, se_open = \<lambda>w. ([Open_Failed, Opened 7], w)\<rparr>"

theorem failed_session_is_discarded_witness:
  "po_idle (fst (snd (mssql_query sample_failing True \<lparr>sc_statement = [], sc_parameters = []\<rparr>
     pool_new ()))) = []"
proof -
  let ?c = "\<lparr>sc_statement = [], sc_parameters = []\<rparr>" and ?p = "pool_new\<lparr>po_active := 1\<rparr>"
  have a: "acquire (se_dead sample_failing ()) (se_open sample_failing) pool_new () = (Some 7, ?p, ())"
    by (simp add: acquire_def acquire_locked_def acquire_finished_def pool_new_def sample_failing_def numeral_3_eq_3)
  have q: "fst (mssql_query sample_failing True ?c pool_new ()) = None"
    using a by (simp add: mssql_query_def pooled_def executeSql_def validationError_def Let_def)
  have "mssql_query sample_failing True ?c pool_new ()
      = (None, fst (snd (mssql_query sample_failing True ?c pool_new ())), ())"
    using q by (simp add: prod_eq_iff)
  from failed_session_is_discarded[OF a _ this] show ?thesis by (simp add: pool_new_def)
qed

end
