(* ===== verification/Sql_Registry.thy ===== *)
theory Sql_Registry
  imports Sql_Command "HOL-Library.Multiset"
begin

text \<open>
  \<^verbatim>\<open>cpp/src/service_memory/RegistryServiceMemory.cpp\<close>: the SQL registry of servers, Redis services,
  canvases and users. The tables are records of rows, each SQL script is a function on the tables that
  gives its result rows, or \<open>None\<close> when it throws (its transaction is then rolled back), and the
  operations read the rows as the code does. A script runs as one transaction; a command may also be lost
  before it reaches the server, or its answer may be lost after it ran. Parameters are the comparison of
  texts by the collation of the database and the random orders of \<^verbatim>\<open>NEWID()\<close>. Shown here: a canvas has
  one owner, who alone can give it up, and a new canvas goes to the less loaded of the candidates.
\<close>

section \<open>Reading result rows\<close>

definition cell :: "sql_row \<Rightarrow> nat \<Rightarrow> string option" where
  "cell row i = (if i < length row then row ! i else None)"

definition number :: "int \<Rightarrow> int \<Rightarrow> string option \<Rightarrow> int option" where
  \<comment> \<open>\<^verbatim>\<open>std::from_chars\<close> on the whole text, for an integer type with the given bounds\<close>
  "number lo hi text =
     (case text of
        None \<Rightarrow> None
      | Some s \<Rightarrow>
          (let negative = (s \<noteq> [] \<and> hd s = CHR ''-'');
               digits = (if negative then tl s else s);
               v = (if negative then - int (digits_value digits) else int (digits_value digits))
           in if digits \<noteq> [] \<and> list_all isdigit digits \<and> lo \<le> v \<and> v \<le> hi then Some v else None))"

abbreviation number_int :: "string option \<Rightarrow> int option" where
  "number_int \<equiv> number (- 2147483648) 2147483647"

abbreviation number_int64 :: "string option \<Rightarrow> int option" where
  "number_int64 \<equiv> number (- 9223372036854775808) 9223372036854775807"

definition lastRow :: "sql_query_result \<Rightarrow> sql_row option" where
  \<comment> \<open>the last row of the last result set that has rows\<close>
  "lastRow sets =
     (case filter (\<lambda>s. rs_rows s \<noteq> []) (rev sets) of [] \<Rightarrow> None | s # _ \<Rightarrow> Some (last (rs_rows s)))"

definition scalar :: "sql_query_result option \<Rightarrow> int option" where
  "scalar result =
     (case result of
        None \<Rightarrow> None
      | Some sets \<Rightarrow> (case lastRow sets of None \<Rightarrow> None | Some row \<Rightarrow> number_int (cell row 0)))"

section \<open>The tables\<close>

record cpp_server =
  cs_id :: int
  cs_ip :: string
  cs_port :: string
  cs_ws_port :: string
  cs_active :: bool
  cs_created :: int
  cs_heartbeat :: int

record redis_server =
  rd_id :: int
  rd_ip :: string
  rd_port :: string
  rd_active :: bool

record canvas_info =
  ci_id :: int
  ci_redis :: "int option"
  ci_server :: "int option"
  ci_cached :: bool
  ci_updated :: int

record user_row =
  us_id :: int
  us_nickname :: string
  us_tag :: int
  us_status :: string

record registry_db =
  db_servers :: "cpp_server list"
  db_next_server :: int            \<comment> \<open>the identity of the next inserted server\<close>
  db_redis :: "redis_server list"
  db_canvases :: "canvas_info list"
  db_users :: "user_row list"

text \<open>
  What one command finds: the collation, the clock, the order in which \<^verbatim>\<open>NEWID()\<close> puts the active
  Redis services, and the order among candidates of equal load.
\<close>

record sql_moment =
  sm_same :: "string \<Rightarrow> string \<Rightarrow> bool"
  sm_now :: int
  sm_shuffle :: "redis_server list \<Rightarrow> redis_server list"
  sm_reorder :: "(redis_server \<times> nat) list \<Rightarrow> (redis_server \<times> nat) list"

definition moment_ok :: "sql_moment \<Rightarrow> bool" where
  \<comment> \<open>a shuffled result has the same rows\<close>
  "moment_ok M \<longleftrightarrow> (\<forall>xs. mset (sm_shuffle M xs) = mset xs) \<and> (\<forall>ys. mset (sm_reorder M ys) = mset ys)"

type_synonym sql_script = "sql_moment \<Rightarrow> registry_db \<Rightarrow> (sql_query_result \<times> registry_db) option"

datatype sql_fate = Delivered | Request_Lost | Answer_Lost

record sql_server =
  sv_db :: registry_db
  sv_moments :: "nat \<Rightarrow> sql_moment"
  sv_fates :: "nat \<Rightarrow> sql_fate"
  sv_clock :: nat                  \<comment> \<open>the number of commands so far\<close>

definition run_sql :: "sql_command \<Rightarrow> sql_script \<Rightarrow> sql_server \<Rightarrow> sql_query_result option \<times> sql_server" where
  \<comment> \<open>\<^verbatim>\<open>SqlExecutor::query\<close>; the statement of the command stands for its script\<close>
  "run_sql command script w =
     (let now = sv_clock w; w1 = w\<lparr>sv_clock := now + 1\<rparr>
      in if \<not> isValid command \<or> sv_fates w now = Request_Lost then (None, w1)
         else (case script (sv_moments w now) (sv_db w) of
                 None \<Rightarrow> (None, w1)
               | Some (r, db) \<Rightarrow> (if sv_fates w now = Answer_Lost then None else Some r, w1\<lparr>sv_db := db\<rparr>)))"

definition one_row :: "string \<Rightarrow> sql_row \<Rightarrow> sql_query_result" where
  "one_row column row = [\<lparr>rs_columns = [column], rs_rows = [row]\<rparr>]"

definition is_server :: "sql_moment \<Rightarrow> string \<Rightarrow> string \<Rightarrow> cpp_server \<Rightarrow> bool" where
  \<comment> \<open>\<^verbatim>\<open>server_ip = @ip AND server_port = @port\<close>\<close>
  "is_server M ip port s \<longleftrightarrow> sm_same M (cs_ip s) ip \<and> sm_same M (cs_port s) port"

definition update_servers :: "(cpp_server \<Rightarrow> bool) \<Rightarrow> (cpp_server \<Rightarrow> cpp_server) \<Rightarrow> registry_db \<Rightarrow> registry_db" where
  "update_servers p f db = db\<lparr>db_servers := map (\<lambda>s. if p s then f s else s) (db_servers db)\<rparr>"

definition update_canvas :: "int \<Rightarrow> (canvas_info \<Rightarrow> canvas_info) \<Rightarrow> registry_db \<Rightarrow> registry_db" where
  "update_canvas i f db = db\<lparr>db_canvases := map (\<lambda>c. if ci_id c = i then f c else c) (db_canvases db)\<rparr>"

definition canvas_row :: "registry_db \<Rightarrow> int \<Rightarrow> canvas_info option" where
  "canvas_row db i = find (\<lambda>c. ci_id c = i) (db_canvases db)"

section \<open>Servers\<close>

definition register_script :: "string \<Rightarrow> string \<Rightarrow> string \<Rightarrow> sql_script" where
  "register_script ip rest_port ws_port M db =
     Some ([],
       if list_ex (is_server M ip rest_port) (db_servers db)
       then update_servers (is_server M ip rest_port)
              (\<lambda>s. s\<lparr>cs_ws_port := ws_port, cs_active := True, cs_heartbeat := sm_now M\<rparr>) db
       else db\<lparr>db_servers := db_servers db @ [\<lparr>cs_id = db_next_server db, cs_ip = ip, cs_port = rest_port,
                 cs_ws_port = ws_port, cs_active = True, cs_created = sm_now M, cs_heartbeat = sm_now M\<rparr>],
               db_next_server := db_next_server db + 1\<rparr>)"

definition registerServer :: "string \<Rightarrow> int \<Rightarrow> int \<Rightarrow> sql_server \<Rightarrow> bool \<times> sql_server" where
  "registerServer ip rest_port ws_port w =
     (let command = addVarchar ''@ws_port'' (number_text ws_port)
            (addVarchar ''@rest_port'' (number_text rest_port) (addVarchar ''@ip'' ip
              \<lparr>sc_statement = ''register'', sc_parameters = []\<rparr>));
          (r, w1) = run_sql command (register_script ip (number_text rest_port) (number_text ws_port)) w
      in (r \<noteq> None, w1))"

definition heartbeat_script :: "string \<Rightarrow> string \<Rightarrow> sql_script" where
  "heartbeat_script ip rest_port M db =
     Some (one_row ''affected'' [Some (to_string (length (filter (is_server M ip rest_port) (db_servers db))))],
       update_servers (is_server M ip rest_port) (\<lambda>s. s\<lparr>cs_heartbeat := sm_now M, cs_active := True\<rparr>) db)"

definition heartbeatServer :: "string \<Rightarrow> int \<Rightarrow> sql_server \<Rightarrow> bool \<times> sql_server" where
  "heartbeatServer ip rest_port w =
     (let command = addVarchar ''@rest_port'' (number_text rest_port) (addVarchar ''@ip'' ip
              \<lparr>sc_statement = ''heartbeat'', sc_parameters = []\<rparr>);
          (r, w1) = run_sql command (heartbeat_script ip (number_text rest_port)) w
      in (scalar r = Some 1, w1))"

definition inactive_script :: "string \<Rightarrow> string \<Rightarrow> sql_script" where
  "inactive_script ip rest_port M db =
     Some ([], update_servers (is_server M ip rest_port)
       (\<lambda>s. s\<lparr>cs_active := False, cs_heartbeat := sm_now M\<rparr>) db)"

definition setServerInactive :: "string \<Rightarrow> int \<Rightarrow> sql_server \<Rightarrow> bool \<times> sql_server" where
  "setServerInactive ip rest_port w =
     (let command = addVarchar ''@rest_port'' (number_text rest_port) (addVarchar ''@ip'' ip
              \<lparr>sc_statement = ''inactive'', sc_parameters = []\<rparr>);
          (r, w1) = run_sql command (inactive_script ip (number_text rest_port)) w
      in (r \<noteq> None, w1))"

definition unregisterServer :: "string \<Rightarrow> int \<Rightarrow> sql_server \<Rightarrow> bool \<times> sql_server" where
  "unregisterServer = setServerInactive"

section \<open>Giving a canvas to a server\<close>

text \<open>The columns of the table are at most as long as the variables of the script, so nothing is truncated.\<close>

definition canvas_redis :: "registry_db \<Rightarrow> canvas_info \<Rightarrow> redis_server option" where
  \<comment> \<open>the left join with the active Redis services\<close>
  "canvas_redis db c =
     (case ci_redis c of None \<Rightarrow> None | Some i \<Rightarrow> find (\<lambda>r. rd_id r = i \<and> rd_active r) (db_redis db))"

definition my_server :: "sql_moment \<Rightarrow> string \<Rightarrow> string \<Rightarrow> (cpp_server \<Rightarrow> bool) \<Rightarrow> registry_db \<Rightarrow> int option" where
  \<comment> \<open>\<^verbatim>\<open>SELECT @id = server_id\<close>: the last row that matches\<close>
  "my_server M ip port also db =
     (case rev (filter (\<lambda>s. is_server M ip port s \<and> also s) (db_servers db)) of
        [] \<Rightarrow> None | s # _ \<Rightarrow> Some (cs_id s))"

definition cached_count :: "registry_db \<Rightarrow> redis_server \<Rightarrow> nat" where
  "cached_count db r = length (filter (\<lambda>c. ci_redis c = Some (rd_id r) \<and> ci_cached c) (db_canvases db))"

definition redis_candidates :: "sql_moment \<Rightarrow> registry_db \<Rightarrow> (redis_server \<times> nat) list" where
  "redis_candidates M db =
     map (\<lambda>r. (r, cached_count db r)) (take 2 (sm_shuffle M (filter rd_active (db_redis db))))"

definition selected_candidate :: "sql_moment \<Rightarrow> (redis_server \<times> nat) list \<Rightarrow> redis_server \<times> nat" where
  \<comment> \<open>\<^verbatim>\<open>TOP (1) ... ORDER BY cached_canvas_count ASC, NEWID()\<close>, of a list that is not empty\<close>
  "selected_candidate M candidates = hd (sort_key snd (sm_reorder M candidates))"

definition candidate_cells :: "(redis_server \<times> nat) list \<Rightarrow> nat \<Rightarrow> sql_row" where
  "candidate_cells candidates k =
     (if k < length candidates
      then (case candidates ! k of (r, n) \<Rightarrow> [Some (rd_ip r), Some (rd_port r), Some (to_string n)])
      else [Some [], Some [], Some []])"

definition allocation_row ::
  "string \<Rightarrow> string \<Rightarrow> bool \<Rightarrow> string \<Rightarrow> (redis_server \<times> nat) list \<Rightarrow> nat option \<Rightarrow> sql_row" where
  "allocation_row ip port was_cached strategy candidates selected =
     [Some ip, Some port, Some (if was_cached then ''1'' else ''0''), Some strategy,
      Some (to_string (length candidates))]
     @ candidate_cells candidates 0 @ candidate_cells candidates 1
     @ [Some (case selected of None \<Rightarrow> [] | Some n \<Rightarrow> to_string n)]"

definition allocate_script :: "int \<Rightarrow> string \<Rightarrow> string \<Rightarrow> sql_script" where
  "allocate_script canvas cpp_ip cpp_port M db =
     (case my_server M cpp_ip cpp_port cs_active db of
        None \<Rightarrow> None
      | Some me \<Rightarrow>
          (case canvas_row db canvas of
             None \<Rightarrow> Some (one_row ''redis_ip'' (allocation_row ''NOT_FOUND'' ''0'' False ''NONE'' [] None), db)
           | Some c \<Rightarrow>
               if ci_cached c \<and> ci_server c \<noteq> None \<and> ci_server c \<noteq> Some me
               then Some (one_row ''redis_ip'' (allocation_row ''WRONG_SERVER'' ''0'' True ''NONE'' [] None), db)
               else
                 (let own = (\<lambda>c. c\<lparr>ci_cached := True, ci_server := Some me, ci_updated := sm_now M\<rparr>)
                  in case canvas_redis db c of
                       Some r \<Rightarrow>
                         Some (one_row ''redis_ip''
                             (allocation_row (rd_ip r) (rd_port r) (ci_cached c) ''EXISTING'' [] None),
                           update_canvas canvas own db)
                     | None \<Rightarrow>
                         if ci_cached c
                         then Some (one_row ''redis_ip'' (allocation_row ''ERROR'' ''0'' True ''NONE'' [] None), db)
                         else
                           (let candidates = redis_candidates M db
                            in if candidates = [] then None
                               else
                                 (let (r, n) = selected_candidate M candidates
                                  in Some (one_row ''redis_ip''
                                      (allocation_row (rd_ip r) (rd_port r) (ci_cached c)
                                        (if length candidates = 1 then ''SINGLE'' else ''P2C'') candidates (Some n)),
                                      update_canvas canvas own
                                        (update_canvas canvas (\<lambda>c. c\<lparr>ci_redis := Some (rd_id r)\<rparr>) db)))))))"

record redis_allocation =
  ra_ip :: string
  ra_port :: int
  ra_was_cached :: bool
  ra_strategy :: string
  ra_candidates :: "(string \<times> int \<times> int) list"
  ra_selected :: int

definition failed_allocation :: redis_allocation where
  "failed_allocation = \<lparr>ra_ip = ''ERROR'', ra_port = 0, ra_was_cached = False, ra_strategy = [],
     ra_candidates = [], ra_selected = -1\<rparr>"

fun read_candidates :: "sql_row \<Rightarrow> nat \<Rightarrow> nat \<Rightarrow> (string \<times> int \<times> int) list option" where
  \<comment> \<open>from the cell of the next candidate on, the number that is left\<close>
  "read_candidates row offset 0 = Some []"
| "read_candidates row offset (Suc n) =
     (case (cell row offset, number_int (cell row (offset + 1)), number_int64 (cell row (offset + 2))) of
        (Some ip, Some port, Some cnt) \<Rightarrow>
          if ip = [] then None
          else map_option (\<lambda>rest. (ip, port, cnt) # rest) (read_candidates row (offset + 3) n)
      | _ \<Rightarrow> None)"

definition read_allocation :: "sql_row \<Rightarrow> redis_allocation" where
  \<comment> \<open>the reading of a row with twelve cells\<close>
  "read_allocation row =
     (let found_ip = (case cell row 0 of None \<Rightarrow> [] | Some ip \<Rightarrow> ip);
          found_port = (case number_int (cell row 1) of None \<Rightarrow> 0 | Some port \<Rightarrow> port);
          was_cached = (cell row 2 = Some ''1'');
          strategy = (case cell row 3 of None \<Rightarrow> [] | Some s \<Rightarrow> s);
          selected = (case cell row 11 of
                        None \<Rightarrow> Some (-1)
                      | Some [] \<Rightarrow> Some (-1)
                      | Some text \<Rightarrow> number_int64 (Some text))
      in case (number_int (cell row 4), selected) of
           (Some n, Some sel) \<Rightarrow>
             if n < 0 \<or> n > 2 then failed_allocation
             else (case read_candidates row 5 (nat n) of
                     None \<Rightarrow> failed_allocation
                   | Some candidates \<Rightarrow>
                       if found_ip \<in> {''NOT_FOUND'', ''WRONG_SERVER'', ''ERROR''}
                       then failed_allocation\<lparr>ra_ip := found_ip, ra_was_cached := was_cached, ra_strategy := strategy\<rparr>
                       else if found_ip = [] \<or> found_port \<le> 0
                       then failed_allocation\<lparr>ra_was_cached := was_cached\<rparr>
                       else \<lparr>ra_ip = found_ip, ra_port = found_port, ra_was_cached = was_cached,
                              ra_strategy = strategy, ra_candidates = candidates, ra_selected = sel\<rparr>)
         | _ \<Rightarrow> failed_allocation)"

definition canvas_command :: "string \<Rightarrow> int \<Rightarrow> string \<Rightarrow> int \<Rightarrow> sql_command" where
  "canvas_command statement canvas cpp_ip cpp_port =
     addVarchar ''@cpp_port'' (number_text cpp_port) (addVarchar ''@cpp_ip'' cpp_ip
       (addInt ''@canvas_id'' canvas \<lparr>sc_statement = statement, sc_parameters = []\<rparr>))"

definition getOrAllocateRedisAndSetCached ::
  "int \<Rightarrow> string \<Rightarrow> int \<Rightarrow> sql_server \<Rightarrow> redis_allocation \<times> sql_server" where
  "getOrAllocateRedisAndSetCached canvas cpp_ip cpp_port w =
     (let (result, w1) = run_sql (canvas_command ''allocate'' canvas cpp_ip cpp_port)
            (allocate_script canvas cpp_ip (number_text cpp_port)) w
      in (case (case result of None \<Rightarrow> None | Some sets \<Rightarrow> lastRow sets) of
            None \<Rightarrow> failed_allocation
          | Some row \<Rightarrow> if length row \<noteq> 12 then failed_allocation else read_allocation row, w1))"

definition release_script :: "int \<Rightarrow> string \<Rightarrow> string \<Rightarrow> sql_script" where
  "release_script canvas cpp_ip cpp_port M db =
     (let server = my_server M cpp_ip cpp_port (\<lambda>_. True) db;
          owned = (case canvas_row db canvas of
                     None \<Rightarrow> False | Some c \<Rightarrow> ci_cached c \<and> ci_server c \<noteq> None \<and> ci_server c = server)
      in if owned
         then Some (one_row ''affected'' [Some ''1''],
                update_canvas canvas (\<lambda>c. c\<lparr>ci_cached := False, ci_redis := None, ci_server := None,
                  ci_updated := sm_now M\<rparr>) db)
         else Some (one_row ''affected'' [Some ''0''], db))"

definition updateCanvasUncached :: "int \<Rightarrow> string \<Rightarrow> int \<Rightarrow> sql_server \<Rightarrow> bool \<times> sql_server" where
  "updateCanvasUncached canvas cpp_ip cpp_port w =
     (let (result, w1) = run_sql (canvas_command ''release'' canvas cpp_ip cpp_port)
            (release_script canvas cpp_ip (number_text cpp_port)) w
      in (scalar result = Some 1, w1))"

section \<open>Look-ups\<close>

definition user_id_script :: "string \<Rightarrow> int \<Rightarrow> sql_script" where
  "user_id_script nickname tag M db =
     Some ([\<lparr>rs_columns = [''user_id''],
             rs_rows = map (\<lambda>u. [Some (number_text (us_id u))])
               (filter (\<lambda>u. sm_same M (us_nickname u) nickname \<and> us_tag u = tag \<and> sm_same M (us_status u) ''ACTIVE'')
                 (db_users db))\<rparr>], db)"

definition getActiveUserIdChecked :: "string \<Rightarrow> int \<Rightarrow> sql_server \<Rightarrow> int option \<times> sql_server" where
  "getActiveUserIdChecked nickname tag w =
     (if nickname = [] \<or> tag < 0 then (Some (-1), w)
      else (let command = addInt ''@tag'' tag (addText ''@nickname'' nickname
                  \<lparr>sc_statement = ''user'', sc_parameters = []\<rparr>);
                (result, w1) = run_sql command (user_id_script nickname tag) w
            in (case result of
                  None \<Rightarrow> None
                | Some _ \<Rightarrow> Some (case scalar result of None \<Rightarrow> -1 | Some i \<Rightarrow> i), w1)))"

definition getActiveUserId :: "string \<Rightarrow> int \<Rightarrow> sql_server \<Rightarrow> int \<times> sql_server" where
  "getActiveUserId nickname tag w =
     (let (r, w1) = getActiveUserIdChecked nickname tag w in (case r of None \<Rightarrow> -1 | Some i \<Rightarrow> i, w1))"

definition handle_script :: "int \<Rightarrow> sql_script" where
  "handle_script user M db =
     Some ([\<lparr>rs_columns = [''nickname'', ''tag_number''],
             rs_rows = map (\<lambda>u. [Some (us_nickname u), Some (number_text (us_tag u))])
               (filter (\<lambda>u. us_id u = user) (db_users db))\<rparr>], db)"

definition getUserHandle :: "int \<Rightarrow> sql_server \<Rightarrow> (string \<times> int) option \<times> sql_server" where
  "getUserHandle user w =
     (if user \<le> 0 then (None, w)
      else (let (result, w1) = run_sql (addInt ''@user_id'' user \<lparr>sc_statement = ''handle'', sc_parameters = []\<rparr>)
                  (handle_script user) w
            in (case (case result of None \<Rightarrow> None | Some sets \<Rightarrow> lastRow sets) of
                  None \<Rightarrow> None
                | Some row \<Rightarrow>
                    (case (cell row 0, number_int (cell row 1)) of
                       (Some nickname, Some tag) \<Rightarrow> Some (nickname, tag) | _ \<Rightarrow> None), w1)))"

definition assigned_script :: "int \<Rightarrow> string \<Rightarrow> string \<Rightarrow> sql_script" where
  "assigned_script canvas ip port M db =
     Some (one_row [] [Some (to_string (length
       [(c, s) \<leftarrow> List.product (db_canvases db) (db_servers db).
         ci_id c = canvas \<and> ci_cached c \<and> ci_server c = Some (cs_id s) \<and> is_server M ip port s]))], db)"

definition isCanvasAssignedToServer :: "int \<Rightarrow> string \<Rightarrow> int \<Rightarrow> sql_server \<Rightarrow> bool \<times> sql_server" where
  "isCanvasAssignedToServer canvas ip port w =
     (if canvas \<le> 0 \<or> port \<le> 0 then (False, w)
      else (let command = addVarchar ''@server_port'' (number_text port) (addVarchar ''@server_ip'' ip
                  (addInt ''@canvas_id'' canvas \<lparr>sc_statement = ''assigned'', sc_parameters = []\<rparr>));
                (result, w1) = run_sql command (assigned_script canvas ip (number_text port)) w
            in (scalar result = Some 1, w1)))"

definition assignment_row :: "registry_db \<Rightarrow> canvas_info \<Rightarrow> sql_row" where
  "assignment_row db c =
     [Some (if ci_cached c then ''1'' else ''0'')]
     @ (case (case ci_server c of None \<Rightarrow> None | Some i \<Rightarrow> find (\<lambda>s. cs_id s = i) (db_servers db)) of
          None \<Rightarrow> [Some [], Some []] | Some s \<Rightarrow> [Some (cs_ip s), Some (cs_port s)])
     @ (case canvas_redis db c of None \<Rightarrow> [Some [], Some []] | Some r \<Rightarrow> [Some (rd_ip r), Some (rd_port r)])"

definition assignment_script :: "int \<Rightarrow> sql_script" where
  "assignment_script canvas M db =
     Some ([\<lparr>rs_columns = [[], [], [], [], []],
             rs_rows = map (assignment_row db) (filter (\<lambda>c. ci_id c = canvas) (db_canvases db))\<rparr>], db)"

record storage_assignment =
  sa_cached :: bool
  sa_server_ip :: string
  sa_server_port :: string
  sa_redis_ip :: string
  sa_redis_port :: int

definition read_assignment :: "sql_row \<Rightarrow> storage_assignment option" where
  "read_assignment row =
     (let text = (\<lambda>i. case cell row i of None \<Rightarrow> [] | Some s \<Rightarrow> s);
          assignment = (\<lambda>port. \<lparr>sa_cached = (cell row 0 = Some ''1''), sa_server_ip = text 1, sa_server_port = text 2,
            sa_redis_ip = text 3, sa_redis_port = port\<rparr>)
      in if length row \<noteq> 5 then None
         else if text 4 = [] then Some (assignment 0)
         else map_option assignment (number_int (cell row 4)))"

definition getCanvasStorageAssignment :: "int \<Rightarrow> sql_server \<Rightarrow> storage_assignment option \<times> sql_server" where
  "getCanvasStorageAssignment canvas w =
     (if canvas \<le> 0 then (None, w)
      else (let (result, w1) = run_sql (addInt ''@canvas_id'' canvas \<lparr>sc_statement = ''assignment'', sc_parameters = []\<rparr>)
                  (assignment_script canvas) w
            in (case (case result of None \<Rightarrow> None | Some sets \<Rightarrow> lastRow sets) of
                  None \<Rightarrow> None | Some row \<Rightarrow> read_assignment row, w1)))"
section \<open>Ownership\<close>

datatype registry_op =
    Register string int int | Heartbeat string int | Deactivate string int
  | Allocate int string int | Release int string int

fun run_op :: "registry_op \<Rightarrow> sql_server \<Rightarrow> sql_server" where
  "run_op (Register ip port ws) w = snd (registerServer ip port ws w)"
| "run_op (Heartbeat ip port) w = snd (heartbeatServer ip port w)"
| "run_op (Deactivate ip port) w = snd (setServerInactive ip port w)"
| "run_op (Allocate canvas ip port) w = snd (getOrAllocateRedisAndSetCached canvas ip port w)"
| "run_op (Release canvas ip port) w = snd (updateCanvasUncached canvas ip port w)"

definition registry_ok :: "registry_db \<Rightarrow> bool" where
  \<comment> \<open>the identities of the servers\<close>
  "registry_ok db \<longleftrightarrow> distinct (map cs_id (db_servers db))
     \<and> (\<forall>s \<in> set (db_servers db). cs_id s < db_next_server db)"

definition known_as :: "registry_db \<Rightarrow> int \<Rightarrow> string \<Rightarrow> string \<Rightarrow> bool" where
  \<comment> \<open>server \<open>a\<close> is registered with this address and port\<close>
  "known_as db a ip port \<longleftrightarrow> (\<exists>s \<in> set (db_servers db). cs_id s = a \<and> cs_ip s = ip \<and> cs_port s = port)"

definition owned :: "registry_db \<Rightarrow> int \<Rightarrow> int \<Rightarrow> int option \<Rightarrow> bool" where
  \<comment> \<open>the canvas is cached by server \<open>a\<close> in the Redis service \<open>redis\<close>\<close>
  "owned db canvas a redis \<longleftrightarrow> (\<exists>c. canvas_row db canvas = Some c
     \<and> ci_cached c \<and> ci_server c = Some a \<and> ci_redis c = redis)"

lemma my_server_known:
  "my_server M ip port also db = Some a \<Longrightarrow>
     \<exists>s \<in> set (db_servers db). cs_id s = a \<and> is_server M ip port s \<and> also s"
proof -
  assume "my_server M ip port also db = Some a"
  then obtain s rest where r: "rev (filter (\<lambda>s. is_server M ip port s \<and> also s) (db_servers db)) = s # rest"
    and a: "cs_id s = a"
    by (auto simp: my_server_def split: list.splits)
  from r have "s \<in> set (filter (\<lambda>s. is_server M ip port s \<and> also s) (db_servers db))"
    by (metis list.set_intros(1) set_rev)
  with a show ?thesis by auto
qed

lemma canvas_row_update:
  assumes "\<And>c. ci_id (f c) = ci_id c"
  shows "canvas_row (update_canvas i f db) j =
     (if i = j then map_option f (canvas_row db j) else canvas_row db j)"
proof -
  have "find (\<lambda>c. ci_id c = j) (map (\<lambda>c. if ci_id c = i then f c else c) cs)
      = (if i = j then map_option f (find (\<lambda>c. ci_id c = j) cs) else find (\<lambda>c. ci_id c = j) cs)" for cs
    by (induction cs) (auto simp: assms)
  then show ?thesis by (simp add: canvas_row_def update_canvas_def)
qed

lemma update_canvas_simps [simp]:
  "db_servers (update_canvas i f db) = db_servers db"
  "db_next_server (update_canvas i f db) = db_next_server db"
  "db_redis (update_canvas i f db) = db_redis db"
  by (simp_all add: update_canvas_def)

lemma update_servers_simps [simp]:
  "canvas_row (update_servers p f db) i = canvas_row db i"
  "db_next_server (update_servers p f db) = db_next_server db"
  by (simp_all add: update_servers_def canvas_row_def)

lemma run_sql_db:
  "sv_db (snd (run_sql command script w)) = sv_db w
   \<or> (\<exists>r. script (sv_moments w (sv_clock w)) (sv_db w) = Some (r, sv_db (snd (run_sql command script w))))"
  by (auto simp: run_sql_def Let_def split: option.splits)

lemma run_sql_moments [simp]: "sv_moments (snd (run_sql command script w)) = sv_moments w"
  by (auto simp: run_sql_def Let_def split: option.splits)

lemma run_op_moments [simp]: "sv_moments (run_op op w) = sv_moments w"
  by (cases op) (simp_all add: registerServer_def heartbeatServer_def setServerInactive_def
      getOrAllocateRedisAndSetCached_def updateCanvasUncached_def Let_def split_beta)

definition op_script :: "registry_op \<Rightarrow> sql_script" where
  "op_script op = (case op of
       Register ip port ws \<Rightarrow> register_script ip (number_text port) (number_text ws)
     | Heartbeat ip port \<Rightarrow> heartbeat_script ip (number_text port)
     | Deactivate ip port \<Rightarrow> inactive_script ip (number_text port)
     | Allocate canvas ip port \<Rightarrow> allocate_script canvas ip (number_text port)
     | Release canvas ip port \<Rightarrow> release_script canvas ip (number_text port))"

lemma run_op_db:
  "sv_db (run_op op w) = sv_db w
   \<or> (\<exists>r. op_script op (sv_moments w (sv_clock w)) (sv_db w) = Some (r, sv_db (run_op op w)))"
proof (cases op)
  case (Register ip port ws)
  then show ?thesis by (simp only: op_script_def registry_op.case run_op.simps registerServer_def Let_def split_beta snd_conv run_sql_db)
next
  case (Heartbeat ip port)
  then show ?thesis by (simp only: op_script_def registry_op.case run_op.simps heartbeatServer_def Let_def split_beta snd_conv run_sql_db)
next
  case (Deactivate ip port)
  then show ?thesis by (simp only: op_script_def registry_op.case run_op.simps setServerInactive_def Let_def split_beta snd_conv run_sql_db)
next
  case (Allocate canvas ip port)
  then show ?thesis by (simp only: op_script_def registry_op.case run_op.simps getOrAllocateRedisAndSetCached_def Let_def split_beta snd_conv run_sql_db)
next
  case (Release canvas ip port)
  then show ?thesis by (simp only: op_script_def registry_op.case run_op.simps updateCanvasUncached_def Let_def split_beta snd_conv run_sql_db)
qed

text \<open>What the scripts do to the servers and to a canvas.\<close>

lemma update_servers_map: "db_servers (update_servers p f db) = map (\<lambda>s. if p s then f s else s) (db_servers db)"
  by (simp add: update_servers_def)

lemma same_ids:
  assumes "\<And>s. cs_id (f s) = cs_id s" and "registry_ok db"
  shows "registry_ok (update_servers p f db)"
proof -
  define g where "g = (\<lambda>s. if p s then f s else s)"
  have g: "cs_id (g s) = cs_id s" for s by (simp add: g_def assms(1))
  have "db_servers (update_servers p f db) = map g (db_servers db)" by (simp add: update_servers_map g_def)
  with assms(2) show ?thesis by (simp add: registry_ok_def o_def g)
qed

lemma same_names:
  assumes "\<And>s. cs_id (f s) = cs_id s \<and> cs_ip (f s) = cs_ip s \<and> cs_port (f s) = cs_port s"
  shows "known_as (update_servers p f db) a ip port = known_as db a ip port"
proof -
  define g where "g = (\<lambda>s. if p s then f s else s)"
  have g: "cs_id (g s) = cs_id s" "cs_ip (g s) = cs_ip s" "cs_port (g s) = cs_port s" for s
    by (simp_all add: g_def assms(1))
  have "db_servers (update_servers p f db) = map g (db_servers db)" by (simp add: update_servers_map g_def)
  then show ?thesis by (simp add: known_as_def g)
qed

lemma owned_canvas: "owned db canvas a redis \<Longrightarrow> canvas_row db' canvas = canvas_row db canvas \<Longrightarrow> owned db' canvas a redis"
  by (simp add: owned_def)

lemma allocate_script_db:
  assumes "allocate_script canvas ip port M db = Some (r, db')"
  shows "db_servers db' = db_servers db \<and> db_next_server db' = db_next_server db
    \<and> (owned db i a redis \<longrightarrow> owned db' i a redis)"
proof -
  from assms show ?thesis
    by (auto simp: allocate_script_def owned_def canvas_row_update split_beta Let_def
        split: option.splits if_splits)
qed

lemma release_script_db:
  assumes "release_script canvas ip port M db = Some (r, db')"
  shows "db_servers db' = db_servers db \<and> db_next_server db' = db_next_server db
    \<and> (owned db i a redis \<and> (i = canvas \<longrightarrow> my_server M ip port (\<lambda>_. True) db \<noteq> Some a) \<longrightarrow> owned db' i a redis)"
proof -
  from assms show ?thesis
    by (auto simp: release_script_def owned_def canvas_row_update Let_def split: option.splits if_splits)
qed


lemma register_script_ok:
  assumes "register_script ip port ws M db = Some (r, db')" and "registry_ok db"
  shows "registry_ok db' \<and> (known_as db a x y \<longrightarrow> known_as db' a x y) \<and> canvas_row db' i = canvas_row db i"
proof (cases "list_ex (is_server M ip port) (db_servers db)")
  case True
  then have "db' = update_servers (is_server M ip port)
      (\<lambda>s. s\<lparr>cs_ws_port := ws, cs_active := True, cs_heartbeat := sm_now M\<rparr>) db"
    using assms(1) by (simp add: register_script_def)
  then show ?thesis using assms(2) by (simp add: same_ids same_names)
next
  case False
  then have d: "db' = db\<lparr>db_servers := db_servers db @ [\<lparr>cs_id = db_next_server db, cs_ip = ip, cs_port = port,
      cs_ws_port = ws, cs_active = True, cs_created = sm_now M, cs_heartbeat = sm_now M\<rparr>],
      db_next_server := db_next_server db + 1\<rparr>"
    using assms(1) by (simp add: register_script_def)
  then show ?thesis using assms(2) by (force simp: registry_ok_def known_as_def canvas_row_def)
qed

lemma op_script_ok:
  assumes "op_script op M db = Some (r, db')" and "registry_ok db"
  shows "registry_ok db' \<and> (known_as db a x y \<longrightarrow> known_as db' a x y)"
proof (cases op)
  case (Register ip port ws)
  then show ?thesis using assms register_script_ok[of ip "number_text port" "number_text ws" M db r db'] by (auto simp: op_script_def)
next
  case (Heartbeat ip port)
  then show ?thesis using assms by (auto simp: op_script_def heartbeat_script_def same_ids same_names)
next
  case (Deactivate ip port)
  then show ?thesis using assms by (auto simp: op_script_def inactive_script_def same_ids same_names)
next
  case (Allocate canvas ip port)
  then show ?thesis using assms allocate_script_db by (fastforce simp: op_script_def registry_ok_def known_as_def)
next
  case (Release canvas ip port)
  then show ?thesis using assms release_script_db by (fastforce simp: op_script_def registry_ok_def known_as_def)
qed

lemma my_server_other:
  assumes "registry_ok db" and "known_as db a x y" and "\<not> (sm_same M x ip \<and> sm_same M y port)"
  shows "my_server M ip port also db \<noteq> Some a"
proof
  assume "my_server M ip port also db = Some a"
  from my_server_known[OF this] obtain s where s: "s \<in> set (db_servers db)" "cs_id s = a" "is_server M ip port s"
    by blast
  from assms(2) obtain s' where s': "s' \<in> set (db_servers db)" "cs_id s' = a" "cs_ip s' = x" "cs_port s' = y"
    by (auto simp: known_as_def)
  from assms(1) s s' have "s = s'" by (metis distinct_map inj_onD registry_ok_def)
  with s s' assms(3) show False by (simp add: is_server_def)
qed

lemma op_script_owned:
  assumes "op_script op M db = Some (r, db')" and "registry_ok db" and "owned db canvas a redis"
    and "known_as db a x y"
    and "\<forall>ip port. op = Release canvas ip port \<longrightarrow> \<not> (sm_same M x ip \<and> sm_same M y (number_text port))"
  shows "owned db' canvas a redis"
proof (cases op)
  case (Register ip port ws)
  then have "canvas_row db' canvas = canvas_row db canvas"
    using assms register_script_ok[of ip "number_text port" "number_text ws" M db r db'] by (auto simp: op_script_def)
  with assms(3) show ?thesis by (rule owned_canvas)
next
  case (Heartbeat ip port)
  then show ?thesis using assms by (auto simp: op_script_def heartbeat_script_def owned_def)
next
  case (Deactivate ip port)
  then show ?thesis using assms by (auto simp: op_script_def inactive_script_def owned_def)
next
  case (Allocate c ip port)
  then show ?thesis using assms allocate_script_db[of c ip "number_text port" M db r db' canvas a redis]
    by (simp add: op_script_def)
next
  case (Release c ip port)
  have "c = canvas \<Longrightarrow> my_server M ip (number_text port) (\<lambda>_. True) db \<noteq> Some a"
    using assms Release by (intro my_server_other[OF assms(2,4)]) simp
  then show ?thesis using Release assms release_script_db[of c ip "number_text port" M db r db' canvas a redis]
    by (auto simp: op_script_def)
qed

section \<open>Properties\<close>

text \<open>
  C22. A canvas that a server owns stays with it, in the same Redis service, whatever the servers do: over
  any sequence of registrations, heartbeats, deactivations, allocations and releases of any canvases by
  any servers, with any requests and answers lost, and only a release of this canvas under the owner's
  own address can end it.
\<close>

theorem ownership_until_released:
  assumes "registry_ok (sv_db w)" and "owned (sv_db w) canvas a redis" and "known_as (sv_db w) a x y"
    and "\<forall>ip port n. Release canvas ip port \<in> set ops \<longrightarrow>
           \<not> (sm_same (sv_moments w n) x ip \<and> sm_same (sv_moments w n) y (number_text port))"
  shows "owned (sv_db (fold run_op ops w)) canvas a redis"
  using assms
proof (induction ops arbitrary: w)
  case (Cons op ops)
  have keep: "registry_ok (sv_db (run_op op w)) \<and> owned (sv_db (run_op op w)) canvas a redis
      \<and> known_as (sv_db (run_op op w)) a x y"
  proof (cases "sv_db (run_op op w) = sv_db w")
    case True
    with Cons.prems show ?thesis by simp
  next
    case False
    with run_op_db[of op w] obtain r where
      s: "op_script op (sv_moments w (sv_clock w)) (sv_db w) = Some (r, sv_db (run_op op w))" by blast
    from Cons.prems(4) have "\<forall>ip port. op = Release canvas ip port \<longrightarrow>
        \<not> (sm_same (sv_moments w (sv_clock w)) x ip \<and> sm_same (sv_moments w (sv_clock w)) y (number_text port))"
      by simp
    from op_script_owned[OF s Cons.prems(1-3) this] op_script_ok[OF s Cons.prems(1), of a x y] Cons.prems(3)
    show ?thesis by blast
  qed
  then show ?case using Cons.IH[of "run_op op w"] Cons.prems(4) by simp
qed simp

lemma refused_row:
  "read_allocation (allocation_row ''WRONG_SERVER'' ''0'' True ''NONE'' [] None)
     = failed_allocation\<lparr>ra_ip := ''WRONG_SERVER'', ra_was_cached := True, ra_strategy := ''NONE''\<rparr>"
  by code_simp

lemma run_sql_lastRow:
  assumes "script (sv_moments w (sv_clock w)) (sv_db w) = None
    \<or> script (sv_moments w (sv_clock w)) (sv_db w) = Some (one_row column row, sv_db w)"
  shows "sv_db (snd (run_sql command script w)) = sv_db w
    \<and> (fst (run_sql command script w) = None \<or> fst (run_sql command script w) = Some (one_row column row))"
  using assms by (auto simp: run_sql_def Let_def split: if_splits)

lemma lastRow_one [simp]: "lastRow (one_row column row) = Some row"
  by (simp add: lastRow_def one_row_def)

text \<open>
  C30. Another server gets nothing from a canvas that is owned: its allocation is answered with
  \<^verbatim>\<open>WRONG_SERVER\<close> or \<^verbatim>\<open>ERROR\<close> and no Redis endpoint, its release is refused, and neither changes the
  tables.
\<close>

theorem other_servers_are_refused:
  assumes "registry_ok (sv_db w)" and "owned (sv_db w) canvas a redis" and "known_as (sv_db w) a x y"
    and "\<not> (sm_same (sv_moments w (sv_clock w)) x ip \<and> sm_same (sv_moments w (sv_clock w)) y (number_text port))"
  shows "ra_ip (fst (getOrAllocateRedisAndSetCached canvas ip port w)) \<in> {''WRONG_SERVER'', ''ERROR''}
    \<and> ra_port (fst (getOrAllocateRedisAndSetCached canvas ip port w)) = 0
    \<and> sv_db (snd (getOrAllocateRedisAndSetCached canvas ip port w)) = sv_db w
    \<and> \<not> fst (updateCanvasUncached canvas ip port w)
    \<and> sv_db (snd (updateCanvasUncached canvas ip port w)) = sv_db w"
proof -
  let ?M = "sv_moments w (sv_clock w)" and ?row = "allocation_row ''WRONG_SERVER'' ''0'' True ''NONE'' [] None"
  have other: "my_server ?M ip (number_text port) cond (sv_db w) \<noteq> Some a" for cond
    by (rule my_server_other[OF assms(1,3,4)])
  from assms(2) obtain c where c: "canvas_row (sv_db w) canvas = Some c" "ci_cached c" "ci_server c = Some a"
    by (auto simp: owned_def)
  have "allocate_script canvas ip (number_text port) ?M (sv_db w) = None
      \<or> allocate_script canvas ip (number_text port) ?M (sv_db w) = Some (one_row ''redis_ip'' ?row, sv_db w)"
    using c other[of cs_active] by (cases "my_server ?M ip (number_text port) cs_active (sv_db w)")
      (auto simp: allocate_script_def)
  note run_sql_lastRow[where command = "canvas_command ''allocate'' canvas ip port" and w = w and script = "allocate_script canvas ip (number_text port)", OF this]
  moreover have "release_script canvas ip (number_text port) ?M (sv_db w) = None
      \<or> release_script canvas ip (number_text port) ?M (sv_db w) = Some (one_row ''affected'' [Some ''0''], sv_db w)"
    using c other[of "\<lambda>_. True"] by (auto simp: release_script_def)
  note run_sql_lastRow[where command = "canvas_command ''release'' canvas ip port" and w = w and script = "release_script canvas ip (number_text port)", OF this]
  moreover have "length ?row = 12" by code_simp
  moreover have "scalar (Some (one_row ''affected'' [Some ''0''])) = Some 0" by code_simp
  ultimately show ?thesis
    by (auto simp: getOrAllocateRedisAndSetCached_def updateCanvasUncached_def refused_row failed_allocation_def
        Let_def split_beta scalar_def[of None])
qed

definition usable_redis :: "redis_server \<Rightarrow> bool" where
  \<comment> \<open>a service whose row can be read back: an address that is not a marker, and a port number\<close>
  "usable_redis r \<longleftrightarrow> rd_ip r \<noteq> [] \<and> rd_ip r \<notin> {''NOT_FOUND'', ''WRONG_SERVER'', ''ERROR''}
     \<and> (\<exists>p > 0. number_int (Some (rd_port r)) = Some p)"

lemma hd_sort_key:
  fixes f :: "'a \<Rightarrow> nat"
  assumes "xs \<noteq> []"
  shows "hd (sort_key f xs) \<in> set xs \<and> (\<forall>y \<in> set xs. f (hd (sort_key f xs)) \<le> f y)"
proof -
  have ne: "sort_key f xs \<noteq> []" using assms by (metis set_empty set_sort)
  then obtain z zs where z: "sort_key f xs = z # zs" by (cases "sort_key f xs") auto
  have s: "sorted (map f (sort_key f xs))" by simp
  have "set (z # zs) = set xs" using z by (metis set_sort)
  with s z show ?thesis by auto
qed

lemma selected_candidate_min:
  assumes "moment_ok M" and "candidates \<noteq> []"
  shows "selected_candidate M candidates \<in> set candidates
    \<and> (\<forall>y \<in> set candidates. snd (selected_candidate M candidates) \<le> snd y)"
proof -
  have s: "set (sm_reorder M candidates) = set candidates"
    using assms(1) by (metis moment_ok_def set_mset_mset)
  with assms(2) have "sm_reorder M candidates \<noteq> []" by auto
  from hd_sort_key[OF this, of snd] s show ?thesis by (simp add: selected_candidate_def)
qed

lemma cell_simps [simp]:
  "cell (x # row) 0 = x" "cell (x # row) (Suc i) = cell row i" "cell [] i = None"
  by (simp_all add: cell_def)

lemma number_to_string: "int n \<le> hi \<Longrightarrow> lo \<le> int n \<Longrightarrow> number lo hi (Some (to_string n)) = Some (int n)"
proof -
  assume b: "int n \<le> hi" "lo \<le> int n"
  have "hd (to_string n) \<noteq> CHR ''-''"
    using to_string_digits[of n] by (cases "to_string n") (auto simp: isdigit_def code_of_def)
  with b to_string_digits[of n] show ?thesis by (simp add: number_def Let_def list_all_iff)
qed

lemma read_candidates_cells:
  assumes "\<forall>(r, n) \<in> set cs. usable_redis r \<and> int n \<le> 9223372036854775807" and "length cs \<le> 2" and "length pre = 5"
  shows "read_candidates (pre @ candidate_cells cs 0 @ candidate_cells cs 1 @ rest) 5 (length cs)
    = Some (map (\<lambda>(r, n). (rd_ip r, the (number_int (Some (rd_port r))), int n)) cs)"
proof -
  obtain a b c d e where pre: "pre = [a, b, c, d, e]"
    using assms(3) by (auto simp: length_Suc_conv numeral_eq_Suc)
  have one: "\<exists>p. number_int (Some (rd_port r)) = Some p \<and> rd_ip r \<noteq> []
      \<and> number_int64 (Some (to_string n)) = Some (int n)" if "(r, n) \<in> set cs" for r n
    using assms(1) that by (auto simp: usable_redis_def number_to_string)
  consider "cs = []" | x where "cs = [x]" | x y where "cs = [x, y]"
    using assms(2) by (cases cs; cases "tl cs"; cases "tl (tl cs)") auto
  then show ?thesis
  proof cases
    case 2
    with one[of "fst x" "snd x"] show ?thesis
      by (cases x) (auto simp: pre candidate_cells_def numeral_eq_Suc)
  next
    case 3
    with one[of "fst x" "snd x"] one[of "fst y" "snd y"] show ?thesis
      by (cases x; cases y) (auto simp: pre candidate_cells_def numeral_eq_Suc)
  qed simp
qed


lemma canvas_command_valid:
  assumes "length statement \<le> 64" and "statement \<noteq> []" and "length ip \<le> 4000" and "0 \<le> port" and "port < 2 ^ 31"
  shows "isValid (canvas_command statement canvas ip port)"
proof -
  have "nat port < 10 ^ 10" using assms by simp
  from to_string_short[OF this] have "length (number_text port) \<le> 4000"
    using assms(4) by (simp add: number_text_def)
  moreover have "parameterDeclarations (canvas_command statement canvas ip port)
      = ''@canvas_id INT, @cpp_ip VARCHAR(4000), @cpp_port VARCHAR(4000)''"
    by (simp add: parameterDeclarations_def canvas_command_def addVarchar_def addInt_def push_parameter_def)
  moreover have "isValidName ''@canvas_id''" "isValidName ''@cpp_ip''" "isValidName ''@cpp_port''"
    by code_simp+
  ultimately show ?thesis using assms(1-3)
    by (simp add: isValid_def validationError_def canvas_command_def addVarchar_def addInt_def
        push_parameter_def kMaxStatementBytes_def kMaxRpcTextBytes_def)
qed

lemma allocated_row:
  assumes "usable_redis r" and "rd_port r \<noteq> []" and "\<forall>(r, n) \<in> set cs. usable_redis r \<and> int n \<le> 9223372036854775807"
    and "length cs \<le> 2" and "\<forall>n. selected = Some n \<longrightarrow> int n \<le> 9223372036854775807"
  shows "read_allocation (allocation_row (rd_ip r) (rd_port r) was strategy cs selected) =
    \<lparr>ra_ip = rd_ip r, ra_port = the (number_int (Some (rd_port r))), ra_was_cached = was, ra_strategy = strategy,
     ra_candidates = map (\<lambda>(r, n). (rd_ip r, the (number_int (Some (rd_port r))), int n)) cs,
     ra_selected = (case selected of None \<Rightarrow> -1 | Some n \<Rightarrow> int n)\<rparr>"
proof -
  let ?pre = "[Some (rd_ip r), Some (rd_port r), Some (if was then ''1'' else ''0''), Some strategy,
      Some (to_string (length cs))]"
  and ?final_cell = "[Some (case selected of None \<Rightarrow> [] | Some n \<Rightarrow> to_string n)]"
  let ?row = "allocation_row (rd_ip r) (rd_port r) was strategy cs selected"
  have row: "?row = ?pre @ candidate_cells cs 0 @ candidate_cells cs 1 @ ?final_cell"
    by (simp add: allocation_row_def)
  obtain p where p: "number_int (Some (rd_port r)) = Some p" "p > 0"
    using assms(1) by (auto simp: usable_redis_def)
  have l: "length (candidate_cells cs k) = 3" for k by (simp add: candidate_cells_def split: prod.splits)
  have three: "\<exists>a b c. xs = [a, b, c]" if h: "length xs = 3" for xs :: sql_row
    using h by (auto simp: numeral_3_eq_3 length_Suc_conv)
  from three[OF l[of 0]] three[OF l[of 1]] obtain a b c d e f
    where k: "candidate_cells cs 0 = [a, b, c]" "candidate_cells cs 1 = [d, e, f]" by blast
  have c11: "cell ?row 11 = Some (case selected of None \<Rightarrow> [] | Some n \<Rightarrow> to_string n)"
    unfolding row k by (simp add: numeral_eq_Suc)
  have sel: "(case cell ?row 11 of None \<Rightarrow> Some (-1) | Some [] \<Rightarrow> Some (-1) | Some text \<Rightarrow> number_int64 (Some text))
      = Some (case selected of None \<Rightarrow> -1 | Some n \<Rightarrow> int n)"
  proof (cases selected)
    case (Some m)
    then have "number_int64 (Some (to_string m)) = Some (int m)" using assms(5) by (simp add: number_to_string)
    then show ?thesis unfolding c11 by (cases "to_string m") (simp_all add: Some)
  next
    case None
    show ?thesis unfolding c11 using None by simp
  qed
  have n: "number_int (cell ?row 4) = Some (int (length cs))"
  proof -
    have "cell ?row 4 = Some (to_string (length cs))" unfolding row by (simp add: numeral_eq_Suc)
    moreover have "int (length cs) \<le> 2147483647" using assms(4) by simp
    ultimately show ?thesis by (simp add: number_to_string)
  qed
  have cand: "read_candidates ?row 5 (length cs)
      = Some (map (\<lambda>(r, n). (rd_ip r, the (number_int (Some (rd_port r))), int n)) cs)"
    unfolding row by (rule read_candidates_cells[OF assms(3,4)]) simp
  have c: "cell ?row 0 = Some (rd_ip r)" "cell ?row 1 = Some (rd_port r)"
    "cell ?row 2 = Some (if was then ''1'' else ''0'')" "cell ?row 3 = Some strategy"
    unfolding row by (simp_all add: numeral_2_eq_2 numeral_3_eq_3)
  show ?thesis
    using assms(1,4) p unfolding read_allocation_def sel n Let_def c
    by (simp add: cand usable_redis_def)
qed

text \<open>
  A new canvas goes to the less loaded candidate. When a registered, active server asks for a canvas that
  is not cached and has no active Redis service, and the answer arrives, it is given one of at most two
  active services, none of the candidates holding fewer cached canvases; the canvas is recorded as cached
  there by this server, and every other canvas is as before.
\<close>

theorem new_canvas_goes_to_least_loaded:
  fixes w :: sql_server
  defines "M \<equiv> sv_moments w (sv_clock w)"
  assumes moment: "moment_ok M" and fate: "sv_fates w (sv_clock w) = Delivered"
    and args: "length ip \<le> 4000" "0 \<le> port" "port < 2 ^ 31"
    and me: "my_server M ip (number_text port) cs_active (sv_db w) = Some me"
    and row: "canvas_row (sv_db w) canvas = Some c" "\<not> ci_cached c" "canvas_redis (sv_db w) c = None"
    and redis: "\<forall>r \<in> set (db_redis (sv_db w)). rd_active r \<longrightarrow> usable_redis r"
      "\<exists>r \<in> set (db_redis (sv_db w)). rd_active r" "length (db_canvases (sv_db w)) < 2 ^ 63"
  shows "\<exists>r w'. getOrAllocateRedisAndSetCached canvas ip port w = (\<lparr>ra_ip = rd_ip r,
        ra_port = the (number_int (Some (rd_port r))), ra_was_cached = False,
        ra_strategy = (if length (redis_candidates M (sv_db w)) = 1 then ''SINGLE'' else ''P2C''),
        ra_candidates = map (\<lambda>(r, n). (rd_ip r, the (number_int (Some (rd_port r))), int n))
          (redis_candidates M (sv_db w)), ra_selected = int (cached_count (sv_db w) r)\<rparr>, w')
    \<and> r \<in> set (db_redis (sv_db w)) \<and> rd_active r \<and> length (redis_candidates M (sv_db w)) \<le> 2
    \<and> (\<forall>(r', n) \<in> set (redis_candidates M (sv_db w)). cached_count (sv_db w) r \<le> n)
    \<and> owned (sv_db w') canvas me (Some (rd_id r))
    \<and> (\<forall>i. i \<noteq> canvas \<longrightarrow> canvas_row (sv_db w') i = canvas_row (sv_db w) i)"
proof -
  let ?cs = "redis_candidates M (sv_db w)"
  have sh: "set (sm_shuffle M xs) = set xs" for xs using moment by (metis moment_ok_def set_mset_mset)
  have sub: "fst x \<in> set (db_redis (sv_db w)) \<and> rd_active (fst x) \<and> snd x = cached_count (sv_db w) (fst x)"
    if h: "x \<in> set ?cs" for x
  proof -
    from h obtain y where y: "x = (y, cached_count (sv_db w) y)"
      "y \<in> set (take 2 (sm_shuffle M (filter rd_active (db_redis (sv_db w)))))"
      by (auto simp only: redis_candidates_def set_map image_iff)
    from in_set_takeD[OF y(2)] have "y \<in> set (filter rd_active (db_redis (sv_db w)))" unfolding sh .
    with y(1) show ?thesis by simp
  qed
  have "sm_shuffle M (filter rd_active (db_redis (sv_db w))) \<noteq> []"
    using sh[of "filter rd_active (db_redis (sv_db w))"] redis(2) by auto
  then have ne: "?cs \<noteq> []" by (simp add: redis_candidates_def)
  have len: "length ?cs \<le> 2" by (simp add: redis_candidates_def)
  obtain r n where sel: "selected_candidate M ?cs = (r, n)" by fastforce
  from selected_candidate_min[OF moment ne] sel sub[of "(r, n)"] have
    r: "(r, n) \<in> set ?cs" "\<forall>y \<in> set ?cs. n \<le> snd y" "r \<in> set (db_redis (sv_db w))" "rd_active r"
      "n = cached_count (sv_db w) r"
    by auto
  have cnt: "int (cached_count (sv_db w) x) \<le> 9223372036854775807" for x
  proof -
    have "cached_count (sv_db w) x \<le> length (db_canvases (sv_db w))" by (simp add: cached_count_def)
    also have "\<dots> < 2 ^ 63" by (rule redis(3))
    finally show ?thesis by simp
  qed
  have us: "\<forall>(r, n) \<in> set ?cs. usable_redis r \<and> int n \<le> 9223372036854775807"
    using sub redis(1) cnt by fastforce
  have ur: "usable_redis r" using redis(1) r(3,4) by simp
  then have "rd_port r \<noteq> []" by (auto simp: usable_redis_def number_def Let_def)
  note read = allocated_row[OF ur this us len, of "Some n" False "if length ?cs = 1 then ''SINGLE'' else ''P2C''"]
  let ?row = "allocation_row (rd_ip r) (rd_port r) False (if length ?cs = 1 then ''SINGLE'' else ''P2C'') ?cs (Some n)"
  let ?db = "update_canvas canvas (\<lambda>c. c\<lparr>ci_cached := True, ci_server := Some me, ci_updated := sm_now M\<rparr>)
      (update_canvas canvas (\<lambda>c. c\<lparr>ci_redis := Some (rd_id r)\<rparr>) (sv_db w))"
  have script: "allocate_script canvas ip (number_text port) M (sv_db w) = Some (one_row ''redis_ip'' ?row, ?db)"
    using me row ne sel by (simp add: allocate_script_def)
  have valid: "isValid (canvas_command ''allocate'' canvas ip port)"
    using args by (intro canvas_command_valid) simp_all
  have cells: "length (candidate_cells cs k) = 3" for cs k by (simp add: candidate_cells_def split: prod.splits)
  have "length ?row = 12" by (simp add: allocation_row_def cells)
  moreover have "run_sql (canvas_command ''allocate'' canvas ip port) (allocate_script canvas ip (number_text port)) w
      = (Some (one_row ''redis_ip'' ?row), w\<lparr>sv_clock := sv_clock w + 1, sv_db := ?db\<rparr>)"
    using valid fate script by (simp add: run_sql_def M_def Let_def)
  ultimately have "getOrAllocateRedisAndSetCached canvas ip port w
      = (read_allocation ?row, w\<lparr>sv_clock := sv_clock w + 1, sv_db := ?db\<rparr>)"
    by (simp add: getOrAllocateRedisAndSetCached_def)
  moreover have "owned ?db canvas me (Some (rd_id r))"
    using row by (simp add: owned_def canvas_row_update)
  moreover have "\<forall>i. i \<noteq> canvas \<longrightarrow> canvas_row ?db i = canvas_row (sv_db w) i"
    by (simp add: canvas_row_update)
  ultimately show ?thesis using r len read cnt[of r]
    by (intro exI[of _ r] exI[of _ "w\<lparr>sv_clock := sv_clock w + 1, sv_db := ?db\<rparr>"]) auto
qed

definition sample_moment :: sql_moment where
  "sample_moment = \<lparr>sm_same = (=), sm_now = 1700000000, sm_shuffle = rev, sm_reorder = id\<rparr>"

definition sample_registry :: sql_server where
  \<comment> \<open>two servers, two Redis services; canvas 5 is cached by server 1, canvas 6 is not cached\<close>
  "sample_registry = \<lparr>sv_db = \<lparr>
       db_servers = [\<lparr>cs_id = 1, cs_ip = ''10.0.0.1'', cs_port = ''8000'', cs_ws_port = ''8002'', cs_active = True,
           cs_created = 0, cs_heartbeat = 0\<rparr>,
         \<lparr>cs_id = 2, cs_ip = ''10.0.0.2'', cs_port = ''8000'', cs_ws_port = ''8002'', cs_active = True,
           cs_created = 0, cs_heartbeat = 0\<rparr>],
       db_next_server = 3,
       db_redis = [\<lparr>rd_id = 1, rd_ip = ''10.1.0.1'', rd_port = ''6379'', rd_active = True\<rparr>,
         \<lparr>rd_id = 2, rd_ip = ''10.1.0.2'', rd_port = ''6379'', rd_active = True\<rparr>],
       db_canvases = [\<lparr>ci_id = 5, ci_redis = Some 1, ci_server = Some 1, ci_cached = True, ci_updated = 0\<rparr>,
         \<lparr>ci_id = 6, ci_redis = None, ci_server = None, ci_cached = False, ci_updated = 0\<rparr>],
       db_users = [\<lparr>us_id = 9, us_nickname = ''kim'', us_tag = 7, us_status = ''ACTIVE''\<rparr>]\<rparr>,
     sv_moments = \<lambda>_. sample_moment, sv_fates = \<lambda>_. Delivered, sv_clock = 0\<rparr>"

lemma sample_registry_facts:
  "registry_ok (sv_db sample_registry)" "owned (sv_db sample_registry) 5 1 (Some 1)"
  "known_as (sv_db sample_registry) 1 ''10.0.0.1'' ''8000''"
  "sv_moments sample_registry n = sample_moment" "sm_same sample_moment = (=)"
  by (simp_all add: registry_ok_def owned_def known_as_def canvas_row_def sample_registry_def sample_moment_def)

theorem ownership_until_released_witness:
  "owned (sv_db (fold run_op [Allocate 5 ''10.0.0.2'' 8000, Release 5 ''10.0.0.2'' 8000,
     Allocate 6 ''10.0.0.2'' 8000, Deactivate ''10.0.0.1'' 8000] sample_registry)) 5 1 (Some 1)"
  using sample_registry_facts by (intro ownership_until_released) auto

theorem other_servers_are_refused_witness:
  "ra_port (fst (getOrAllocateRedisAndSetCached 5 ''10.0.0.2'' 8000 sample_registry)) = 0"
  using other_servers_are_refused[OF sample_registry_facts(1,2,3), of "''10.0.0.2''" 8000] sample_registry_facts(4,5)
  by simp

theorem new_canvas_goes_to_least_loaded_witness:
  "\<exists>r (w' :: sql_server). ra_ip (fst (getOrAllocateRedisAndSetCached 6 ''10.0.0.2'' 8000 sample_registry)) = rd_ip r
     \<and> cached_count (sv_db sample_registry) r = 0 \<and> owned (sv_db w') 6 2 (Some (rd_id r))"
proof -
  have cs: "redis_candidates sample_moment (sv_db sample_registry)
      = [(\<lparr>rd_id = 2, rd_ip = ''10.1.0.2'', rd_port = ''6379'', rd_active = True\<rparr>, 0),
         (\<lparr>rd_id = 1, rd_ip = ''10.1.0.1'', rd_port = ''6379'', rd_active = True\<rparr>, 1)]"
    by code_simp
  have ports: "number_int (Some ''6379'') = Some 6379" by code_simp
  have me: "my_server sample_moment ''10.0.0.2'' (number_text 8000) cs_active (sv_db sample_registry) = Some 2"
  proof -
    have "char_of (56 :: nat) = CHR ''8'' \<and> char_of (48 :: nat) = CHR ''0''" by code_simp
    then have "number_text 8000 = ''8000''"
      by (simp add: number_text_def to_string.simps[of 8000] to_string.simps[of 800] to_string.simps[of 80]
          to_string.simps[of 8] digit_char_def)
    then show ?thesis
      by (simp add: my_server_def is_server_def sample_registry_facts(5)) (simp add: sample_registry_def)
  qed
  have rows: "canvas_row (sv_db sample_registry) 6
      = Some \<lparr>ci_id = 6, ci_redis = None, ci_server = None, ci_cached = False, ci_updated = 0\<rparr>"
    by code_simp
  have redis: "\<forall>r \<in> set (db_redis (sv_db sample_registry)). rd_active r \<longrightarrow> usable_redis r"
    "\<exists>r \<in> set (db_redis (sv_db sample_registry)). rd_active r"
    using ports by (simp_all add: sample_registry_def usable_redis_def)
  have ok: "moment_ok sample_moment" by (simp add: moment_ok_def sample_moment_def)
  have rest: "sv_fates sample_registry (sv_clock sample_registry) = Delivered"
    "length (db_canvases (sv_db sample_registry)) < 2 ^ 63"
    by (simp_all add: sample_registry_def)
  have all: "\<exists>r w'. getOrAllocateRedisAndSetCached 6 ''10.0.0.2'' 8000 sample_registry = (\<lparr>ra_ip = rd_ip r,
        ra_port = the (number_int (Some (rd_port r))), ra_was_cached = False,
        ra_strategy = (if length (redis_candidates sample_moment (sv_db sample_registry)) = 1 then ''SINGLE'' else ''P2C''),
        ra_candidates = map (\<lambda>(r, n). (rd_ip r, the (number_int (Some (rd_port r))), int n))
          (redis_candidates sample_moment (sv_db sample_registry)),
        ra_selected = int (cached_count (sv_db sample_registry) r)\<rparr>, w')
    \<and> r \<in> set (db_redis (sv_db sample_registry)) \<and> rd_active r
    \<and> length (redis_candidates sample_moment (sv_db sample_registry)) \<le> 2
    \<and> (\<forall>(r', n) \<in> set (redis_candidates sample_moment (sv_db sample_registry)).
          cached_count (sv_db sample_registry) r \<le> n)
    \<and> owned (sv_db w') 6 2 (Some (rd_id r))
    \<and> (\<forall>i. i \<noteq> 6 \<longrightarrow> canvas_row (sv_db w') i = canvas_row (sv_db sample_registry) i)"
    by (rule new_canvas_goes_to_least_loaded[of sample_registry, unfolded sample_registry_facts(4),
        OF ok rest(1) _ _ _ me rows _ _ redis rest(2)]) (simp_all add: canvas_redis_def)
  obtain r and w' :: sql_server where
    r: "ra_ip (fst (getOrAllocateRedisAndSetCached 6 ''10.0.0.2'' 8000 sample_registry)) = rd_ip r"
      "\<forall>(r', n) \<in> set (redis_candidates sample_moment (sv_db sample_registry)). cached_count (sv_db sample_registry) r \<le> n"
      "owned (sv_db w') 6 2 (Some (rd_id r))"
    using all
    apply (elim exE conjE)
    subgoal for r w'
      by (rule that[of r w']) (simp_all only: fst_conv redis_allocation.select_convs)
    done
  from r(2) have "cached_count (sv_db sample_registry) r = 0" unfolding cs by simp
  with r(1,3) show ?thesis by blast
qed


text \<open>A server that is given a Redis endpoint owns the canvas.\<close>

lemma marker_rows:
  "read_allocation (allocation_row ''NOT_FOUND'' ''0'' False ''NONE'' [] None)
     = failed_allocation\<lparr>ra_ip := ''NOT_FOUND'', ra_strategy := ''NONE''\<rparr>"
  "read_allocation (allocation_row ''ERROR'' ''0'' True ''NONE'' [] None)
     = failed_allocation\<lparr>ra_was_cached := True, ra_strategy := ''NONE''\<rparr>"
  by code_simp+

lemma allocated_canvas_is_owned:
  assumes "getOrAllocateRedisAndSetCached canvas ip port w = (a, w')" and "ra_port a > 0"
  shows "\<exists>me redis. my_server (sv_moments w (sv_clock w)) ip (number_text port) cs_active (sv_db w) = Some me
    \<and> owned (sv_db w') canvas me redis"
proof -
  let ?M = "sv_moments w (sv_clock w)"
  obtain result where r: "run_sql (canvas_command ''allocate'' canvas ip port)
      (allocate_script canvas ip (number_text port)) w = (result, w')"
    using assms(1) by (auto simp: getOrAllocateRedisAndSetCached_def Let_def split: prod.splits)
  have none: "failed_allocation \<noteq> a" using assms(2) by (auto simp: failed_allocation_def)
  obtain sets where s: "result = Some sets"
    using assms(1) r none by (cases result) (auto simp: getOrAllocateRedisAndSetCached_def)
  then have script: "allocate_script canvas ip (number_text port) ?M (sv_db w) = Some (sets, sv_db w')"
    using r by (auto simp: run_sql_def Let_def split: option.splits if_splits)
  have a: "a = read_allocation row" if "sets = one_row column row" for column row
    using assms(1) r s none that by (auto simp: getOrAllocateRedisAndSetCached_def Let_def split: if_splits)
  have bad: "sets \<noteq> one_row ''redis_ip'' (allocation_row m ''0'' was ''NONE'' [] None)"
    if "(m, was) \<in> {(''NOT_FOUND'', False), (''WRONG_SERVER'', True), (''ERROR'', True)}" for m was
    using a assms(2) that by (auto simp: marker_rows refused_row failed_allocation_def)
  obtain me where me: "my_server ?M ip (number_text port) cs_active (sv_db w) = Some me"
    using script by (auto simp: allocate_script_def split: option.splits)
  moreover have "\<exists>redis. owned (sv_db w') canvas me redis"
    using script me bad
    by (auto simp: allocate_script_def owned_def canvas_row_update Let_def split_beta eq_commute[of _ "sv_db w'"]
        split: option.splits if_splits)
  ultimately show ?thesis by blast
qed

end
