(* ===== verification/Canvas_Lifecycle.thy ===== *)
theory Canvas_Lifecycle
  imports Canvas_Initialization Canvas_Events Sql_Registry Canvas_Persistence Canvas_Composition
begin

text \<open>
  \<^verbatim>\<open>cpp/src/service_memory/CanvasLifecycleMemory.cpp\<close>: the pool of loaded canvases, over the cache and
  the Redis server, the SQL registry and the durable snapshots. The state of the whole server process and
  of the stores it talks to is passed through every operation; an operation may also leave with an
  exception. An operation on a canvas runs under its lifecycle lock and its settings lock and is one step;
  waiting for the persistence queue lets its worker run. Shown here: who is authorised, that a canvas is
  unloaded only after its document is durable, and that a failed unload keeps it.
\<close>

section \<open>The server process\<close>

text \<open>
  How an operation can fail to return a value: an exception, behaviour that C++ leaves undefined, or a
  wait that never ends.
\<close>

datatype failure = Thrown cpp_exn | Undefined_Behaviour | No_Return

type_synonym ('s, 'a) action = "'s \<Rightarrow> (failure + 'a) \<times> 's"

definition ret :: "'a \<Rightarrow> ('s, 'a) action" where
  "ret x = (\<lambda>s. (Inr x, s))"

definition raise :: "failure \<Rightarrow> ('s, 'a) action" where
  "raise e = (\<lambda>s. (Inl e, s))"

definition bindA :: "('s, 'a) action \<Rightarrow> ('a \<Rightarrow> ('s, 'b) action) \<Rightarrow> ('s, 'b) action" where
  "bindA m f = (\<lambda>s. case m s of (Inl e, s1) \<Rightarrow> (Inl e, s1) | (Inr x, s1) \<Rightarrow> f x s1)"

definition lift_outcome :: "'a outcome \<Rightarrow> ('s, 'a) action" where
  "lift_outcome m = (case m of Inl e \<Rightarrow> raise (Thrown e) | Inr x \<Rightarrow> ret x)"

definition requireA :: "bool \<Rightarrow> cpp_exn \<Rightarrow> ('s, 'a) action \<Rightarrow> ('s, 'a) action" where
  "requireA c e k = (if c then k else raise (Thrown e))"

definition get_state :: "('s \<Rightarrow> 'a) \<Rightarrow> ('s, 'a) action" where
  "get_state f = (\<lambda>s. (Inr (f s), s))"

definition modify :: "('s \<Rightarrow> 's) \<Rightarrow> ('s, unit) action" where
  "modify f = (\<lambda>s. (Inr (), f s))"

definition catch_all :: "'a \<Rightarrow> ('s, 'a) action \<Rightarrow> ('s, 'a) action" where
  \<comment> \<open>a \<open>try\<close> block whose handler gives a default; only exceptions are caught\<close>
  "catch_all d m = (\<lambda>s. case m s of (Inl (Thrown e), s1) \<Rightarrow> (Inr d, s1) | r \<Rightarrow> r)"

lemma action_simps [simp]:
  "ret x s = (Inr x, s)" "raise failure s = (Inl failure, s)" "get_state f s = (Inr (f s), s)" "modify g s = (Inr (), g s)"
  "lift_outcome (Inl e') s = (Inl (Thrown e'), s)" "lift_outcome (Inr y) s = (Inr y, s)"
  "requireA True e' k s = k s" "requireA False e' k s = (Inl (Thrown e'), s)"
  by (simp_all add: ret_def raise_def get_state_def modify_def lift_outcome_def requireA_def)

lemma bindA_eq: "bindA m f s = (case m s of (Inl e, s1) \<Rightarrow> (Inl e, s1) | (Inr x, s1) \<Rightarrow> f x s1)"
  by (simp add: bindA_def)

lemma bindA_Inr_iff: "bindA m f s = (Inr y, s') \<longleftrightarrow> (\<exists>x s1. m s = (Inr x, s1) \<and> f x s1 = (Inr y, s'))"
  by (auto simp: bindA_def split: prod.splits sum.splits)

lemma lift_outcome_Inr_iff: "lift_outcome m s = (Inr y, s') \<longleftrightarrow> m = Inr y \<and> s' = s"
  by (cases m) auto

lemma requireA_Inr_iff: "requireA c e k s = (Inr y, s') \<longleftrightarrow> c \<and> k s = (Inr y, s')"
  by (cases c) auto

lemmas action_iffs = bindA_Inr_iff lift_outcome_Inr_iff requireA_Inr_iff

record ('w, 'v) backend_env =
  be_memory :: "'w mc_env"                  \<comment> \<open>\<open>RedisClient\<close> ignores the endpoint it is given\<close>
  be_try_lock :: "string \<Rightarrow> bool"
  be_snapshots :: "'v snapshot_memory"
  be_server_ip :: string
  be_server_port :: int
  be_ws_port :: int
  be_random :: "nat \<Rightarrow> nat"

record ('w, 'v) backend =
  bk_cache :: cache_manager
  bk_redis :: 'w
  bk_documents :: 'v
  bk_sql :: sql_server
  bk_canvases :: "(int \<times> canvas) list"      \<comment> \<open>\<^verbatim>\<open>canvases_\<close>, in its order of iteration\<close>
  bk_last_query :: "int \<Rightarrow> int"            \<comment> \<open>\<^verbatim>\<open>last_query_\<close> of each canvas, in nanoseconds\<close>
  bk_generations :: nat                    \<comment> \<open>the counter of \<open>newCacheGeneration\<close>\<close>
  bk_steady :: int                         \<comment> \<open>the steady clock in nanoseconds\<close>
  bk_seconds :: int                        \<comment> \<open>the system clock, in seconds and milliseconds\<close>
  bk_millis :: int

text \<open>The operations of the components on their part of the state. \<open>None\<close> is a JSON exception.\<close>

definition with_memory ::
  "(cache_manager \<Rightarrow> 'w \<Rightarrow> 'a option \<times> cache_manager \<times> 'w) \<Rightarrow> (('w, 'v) backend, 'a) action" where
  "with_memory f = (\<lambda>s. case f (bk_cache s) (bk_redis s) of
      (None, m, w) \<Rightarrow> (Inl (Thrown JsonException), s\<lparr>bk_cache := m, bk_redis := w\<rparr>)
    | (Some x, m, w) \<Rightarrow> (Inr x, s\<lparr>bk_cache := m, bk_redis := w\<rparr>))"

definition with_sql :: "(sql_server \<Rightarrow> 'a \<times> sql_server) \<Rightarrow> (('w, 'v) backend, 'a) action" where
  "with_sql f = (\<lambda>s. case f (bk_sql s) of (x, db) \<Rightarrow> (Inr x, s\<lparr>bk_sql := db\<rparr>))"

definition with_documents :: "('v \<Rightarrow> 'a \<times> 'v) \<Rightarrow> (('w, 'v) backend, 'a) action" where
  "with_documents f = (\<lambda>s. case f (bk_documents s) of (x, v) \<Rightarrow> (Inr x, s\<lparr>bk_documents := v\<rparr>))"

definition live_canvas :: "int \<Rightarrow> ('w, 'v) backend \<Rightarrow> canvas option" where
  "live_canvas i s = map_of (bk_canvases s) i"

definition put_canvas :: "int \<Rightarrow> canvas \<Rightarrow> ('w, 'v) backend \<Rightarrow> ('w, 'v) backend" where
  "put_canvas i c s = s\<lparr>bk_canvases := AList.update i c (bk_canvases s)\<rparr>"

section \<open>Authorisation\<close>

definition documentAuthorizesCanvasAccess :: "json \<Rightarrow> int \<Rightarrow> int \<Rightarrow> bool" where
  "documentAuthorizesCanvasAccess doc user_id revision \<longleftrightarrow>
     (case jget doc ''people'' of
        Some (JArr _) \<Rightarrow>
          (case jget doc ''settings-revision'' of
             None \<Rightarrow> revision = 0
           | Some (JInt i) \<Rightarrow> as_int64 i = revision
           | Some _ \<Rightarrow> False)
          \<and> (canvasIsPublic doc \<or> canvasHasMember doc user_id)
      | _ \<Rightarrow> False)"

definition getCanvas :: "int \<Rightarrow> (('w, 'v) backend, canvas option) action" where
  "getCanvas i = get_state (live_canvas i)"

definition authorized_text :: "json_lib \<Rightarrow> string option \<Rightarrow> int \<Rightarrow> int \<Rightarrow> json option" where
  \<comment> \<open>the raw document, parsed and checked\<close>
  "authorized_text L raw user_id revision =
     (case raw of
        None \<Rightarrow> None
      | Some text \<Rightarrow>
          if text = [] then None
          else (case jl_parse L text of
                  None \<Rightarrow> None
                | Some doc \<Rightarrow> if documentAuthorizesCanvasAccess doc user_id revision then Some doc else None))"

definition getAuthorizedCanvasDocument ::
  "('w, 'v) backend_env \<Rightarrow> int \<Rightarrow> int \<Rightarrow> int \<Rightarrow> (('w, 'v) backend, json option) action" where
  "getAuthorizedCanvasDocument E i user_id revision =
     (if i \<le> 0 \<or> user_id \<le> 0 then ret None
      else
        (let L = me_lib (be_memory E);
             load = with_memory (loadCanvas (be_memory E) (be_try_lock E) i);
             check = (\<lambda>raw. ret (authorized_text L raw user_id revision))
         in bindA (with_sql (getCanvasStorageAssignment i)) (\<lambda>assignment.
            case assignment of
              None \<Rightarrow> ret None
            | Some a \<Rightarrow>
                if sa_cached a \<and> sa_server_ip a \<noteq> []
                   \<and> (sa_server_ip a \<noteq> be_server_ip E \<or> sa_server_port a \<noteq> number_text (be_server_port E))
                then ret None
                else bindA (getCanvas i) (\<lambda>live.
                  case live of
                    Some c \<Rightarrow> if cv_unloading c then ret None else bindA load check
                  | None \<Rightarrow>
                      if sa_cached a then
                        (if sa_redis_ip a = [] \<or> sa_redis_port a \<le> 0 then ret None else bindA load check)
                      else bindA (with_documents (getCanvasDocument (be_snapshots E) i)) (\<lambda>doc.
                        ret (case doc of
                               None \<Rightarrow> None
                             | Some d \<Rightarrow>
                                 if documentAuthorizesCanvasAccess d user_id revision then Some d else None))))))"

definition isCanvasAccessAuthorized ::
  "('w, 'v) backend_env \<Rightarrow> int \<Rightarrow> int \<Rightarrow> int \<Rightarrow> (('w, 'v) backend, bool) action" where
  "isCanvasAccessAuthorized E i user_id revision =
     bindA (getAuthorizedCanvasDocument E i user_id revision) (\<lambda>doc. ret (doc \<noteq> None))"

section \<open>Loading\<close>

definition newCacheGeneration :: "('w, 'v) backend_env \<Rightarrow> (('w, 'v) backend, string) action" where
  "newCacheGeneration E = (\<lambda>s.
     (Inr (number_text (bk_steady s) @ ''-'' @ to_string (be_random E (bk_generations s)) @ ''-''
           @ to_string (bk_generations s)),
      s\<lparr>bk_generations := bk_generations s + 1\<rparr>))"

definition memory_ping :: "('w, 'v) backend_env \<Rightarrow> (('w, 'v) backend, bool) action" where
  "memory_ping E = (\<lambda>s. case me_exec (be_memory E) [''PING''] (bk_redis s) of
     (reply, w) \<Rightarrow> (Inr (reply = Some ''PONG''), s\<lparr>bk_redis := w\<rparr>))"

definition release_canvas :: "('w, 'v) backend_env \<Rightarrow> int \<Rightarrow> (('w, 'v) backend, bool) action" where
  "release_canvas E i = with_sql (updateCanvasUncached i (be_server_ip E) (be_server_port E))"

definition canvas_of_document :: "int \<Rightarrow> string \<Rightarrow> int \<Rightarrow> json \<Rightarrow> canvas outcome" where
  \<comment> \<open>the runtime object of a loaded document\<close>
  "canvas_of_document i redis_ip redis_port doc =
     (let name = (case jget doc ''canvas-name'' of Some (JStr n) \<Rightarrow> n | _ \<Rightarrow> ''Canvas-'' @ number_text i);
          admin = (case jget doc ''admin-user-id'' of Some (JInt a) \<Rightarrow> as_int32 a | _ \<Rightarrow> 0)
      in bindE (value_int64 doc ''settings-revision'' 0) (\<lambda>revision.
         Inr (setSettingsRevision revision (setAdminUserId admin
               (setCanvasName name (canvas_new i redis_ip redis_port))))))"

definition getOrCreateCanvas :: "('w, 'v) backend_env \<Rightarrow> int \<Rightarrow> (('w, 'v) backend, canvas option) action" where
  "getOrCreateCanvas E i =
     bindA (getCanvas i) (\<lambda>live.
     case live of
       Some c \<Rightarrow> ret (Some c)
     | None \<Rightarrow>
         bindA (with_sql (getOrAllocateRedisAndSetCached i (be_server_ip E) (be_server_port E))) (\<lambda>a.
         if ra_ip a \<in> {''NOT_FOUND'', ''WRONG_SERVER'', ''ERROR''} \<or> ra_port a \<le> 0 then ret None
         else bindA (memory_ping E) (\<lambda>alive.
           if \<not> alive then
             (if ra_was_cached a then ret None else bindA (release_canvas E i) (\<lambda>_. ret None))
           else bindA (newCacheGeneration E) (\<lambda>generation.
             bindA (\<lambda>s. case initializeCanvas (be_memory E) (be_snapshots E) (be_try_lock E) i (ra_was_cached a)
                          generation (bk_cache s) (bk_redis s) (bk_documents s) of
                      (r, m, w, v) \<Rightarrow>
                        (case r of None \<Rightarrow> Inl (Thrown JsonException) | Some doc \<Rightarrow> Inr doc,
                         s\<lparr>bk_cache := m, bk_redis := w, bk_documents := v\<rparr>)) (\<lambda>loaded.
             case loaded of
               None \<Rightarrow>
                 if ra_was_cached a then ret None
                 else bindA (with_memory (clearCanvas (be_memory E) i)) (\<lambda>cleared.
                   if cleared then bindA (release_canvas E i) (\<lambda>_. ret None) else ret None)
             | Some doc \<Rightarrow>
                 bindA (lift_outcome (canvas_of_document i (ra_ip a) (ra_port a) doc)) (\<lambda>c.
                 bindA (modify (\<lambda>s. put_canvas i c (s\<lparr>bk_last_query := (bk_last_query s)(i := bk_steady s)\<rparr>))) (\<lambda>_.
                 ret (Some c))))))))"

definition touchQuery :: "int \<Rightarrow> (('w, 'v) backend, unit) action" where
  "touchQuery i = modify (\<lambda>s. s\<lparr>bk_last_query := (bk_last_query s)(i := bk_steady s)\<rparr>)"

definition loadForQuery :: "('w, 'v) backend_env \<Rightarrow> int \<Rightarrow> (('w, 'v) backend, canvas option) action" where
  "loadForQuery E i =
     bindA (getOrCreateCanvas E i) (\<lambda>canvas.
     case canvas of
       None \<Rightarrow> ret None
     | Some c \<Rightarrow> if cv_unloading c then ret (Some c) else bindA (touchQuery i) (\<lambda>_. ret (Some c)))"

definition hasRecentQuery :: "int \<Rightarrow> ('w, 'v) backend \<Rightarrow> bool" where
  \<comment> \<open>within ninety seconds\<close>
  "hasRecentQuery i s \<longleftrightarrow> bk_steady s - bk_last_query s i < 90 * 1000000000"

section \<open>Unloading\<close>

definition waitForPendingPersistence :: "('w, 'v) backend_env \<Rightarrow> int \<Rightarrow> canvas \<Rightarrow> (('w, 'v) backend, bool) action" where
  \<comment> \<open>closes the canvas and waits while the worker drains the queue; a worker that dies leaves the ticket behind\<close>
  "waitForPendingPersistence E i c = (\<lambda>s.
     let (ticket, c1) = waitForPending_begin c in
     (case cp_drain (drain_apply (be_memory E) (be_try_lock E) i) c1 (bk_cache s, bk_redis s) of
        (r, c2, m, w) \<Rightarrow>
          (if waitForPersistenceThrough_done ticket c2 then Inr (waitForPending_result c2) else Inl No_Return,
           put_canvas i c2 (s\<lparr>bk_cache := m, bk_redis := w\<rparr>))))"

definition save_document ::
  "('w, 'v) backend_env \<Rightarrow> int \<Rightarrow> string option \<Rightarrow> (('w, 'v) backend, string option) action" where
  \<comment> \<open>from the parsing of the Redis document to the snapshot: the cache generation when it was saved\<close>
  "save_document E i raw =
     (case raw of
        None \<Rightarrow> ret None
      | Some text \<Rightarrow>
          if text = [] then ret None
          else (case jl_parse (me_lib (be_memory E)) text of
                  None \<Rightarrow> raise (Thrown JsonException)
                | Some (JObj ms) \<Rightarrow>
                    (case map_of ms ''_cache_generation'' of
                       Some (JStr generation) \<Rightarrow>
                         bindA (with_documents (saveCanvasDocument (be_snapshots E) i
                             (JObj (obj_erase ''_cache_generation'' ms)))) (\<lambda>saved.
                         ret (if saved then Some generation else None))
                     | _ \<Rightarrow> ret None)
                | Some _ \<Rightarrow> ret None))"

definition saveCanvasSnapshot ::
  "('w, 'v) backend_env \<Rightarrow> int \<Rightarrow> canvas \<Rightarrow> (('w, 'v) backend, string option) action" where
  \<comment> \<open>the cache generation when the snapshot was saved, \<open>None\<close> for false\<close>
  "saveCanvasSnapshot E i c =
     bindA (waitForPendingPersistence E i c) (\<lambda>drained.
     if \<not> drained then ret None
     else catch_all None
       (bindA (with_memory (flushCanvas (be_memory E) i)) (\<lambda>flushed.
        if \<not> flushed then ret None
        else bindA (with_memory (loadCanvas (be_memory E) (be_try_lock E) i)) (save_document E i))))"

definition foreign_assignment :: "('w, 'v) backend_env \<Rightarrow> storage_assignment option \<Rightarrow> bool" where
  \<comment> \<open>the registry says that the canvas is not, or no longer, assigned to this server\<close>
  "foreign_assignment E a =
     (case a of
        None \<Rightarrow> False
      | Some a \<Rightarrow> \<not> sa_cached a \<or> sa_server_ip a \<noteq> be_server_ip E
          \<or> sa_server_port a \<noteq> number_text (be_server_port E))"

definition unloadCanvas :: "('w, 'v) backend_env \<Rightarrow> int \<Rightarrow> canvas \<Rightarrow> (('w, 'v) backend, bool) action" where
  "unloadCanvas E i c =
     bindA (saveCanvasSnapshot E i c) (\<lambda>saved.
     case saved of
       None \<Rightarrow> ret False
     | Some generation \<Rightarrow>
         bindA (release_canvas E i) (\<lambda>released.
         if \<not> released then
           bindA (with_sql (getCanvasStorageAssignment i)) (\<lambda>a. ret (foreign_assignment E a))
         else bindA (with_memory (removeCanvasGeneration (be_memory E) i generation)) (\<lambda>_. ret True)))"

definition removeCanvas :: "('w, 'v) backend_env \<Rightarrow> int \<Rightarrow> (('w, 'v) backend, bool) action" where
  "removeCanvas E i =
     bindA (getCanvas i) (\<lambda>live.
     case live of
       None \<Rightarrow> ret False
     | Some c \<Rightarrow>
         bindA (get_state (hasRecentQuery i)) (\<lambda>recent.
         if recent then ret False
         else bindA (unloadCanvas E i c) (\<lambda>unloaded.
           if \<not> unloaded then
             bindA (modify (\<lambda>s. case live_canvas i s of
                 None \<Rightarrow> s | Some c1 \<Rightarrow> put_canvas i (c1\<lparr>cv_unloading := False\<rparr>) s)) (\<lambda>_. ret False)
           else bindA (modify (\<lambda>s. s\<lparr>bk_canvases := AList.delete i (bk_canvases s)\<rparr>)) (\<lambda>_. ret True))))"

definition getActiveCanvasIds :: "(('w, 'v) backend, int list) action" where
  "getActiveCanvasIds = get_state (\<lambda>s. map fst (bk_canvases s))"

definition getActiveCanvasCount :: "(('w, 'v) backend, nat) action" where
  "getActiveCanvasCount = get_state (\<lambda>s. length (filter (\<lambda>i. hasRecentQuery i s) (map fst (bk_canvases s))))"

fun remove_each :: "('w, 'v) backend_env \<Rightarrow> int list \<Rightarrow> (('w, 'v) backend, unit) action" where
  "remove_each E [] = ret ()"
| "remove_each E (i # is) = bindA (removeCanvas E i) (\<lambda>_. remove_each E is)"

definition cleanupInactiveCanvases :: "('w, 'v) backend_env \<Rightarrow> (('w, 'v) backend, unit) action" where
  "cleanupInactiveCanvases E = bindA getActiveCanvasIds (remove_each E)"

definition freeze :: "int list \<Rightarrow> ('w, 'v) backend \<Rightarrow> ('w, 'v) backend" where
  "freeze is s = s\<lparr>bk_canvases := map (\<lambda>(i, c). (i, if i \<in> set is then c\<lparr>cv_unloading := True\<rparr> else c)) (bk_canvases s)\<rparr>"

fun save_each :: "('w, 'v) backend_env \<Rightarrow> int list \<Rightarrow> (('w, 'v) backend, bool) action" where
  "save_each E [] = ret True"
| "save_each E (i # is) =
     bindA (getCanvas i) (\<lambda>live.
     bindA (case live of None \<Rightarrow> ret False
                       | Some c \<Rightarrow> bindA (saveCanvasSnapshot E i c) (\<lambda>saved. ret (saved \<noteq> None))) (\<lambda>saved.
     bindA (save_each E is) (\<lambda>rest. ret (saved \<and> rest))))"

definition saveCanvasesForShutdown :: "('w, 'v) backend_env \<Rightarrow> (('w, 'v) backend, bool) action" where
  "saveCanvasesForShutdown E =
     bindA getActiveCanvasIds (\<lambda>ids.
     bindA (modify (freeze ids)) (\<lambda>_. save_each E (sort ids)))"


section \<open>What the operations do to the pool\<close>

lemma live_put [simp]: "live_canvas j (put_canvas i c s) = (if j = i then Some c else live_canvas j s)"
  by (simp add: live_canvas_def put_canvas_def update_conv')

lemma put_fields_of_state [simp]:
  "bk_cache (put_canvas i c s) = bk_cache s" "bk_redis (put_canvas i c s) = bk_redis s"
  "bk_documents (put_canvas i c s) = bk_documents s" "bk_sql (put_canvas i c s) = bk_sql s"
  "bk_last_query (put_canvas i c s) = bk_last_query s" "bk_steady (put_canvas i c s) = bk_steady s"
  by (simp_all add: put_canvas_def)

definition same_pool :: "('w, 'v) backend \<Rightarrow> ('w, 'v) backend \<Rightarrow> bool" where
  \<comment> \<open>the same loaded canvases and clocks\<close>
  "same_pool s s' \<longleftrightarrow> bk_canvases s' = bk_canvases s \<and> bk_last_query s' = bk_last_query s \<and> bk_steady s' = bk_steady s"

lemma same_pool_refl [simp]: "same_pool s s"
  by (simp add: same_pool_def)

lemma same_pool_trans: "same_pool s s1 \<Longrightarrow> same_pool s1 s2 \<Longrightarrow> same_pool s s2"
  by (simp add: same_pool_def)

lemma same_pool_live: "same_pool s s' \<Longrightarrow> live_canvas i s' = live_canvas i s"
  by (simp add: same_pool_def live_canvas_def)

lemma with_memory_pool: "with_memory f s = (r, s') \<Longrightarrow>
    same_pool s s' \<and> bk_sql s' = bk_sql s \<and> bk_documents s' = bk_documents s"
  by (auto simp: with_memory_def same_pool_def split: prod.splits option.splits)

lemma with_memory_Inr: "with_memory f s = (Inr x, s') \<Longrightarrow>
    f (bk_cache s) (bk_redis s) = (Some x, bk_cache s', bk_redis s')"
  by (auto simp: with_memory_def split: prod.splits option.splits)

lemma with_sql_pool: "with_sql f s = (r, s') \<Longrightarrow>
    same_pool s s' \<and> bk_cache s' = bk_cache s \<and> bk_redis s' = bk_redis s \<and> bk_documents s' = bk_documents s"
  by (auto simp: with_sql_def same_pool_def split: prod.splits)

lemma with_sql_Inr: "with_sql f s = (r, s') \<Longrightarrow> \<exists>x. r = Inr x \<and> f (bk_sql s) = (x, bk_sql s')"
  by (auto simp: with_sql_def split: prod.splits)

lemma with_documents_pool: "with_documents f s = (r, s') \<Longrightarrow>
    same_pool s s' \<and> bk_cache s' = bk_cache s \<and> bk_redis s' = bk_redis s \<and> bk_sql s' = bk_sql s"
  by (auto simp: with_documents_def same_pool_def split: prod.splits)

lemma with_documents_Inr: "with_documents f s = (r, s') \<Longrightarrow> \<exists>x. r = Inr x \<and> f (bk_documents s) = (x, bk_documents s')"
  by (auto simp: with_documents_def split: prod.splits)

lemma wait_effect:
  assumes "waitForPendingPersistence E i c s = (r, s')"
  shows "\<exists>c'. same_pool (put_canvas i c' s) s' \<and> bk_sql s' = bk_sql s \<and> bk_documents s' = bk_documents s"
proof -
  obtain r1 c2 m w where d: "cp_drain (drain_apply (be_memory E) (be_try_lock E) i) (c\<lparr>cv_unloading := True\<rparr>)
      (bk_cache s, bk_redis s) = (r1, c2, m, w)"
    by (metis prod_cases4)
  then have "s' = put_canvas i c2 (s\<lparr>bk_cache := m, bk_redis := w\<rparr>)"
    using assms by (auto simp: waitForPendingPersistence_def waitForPending_begin_def)
  then show ?thesis by (auto simp: same_pool_def put_canvas_def)
qed

lemma wait_idle:
  assumes "cv_queue c = []" and "cv_last_completed c = cv_last_enqueued c"
  shows "waitForPendingPersistence E i c s
     = (Inr (\<not> cv_failed c), put_canvas i (c\<lparr>cv_unloading := True, cv_worker_running := False\<rparr>) s)"
  using assms by (simp add: waitForPendingPersistence_def waitForPending_begin_def cp_drain.simps nextPersistence_def
      waitForPersistenceThrough_done_def waitForPending_result_def)

lemma save_document_pool:
  "save_document E i raw s = (r, s') \<Longrightarrow>
     same_pool s s' \<and> bk_cache s' = bk_cache s \<and> bk_redis s' = bk_redis s \<and> bk_sql s' = bk_sql s"
  by (auto simp: save_document_def bindA_eq split: option.splits json.splits if_splits sum.splits prod.splits
      dest!: with_documents_pool)

lemma catch_all_cases: "catch_all d m s = (r, s') \<Longrightarrow> m s = (r, s') \<or> (\<exists>e. m s = (Inl (Thrown e), s') \<and> r = Inr d)"
  by (auto simp: catch_all_def split: prod.splits sum.splits failure.splits)

lemma saveCanvasSnapshot_effect:
  assumes "saveCanvasSnapshot E i c s = (r, s')"
  shows "\<exists>c'. same_pool (put_canvas i c' s) s' \<and> bk_sql s' = bk_sql s"
proof -
  obtain r1 s1 where w: "waitForPendingPersistence E i c s = (r1, s1)" by fastforce
  from wait_effect[OF this] obtain c' where c: "same_pool (put_canvas i c' s) s1" "bk_sql s1 = bk_sql s" by blast
  let ?rest = "bindA (with_memory (flushCanvas (be_memory E) i)) (\<lambda>flushed. if \<not> flushed then ret None
      else bindA (with_memory (loadCanvas (be_memory E) (be_try_lock E) i)) (save_document E i))"
  have rest: "same_pool s1 s2 \<and> bk_sql s2 = bk_sql s1" if h: "?rest s1 = (r2, s2)" for r2 s2
    using h by (auto simp: bindA_eq split: prod.splits sum.splits if_splits
        dest!: with_memory_pool save_document_pool intro: same_pool_trans)
  have "same_pool s1 s' \<and> bk_sql s' = bk_sql s1"
  proof (cases r1)
    case (Inl e)
    then show ?thesis using assms w by (auto simp: saveCanvasSnapshot_def bindA_eq)
  next
    case (Inr b)
    show ?thesis
    proof (cases b)
      case True
      then have "catch_all None ?rest s1 = (r, s')" using assms w Inr by (simp add: saveCanvasSnapshot_def bindA_eq)
      from catch_all_cases[OF this] rest show ?thesis by auto
    next
      case False
      then show ?thesis using assms w Inr by (auto simp: saveCanvasSnapshot_def bindA_eq)
    qed
  qed
  with c show ?thesis by (metis same_pool_trans)
qed

lemma unloadCanvas_effect:
  assumes "unloadCanvas E i c s = (r, s')"
  shows "\<exists>c'. same_pool (put_canvas i c' s) s'"
proof -
  obtain r1 s1 where w: "saveCanvasSnapshot E i c s = (r1, s1)" by fastforce
  from saveCanvasSnapshot_effect[OF this] obtain c' where c: "same_pool (put_canvas i c' s) s1" by blast
  have "same_pool s1 s'"
    using assms w by (auto simp: unloadCanvas_def bindA_eq release_canvas_def split: prod.splits sum.splits option.splits if_splits
        dest!: with_memory_pool with_sql_pool intro: same_pool_trans)
  with c show ?thesis by (metis same_pool_trans)
qed

section \<open>Properties\<close>

text \<open>
  C19. Access needs membership. A document is handed out only for a positive user and canvas, when the registry
  does not assign the canvas to another server, the canvas is not being unloaded, the document's settings
  revision is the one of the request, and the canvas is public or lists the user.
\<close>

theorem access_needs_membership:
  assumes "getAuthorizedCanvasDocument E i user_id revision s = (Inr (Some doc), s')"
  shows "0 < i \<and> 0 < user_id
    \<and> (canvasIsPublic doc \<or> canvasHasMember doc user_id)
    \<and> (case jget doc ''settings-revision'' of None \<Rightarrow> revision = 0 | Some v \<Rightarrow> get_int64 v = Inr revision)
    \<and> (\<exists>a. fst (getCanvasStorageAssignment i (bk_sql s)) = Some a
         \<and> (sa_cached a \<longrightarrow> sa_server_ip a = [] \<or> sa_server_ip a = be_server_ip E
              \<and> sa_server_port a = number_text (be_server_port E)))
    \<and> (\<forall>c. live_canvas i s = Some c \<longrightarrow> \<not> cv_unloading c)
    \<and> same_pool s s'"
proof -
  have pos: "0 < i" "0 < user_id"
    using assms by (auto simp: getAuthorizedCanvasDocument_def split: if_splits)
  obtain a s1 where a: "with_sql (getCanvasStorageAssignment i) s = (Inr (Some a), s1)"
    using assms pos by (auto simp: getAuthorizedCanvasDocument_def Let_def bindA_eq split: prod.splits sum.splits option.splits)
  note p1 = with_sql_pool[OF a] and v1 = with_sql_Inr[OF a]
  have f: "sa_cached a \<longrightarrow> sa_server_ip a = [] \<or> sa_server_ip a = be_server_ip E
      \<and> sa_server_port a = number_text (be_server_port E)"
    using assms pos a by (auto simp: getAuthorizedCanvasDocument_def Let_def bindA_eq split: if_splits)
  have checked: "documentAuthorizesCanvasAccess doc user_id revision"
    if "authorized_text L raw user_id revision = Some doc" for L raw
    using that by (auto simp: authorized_text_def split: option.splits if_splits)
  have "documentAuthorizesCanvasAccess doc user_id revision
      \<and> (\<forall>c. live_canvas i s1 = Some c \<longrightarrow> \<not> cv_unloading c) \<and> same_pool s1 s'"
    using assms pos a f checked
    by (auto simp: getAuthorizedCanvasDocument_def Let_def bindA_eq getCanvas_def
        split: if_splits option.splits prod.splits sum.splits dest!: with_memory_pool with_documents_pool)
  with p1 v1 pos f show ?thesis
    by (auto simp: documentAuthorizesCanvasAccess_def get_int64_def same_pool_live intro: same_pool_trans
        split: option.splits json.splits)
qed

text \<open>
  A failed unload keeps the canvas. When \<open>removeCanvas\<close> reports false for a loaded canvas, the canvas is
  still loaded, and unless a recent query kept it from being touched at all, it is open again.
\<close>

theorem failed_unload_keeps_canvas:
  assumes "removeCanvas E i s = (Inr False, s')" and "live_canvas i s = Some c"
  shows "if hasRecentQuery i s then s' = s
    else \<exists>c'. live_canvas i s' = Some c' \<and> \<not> cv_unloading c'"
proof (cases "hasRecentQuery i s")
  case True
  then show ?thesis using assms by (simp add: removeCanvas_def bindA_eq getCanvas_def)
next
  case False
  obtain r s1 where u: "unloadCanvas E i c s = (r, s1)" by fastforce
  from unloadCanvas_effect[OF u] obtain c' where "same_pool (put_canvas i c' s) s1" by blast
  then have l: "live_canvas i s1 = Some c'" using same_pool_live[of "put_canvas i c' s" s1 i] by simp
  have "s' = put_canvas i (c'\<lparr>cv_unloading := False\<rparr>) s1"
    using assms False u l by (auto simp: removeCanvas_def bindA_eq getCanvas_def split: sum.splits if_splits)
  then show ?thesis using False by simp
qed


section \<open>Durability\<close>

text \<open>
  What a read of a whole document answers: the document, for a JSON document; \<^verbatim>\<open>GET\<close> of a JSON document
  is an error.
\<close>

definition whole_get_ok :: "'w mc_env \<Rightarrow> ('w \<Rightarrow> string \<Rightarrow> json option) \<Rightarrow> bool" where
  "whole_get_ok E doc \<longleftrightarrow>
     (\<forall>w key reply w'. me_exec E [''JSON.GET'', key] w = (reply, w') \<longrightarrow>
        doc w' = doc w
        \<and> (\<not> reply_error reply \<longrightarrow> (\<forall>j. doc w key = Some j \<longrightarrow> jl_parse (me_lib E) (the reply) = Some j)))
     \<and> (\<forall>w key reply w'. me_exec E [''GET'', key] w = (reply, w') \<longrightarrow>
        doc w' = doc w \<and> (doc w key \<noteq> None \<longrightarrow> reply_error reply))"

lemma clean_document_text:
  assumes "whole_get_ok E doc" and "doc w key = Some j" and "\<forall>r. cm_cache m key = Some r \<longrightarrow> rl_inv r \<and> rl_dirty r = []"
    and "mc_document E key m w = (Some t, m', w')"
  shows "t = jl_dump (me_lib E) j"
proof -
  obtain reply0 w0 where r0: "me_exec E [''JSON.GET'', key] w = (reply0, w0)" by fastforce
  have d0: "doc w0 = doc w" using assms(1) r0 by (auto simp: whole_get_ok_def)
  have nw: "\<not> wrongtype reply0"
  proof
    assume wt: "wrongtype reply0"
    obtain reply1 w1 where r1: "me_exec E [''GET'', key] w0 = (reply1, w1)" by fastforce
    then have "reply_error reply1" using assms(1,2) d0 unfolding whole_get_ok_def by fastforce
    then show False using assms(4) r0 r1 wt by (simp add: mc_document_def)
  qed
  have ok: "\<not> reply_error reply0" using assms(4) r0 nw by (auto simp: mc_document_def)
  then have p: "jl_parse (me_lib E) (the reply0) = Some j" using assms(1,2) r0 unfolding whole_get_ok_def by blast
  have "fst (cm_dirtyRegions key m) = []"
    using assms(3) by (auto simp: cm_dirtyRegions_def cm_find_eq rl_dirtyRegions_value split: option.splits prod.splits)
      (metis fst_conv list.simps(8) rl_dirtyRegions_value)
  then show ?thesis using assms(4) r0 nw ok p
    by (auto simp: mc_document_def mc_overlay.simps split: prod.splits)
qed




section \<open>A canvas to unload\<close>

text \<open>
  A server that also answers reads of whole documents, pings and the deletion of a cache generation, and a
  process on it with one loaded canvas, whose note has been read and then changed in the cache only.
\<close>

definition life_exec :: "ref_world executor" where
  "life_exec cmd w =
     (if length cmd = 2 \<and> cmd ! 0 = ''JSON.GET'' then
        (case ref_doc w (cmd ! 1) of None \<Rightarrow> (None, w) | Some j \<Rightarrow> (Some (encode j), w))
      else if length cmd = 2 \<and> cmd ! 0 = ''GET'' then (None, w)
      else if cmd = [''PING''] then (Some ''PONG'', w)
      else script_exec ''canvas:5'' (generation_script ref_rj ''g'') cmd w)"

definition life_env :: "ref_world mc_env" where
  "life_env = ref_env\<lparr>me_exec := life_exec\<rparr>"

lemma life_env_simps [simp]:
  "me_lib life_env = ref_lib" "me_options life_env = ref_options" "me_exec life_env = life_exec"
  by (simp_all add: life_env_def ref_env_def)

lemma life_contract: "redis_json_ok life_env ref_doc"
proof -
  have same: "life_exec [''JSON.GET'', k, p] w = ref_exec [''JSON.GET'', k, p] w"
    "life_exec [''JSON.SET'', k, p, t] w = ref_exec [''JSON.SET'', k, p, t] w" for k p t w
    by (simp_all add: life_exec_def script_exec_def)
  have lib: "me_lib ref_env = ref_lib" "me_exec ref_env = ref_exec" by (simp_all add: ref_env_def)
  show ?thesis using ref_contract unfolding redis_json_ok_def life_env_simps same lib .
qed

lemma life_whole_get: "whole_get_ok life_env ref_doc"
proof -
  have "ref_doc w k = Some j \<Longrightarrow> ref_parse (encode j) = Some j" for w k j
    using json_lib_okD(1)[OF ref_lib_ok, of j] by (auto simp: ref_doc_def ref_lib_def split: option.splits if_splits)
  then show ?thesis
    by (auto simp: whole_get_ok_def life_exec_def reply_error_def ref_lib_def split: option.splits)
qed

interpretation life: redis_json life_env ref_doc
  by unfold_locales (rule life_contract, simp add: ref_stable)

definition life_read :: "cache_manager \<times> ref_world \<Rightarrow> cache_manager \<times> ref_world" where
  "life_read s = (let (_, m, w) = mc_read_path life_env (\<lambda>_. True) ''canvas:5'' ''$.items.n'' (fst s) (snd s) in (m, w))"

definition life_cache :: "cache_manager \<times> ref_world" where
  "life_cache = snd (mc_write life_env ''canvas:5'' (JInt 2) ''$.items.n.x''
     (fst (life_read (life_read (createState ref_options,
       [(''canvas:5'', JObj [(''_cache_generation'', JStr ''g''),
          (''items'', JObj [(''n'', JObj [(''x'', JInt 1)])])])]))))
     (snd (life_read (life_read (createState ref_options,
       [(''canvas:5'', JObj [(''_cache_generation'', JStr ''g''),
          (''items'', JObj [(''n'', JObj [(''x'', JInt 1)])])])])))))"

lemma life_read_coherent:
  assumes "mc_coherent life_env ref_doc (fst s) (snd s)"
  shows "mc_coherent life_env ref_doc (fst (life_read s)) (snd (life_read s))"
proof -
  have "mc_region life_env ''$.items.n'' \<noteq> None" by code_simp
  then show ?thesis
    using life.read_path_value(1)[OF assms, of "''$.items.n''" _ _ "\<lambda>_. True" "''canvas:5''"]
    by (auto simp: life_read_def split: prod.splits)
qed

lemma life_coherent: "mc_coherent life_env ref_doc (fst life_cache) (snd life_cache)"
proof -
  let ?s = "life_read (life_read (createState ref_options,
       [(''canvas:5'', JObj [(''_cache_generation'', JStr ''g''),
          (''items'', JObj [(''n'', JObj [(''x'', JInt 1)])])])]))"
  let ?r = "mc_write life_env ''canvas:5'' (JInt 2) ''$.items.n.x'' (fst ?s) (snd ?s)"
  have "mc_coherent life_env ref_doc (createState ref_options)
      [(''canvas:5'', JObj [(''_cache_generation'', JStr ''g''),
          (''items'', JObj [(''n'', JObj [(''x'', JInt 1)])])])]"
    using mc_coherent_new[of life_env] by simp
  then have c: "mc_coherent life_env ref_doc (fst ?s) (snd ?s)"
    by (intro life_read_coherent) simp
  have r: "mc_region life_env ''$.items.n.x'' = Some (sample_region ''n'', [Key ''x''])" by code_simp
  have "fst ?r = Some True" by code_simp
  then have w: "?r = (Some True, fst life_cache, snd life_cache)" by (simp add: life_cache_def prod_eq_iff)
  show ?thesis by (rule life.write_value(1)[OF c r _ _ w]) simp_all
qed

definition life_registry :: sql_server where
  "life_registry = sample_registry\<lparr>sv_db := (sv_db sample_registry)\<lparr>
     db_servers := [\<lparr>cs_id = 1, cs_ip = ''10.0.0.1'', cs_port = ''80'', cs_ws_port = ''82'', cs_active = True,
       cs_created = 0, cs_heartbeat = 0\<rparr>]\<rparr>\<rparr>"

definition life_backend_env :: "(ref_world, ref_store) backend_env" where
  "life_backend_env = \<lparr>be_memory = life_env, be_try_lock = \<lambda>_. True, be_snapshots = sample_snapshots,
     be_server_ip = ''10.0.0.1'', be_server_port = 80, be_ws_port = 82, be_random = \<lambda>n. n\<rparr>"

definition life_backend :: "(ref_world, ref_store) backend" where
  "life_backend = \<lparr>bk_cache = fst life_cache, bk_redis = snd life_cache, bk_documents = [], bk_sql = life_registry,
     bk_canvases = [(5, canvas_new 5 ''10.1.0.1'' 6379)], bk_last_query = \<lambda>_. 0, bk_generations = 1,
     bk_steady = 100000000000, bk_seconds = 0, bk_millis = 0\<rparr>"

lemma life_simps [simp]:
  "be_memory life_backend_env = life_env" "be_snapshots life_backend_env = sample_snapshots"
  "bk_cache life_backend = fst life_cache" "bk_redis life_backend = snd life_cache"
  "live_canvas 5 life_backend = Some (canvas_new 5 ''10.1.0.1'' 6379)"
  by (simp_all add: life_backend_env_def life_backend_def live_canvas_def)

lemma life_release: "fst (updateCanvasUncached 5 ''10.0.0.1'' 80 life_registry)"
proof -
  have t: "number_text 80 = ''80''" by code_simp
  have r: "\<exists>db. release_script 5 ''10.0.0.1'' ''80'' sample_moment (sv_db life_registry) =
      Some (one_row ''affected'' [Some ''1''], db)"
    by (simp add: release_script_def my_server_def is_server_def sample_moment_def canvas_row_def life_registry_def sample_registry_def)
  have n: "scalar (Some (one_row ''affected'' [Some ''1''])) = Some 1" by code_simp
  have v: "isValid (canvas_command ''release'' 5 ''10.0.0.1'' 80)" by (rule canvas_command_valid) simp_all
  have s: "sv_moments life_registry k = sample_moment" "sv_fates life_registry k = Delivered" for k
    by (simp_all add: life_registry_def sample_registry_def)
  from r n v show ?thesis by (auto simp: updateCanvasUncached_def run_sql_def t s)
qed

lemma life_flushes: "fst (flushCanvas life_env 5 (fst life_cache) (snd life_cache)) = Some True"
  by code_simp

definition life_flushed :: "cache_manager \<times> ref_world" where
  "life_flushed = snd (flushCanvas life_env 5 (fst life_cache) (snd life_cache))"

definition life_text :: string where
  "life_text = encode (JObj [(''_cache_generation'', JStr ''g''), (''items'', JObj [(''n'', JObj [(''x'', JInt 2)])])])"

lemma life_loads: "fst (loadCanvas life_env (\<lambda>_. True) 5 (fst life_flushed) (snd life_flushed)) = Some (Some life_text)"
  by code_simp

definition life_loaded :: "cache_manager \<times> ref_world" where
  "life_loaded = snd (loadCanvas life_env (\<lambda>_. True) 5 (fst life_flushed) (snd life_flushed))"

lemma life_removes: "fst (removeCanvasGeneration life_env 5 ''g'' (fst life_loaded) (snd life_loaded)) = Some Applied"
  by code_simp

lemma life_saves: "fst (saveCanvasDocument sample_snapshots 5 (JObj [(''items'', JObj [(''n'', JObj [(''x'', JInt 2)])])]) [])"
  by code_simp

lemma life_unloads: "fst (removeCanvas life_backend_env 5 life_backend) = Inr True"
proof -
  let ?i = "(\<lambda>c. c\<lparr>cv_unloading := True, cv_worker_running := False\<rparr>) (canvas_new 5 ''10.1.0.1'' 6379)"
  let ?ms = "[(''_cache_generation'', JStr ''g''),
      (''items'', JObj [(''n'', JObj [(''x'', JInt 2)])])]"
  obtain fm fw where f: "flushCanvas life_env 5 (fst life_cache) (snd life_cache) = (Some True, fm, fw)"
    using life_flushes by (metis prod.collapse)
  have fm: "life_flushed = (fm, fw)" by (simp add: life_flushed_def f)
  obtain lm lw where l0: "loadCanvas life_env (\<lambda>_. True) 5 fm fw = (Some (Some life_text), lm, lw)"
    using life_loads[unfolded fm fst_conv snd_conv] by (metis prod.collapse)
  have lm: "life_loaded = (lm, lw)" using l0 by (simp add: life_loaded_def fm)
  have l: "loadCanvas life_env (\<lambda>_. True) 5 fm fw = (Some (Some (encode (JObj ?ms))), lm, lw)"
    using l0 by (simp only: life_text_def)
  obtain gm gw where g: "removeCanvasGeneration life_env 5 ''g'' lm lw = (Some Applied, gm, gw)"
    using life_removes[unfolded lm fst_conv snd_conv] by (metis prod.collapse)
  obtain db where u: "updateCanvasUncached 5 ''10.0.0.1'' 80 life_registry = (True, db)"
    using life_release by (metis prod.collapse)
  have e: "obj_erase ''_cache_generation'' ?ms = [hd (tl ?ms)]" by (simp add: obj_erase_def)
  obtain v where d: "saveCanvasDocument sample_snapshots 5 (JObj (obj_erase ''_cache_generation'' ?ms)) [] = (True, v)"
    using life_saves unfolding e list.sel by (metis prod.collapse)
  have p: "ref_parse (encode (JObj ?ms)) = Some (JObj ?ms)" "encode (JObj ?ms) \<noteq> []"
    using json_lib_okD(1)[OF ref_lib_ok, of "JObj ?ms"] by (simp_all add: ref_lib_def)
  have w: "waitForPendingPersistence life_backend_env 5 (canvas_new 5 ''10.1.0.1'' 6379) life_backend
      = (Inr True, put_canvas 5 ?i life_backend)"
    by (simp add: wait_idle canvas_new_def)
  have env: "be_try_lock life_backend_env = (\<lambda>_. True)" "be_server_ip life_backend_env = ''10.0.0.1''"
    "be_server_port life_backend_env = 80" "jl_parse ref_lib = ref_parse"
    "bk_documents life_backend = []" "bk_sql life_backend = life_registry"
    "\<not> hasRecentQuery 5 life_backend"
    by (simp_all add: life_backend_env_def life_backend_def ref_lib_def hasRecentQuery_def)
  have sv: "\<exists>s1. saveCanvasSnapshot life_backend_env 5 (canvas_new 5 ''10.1.0.1'' 6379) life_backend = (Inr (Some ''g''), s1)
      \<and> bk_cache s1 = lm \<and> bk_redis s1 = lw \<and> bk_sql s1 = life_registry"
    by (simp add: saveCanvasSnapshot_def bindA_eq w env f l d p with_memory_def with_documents_def catch_all_def
        save_document_def del: encode.simps obj_erase_def)
  then obtain s1 where "saveCanvasSnapshot life_backend_env 5 (canvas_new 5 ''10.1.0.1'' 6379) life_backend = (Inr (Some ''g''), s1)"
      "bk_cache s1 = lm" "bk_redis s1 = lw" "bk_sql s1 = life_registry"
    by blast
  then show ?thesis
    by (simp add: removeCanvas_def unloadCanvas_def getCanvas_def bindA_eq env release_canvas_def with_sql_def with_memory_def u g)
qed


theorem failed_unload_keeps_canvas_witness:
  "\<exists>c'. live_canvas 5 (snd (removeCanvas life_backend_env 5
      (put_canvas 5 ((canvas_new 5 ''10.1.0.1'' 6379)\<lparr>cv_failed := True\<rparr>) life_backend))) = Some c' \<and> \<not> cv_unloading c'"
proof -
  let ?c = "(canvas_new 5 ''10.1.0.1'' 6379)\<lparr>cv_failed := True\<rparr>"
  let ?s = "put_canvas 5 ?c life_backend"
  have recent: "\<not> hasRecentQuery 5 ?s" by (simp add: hasRecentQuery_def life_backend_def)
  have "waitForPendingPersistence life_backend_env 5 ?c ?s
      = (Inr False, put_canvas 5 (?c\<lparr>cv_unloading := True, cv_worker_running := False\<rparr>) ?s)"
    by (simp add: wait_idle canvas_new_def)
  then have "fst (removeCanvas life_backend_env 5 ?s) = Inr False"
    using recent by (simp add: removeCanvas_def unloadCanvas_def saveCanvasSnapshot_def bindA_eq getCanvas_def)
  then have "removeCanvas life_backend_env 5 ?s = (Inr False, snd (removeCanvas life_backend_env 5 ?s))"
    by (simp add: prod_eq_iff)
  from failed_unload_keeps_canvas[OF this, of ?c] recent show ?thesis by simp
qed

theorem access_needs_membership_witness:
  "\<exists>doc s'. getAuthorizedCanvasDocument life_backend_env 6 9 0 (life_backend\<lparr>bk_documents :=
       [((''canvases'', doc_id 6), JObj [(''people'', JArr [JInt 9])])]\<rparr>) = (Inr (Some doc), s')
     \<and> canvasHasMember doc 9 \<and> \<not> canvasIsPublic doc"
proof -
  let ?d = "[((''canvases'', doc_id 6), JObj [(''people'', JArr [JInt 9])])] :: ref_store"
  let ?s = "life_backend\<lparr>bk_documents := ?d\<rparr>"
  have a: "fst (getCanvasStorageAssignment 6 life_registry)
      = Some \<lparr>sa_cached = False, sa_server_ip = [], sa_server_port = [], sa_redis_ip = [], sa_redis_port = 0\<rparr>"
  proof -
    let ?set = "\<lparr>rs_columns = [[], [], [], [], []], rs_rows = [[Some ''0'', Some [], Some [], Some [], Some []]]\<rparr>"
    have r: "assignment_script 6 sample_moment (sv_db life_registry) = Some ([?set], sv_db life_registry)"
      by (simp add: assignment_script_def assignment_row_def canvas_redis_def life_registry_def sample_registry_def)
    have "isValidName ''@canvas_id''" by code_simp
    then have v: "isValid (addInt ''@canvas_id'' 6 \<lparr>sc_statement = ''assignment'', sc_parameters = []\<rparr>)"
      by (simp add: isValid_def validationError_def addInt_def push_parameter_def parameterDeclarations_def
          kMaxStatementBytes_def kMaxRpcTextBytes_def)
    have s: "sv_moments life_registry k = sample_moment" "sv_fates life_registry k = Delivered" for k
      by (simp_all add: life_registry_def sample_registry_def)
    have "read_assignment [Some ''0'', Some [], Some [], Some [], Some []]
        = Some \<lparr>sa_cached = False, sa_server_ip = [], sa_server_port = [], sa_redis_ip = [], sa_redis_port = 0\<rparr>"
      by code_simp
    with r v s show ?thesis by (simp add: getCanvasStorageAssignment_def run_sql_def lastRow_def)
  qed
  then obtain db where a': "getCanvasStorageAssignment 6 life_registry
      = (Some \<lparr>sa_cached = False, sa_server_ip = [], sa_server_port = [], sa_redis_ip = [], sa_redis_port = 0\<rparr>, db)"
    by (metis prod.collapse)
  have "fst (getCanvasDocument sample_snapshots 6 ?d) = Some (JObj [(''people'', JArr [JInt 9])])" by code_simp
  then obtain v where d: "getCanvasDocument sample_snapshots 6 ?d = (Some (JObj [(''people'', JArr [JInt 9])]), v)"
    by (metis prod.collapse)
  have ok: "documentAuthorizesCanvasAccess (JObj [(''people'', JArr [JInt 9])]) 9 0" by code_simp
  have st: "bk_sql life_backend = life_registry" "live_canvas 6 (life_backend\<lparr>bk_documents := ?d, bk_sql := db\<rparr>) = None"
    by (simp_all add: life_backend_def live_canvas_def)
  obtain s' where r: "getAuthorizedCanvasDocument life_backend_env 6 9 0 ?s
      = (Inr (Some (JObj [(''people'', JArr [JInt 9])])), s')"
    by (simp add: getAuthorizedCanvasDocument_def Let_def bindA_eq getCanvas_def with_sql_def with_documents_def a' st d ok)
  from access_needs_membership[OF r] r show ?thesis by (auto simp: canvasIsPublic_def jget_def)
qed

end
