(* ===== verification/Canvas_Settings.thy ===== *)
theory Canvas_Settings
  imports Canvas_Lifecycle
begin

text \<open>
  \<^verbatim>\<open>cpp/src/service/CanvasSettingsService.cpp\<close>: reading and changing the settings of a loaded canvas. A
  change is written to Redis under the revision it was asked for, then to the durable store, and is taken
  back when the durable store refuses it. Shown here: who may change settings and on which revision, that a
  refused request changes no document, and what a successful one writes.
\<close>

section \<open>Snapshots of the settings\<close>

definition isCanvasParticipant :: "json \<Rightarrow> int \<Rightarrow> bool" where
  "isCanvasParticipant doc user_id \<longleftrightarrow>
     (case jget doc ''people'' of
        Some (JArr people) \<Rightarrow> list_ex (\<lambda>member. is_number_integer member \<and> get_int member = Inr user_id) people
      | _ \<Rightarrow> False)"

fun participants_of :: "json list \<Rightarrow> (('w, 'v) backend, json list) action" where
  "participants_of [] = ret []"
| "participants_of (JInt member # members) =
     bindA (with_sql (getUserHandle (as_int32 member))) (\<lambda>handle.
     bindA (participants_of members) (\<lambda>rest.
       ret ((case handle of
               None \<Rightarrow> []
             | Some (nickname, tag) \<Rightarrow> [JObj [(''nickname'', JStr nickname), (''tag_number'', JInt tag)]]) @ rest)))"
| "participants_of (_ # members) = participants_of members"

definition settings_view :: "json \<Rightarrow> json list \<Rightarrow> json outcome" where
  \<comment> \<open>the object that is returned, its members read in the order of the code\<close>
  "settings_view doc participants =
     (let protected_canvas = (case jget doc ''canvas-password-hash'' of Some (JStr h) \<Rightarrow> h \<noteq> [] | _ \<Rightarrow> False)
      in bindE (value_int doc ''canvas-id'' 0) (\<lambda>ident.
         bindE (value_string doc ''canvas-name'' []) (\<lambda>name.
         bindE (value_string doc ''description'' []) (\<lambda>description.
         bindE (value_int64 doc ''settings-revision'' 0) (\<lambda>revision.
           Inr (JObj [(''canvas_id'', JInt ident), (''canvas_name'', JStr name), (''description'', JStr description),
             (''participants'', JArr participants), (''password_protected'', JBool protected_canvas),
             (''settings_revision'', JInt revision),
             (''visibility'', JStr (if canvasIsPublic doc then ''public'' else ''private''))]))))))"

definition canvasSettingsSnapshot :: "json \<Rightarrow> (('w, 'v) backend, json) action" where
  "canvasSettingsSnapshot doc =
     bindA (case jget doc ''people'' of Some (JArr people) \<Rightarrow> participants_of people | _ \<Rightarrow> ret [])
       (\<lambda>participants. lift_outcome (settings_view doc participants))"

section \<open>The change\<close>

record settings_change =
  sg_doc :: json
  sg_changes :: "(string \<times> json) list"      \<comment> \<open>in the order of \<open>addChange\<close>\<close>
  sg_original :: "(string \<times> json) list"
  sg_removed :: int

definition originals :: "json \<Rightarrow> string list \<Rightarrow> (string \<times> json) list" where
  \<comment> \<open>\<open>rememberOriginal\<close> of the fields, in a map ordered by field\<close>
  "originals doc names =
     fold (\<lambda>f m. case jget doc f of None \<Rightarrow> m | Some v \<Rightarrow> if map_of m f = None then obj_put f v m else m) names []"

definition field_change :: "json \<Rightarrow> string \<Rightarrow> json \<Rightarrow> settings_change" where
  "field_change doc field v =
     \<lparr>sg_doc = put_field field v doc, sg_changes = [(field, v)], sg_original = originals doc [field], sg_removed = 0\<rparr>"

definition has_password :: "json \<Rightarrow> bool" where
  "has_password doc \<longleftrightarrow> (case jget doc ''canvas-password-hash'' of Some (JStr h) \<Rightarrow> h \<noteq> [] | _ \<Rightarrow> False)"

definition blank :: "string \<Rightarrow> bool" where
  \<comment> \<open>\<open>find_first_not_of\<close> the six white-space characters is \<open>npos\<close>\<close>
  "blank value \<longleftrightarrow> list_all isspace value"

definition visibility_change :: "json \<Rightarrow> json \<Rightarrow> string + settings_change" where
  "visibility_change doc event =
     (case jget event ''value'' of
        Some (JStr v) \<Rightarrow>
          if v \<notin> {''public'', ''private''} \<or> v = ''public'' \<and> has_password doc then Inl ''SETTINGS_INVALID_INPUT''
          else Inr (field_change doc ''visibility'' (JStr v))
      | _ \<Rightarrow> Inl ''SETTINGS_INVALID_INPUT'')"

definition text_change :: "crypto_lib \<Rightarrow> string \<Rightarrow> json \<Rightarrow> json \<Rightarrow> string + settings_change" where
  "text_change C field doc event =
     (case jget event ''value'' of
        Some (JStr v) \<Rightarrow>
          if field = ''name'' \<and> v = [] \<or> longer_than v (if field = ''description'' then 4000 else 256)
          then Inl ''SETTINGS_INVALID_INPUT''
          else if field = ''name'' then Inr (field_change doc ''canvas-name'' (JStr v))
          else if field = ''description'' then Inr (field_change doc ''description'' (JStr v))
          else if canvasIsPublic doc \<and> \<not> blank v then Inl ''SETTINGS_INVALID_INPUT''
          else if blank v then Inr (field_change doc ''canvas-password-hash'' JNull)
          else (case hashCanvasPassword C v of
                  None \<Rightarrow> Inl ''SETTINGS_STORAGE_ERROR''
                | Some h \<Rightarrow> Inr (field_change doc ''canvas-password-hash'' (JStr h)))
      | _ \<Rightarrow> Inl ''SETTINGS_INVALID_INPUT'')"

definition members_change :: "json \<Rightarrow> json list \<Rightarrow> (string \<times> json) list \<Rightarrow> int \<Rightarrow> settings_change" where
  "members_change doc people inner removed =
     \<lparr>sg_doc = put_field ''inner-group'' (JObj inner) (put_field ''people'' (JArr people) doc),
      sg_changes = [(''people'', JArr people), (''inner-group'', JObj inner)],
      sg_original = originals doc [''people'', ''inner-group''], sg_removed = removed\<rparr>"

definition group_members :: "(string \<times> json) list \<Rightarrow> string \<Rightarrow> json list" where
  \<comment> \<open>the members of a group, or of the empty group that replaces anything else\<close>
  "group_members inner gname = (case map_of inner gname of Some (JArr xs) \<Rightarrow> xs | _ \<Rightarrow> [])"

definition is_member :: "int \<Rightarrow> json \<Rightarrow> bool" where
  \<comment> \<open>\<open>member.is_number_integer() && member.get<int>() == id\<close>\<close>
  "is_member ident member \<longleftrightarrow> (case member of JInt i \<Rightarrow> as_int32 i = ident | _ \<Rightarrow> False)"

definition without_member :: "int \<Rightarrow> json \<Rightarrow> json" where
  "without_member ident members =
     (case members of JArr xs \<Rightarrow> JArr (filter (\<lambda>x. \<not> is_member ident x) xs) | j \<Rightarrow> j)"

fun find_handle :: "string \<Rightarrow> int \<Rightarrow> json list \<Rightarrow> (('w, 'v) backend, int) action" where
  \<comment> \<open>the first participant with the handle, or -1\<close>
  "find_handle nickname tag [] = ret (-1)"
| "find_handle nickname tag (JInt member # members) =
     bindA (with_sql (getUserHandle (as_int32 member))) (\<lambda>handle.
       if handle = Some (nickname, tag) then ret (as_int32 member) else find_handle nickname tag members)"
| "find_handle nickname tag (_ # members) = find_handle nickname tag members"

definition init_group :: "json \<Rightarrow> string" where
  "init_group doc = (case jget doc ''init-group'' of Some (JStr g) \<Rightarrow> g | _ \<Rightarrow> ''default'')"

definition participant_added ::
  "json \<Rightarrow> json list \<Rightarrow> (string \<times> json) list \<Rightarrow> string \<Rightarrow> int
   \<Rightarrow> (('w, 'v) backend, string + settings_change) action" where
  "participant_added doc people inner nickname tag =
     bindA (with_sql (getActiveUserId nickname tag)) (\<lambda>target.
       ret (if target \<le> 0 then Inl ''SETTINGS_USER_NOT_FOUND''
            else if isCanvasParticipant doc target then Inl ''SETTINGS_ALREADY_PARTICIPANT''
            else (let gname = init_group doc in
              Inr (members_change doc (people @ [JInt target])
                (obj_put gname (JArr (group_members inner gname @ [JInt target])) inner) 0))))"

definition participant_removed ::
  "json \<Rightarrow> json list \<Rightarrow> (string \<times> json) list \<Rightarrow> string \<Rightarrow> int
   \<Rightarrow> (('w, 'v) backend, string + settings_change) action" where
  "participant_removed doc people inner nickname tag =
     bindA (find_handle nickname tag people) (\<lambda>target.
       ret (if target \<le> 0 then Inl ''SETTINGS_USER_NOT_FOUND''
            else if (case jget doc ''admin-user-id'' of Some a \<Rightarrow> is_member target a | None \<Rightarrow> False)
            then Inl ''SETTINGS_OWNER_REQUIRED''
            else Inr (members_change doc (filter (\<lambda>x. \<not> is_member target x) people)
              (map (\<lambda>(gname, members). (gname, without_member target members)) inner) target)))"

definition participant_change ::
  "string \<Rightarrow> json \<Rightarrow> json \<Rightarrow> (('w, 'v) backend, string + settings_change) action" where
  "participant_change field doc event =
     (case (jget event ''nickname'', jget event ''tag_number'') of
        (Some (JStr nickname), Some (JInt tag)) \<Rightarrow>
          if nickname = [] \<or> longer_than nickname 200 \<or> as_int32 tag < 1 then ret (Inl ''SETTINGS_INVALID_INPUT'')
          else (case (jget doc ''people'', jget doc ''inner-group'') of
                  (Some (JArr people), Some (JObj inner)) \<Rightarrow>
                    (if field = ''participant_add'' then participant_added else participant_removed)
                      doc people inner nickname (as_int32 tag)
                | _ \<Rightarrow> ret (Inl ''SETTINGS_STORAGE_ERROR''))
      | _ \<Rightarrow> ret (Inl ''SETTINGS_INVALID_INPUT''))"

definition change_of ::
  "crypto_lib \<Rightarrow> string \<Rightarrow> json \<Rightarrow> json \<Rightarrow> (('w, 'v) backend, string + settings_change) action" where
  "change_of C field doc event =
     (if field = ''visibility'' then ret (visibility_change doc event)
      else if field \<in> {''name'', ''description'', ''password''} then ret (text_change C field doc event)
      else if field \<in> {''participant_add'', ''participant_remove''} then participant_change field doc event
      else ret (Inl ''SETTINGS_INVALID_INPUT''))"

section \<open>The service\<close>

record settings_result =
  sr_response :: json
  sr_changed_settings :: json
  sr_participant_ids :: "int set"
  sr_removed_user_id :: int
  sr_changed :: bool
  sr_canvas_name_changed :: bool
  sr_canvas_name :: string

definition no_change :: "int \<Rightarrow> json \<Rightarrow> settings_result" where
  "no_change removed response = \<lparr>sr_response = response, sr_changed_settings = JNull, sr_participant_ids = {},
     sr_removed_user_id = removed, sr_changed = False, sr_canvas_name_changed = False, sr_canvas_name = []\<rparr>"

definition settings_error :: "string \<Rightarrow> string \<Rightarrow> json" where
  "settings_error request_id code =
     JObj [(''code'', JStr code), (''ok'', JBool False), (''request_id'', JStr request_id),
       (''type'', JStr ''canvas_settings_result'')]"

definition settings_conflict :: "string \<Rightarrow> json \<Rightarrow> json" where
  "settings_conflict request_id seen =
     JObj [(''code'', JStr ''SETTINGS_CONFLICT''), (''ok'', JBool False), (''request_id'', JStr request_id),
       (''settings'', seen), (''type'', JStr ''canvas_settings_result'')]"

definition es_changes :: "(string \<times> json) list \<Rightarrow> (string \<times> json) list" where
  \<comment> \<open>the changes as a map ordered by field\<close>
  "es_changes changes = fold (\<lambda>(f, v). obj_put f v) changes []"

definition rollback_of :: "int \<Rightarrow> (string \<times> json) list \<Rightarrow> (string \<times> json) list \<Rightarrow> (string \<times> json) list" where
  "rollback_of revision original changes =
     map (\<lambda>(f, _). (f, if f = ''settings-revision'' then JInt revision
                       else (case map_of original f of Some v \<Rightarrow> v | None \<Rightarrow> JNull))) changes"

definition int64_max :: int where
  "int64_max = 2 ^ 63 - 1"

definition undo_settings ::
  "('w, 'v) backend_env \<Rightarrow> int \<Rightarrow> int \<Rightarrow> (string \<times> json) list \<Rightarrow> (('w, 'v) backend, unit) action" where
  \<comment> \<open>after the durable store refused the change: both stores are written back, failures only logged\<close>
  "undo_settings E i revision rollback =
     bindA (with_memory (compareAndSetFields (be_memory E) i (revision + 1) rollback)) (\<lambda>_.
     bindA (with_documents (patchCanvasFields (be_snapshots E) i rollback)) (\<lambda>_. ret ()))"

definition latest_document ::
  "('w, 'v) backend_env \<Rightarrow> int \<Rightarrow> json \<Rightarrow> (('w, 'v) backend, json) action" where
  "latest_document E i doc =
     bindA (with_memory (loadCanvas (be_memory E) (be_try_lock E) i)) (\<lambda>raw.
       ret (case raw of
              None \<Rightarrow> doc
            | Some t \<Rightarrow> (case jl_parse (me_lib (be_memory E)) t of None \<Rightarrow> doc | Some latest \<Rightarrow> latest)))"

definition people_ids :: "json \<Rightarrow> int set" where
  "people_ids doc =
     (case jget doc ''people'' of
        Some (JArr people) \<Rightarrow> set (concat (map (\<lambda>m. case m of JInt i \<Rightarrow> [as_int32 i] | _ \<Rightarrow> []) people))
      | _ \<Rightarrow> {})"

definition settings_done ::
  "int \<Rightarrow> string \<Rightarrow> string \<Rightarrow> int \<Rightarrow> json \<Rightarrow> settings_change \<Rightarrow> (('w, 'v) backend, settings_result) action" where
  \<comment> \<open>after both stores took the change\<close>
  "settings_done i field request_id revision doc change =
     bindA (modify (\<lambda>s. case live_canvas i s of
         None \<Rightarrow> s | Some c \<Rightarrow> put_canvas i (setSettingsRevision (revision + 1) c) s)) (\<lambda>_.
     bindA (lift_outcome (if field = ''name'' then get_string (case jget doc ''canvas-name'' of None \<Rightarrow> JNull | Some v \<Rightarrow> v)
                          else Inr [])) (\<lambda>name.
     bindA (canvasSettingsSnapshot doc) (\<lambda>settings.
       ret \<lparr>sr_response = JObj [(''ok'', JBool True), (''request_id'', JStr request_id), (''settings'', settings),
              (''type'', JStr ''canvas_settings_result'')],
            sr_changed_settings = settings, sr_participant_ids = people_ids doc, sr_removed_user_id = sg_removed change,
            sr_changed = True, sr_canvas_name_changed = (field = ''name''), sr_canvas_name = name\<rparr>)))"

definition store_settings ::
  "('w, 'v) backend_env \<Rightarrow> int \<Rightarrow> string \<Rightarrow> string \<Rightarrow> int \<Rightarrow> settings_change
   \<Rightarrow> (('w, 'v) backend, settings_result) action" where
  "store_settings E i field request_id revision change =
     (if revision = int64_max then raise Undefined_Behaviour
      else
        (let doc = put_field ''settings-revision'' (JInt (revision + 1)) (sg_doc change);
             changes = sg_changes change @ [(''settings-revision'', JInt (revision + 1))];
             durable = es_changes changes;
             refused = no_change (sg_removed change) (settings_error request_id ''SETTINGS_STORAGE_ERROR'')
         in bindA (with_memory (compareAndSetFields (be_memory E) i revision changes)) (\<lambda>stored.
            case stored of
              Conflict \<Rightarrow>
                bindA (latest_document E i doc) (\<lambda>latest.
                bindA (canvasSettingsSnapshot latest) (\<lambda>settings.
                  ret (no_change (sg_removed change) (settings_conflict request_id settings))))
            | Error \<Rightarrow> ret refused
            | Applied \<Rightarrow>
                bindA (with_documents (patchCanvasFields (be_snapshots E) i durable)) (\<lambda>patched.
                if patched then settings_done i field request_id revision doc change
                else bindA (undo_settings E i revision (rollback_of revision (sg_original change) durable))
                       (\<lambda>_. ret refused)))))"

definition update_settings ::
  "('w, 'v) backend_env \<Rightarrow> int \<Rightarrow> int \<Rightarrow> json \<Rightarrow> json \<Rightarrow> string
   \<Rightarrow> (('w, 'v) backend, settings_result) action" where
  "update_settings E i user_id doc event request_id =
     (let reject = (\<lambda>code. ret (no_change 0 (settings_error request_id code))) in
      if \<not> snd (groupsForUser doc user_id) then reject ''SETTINGS_ACCESS_DENIED''
      else (case jget event ''expected_revision'' of
        Some (JInt expected) \<Rightarrow>
          bindA (lift_outcome (value_int64 doc ''settings-revision'' 0)) (\<lambda>revision.
          if as_int64 expected \<noteq> revision then
            bindA (canvasSettingsSnapshot doc) (\<lambda>settings. ret (no_change 0 (settings_conflict request_id settings)))
          else (case jget event ''field'' of
            Some (JStr field) \<Rightarrow>
              bindA (change_of (sm_crypto (be_snapshots E)) field doc event) (\<lambda>change.
              case change of
                Inl code \<Rightarrow> reject code
              | Inr g \<Rightarrow> store_settings E i field request_id revision g)
          | _ \<Rightarrow> reject ''SETTINGS_INVALID_INPUT''))
      | _ \<Rightarrow> reject ''SETTINGS_REVISION_REQUIRED''))"

definition settings_execute ::
  "('w, 'v) backend_env \<Rightarrow> canvas option \<Rightarrow> int \<Rightarrow> int \<Rightarrow> string \<Rightarrow> int \<Rightarrow> json \<Rightarrow> string
   \<Rightarrow> (('w, 'v) backend, settings_result) action" where
  "settings_execute E canvas i user_id nickname tag event request_id =
     (let reject = (\<lambda>code. ret (no_change 0 (settings_error request_id code))) in
      case canvas of
        None \<Rightarrow> reject ''CANVAS_NOT_READY''
      | Some _ \<Rightarrow>
          bindA (with_memory (loadCanvas (be_memory E) (be_try_lock E) i)) (\<lambda>raw.
          case (case raw of None \<Rightarrow> None | Some t \<Rightarrow> jl_parse (me_lib (be_memory E)) t) of
            Some (JObj ms) \<Rightarrow>
              (let doc = JObj ms in
               bindA (with_sql (isCanvasAssignedToServer i (be_server_ip E) (be_server_port E))) (\<lambda>assigned.
               if \<not> assigned then reject ''CANVAS_NOT_READY''
               else bindA (with_sql (getActiveUserId nickname tag)) (\<lambda>active.
               if active \<noteq> user_id \<or> \<not> isCanvasParticipant doc user_id \<and> \<not> canvasIsPublic doc
               then reject ''SETTINGS_ACCESS_DENIED''
               else bindA (lift_outcome (value_string event ''type'' [])) (\<lambda>type.
               if type = ''canvas_settings_get'' then
                 bindA (canvasSettingsSnapshot doc) (\<lambda>settings.
                   ret (no_change 0 (JObj [(''settings'', settings), (''type'', JStr ''canvas_settings_snapshot'')])))
               else if type \<noteq> ''canvas_settings_update'' then reject ''SETTINGS_INVALID_INPUT''
               else update_settings E i user_id doc event request_id))))
          | _ \<Rightarrow> reject ''SETTINGS_STORAGE_ERROR''))"


section \<open>What the parts do to the state\<close>

definition only_sql :: "('w, 'v) backend \<Rightarrow> ('w, 'v) backend \<Rightarrow> bool" where
  \<comment> \<open>at most the SQL server has changed\<close>
  "only_sql s s' \<longleftrightarrow> s' = s\<lparr>bk_sql := bk_sql s'\<rparr>"

lemma only_sql_refl [simp, intro]: "only_sql s s"
  by (simp add: only_sql_def)

lemma only_sql_trans: "only_sql s s1 \<Longrightarrow> only_sql s1 s2 \<Longrightarrow> only_sql s s2"
  unfolding only_sql_def by (metis backend.update_convs(4) backend.select_convs(4) backend.surjective)

lemma only_sql_parts:
  assumes "only_sql s s'"
  shows "bk_cache s' = bk_cache s" "bk_redis s' = bk_redis s" "bk_documents s' = bk_documents s"
    "bk_canvases s' = bk_canvases s" "live_canvas j s' = live_canvas j s" "same_pool s s'"
proof -
  from assms have e: "s' = s\<lparr>bk_sql := bk_sql s'\<rparr>" by (simp add: only_sql_def)
  show "bk_cache s' = bk_cache s" "bk_redis s' = bk_redis s" "bk_documents s' = bk_documents s"
    "bk_canvases s' = bk_canvases s" "live_canvas j s' = live_canvas j s" "same_pool s s'"
    by (subst e, simp add: live_canvas_def same_pool_def)+
qed

lemma with_sql_only: "with_sql f s = (r, s') \<Longrightarrow> only_sql s s'"
  by (auto simp: with_sql_def only_sql_def split: prod.splits)

lemma participants_only: "participants_of ms s = (r, s') \<Longrightarrow> only_sql s s'"
proof (induction ms arbitrary: s r s' rule: participants_of.induct)
  case (2 member members)
  obtain h s1 where h: "with_sql (getUserHandle (as_int32 member)) s = (Inr h, s1)"
    by (metis prod.collapse with_sql_Inr)
  obtain r2 s2 where r: "participants_of members s1 = (r2, s2)" by force
  have "s' = s2" using 2(2) h r by (auto simp: bindA_eq split: sum.splits)
  with 2(1)[OF r] with_sql_only[OF h] show ?case by (auto intro: only_sql_trans)
qed auto

lemma snapshot_only: "canvasSettingsSnapshot doc s = (r, s') \<Longrightarrow> only_sql s s'"
proof -
  assume a: "canvasSettingsSnapshot doc s = (r, s')"
  let ?p = "case jget doc ''people'' of Some (JArr people) \<Rightarrow> participants_of people | _ \<Rightarrow> ret []"
  obtain r1 s1 where p: "?p s = (r1, s1)" by force
  have "only_sql s s1"
    using p by (auto split: option.splits json.splits dest: participants_only)
  moreover have "s' = s1"
    using a p by (auto simp: canvasSettingsSnapshot_def bindA_eq split: sum.splits)
      (metis lift_outcome_def old.sum.simps(5,6) raise_def ret_def snd_conv sum.exhaust)
  ultimately show ?thesis by simp
qed

lemma find_handle_only: "find_handle nickname tag ms s = (r, s') \<Longrightarrow> only_sql s s'"
proof (induction nickname tag ms arbitrary: s r s' rule: find_handle.induct)
  case (2 nickname tag member members)
  obtain h s1 where h: "with_sql (getUserHandle (as_int32 member)) s = (Inr h, s1)"
    by (metis prod.collapse with_sql_Inr)
  show ?case
  proof (cases "h = Some (nickname, tag)")
    case True
    then show ?thesis using 2(2) h with_sql_only[OF h] by (simp add: bindA_eq)
  next
    case False
    then have "find_handle nickname tag members s1 = (r, s')" using 2(2) h by (simp add: bindA_eq)
    from 2(1)[OF False this] with_sql_only[OF h] show ?thesis by (auto intro: only_sql_trans)
  qed
qed auto

lemma change_of_only: "change_of C field doc event s = (r, s') \<Longrightarrow> only_sql s s'"
  by (auto simp: change_of_def participant_change_def participant_added_def participant_removed_def bindA_eq
      split: if_splits option.splits json.splits prod.splits sum.splits dest: with_sql_only find_handle_only)

lemma update_settings_changed:
  assumes "update_settings E i user_id doc event request_id s = (Inr r, s')" and "sr_changed r"
  shows "\<exists>e revision field g s2. snd (groupsForUser doc user_id)
    \<and> jget event ''expected_revision'' = Some (JInt e) \<and> value_int64 doc ''settings-revision'' 0 = Inr revision
    \<and> as_int64 e = revision \<and> jget event ''field'' = Some (JStr field)
    \<and> change_of (sm_crypto (be_snapshots E)) field doc event s = (Inr (Inr g), s2)
    \<and> store_settings E i field request_id revision g s2 = (Inr r, s')"
proof -
  have no: "r' = r \<Longrightarrow> \<not> sr_changed r'" if "r = no_change k j" for k j r' using that by (simp add: no_change_def)
  have admin: "snd (groupsForUser doc user_id)"
    using assms no by (auto simp: update_settings_def Let_def split: if_splits)
  obtain e where e: "jget event ''expected_revision'' = Some (JInt e)"
    using assms no admin by (auto simp: update_settings_def Let_def split: option.splits json.splits)
  obtain revision where v: "value_int64 doc ''settings-revision'' 0 = Inr revision"
    using assms admin e by (cases "value_int64 doc ''settings-revision'' 0") (auto simp: update_settings_def Let_def bindA_eq)
  have eq: "as_int64 e = revision"
    using assms no admin e v by (auto simp: update_settings_def Let_def bindA_eq split: if_splits sum.splits prod.splits)
  obtain field where f: "jget event ''field'' = Some (JStr field)"
    using assms no admin e v eq by (auto simp: update_settings_def Let_def bindA_eq split: option.splits json.splits)
  obtain x s2 where c: "change_of (sm_crypto (be_snapshots E)) field doc event s = (Inr x, s2)"
    using assms admin e v eq f by (auto simp: update_settings_def Let_def bindA_eq split: prod.splits sum.splits)
  obtain g where g: "x = Inr g"
    using assms no admin e v eq f c by (auto simp: update_settings_def Let_def bindA_eq split: sum.splits)
  have "store_settings E i field request_id revision g s2 = (Inr r, s')"
    using assms admin e v eq f c g by (auto simp: update_settings_def Let_def bindA_eq)
  with admin e v eq f c g show ?thesis by blast
qed

lemma store_settings_changed:
  assumes "store_settings E i field request_id revision g s = (Inr r, s')" and "sr_changed r"
  defines "changes \<equiv> sg_changes g @ [(''settings-revision'', JInt (revision + 1))]"
  shows "fst (compareAndSetFields (be_memory E) i revision changes (bk_cache s) (bk_redis s)) = Some Applied
    \<and> fst (patchCanvasFields (be_snapshots E) i (es_changes changes) (bk_documents s))
    \<and> sr_participant_ids r = people_ids (put_field ''settings-revision'' (JInt (revision + 1)) (sg_doc g))
    \<and> (\<forall>c. live_canvas i s = Some c \<longrightarrow> live_canvas i s' = Some (setSettingsRevision (revision + 1) c))"
proof -
  let ?doc = "put_field ''settings-revision'' (JInt (revision + 1)) (sg_doc g)"
  have "revision \<noteq> int64_max" using assms(1) by (auto simp: store_settings_def)
  note def = store_settings_def[of E i field request_id revision g, folded changes_def, unfolded Let_def, simplified this if_False]
  obtain st s1 where cas: "with_memory (compareAndSetFields (be_memory E) i revision changes) s = (Inr st, s1)"
    using assms(1) by (auto simp: def bindA_eq split: prod.splits sum.splits)
  have ap: "st = Applied"
    using assms(1,2) cas
    by (cases st) (auto simp: def bindA_eq no_change_def latest_document_def split: prod.splits sum.splits)
  obtain p s2 where pa: "with_documents (patchCanvasFields (be_snapshots E) i (es_changes changes)) s1 = (Inr p, s2)"
    by (metis prod.collapse with_documents_Inr)
  have p: p
    using assms(1,2) cas ap pa by (cases p) (auto simp: def bindA_eq no_change_def split: prod.splits sum.splits)
  have dn: "settings_done i field request_id revision ?doc g s2 = (Inr r, s')"
    using assms(1) cas ap pa p by (auto simp: def bindA_eq)
  let ?s3 = "case live_canvas i s2 of None \<Rightarrow> s2 | Some c \<Rightarrow> put_canvas i (setSettingsRevision (revision + 1) c) s2"
  obtain j where sn: "canvasSettingsSnapshot ?doc ?s3 = (Inr j, s')" and ids: "sr_participant_ids r = people_ids ?doc"
    using dn by (auto simp: settings_done_def bindA_eq split: prod.splits sum.splits if_splits
        simp: lift_outcome_def)
  have "live_canvas i s' = live_canvas i ?s3" using snapshot_only[OF sn] only_sql_parts(5) by blast
  moreover have "live_canvas i s2 = live_canvas i s"
    using with_memory_pool[OF cas] with_documents_pool[OF pa] same_pool_live by metis
  ultimately have "\<forall>c. live_canvas i s = Some c \<longrightarrow> live_canvas i s' = Some (setSettingsRevision (revision + 1) c)"
    by auto
  moreover have "fst (compareAndSetFields (be_memory E) i revision changes (bk_cache s) (bk_redis s)) = Some Applied"
    using with_memory_Inr[OF cas] ap by simp
  moreover have "fst (patchCanvasFields (be_snapshots E) i (es_changes changes) (bk_documents s))"
    using with_documents_Inr[OF pa] with_memory_pool[OF cas] p by auto
  ultimately show ?thesis using ids by blast
qed

section \<open>Properties\<close>

lemma no_change_unchanged [simp]: "\<not> sr_changed (no_change k j)"
  by (simp add: no_change_def)

lemma settings_execute_update:
  assumes "settings_execute E canvas i user_id nickname tag event request_id s = (Inr r, s')" and "sr_changed r"
  shows "\<exists>t m w ms s1. loadCanvas (be_memory E) (be_try_lock E) i (bk_cache s) (bk_redis s) = (Some (Some t), m, w)
    \<and> jl_parse (me_lib (be_memory E)) t = Some (JObj ms)
    \<and> fst (isCanvasAssignedToServer i (be_server_ip E) (be_server_port E) (bk_sql s))
    \<and> (isCanvasParticipant (JObj ms) user_id \<or> canvasIsPublic (JObj ms))
    \<and> live_canvas i s1 = live_canvas i s
    \<and> update_settings E i user_id (JObj ms) event request_id s1 = (Inr r, s')"
proof -
  note no = assms(2)
  note run = assms(1)[unfolded settings_execute_def Let_def]
  obtain c where c: "canvas = Some c" using run no by (auto split: option.splits)
  obtain raw s1 where l: "with_memory (loadCanvas (be_memory E) (be_try_lock E) i) s = (Inr raw, s1)"
    using run c by (auto simp: bindA_eq split: prod.splits sum.splits)
  obtain t ms where t: "raw = Some t" "jl_parse (me_lib (be_memory E)) t = Some (JObj ms)"
    using run c l no by (auto simp: bindA_eq split: option.splits json.splits)
  obtain a s2 where a: "with_sql (isCanvasAssignedToServer i (be_server_ip E) (be_server_port E)) s1 = (Inr a, s2)"
    by (metis prod.collapse with_sql_Inr)
  have a1: a using run c l t a no by (cases a) (auto simp: bindA_eq)
  obtain n s3 where n: "with_sql (getActiveUserId nickname tag) s2 = (Inr n, s3)"
    by (metis prod.collapse with_sql_Inr)
  have p: "isCanvasParticipant (JObj ms) user_id \<or> canvasIsPublic (JObj ms)"
    using run c l t a a1 n no by (auto simp: bindA_eq split: if_splits)
  have "update_settings E i user_id (JObj ms) event request_id s3 = (Inr r, s')"
    using run c l t a a1 n p no
    by (auto simp: bindA_eq lift_outcome_Inr_iff split: if_splits prod.splits sum.splits)
  moreover have "live_canvas i s3 = live_canvas i s"
    using only_sql_parts(5)[OF with_sql_only[OF n]] only_sql_parts(5)[OF with_sql_only[OF a]] with_memory_pool[OF l]
    by (simp add: same_pool_live)
  ultimately show ?thesis using with_memory_Inr[OF l] t with_sql_Inr[OF a] with_memory_pool[OF l] a1 p by auto
qed

text \<open>
  C13. Settings are changed only by authority. When \<open>execute\<close> reports a change, the canvas is assigned to this
  server, the stored document lists the user or is public and has the user in its admin group, and the
  request expected exactly the revision the document has.
\<close>

theorem settings_changes_are_authorised:
  assumes "settings_execute E canvas i user_id nickname tag event request_id s = (Inr r, s')" and "sr_changed r"
  shows "\<exists>t m w ms e. loadCanvas (be_memory E) (be_try_lock E) i (bk_cache s) (bk_redis s) = (Some (Some t), m, w)
    \<and> jl_parse (me_lib (be_memory E)) t = Some (JObj ms)
    \<and> fst (isCanvasAssignedToServer i (be_server_ip E) (be_server_port E) (bk_sql s))
    \<and> (isCanvasParticipant (JObj ms) user_id \<or> canvasIsPublic (JObj ms)) \<and> snd (groupsForUser (JObj ms) user_id)
    \<and> jget event ''expected_revision'' = Some (JInt e)
    \<and> value_int64 (JObj ms) ''settings-revision'' 0 = Inr (as_int64 e)"
  using settings_execute_update[OF assms] update_settings_changed[OF _ assms(2)] by metis

lemma getActiveUserId_int: "getActiveUserId nickname tag w = (i, w') \<Longrightarrow> as_int32 i = i"
proof -
  have number: "number_int t = Some i \<Longrightarrow> as_int32 i = i" for t i
    by (auto simp: number_def Let_def as_int32_id split: option.splits if_splits)
  assume "getActiveUserId nickname tag w = (i, w')"
  then show ?thesis
    by (auto simp: getActiveUserId_def getActiveUserIdChecked_def scalar_def as_int32_id Let_def
        split: prod.splits option.splits if_splits dest: number)
qed

lemma find_handle_member:
  "find_handle nickname tag ms s = (Inr target, s') \<Longrightarrow> target \<noteq> -1 \<Longrightarrow> \<exists>x \<in> set ms. is_member target x"
proof (induction nickname tag ms arbitrary: s rule: find_handle.induct)
  case (2 nickname tag member members)
  obtain h s1 where h: "with_sql (getUserHandle (as_int32 member)) s = (Inr h, s1)"
    by (metis prod.collapse with_sql_Inr)
  then show ?case using 2 by (cases "h = Some (nickname, tag)") (auto simp: bindA_eq is_member_def)
qed (auto simp: is_member_def)

definition user_in_group :: "json \<Rightarrow> string \<Rightarrow> int \<Rightarrow> bool" where
  "user_in_group doc gname u \<longleftrightarrow>
     (case jget doc ''inner-group'' of
        Some (JObj inner) \<Rightarrow> (case map_of inner gname of Some members \<Rightarrow> group_has_user members u | None \<Rightarrow> False)
      | _ \<Rightarrow> False)"

lemma participant_iff:
  "jget doc ''people'' = Some (JArr people) \<Longrightarrow> isCanvasParticipant doc u \<longleftrightarrow> list_ex (is_member u) people"
  by (auto simp: isCanvasParticipant_def list_ex_iff is_member_def is_number_integer_def get_int_def split: json.splits)

lemma group_has_user_iff: "group_has_user members u \<longleftrightarrow> (case members of JArr xs \<Rightarrow> list_ex (is_member u) xs | _ \<Rightarrow> False)"
  by (auto simp: group_has_user_def list_ex_iff is_member_def is_number_integer_def get_int_def split: json.splits)

lemma members_change_fields:
  assumes "jget doc ''people'' = Some p"
  shows "jget (sg_doc (members_change doc people inner removed)) ''people'' = Some (JArr people)"
    "jget (sg_doc (members_change doc people inner removed)) ''inner-group'' = Some (JObj inner)"
    "f \<notin> {''people'', ''inner-group''} \<Longrightarrow> jget (sg_doc (members_change doc people inner removed)) f = jget doc f"
    "sg_removed (members_change doc people inner removed) = removed"
proof -
  obtain ms where "doc = JObj ms" using assms by (cases doc) (simp_all add: jget_def)
  then show "jget (sg_doc (members_change doc people inner removed)) ''people'' = Some (JArr people)"
    "jget (sg_doc (members_change doc people inner removed)) ''inner-group'' = Some (JObj inner)"
    "f \<notin> {''people'', ''inner-group''} \<Longrightarrow> jget (sg_doc (members_change doc people inner removed)) f = jget doc f"
    "sg_removed (members_change doc people inner removed) = removed"
    by (simp_all add: members_change_def put_field_def)
qed


lemma es_changes_lookup: "map_of (es_changes changes) f = map_of (rev changes) f"
proof -
  have "map_of (fold (\<lambda>(f, v). obj_put f v) changes ms) f
      = (case map_of (rev changes) f of Some v \<Rightarrow> Some v | None \<Rightarrow> map_of ms f)" for ms
    by (induction changes arbitrary: ms) (auto simp: map_add_def split: option.splits)
  then show ?thesis by (simp add: es_changes_def split: option.splits)
qed

lemma field_change_simps [simp]:
  "sg_changes (field_change doc f v) = [(f, v)]" "sg_removed (field_change doc f v) = 0"
  "sg_original (field_change doc f v) = originals doc [f]"
  by (simp_all add: field_change_def)

lemma change_of_changes:
  assumes "change_of C field doc event s = (Inr (Inr g), s')"
  shows "(\<exists>f v. f \<noteq> ''settings-revision'' \<and> g = field_change doc f v)
    \<or> (\<exists>people inner removed. g = members_change doc people inner removed)"
proof -
  have vis: "visibility_change doc event = Inr g \<Longrightarrow> \<exists>v. g = field_change doc ''visibility'' v"
    by (auto simp: visibility_change_def split: option.splits json.splits if_splits)
  have tx: "text_change C field doc event = Inr g \<Longrightarrow>
      \<exists>f v. f \<in> {''canvas-name'', ''description'', ''canvas-password-hash''} \<and> g = field_change doc f v"
    by (auto simp: text_change_def split: option.splits json.splits if_splits)
  have part: "participant_change field doc event s = (Inr (Inr g), s') \<Longrightarrow>
      \<exists>people inner removed. g = members_change doc people inner removed"
    by (auto simp: participant_change_def participant_added_def participant_removed_def bindA_eq Let_def
        split: if_splits option.splits json.splits prod.splits sum.splits)
  consider "field = ''visibility''" "visibility_change doc event = Inr g" | "text_change C field doc event = Inr g"
    | "participant_change field doc event s = (Inr (Inr g), s')"
    using assms by (auto simp: change_of_def split: if_splits)
  then show ?thesis
  proof cases
    case 1
    then show ?thesis using vis by (intro disjI1 exI[of _ "''visibility''"]) auto
  next
    case 2
    then obtain f v where "f \<in> {''canvas-name'', ''description'', ''canvas-password-hash''}" "g = field_change doc f v"
      using tx by blast
    then show ?thesis by (intro disjI1 exI[of _ f]) auto
  qed (use part in blast)
qed



section \<open>A change of the settings\<close>

definition settings_document :: json where
  "settings_document = JObj [(''canvas-name'', JStr ''a''), (''inner-group'', JObj [(''admin-group'', JArr [JInt 9])]),
     (''people'', JArr []), (''settings-revision'', JInt 4), (''visibility'', JStr ''public'')]"

definition settings_env :: "(ref_world, ref_store) backend_env" where
  \<comment> \<open>stores that take every change\<close>
  "settings_env = life_backend_env\<lparr>
     be_memory := ref_env\<lparr>me_exec := (\<lambda>cmd w.
       if length cmd = 2 \<and> cmd ! 0 = ''JSON.GET'' then (Some (encode settings_document), w)
       else if hd cmd = ''EVAL'' then (Some ''OK'', w) else ref_exec cmd w)\<rparr>,
     be_snapshots := sample_snapshots\<lparr>sm_storage := ref_documents\<lparr>ds_patch := (\<lambda>x i d w. (True, w))\<rparr>\<rparr>\<rparr>"

definition settings_state :: "(ref_world, ref_store) backend" where
  "settings_state = life_backend\<lparr>bk_cache := createState ref_options, bk_redis := []\<rparr>"

definition rename_event :: json where
  "rename_event = JObj [(''expected_revision'', JInt 4), (''field'', JStr ''name''),
     (''type'', JStr ''canvas_settings_update''), (''value'', JStr ''b'')]"

lemma settings_env_simps [simp]:
  "be_server_ip settings_env = ''10.0.0.1''" "be_server_port settings_env = 80"
  "me_lib (be_memory settings_env) = ref_lib" "be_try_lock settings_env = (\<lambda>_. True)"
  "bk_sql settings_state = life_registry" "live_canvas 5 settings_state = Some (canvas_new 5 ''10.1.0.1'' 6379)"
  by (simp_all add: settings_env_def settings_state_def life_backend_env_def life_backend_def ref_env_def live_canvas_def)

lemma settings_assigned: "\<exists>db. isCanvasAssignedToServer 5 ''10.0.0.1'' 80 life_registry = (True, db)
    \<and> sv_moments db = sv_moments life_registry \<and> sv_fates db = sv_fates life_registry \<and> sv_db db = sv_db life_registry"
proof -
  have t: "number_text 80 = ''80''" by code_simp
  have r: "assigned_script 5 ''10.0.0.1'' ''80'' sample_moment (sv_db life_registry)
      = Some (one_row [] [Some ''1''], sv_db life_registry)"
    by code_simp
  have n: "scalar (Some (one_row [] [Some ''1''])) = Some 1" by code_simp
  have "isValidName ''@canvas_id''" "isValidName ''@server_ip''" "isValidName ''@server_port''" by code_simp+
  then have v: "isValid (addVarchar ''@server_port'' ''80'' (addVarchar ''@server_ip'' ''10.0.0.1''
      (addInt ''@canvas_id'' 5 \<lparr>sc_statement = ''assigned'', sc_parameters = []\<rparr>)))"
    by (simp add: isValid_def validationError_def addInt_def addVarchar_def push_parameter_def parameterDeclarations_def
        kMaxStatementBytes_def kMaxRpcTextBytes_def)
  have s: "sv_moments life_registry k = sample_moment" "sv_fates life_registry k = Delivered" for k
    by (simp_all add: life_registry_def sample_registry_def)
  show ?thesis using r n v by (simp add: isCanvasAssignedToServer_def run_sql_def t s Let_def)
qed

lemma settings_user:
  assumes "sv_moments db = sv_moments life_registry" "sv_fates db = sv_fates life_registry" "sv_db db = sv_db life_registry"
  shows "\<exists>db'. getActiveUserId ''kim'' 7 db = (9, db')"
proof -
  have r: "user_id_script ''kim'' 7 sample_moment (sv_db life_registry)
      = Some (one_row ''user_id'' [Some ''9''], sv_db life_registry)"
    by (simp add: user_id_script_def one_row_def sample_moment_def life_registry_def sample_registry_def)
      code_simp
  have n: "scalar (Some (one_row ''user_id'' [Some ''9''])) = Some 9" by code_simp
  have "isValidName ''@nickname''" "isValidName ''@tag''" by code_simp+
  then have v: "isValid (addInt ''@tag'' 7 (addText ''@nickname'' ''kim'' \<lparr>sc_statement = ''user'', sc_parameters = []\<rparr>))"
    by (simp add: isValid_def validationError_def addInt_def addText_def push_parameter_def parameterDeclarations_def
        kMaxStatementBytes_def kMaxRpcTextBytes_def)
  have s: "sv_moments db k = sample_moment" "sv_fates db k = Delivered" for k
    using assms by (simp_all add: life_registry_def sample_registry_def)
  show ?thesis using r n v assms(3) by (simp add: getActiveUserId_def getActiveUserIdChecked_def run_sql_def s Let_def)
qed

definition settings_loaded :: "cache_manager \<times> ref_world" where
  "settings_loaded = snd (loadCanvas (be_memory settings_env) (\<lambda>_. True) 5 (createState ref_options) [])"

lemma settings_steps:
  "fst (loadCanvas (be_memory settings_env) (\<lambda>_. True) 5 (createState ref_options) []) = Some (Some (encode settings_document))"
  "fst (compareAndSetFields (be_memory settings_env) 5 4 [(''canvas-name'', JStr ''b''), (''settings-revision'', JInt 5)]
     (fst settings_loaded) (snd settings_loaded)) = Some Applied"
  "fst (patchCanvasFields (be_snapshots settings_env) 5 [(''canvas-name'', JStr ''b''), (''settings-revision'', JInt 5)] [])"
  "es_changes [(''canvas-name'', JStr ''b''), (''settings-revision'', JInt 5)]
     = [(''canvas-name'', JStr ''b''), (''settings-revision'', JInt 5)]"
  by code_simp+

definition renamed_document :: json where
  "renamed_document = put_field ''settings-revision'' (JInt 5) (put_field ''canvas-name'' (JStr ''b'') settings_document)"

lemma settings_run:
  "\<exists>r s'. settings_execute settings_env (Some (canvas_new 5 ''10.1.0.1'' 6379)) 5 9 ''kim'' 7 rename_event ''q''
      settings_state = (Inr r, s') \<and> sr_changed r"
proof -
  obtain lm lw where l: "loadCanvas (be_memory settings_env) (\<lambda>_. True) 5 (createState ref_options) []
      = (Some (Some (encode settings_document)), lm, lw)"
    using settings_steps(1) by (metis prod.collapse)
  have lm: "settings_loaded = (lm, lw)" by (simp add: settings_loaded_def l)
  obtain cm cw where c: "compareAndSetFields (be_memory settings_env) 5 4
      [(''canvas-name'', JStr ''b''), (''settings-revision'', JInt 5)] lm lw = (Some Applied, cm, cw)"
    using settings_steps(2)[unfolded lm fst_conv snd_conv] by (metis prod.collapse)
  obtain v where p: "patchCanvasFields (be_snapshots settings_env) 5
      [(''canvas-name'', JStr ''b''), (''settings-revision'', JInt 5)] [] = (True, v)"
    using settings_steps(3) by (simp add: prod_eq_iff)
  have wf: "json_wf settings_document" by code_simp
  then have parse: "jl_parse ref_lib (encode settings_document) = Some settings_document"
    using json_lib_okD(1)[OF ref_lib_ok wf] by (simp add: ref_lib_def)
  obtain ms where ms: "settings_document = JObj ms" by (simp add: settings_document_def)
  obtain db where a: "isCanvasAssignedToServer 5 ''10.0.0.1'' 80 life_registry = (True, db)"
      "sv_moments db = sv_moments life_registry" "sv_fates db = sv_fates life_registry" "sv_db db = sv_db life_registry"
    using settings_assigned by blast
  obtain db' where u: "getActiveUserId ''kim'' 7 db = (9, db')" using settings_user[OF a(2-4)] by blast
  have facts: "isCanvasParticipant settings_document 9 \<or> canvasIsPublic settings_document"
    "value_string rename_event ''type'' [] = Inr ''canvas_settings_update''"
    "jget rename_event ''expected_revision'' = Some (JInt 4)" "jget rename_event ''field'' = Some (JStr ''name'')"
    "jget renamed_document ''people'' = Some (JArr [])" "jget renamed_document ''canvas-name'' = Some (JStr ''b'')"
    by code_simp+
  have change: "text_change (sm_crypto (be_snapshots settings_env)) ''name'' settings_document rename_event
       = Inr (field_change settings_document ''canvas-name'' (JStr ''b''))"
    by (simp add: text_change_def rename_event_def longer_than_def jget_def)
  have numbers: "snd (groupsForUser settings_document 9)" "value_int64 settings_document ''settings-revision'' 0 = Inr 4"
    "as_int64 4 = 4" "4 \<noteq> int64_max"
    by (simp_all add: settings_document_def groupsForUser_def group_has_user_def is_number_integer_def get_int_def
        value_int64_def value_with_def get_int64_def as_int32_id as_int64_id int64_max_def)
  obtain view where w: "settings_view renamed_document [] = Inr view"
    by (simp add: settings_view_def renamed_document_def settings_document_def put_field_def value_int_def value_int64_def
        value_string_def value_with_def get_string_def get_int64_def as_int64_id)
  have doc: "put_field ''settings-revision'' (JInt 5) (sg_doc (field_change settings_document ''canvas-name'' (JStr ''b'')))
      = renamed_document"
    by (simp add: field_change_def renamed_document_def)
  have st: "bk_cache settings_state = createState ref_options" "bk_redis settings_state = []"
    "bk_documents settings_state = []"
    by (simp_all add: settings_state_def life_backend_def)
  define b where "b = settings_state\<lparr>bk_cache := lm, bk_redis := lw, bk_sql := db'\<rparr>"
  have b: "bk_cache b = lm" "bk_redis b = lw" "bk_documents b = []"
    "live_canvas 5 (b\<lparr>bk_cache := cm, bk_redis := cw, bk_documents := v\<rparr>) = Some (canvas_new 5 ''10.1.0.1'' 6379)"
    by (simp_all add: b_def st) (simp add: live_canvas_def settings_state_def life_backend_def)
  have upd: "\<exists>r s'. store_settings settings_env 5 ''name'' ''q'' 4 (field_change settings_document ''canvas-name'' (JStr ''b'')) b
      = (Inr r, s') \<and> sr_changed r"
    using numbers(4) facts(5,6)
    by (simp add: store_settings_def Let_def bindA_eq with_memory_def with_documents_def b c p doc settings_steps(4)
        settings_done_def canvasSettingsSnapshot_def w get_string_def)
  then have "\<exists>r s'. update_settings settings_env 5 9 settings_document rename_event ''q'' b = (Inr r, s') \<and> sr_changed r"
    using facts change numbers by (simp add: update_settings_def bindA_eq change_of_def)
  then show ?thesis
    using facts(1,2)
    by (simp add: settings_execute_def Let_def bindA_eq with_memory_def with_sql_def st l parse[unfolded ms] ms a u b_def
        del: encode.simps)
qed

theorem settings_changes_are_authorised_witness:
  "\<exists>t m w ms. loadCanvas (be_memory settings_env) (\<lambda>_. True) 5 (createState ref_options) [] = (Some (Some t), m, w)
    \<and> jl_parse ref_lib t = Some (JObj ms) \<and> snd (groupsForUser (JObj ms) 9)"
proof -
  obtain r s' where r: "settings_execute settings_env (Some (canvas_new 5 ''10.1.0.1'' 6379)) 5 9 ''kim'' 7 rename_event ''q''
      settings_state = (Inr r, s')" "sr_changed r"
    using settings_run by blast
  have st: "bk_cache settings_state = createState ref_options" "bk_redis settings_state = []"
    by (simp_all add: settings_state_def life_backend_def)
  from settings_changes_are_authorised[OF r] show ?thesis unfolding settings_env_simps st by blast
qed





section \<open>The types of the fields\<close>

definition field_typed :: "string \<Rightarrow> json \<Rightarrow> bool" where
  \<comment> \<open>the type of a field of a canvas document that the settings touch\<close>
  "field_typed f v \<longleftrightarrow>
     (f = ''people'' \<longrightarrow> is_array v)
   \<and> (f = ''inner-group'' \<longrightarrow> is_object v)
   \<and> (f \<in> {''canvas-name'', ''description''} \<longrightarrow> is_string v)
   \<and> (f = ''visibility'' \<longrightarrow> v \<in> {JStr ''public'', JStr ''private''})
   \<and> (f = ''canvas-password-hash'' \<longrightarrow> v = JNull \<or> is_string v)
   \<and> (f = ''settings-revision'' \<longrightarrow> is_number_integer v)"

definition canvas_typed :: "json \<Rightarrow> bool" where
  "canvas_typed doc \<longleftrightarrow> json_wf doc \<and> is_object doc \<and> (\<forall>f v. jget doc f = Some v \<longrightarrow> field_typed f v)"

lemma canvas_typed_put:
  assumes "canvas_typed doc" "json_wf v" "field_typed f v"
  shows "canvas_typed (put_field f v doc)"
proof -
  obtain ms where ms: "doc = JObj ms" using assms(1) by (auto simp: canvas_typed_def is_object_iff)
  have "json_wf (JObj (obj_put f v ms))" using assms(1,2) ms by (auto simp: canvas_typed_def simp del: json_wf.simps)
  then show ?thesis using assms(1,3) ms by (auto simp: canvas_typed_def put_field_def simp del: json_wf.simps)
qed

lemma members_change_typed:
  assumes "canvas_typed doc" "json_wf (JArr people)" "json_wf (JObj inner)"
  shows "canvas_typed (sg_doc (members_change doc people inner removed))"
  using assms by (auto simp: members_change_def field_typed_def intro!: canvas_typed_put simp del: json_wf.simps)

lemma without_member_wf: "json_wf members \<Longrightarrow> json_wf (without_member target members)"
  by (cases members) (auto simp: without_member_def)

lemma participant_change_typed:
  assumes "participant_change field doc event s = (Inr (Inr g), s')" "canvas_typed doc"
  shows "canvas_typed (sg_doc g)"
proof -
  obtain people inner nick t where p: "jget doc ''people'' = Some (JArr people)"
      "jget doc ''inner-group'' = Some (JObj inner)"
      "(if field = ''participant_add'' then participant_added else participant_removed) doc people inner nick t s
         = (Inr (Inr g), s')"
    using assms(1) by (auto simp: participant_change_def split: option.splits json.splits if_splits)
  have wf: "json_wf (JArr people)" "json_wf (JObj inner)"
    using p(1,2) assms(2) jget_wf by (auto simp: canvas_typed_def simp del: json_wf.simps)
  show ?thesis
  proof (cases "field = ''participant_add''")
    case True
    obtain target s1 where w: "with_sql (getActiveUserId nick t) s = (Inr target, s1)"
      by (metis prod.collapse with_sql_Inr)
    then have i: "as_int32 target = target" using with_sql_Inr[OF w] getActiveUserId_int by auto
    have g: "g = members_change doc (people @ [JInt target])
           (obj_put (init_group doc) (JArr (group_members inner (init_group doc) @ [JInt target])) inner) 0"
      using p(3) True w by (auto simp: participant_added_def bindA_eq Let_def split: if_splits)
    have t: "json_wf (JInt target)" using as_int32_range[of target] i by simp
    have m: "json_wf (JArr (group_members inner (init_group doc)))"
      using json_wf_lookup[OF wf(2)] by (auto simp: group_members_def split: option.split json.split simp del: json_wf.simps) simp_all
    have "json_wf (JArr (people @ [JInt target]))" "json_wf (JArr (group_members inner (init_group doc) @ [JInt target]))"
      using wf(1) t m by auto
    then show ?thesis using g wf(2) assms(2) by (auto intro!: members_change_typed json_wf_put simp del: json_wf.simps)
  next
    case False
    obtain r s1 where w: "find_handle nick t people s = (r, s1)" by force
    obtain target where r: "r = Inr target"
      using p(3) False w by (cases r) (auto simp: participant_removed_def bindA_eq)
    have g: "g = members_change doc (filter (\<lambda>x. \<not> is_member target x) people)
           (map (\<lambda>(gname, members). (gname, without_member target members)) inner) target"
      using p(3) False w r by (auto simp: participant_removed_def bindA_eq split: if_splits)
    have "map fst (map (\<lambda>(gname, members). (gname, without_member target members)) inner) = map fst inner"
      by auto
    then have "json_wf (JObj (map (\<lambda>(gname, members). (gname, without_member target members)) inner))"
      using wf(2) without_member_wf[of _ target] by (simp only: json_wf.simps) (auto simp del: json_wf.simps)
    moreover have "json_wf (JArr (filter (\<lambda>x. \<not> is_member target x) people))" using wf(1) by auto
    ultimately show ?thesis using g assms(2) by (auto intro!: members_change_typed simp del: json_wf.simps)
  qed
qed



end
