(* ===== verification/Query_Base.thy ===== *)
theory Query_Base
  imports Canvas_Settings Broker_Ops Canvas_Mentions
begin

text \<open>
  \<^verbatim>\<open>cpp/src/service/CanvasQueryService.cpp\<close>, first part: the route of a request, the envelope of its
  answer, the reading of single items, and \<open>join\<close>, which answers a connecting client with the items it may
  see. Shown here: a client is joined only if the registry knows it and the canvas admits it, and is sent
  only items its groups may access.
\<close>

section \<open>The service\<close>

record ('w, 'v) query_env =
  qe_backend :: "('w, 'v) backend_env"
  qe_sha256 :: "string \<Rightarrow> 8 word list"       \<comment> \<open>\<^verbatim>\<open>SHA256\<close> of OpenSSL\<close>
  qe_fp :: fp_lib
  qe_order :: "string set \<Rightarrow> string list"     \<comment> \<open>the order in which a hash set is iterated\<close>

abbreviation qe_memory :: "('w, 'v) query_env \<Rightarrow> 'w mc_env" where
  "qe_memory Q \<equiv> be_memory (qe_backend Q)"

abbreviation qe_lib :: "('w, 'v) query_env \<Rightarrow> json_lib" where
  "qe_lib Q \<equiv> me_lib (be_memory (qe_backend Q))"

abbreviation invalid :: "string \<Rightarrow> ('s, 'a) action" where
  "invalid code \<equiv> raise (Thrown (InvalidArgument code))"

abbreviation unavailable :: "string \<Rightarrow> ('s, 'a) action" where
  "unavailable code \<equiv> raise (Thrown (RuntimeError code))"

abbreviation require :: "bool \<Rightarrow> string \<Rightarrow> ('s, 'a) action \<Rightarrow> ('s, 'a) action" where
  "require c code k \<equiv> requireA c (InvalidArgument code) k"

definition const_at :: "json \<Rightarrow> string \<Rightarrow> ('s, json) action" where
  \<comment> \<open>\<open>operator[]\<close> on a constant object: a missing key is undefined behaviour, another type an exception\<close>
  "const_at j k =
     (case j of
        JObj ms \<Rightarrow> (case map_of ms k of Some v \<Rightarrow> ret v | None \<Rightarrow> raise Undefined_Behaviour)
      | _ \<Rightarrow> raise (Thrown JsonException))"

definition short_text :: "json \<Rightarrow> string \<Rightarrow> bool" where
  \<comment> \<open>a string of 1 to 128 bytes\<close>
  "short_text j k \<longleftrightarrow> (case jget j k of Some (JStr s) \<Rightarrow> s \<noteq> [] \<and> \<not> longer_than s 128 | _ \<Rightarrow> False)"

definition routing :: "json \<Rightarrow> json outcome" where
  "routing input =
     bindE (value_json input ''route'' (JObj [])) (\<lambda>route.
     (case jget route ''canvas_id'' of
        Some (JInt i) \<Rightarrow>
          requireE (0 < as_int32 i \<and> short_text route ''connection_id'' \<and> short_text route ''request_id'') ''ROUTE_INVALID''
            (Inr (object_of [(''canvas_id'', JInt i), (''connection_id'', the (jget route ''connection_id'')),
               (''request_id'', the (jget route ''request_id''))]))
      | _ \<Rightarrow> Inl (InvalidArgument ''ROUTE_INVALID'')))"

definition envelope :: "json \<Rightarrow> json \<Rightarrow> json list \<Rightarrow> ('s, json) action" where
  "envelope route response broadcasts =
     bindA (const_at route ''request_id'') (\<lambda>request.
     bindA (lift_outcome (jput response ''request_id'' request)) (\<lambda>answer.
       ret (object_of [(''route'', route), (''response'', answer), (''broadcasts'', JArr broadcasts)])))"

definition query_item :: "('w, 'v) query_env \<Rightarrow> int \<Rightarrow> string \<Rightarrow> (('w, 'v) backend, json option) action" where
  \<comment> \<open>the function \<open>readItem\<close> of the service\<close>
  "query_item Q i item_id =
     bindA (with_memory (readItem (qe_memory Q) (be_try_lock (qe_backend Q)) i item_id [])) (\<lambda>raw.
     case raw of
       None \<Rightarrow> unavailable ''STORAGE_UNAVAILABLE''
     | Some t \<Rightarrow>
         (case jl_parse (qe_lib Q) t of
            None \<Rightarrow> raise (Thrown JsonException)
          | Some (JArr []) \<Rightarrow> ret None
          | Some (JArr (x # _)) \<Rightarrow> ret (Some x)
          | Some _ \<Rightarrow> unavailable ''STORAGE_UNAVAILABLE''))"

definition commentRoomId :: "('w, 'v) query_env \<Rightarrow> string \<Rightarrow> string" where
  "commentRoomId Q object_id = ''object-comment-'' @ toHex (qe_sha256 Q object_id)"

section \<open>The items a user sees\<close>

definition json_entries :: "json \<Rightarrow> (string \<times> json) list" where
  \<comment> \<open>\<open>items()\<close>: the members of an object, the elements of an array under their numbers, a scalar under the empty key\<close>
  "json_entries j =
     (case j of
        JObj ms \<Rightarrow> ms
      | JArr xs \<Rightarrow> zip (map to_string [0 ..< length xs]) xs
      | JNull \<Rightarrow> []
      | _ \<Rightarrow> [([], j)])"

definition without_history :: "json \<Rightarrow> json" where
  \<comment> \<open>a chat room without its messages and receipts\<close>
  "without_history item =
     (if isChatRoomItem item
      then (case item of JObj ms \<Rightarrow> JObj (obj_erase ''requests'' (obj_erase ''data'' ms)) | j \<Rightarrow> j)
      else item)"

fun visible_items :: "string set \<Rightarrow> bool \<Rightarrow> (string \<times> json) list \<Rightarrow> (string \<times> json) list \<Rightarrow> (string \<times> json) list outcome" where
  "visible_items groups admin [] seen = Inr seen"
| "visible_items groups admin ((k, item) # rest) seen =
     bindE (value_string item ''kind'' []) (\<lambda>kind.
       visible_items groups admin rest
         (if kind \<noteq> ''host-tombstone'' \<and> queryCanAccess item groups admin
          then obj_put k (without_history item) seen else seen))"

definition accepted_count :: "json \<Rightarrow> int outcome" where
  "accepted_count receipt = (if is_null receipt then Inr 0 else value_int64 receipt ''count'' 0)"

section \<open>Joining\<close>

definition join_principal :: "('w, 'v) query_env \<Rightarrow> json \<Rightarrow> int \<Rightarrow> (string \<times> int \<times> int) outcome" where
  \<comment> \<open>the checks before the registry is asked: nickname, tag and settings revision\<close>
  "join_principal Q input i =
     bindE (value_int input ''ws_port'' 0) (\<lambda>port.
     requireE (port = be_ws_port (qe_backend Q)) ''SERVER_ROUTE_INVALID''
     (bindE (value_json input ''principal'' (JObj [])) (\<lambda>principal.
      requireE (is_object principal) ''CANVAS_ACCESS_UNAUTHORIZED''
      (bindE (value_int principal ''canvas_id'' 0) (\<lambda>canvas.
       requireE (canvas = i) ''CANVAS_ACCESS_UNAUTHORIZED''
       (bindE (value_string principal ''nickname'' []) (\<lambda>nickname.
        bindE (value_int principal ''tag_number'' (-1)) (\<lambda>tag.
        bindE (value_int64 principal ''settings_revision'' (-1)) (\<lambda>revision.
        requireE (nickname \<noteq> [] \<and> 0 \<le> tag \<and> 0 \<le> revision) ''CANVAS_ACCESS_UNAUTHORIZED''
          (Inr (nickname, tag, revision)))))))))))"

definition joined_items :: "json \<Rightarrow> json \<Rightarrow> string set \<Rightarrow> bool \<Rightarrow> json outcome" where
  "joined_items input doc groups admin =
     bindE (value_bool input ''include_items'' True) (\<lambda>wanted.
     (case (if wanted then jget doc ''items'' else None) of
        Some (JObj items) \<Rightarrow> bindE (visible_items groups admin items []) (\<lambda>seen. Inr (JObj seen))
      | _ \<Rightarrow> Inr (JObj [])))"

definition join_answer ::
  "('w, 'v) query_env \<Rightarrow> json \<Rightarrow> json \<Rightarrow> int \<Rightarrow> int \<Rightarrow> string \<Rightarrow> int \<Rightarrow> int \<Rightarrow> json
   \<Rightarrow> (('w, 'v) backend, json) action" where
  \<comment> \<open>from the reading of the groups to the answer\<close>
  "join_answer Q input route i user_id nickname tag revision doc =
     (let (groups, admin) = groupsForUser doc user_id;
          group_list = JArr (map JStr (qe_order Q groups)) in
      bindA (lift_outcome (joined_items input doc groups admin)) (\<lambda>visible.
      bindA (lift_outcome (value_string input ''client_id'' [])) (\<lambda>client.
      bindA (with_memory (brokerSyncState (qe_memory Q) (be_try_lock (qe_backend Q)) i (int_text user_id @ '':'' @ client))) (\<lambda>sync.
      case sync of
        None \<Rightarrow> unavailable ''STORAGE_UNAVAILABLE''
      | Some sync \<Rightarrow>
          bindA (lift_outcome (value_json sync ''receipt'' JNull)) (\<lambda>receipt.
          bindA (const_at sync ''revision'') (\<lambda>current.
          bindA (lift_outcome (accepted_count receipt)) (\<lambda>accepted.
          bindA (lift_outcome (value_string doc ''canvas-name'' [])) (\<lambda>name.
            ret (object_of [
              (''route'', route),
              (''identity'', object_of [(''user_id'', JInt user_id), (''nickname'', JStr nickname), (''tag_number'', JInt tag),
                 (''groups'', group_list), (''is_admin'', JBool admin), (''settings_revision'', JInt revision),
                 (''canvas_id'', JInt i)]),
              (''response'', object_of [(''type'', JStr ''init_items''), (''canvas_id'', JInt i), (''items'', visible),
                 (''groups'', group_list), (''sync_protocol'', JInt 2), (''sync_user_id'', JInt user_id),
                 (''revision'', current), (''client_id'', JStr client), (''accepted_count'', JInt accepted),
                 (''canvas_name'', JStr name), (''status'', JStr ''connected''), (''server_protocol'', JStr ''Phoenix'')])])))))))))"

definition join :: "('w, 'v) query_env \<Rightarrow> json \<Rightarrow> (('w, 'v) backend, json) action" where
  "join Q input =
     (let E = qe_backend Q in
      bindA (lift_outcome (routing input)) (\<lambda>route.
      bindA (lift_outcome (value_int route ''canvas_id'' 0)) (\<lambda>i.
      bindA (lift_outcome (join_principal Q input i)) (\<lambda>(nickname, tag, revision).
      bindA (with_sql (getActiveUserId nickname tag)) (\<lambda>user_id.
      bindA (if user_id \<le> 0 then ret False else isCanvasAccessAuthorized E i user_id revision) (\<lambda>authorized.
      require authorized ''CANVAS_ACCESS_UNAUTHORIZED''
      (bindA (loadForQuery E i) (\<lambda>canvas.
      case canvas of
        None \<Rightarrow> unavailable ''CANVAS_NOT_READY''
      | Some c \<Rightarrow>
          if cv_unloading c then unavailable ''CANVAS_NOT_READY''
          else bindA (with_memory (loadCanvas (qe_memory Q) (be_try_lock E) i)) (\<lambda>raw.
          case raw of
            None \<Rightarrow> unavailable ''STORAGE_UNAVAILABLE''
          | Some t \<Rightarrow>
              (case jl_parse (qe_lib Q) t of
                 None \<Rightarrow> raise (Thrown JsonException)
               | Some doc \<Rightarrow>
                   bindA (lift_outcome (value_int64 doc ''settings-revision'' 0)) (\<lambda>current.
                   require (current = revision) ''SETTINGS_CHANGED''
                   (join_answer Q input route i user_id nickname tag revision doc))))))))))))"


section \<open>What is answered\<close>

lemma object_of_get: "jget (object_of ms) k = map_of (rev ms) k"
proof -
  have "map_of (fold (\<lambda>(k, v). obj_put k v) ms xs) k = (case map_of (rev ms) k of Some v \<Rightarrow> Some v | None \<Rightarrow> map_of xs k)" for xs
    by (induction ms arbitrary: xs) (auto simp: map_add_def split: option.splits)
  then show ?thesis by (simp add: object_of_def split: option.splits)
qed

lemma object_of_object [simp]: "is_object (object_of ms)"
  by (simp add: object_of_def)

lemma jput_get: "jput j k v = Inr j' \<Longrightarrow> jget j' f = (if f = k then Some v else jget j f)"
  by (auto simp: jput_def jget_def split: json.splits)

definition answered :: "json \<Rightarrow> json \<Rightarrow> bool" where
  \<comment> \<open>an answer on the route, carrying its request id\<close>
  "answered route answer \<longleftrightarrow> jget answer ''route'' = Some route
     \<and> (\<exists>response. jget answer ''response'' = Some response
          \<and> jget response ''request_id'' = jget route ''request_id'' \<and> jget route ''request_id'' \<noteq> None)"

definition answers :: "json \<Rightarrow> ('s, json) action \<Rightarrow> bool" where
  "answers route m \<longleftrightarrow> (\<forall>s a s'. m s = (Inr a, s') \<longrightarrow> answered route a)"

lemma const_at_Inr: "const_at j k s = (Inr v, s') \<longleftrightarrow> jget j k = Some v \<and> s' = s"
  by (auto simp: const_at_def jget_def split: json.splits option.splits)

lemma answers_envelope [intro]: "answers route (envelope route response broadcasts)"
  by (auto simp: answers_def envelope_def bindA_Inr_iff const_at_Inr lift_outcome_Inr_iff answered_def object_of_get jput_get)

lemma answers_raise [simp, intro]: "answers route (raise e)"
  by (simp add: answers_def)

lemma answers_bind [intro]: "(\<And>x. answers route (f x)) \<Longrightarrow> answers route (bindA m f)"
  by (auto simp: answers_def bindA_Inr_iff)

lemma answers_require [intro]: "(c \<Longrightarrow> answers route m) \<Longrightarrow> answers route (requireA c e m)"
  by (auto simp: answers_def requireA_Inr_iff)

lemma visible_items_get:
  assumes "visible_items groups admin items seen = Inr out"
  shows "(map_of out k = Some v \<longrightarrow> map_of seen k = Some v \<or> (\<exists>item. (k, item) \<in> set items \<and> v = without_history item
            \<and> queryCanAccess item groups admin \<and> jget item ''kind'' \<noteq> Some (JStr ''host-tombstone'')))
    \<and> (distinct (map fst items) \<longrightarrow> (k, item) \<in> set items \<longrightarrow> queryCanAccess item groups admin \<longrightarrow>
         jget item ''kind'' \<noteq> Some (JStr ''host-tombstone'') \<longrightarrow> map_of out k = Some (without_history item))
    \<and> (k \<notin> fst ` set items \<longrightarrow> map_of out k = map_of seen k)"
  using assms
proof (induction items arbitrary: seen)
  case (Cons e items)
  obtain k1 i1 where e: "e = (k1, i1)" by force
  obtain kind where kd: "value_string i1 ''kind'' [] = Inr kind"
    and rest: "visible_items groups admin items (if kind \<noteq> ''host-tombstone'' \<and> queryCanAccess i1 groups admin
        then obj_put k1 (without_history i1) seen else seen) = Inr out"
    using Cons.prems e by (auto simp: outcome_iffs)
  have kind: "kind = ''host-tombstone'' \<longleftrightarrow> jget i1 ''kind'' = Some (JStr ''host-tombstone'')"
    using kd by (cases i1) (auto simp: value_string_def value_with_def get_string_def jget_def split: option.splits json.splits)
  note ih = Cons.IH[OF rest]
  show ?case
  proof (cases "k = k1")
    case True
    show ?thesis
    proof (cases "kind \<noteq> ''host-tombstone'' \<and> queryCanAccess i1 groups admin")
      case True
      then show ?thesis using ih e kind \<open>k = k1\<close> by (auto simp: image_iff)
    next
      case False
      then show ?thesis using ih e kind \<open>k = k1\<close> by (auto simp: image_iff)
    qed
  next
    case False
    then show ?thesis using ih e by (auto split: if_splits)
  qed
qed simp

lemma join_runs:
  assumes "join Q input s = (Inr answer, s')"
  shows "\<exists>route i nickname tag revision user_id s1 s2 t doc s4. routing input = Inr route
    \<and> join_principal Q input i = Inr (nickname, tag, revision)
    \<and> fst (getActiveUserId nickname tag (bk_sql s)) = user_id \<and> 0 < user_id
    \<and> isCanvasAccessAuthorized (qe_backend Q) i user_id revision s1 = (Inr True, s2)
    \<and> jl_parse (qe_lib Q) t = Some doc \<and> value_int64 doc ''settings-revision'' 0 = Inr revision
    \<and> join_answer Q input route i user_id nickname tag revision doc s4 = (Inr answer, s')"
proof -
  obtain route i nickname tag revision where r: "routing input = Inr route" "value_int route ''canvas_id'' 0 = Inr i"
      "join_principal Q input i = Inr (nickname, tag, revision)"
    using assms by (auto simp: join_def Let_def action_iffs split: prod.splits)
  obtain user_id s1 where u: "with_sql (getActiveUserId nickname tag) s = (Inr user_id, s1)"
    by (metis prod.collapse with_sql_Inr)
  have uid: "fst (getActiveUserId nickname tag (bk_sql s)) = user_id" using with_sql_Inr[OF u] by auto
  obtain s2 where auth: "0 < user_id" "isCanvasAccessAuthorized (qe_backend Q) i user_id revision s1 = (Inr True, s2)"
    using assms r u by (auto simp: join_def Let_def action_iffs split: if_splits)
  obtain canvas s3 where l: "loadForQuery (qe_backend Q) i s2 = (Inr canvas, s3)"
    using assms r u auth by (auto simp: join_def Let_def action_iffs split: if_splits)
  obtain c where c: "canvas = Some c" "\<not> cv_unloading c"
    using assms r u auth l by (auto simp: join_def Let_def bindA_eq split: option.splits if_splits)
  obtain t s4 where t: "with_memory (loadCanvas (qe_memory Q) (be_try_lock (qe_backend Q)) i) s3 = (Inr (Some t), s4)"
    using assms r u auth l c
    by (auto simp: join_def Let_def bindA_eq split: option.splits if_splits prod.splits sum.splits)
  obtain doc where p: "jl_parse (qe_lib Q) t = Some doc"
    using assms r u auth l c t by (auto simp: join_def Let_def bindA_eq split: option.splits)
  have d: "jl_parse (qe_lib Q) t = Some doc" "value_int64 doc ''settings-revision'' 0 = Inr revision"
      "join_answer Q input route i user_id nickname tag revision doc s4 = (Inr answer, s')"
    using assms r u auth l c t p by (auto simp: join_def Let_def action_iffs)
  show ?thesis using r uid auth d by blast
qed

lemma join_route:
  assumes "join Q input s = (Inr a, s')" "routing input = Inr route"
  shows "jget a ''route'' = Some route"
proof -
  obtain i u n t rv d s1 where "join_answer Q input route i u n t rv d s1 = (Inr a, s')"
    using join_runs[OF assms(1)] assms(2) by auto
  then show ?thesis
    by (auto simp: join_answer_def Let_def action_iffs object_of_get split: option.splits prod.splits)
qed



section \<open>A client joins\<close>

definition join_document :: json where
  "join_document = JObj [(''__broker_sync'', JObj [(''revision'', JInt 0)]),
     (''inner-group'', JObj [(''readers'', JArr [JInt 9])]),
     (''items'', JObj [(''n'', JObj [(''permission'', JArr [JStr ''readers''])])]), (''people'', JArr []),
     (''visibility'', JStr ''public'')]"

definition join_env :: "(ref_world, ref_store) query_env" where
  "join_env = \<lparr>qe_backend = life_backend_env, qe_sha256 = \<lambda>_. [],
     qe_fp = \<lparr>fp_of_int = \<lambda>_. 0, fp_add = \<lambda>x _. x\<rparr>, qe_order = \<lambda>_. []\<rparr>"

definition join_state :: "(ref_world, ref_store) backend" where
  "join_state = life_backend\<lparr>bk_cache := createState ref_options, bk_redis := [(''canvas:5'', join_document)]\<rparr>"

definition join_request :: json where
  "join_request = JObj [(''principal'', JObj [(''canvas_id'', JInt 5), (''nickname'', JStr ''kim''),
       (''settings_revision'', JInt 0), (''tag_number'', JInt 7)]),
     (''route'', JObj [(''canvas_id'', JInt 5), (''connection_id'', JStr ''c''), (''request_id'', JStr ''r'')]),
     (''ws_port'', JInt 82)]"

lemma join_env_simps [simp]:
  "qe_backend join_env = life_backend_env" "be_try_lock life_backend_env = (\<lambda>_. True)"
  "be_server_ip life_backend_env = ''10.0.0.1''" "be_server_port life_backend_env = 80" "be_ws_port life_backend_env = 82"
  "bk_sql join_state = life_registry" "live_canvas 5 join_state = Some (canvas_new 5 ''10.1.0.1'' 6379)"
  by (simp_all add: join_env_def life_backend_env_def join_state_def life_backend_def live_canvas_def)

lemma join_user: "\<exists>db. getActiveUserId ''kim'' 7 life_registry = (9, db)
    \<and> sv_moments db = sv_moments life_registry \<and> sv_fates db = sv_fates life_registry \<and> sv_db db = sv_db life_registry"
proof -
  have r: "user_id_script ''kim'' 7 sample_moment (sv_db life_registry)
      = Some (one_row ''user_id'' [Some ''9''], sv_db life_registry)"
    by (simp add: user_id_script_def one_row_def sample_moment_def life_registry_def sample_registry_def)
      code_simp
  have n: "scalar (Some (one_row ''user_id'' [Some ''9''])) = Some 9" by code_simp
  have "isValidName ''@nickname''" "isValidName ''@tag''" by code_simp+
  then have v: "isValid (addInt ''@tag'' 7 (addText ''@nickname'' ''kim'' \<lparr>sc_statement = ''user'', sc_parameters = []\<rparr>))"
    by (simp add: isValid_def validationError_def addInt_def addText_def push_parameter_def parameterDeclarations_def
        kMaxStatementBytes_def kMaxRpcTextBytes_def)
  have s: "sv_moments life_registry k = sample_moment" "sv_fates life_registry k = Delivered" for k
    by (simp_all add: life_registry_def sample_registry_def)
  show ?thesis using r n v by (simp add: getActiveUserId_def getActiveUserIdChecked_def run_sql_def s Let_def)
qed

abbreviation join_assignment :: storage_assignment where
  "join_assignment \<equiv> \<lparr>sa_cached = True, sa_server_ip = ''10.0.0.1'', sa_server_port = ''80'', sa_redis_ip = ''10.1.0.1'',
     sa_redis_port = 6379\<rparr>"

lemma join_assigned:
  assumes "sv_moments db = sv_moments life_registry" "sv_fates db = sv_fates life_registry" "sv_db db = sv_db life_registry"
  shows "fst (getCanvasStorageAssignment 5 db) = Some join_assignment"
proof -
  let ?row = "[Some ''1'', Some ''10.0.0.1'', Some ''80'', Some ''10.1.0.1'', Some ''6379'']"
  let ?set = "\<lparr>rs_columns = [[], [], [], [], []], rs_rows = [?row]\<rparr>"
  have r: "assignment_script 5 sample_moment (sv_db life_registry) = Some ([?set], sv_db life_registry)"
    by (simp add: assignment_script_def assignment_row_def canvas_redis_def life_registry_def sample_registry_def)
  have "isValidName ''@canvas_id''" by code_simp
  then have v: "isValid (addInt ''@canvas_id'' 5 \<lparr>sc_statement = ''assignment'', sc_parameters = []\<rparr>)"
    by (simp add: isValid_def validationError_def addInt_def push_parameter_def parameterDeclarations_def
        kMaxStatementBytes_def kMaxRpcTextBytes_def)
  have s: "sv_moments db k = sample_moment" "sv_fates db k = Delivered" for k
    using assms by (simp_all add: life_registry_def sample_registry_def)
  have "read_assignment ?row = Some join_assignment" by code_simp
  with r v s assms(3) show ?thesis by (simp add: getCanvasStorageAssignment_def run_sql_def lastRow_def)
qed


definition join_loaded :: "cache_manager \<times> ref_world" where
  "join_loaded = snd (loadCanvas life_env (\<lambda>_. True) 5 (createState ref_options) [(''canvas:5'', join_document)])"

definition join_loaded_again :: "cache_manager \<times> ref_world" where
  "join_loaded_again = snd (loadCanvas life_env (\<lambda>_. True) 5 (fst join_loaded) (snd join_loaded))"

lemma join_steps:
  "fst (loadCanvas life_env (\<lambda>_. True) 5 (createState ref_options) [(''canvas:5'', join_document)])
     = Some (Some (encode join_document))"
  "fst (loadCanvas life_env (\<lambda>_. True) 5 (fst join_loaded) (snd join_loaded)) = Some (Some (encode join_document))"
  "fst (brokerSyncState life_env (\<lambda>_. True) 5 ''9:'' (fst join_loaded_again) (snd join_loaded_again))
     = Some (Some (sync_state 0 JNull))"
  by code_simp+

lemma join_parts:
  "routing join_request = Inr (JObj [(''canvas_id'', JInt 5), (''connection_id'', JStr ''c''), (''request_id'', JStr ''r'')])"
  "join_principal join_env join_request 5 = Inr (''kim'', 7, 0)"
  by (simp_all add: routing_def join_request_def value_json_def short_text_def longer_than_def object_of_def requireE_Inr_iff
      join_principal_def value_int_def value_int64_def value_string_def value_with_def get_int_def get_int64_def get_string_def
      as_int32_id as_int64_id jget_def is_object_def)

lemma join_answers: "\<exists>answer s'. join join_env join_request join_state = (Inr answer, s')"
proof -
  obtain m1 w1 where l1: "loadCanvas life_env (\<lambda>_. True) 5 (createState ref_options) [(''canvas:5'', join_document)]
      = (Some (Some (encode join_document)), m1, w1)"
    using join_steps(1) by (metis prod.collapse)
  have e1: "join_loaded = (m1, w1)" by (simp add: join_loaded_def l1)
  obtain m2 w2 where l2: "loadCanvas life_env (\<lambda>_. True) 5 m1 w1 = (Some (Some (encode join_document)), m2, w2)"
    using join_steps(2)[unfolded e1 fst_conv snd_conv] by (metis prod.collapse)
  have e2: "join_loaded_again = (m2, w2)" by (simp add: join_loaded_again_def e1 l2)
  obtain m3 w3 where l3: "brokerSyncState life_env (\<lambda>_. True) 5 ''9:'' m2 w2 = (Some (Some (sync_state 0 JNull)), m3, w3)"
    using join_steps(3)[unfolded e2 fst_conv snd_conv] by (metis prod.collapse)
  obtain db1 where u: "getActiveUserId ''kim'' 7 life_registry = (9, db1)"
      "sv_moments db1 = sv_moments life_registry" "sv_fates db1 = sv_fates life_registry" "sv_db db1 = sv_db life_registry"
    using join_user by blast
  obtain db2 where a: "getCanvasStorageAssignment 5 db1 = (Some join_assignment, db2)"
    using join_assigned[OF u(2-4)] by (metis prod.collapse)
  have "json_wf join_document" by code_simp
  then have parse: "jl_parse ref_lib (encode join_document) = Some join_document" "encode join_document \<noteq> []"
    using json_lib_okD(1)[OF ref_lib_ok, of join_document] by (simp_all add: ref_lib_def) (simp add: join_document_def)
  have n: "number_text 80 = ''80''" "int_text 9 = ''9''" by code_simp+
  have ok: "documentAuthorizesCanvasAccess join_document 9 0" by code_simp
  have st: "bk_cache join_state = createState ref_options" "bk_redis join_state = [(''canvas:5'', join_document)]"
    by (simp_all add: join_state_def)
  have live: "\<not> cv_unloading (canvas_new 5 ''10.1.0.1'' 6379)" by (simp add: canvas_new_def)
  have lv: "live_canvas 5 (join_state\<lparr>bk_sql := db2\<rparr>) = Some (canvas_new 5 ''10.1.0.1'' 6379)"
    by (simp add: live_canvas_def join_state_def life_backend_def)
  have auth: "isCanvasAccessAuthorized life_backend_env 5 9 0 (join_state\<lparr>bk_sql := db1\<rparr>)
      = (Inr True, join_state\<lparr>bk_sql := db2, bk_cache := m1, bk_redis := w1\<rparr>)"
    using lv by (simp add: isCanvasAccessAuthorized_def getAuthorizedCanvasDocument_def Let_def bindA_eq with_sql_def a n
        getCanvas_def live with_memory_def l1 st authorized_text_def parse ok del: encode.simps)
  have inputs: "value_string join_request ''client_id'' [] = Inr []"
    "value_bool join_request ''include_items'' True = Inr True"
    by (simp_all add: join_request_def value_string_def value_bool_def value_with_def jget_def)
  have doc: "value_int64 join_document ''settings-revision'' 0 = Inr 0" "value_string join_document ''canvas-name'' [] = Inr []"
    "value_json (sync_state 0 JNull) ''receipt'' JNull = Inr JNull" "accepted_count JNull = Inr 0"
    "const_at (sync_state 0 JNull) ''revision'' s = (Inr (JInt 0), s)" for s :: "(ref_world, ref_store) backend"
    by (simp_all add: join_document_def value_int64_def value_string_def value_with_def jget_def sync_state_def value_json_def
        accepted_count_def const_at_def is_null_def)
  have items: "\<exists>seen. joined_items join_request join_document groups admin = Inr seen" for groups admin
    by (simp add: joined_items_def inputs) (simp add: join_document_def jget_def value_string_def value_with_def)
  obtain groups admin where g: "groupsForUser join_document 9 = (groups, admin)" by force
  obtain seen where seen: "joined_items join_request join_document groups admin = Inr seen" using items by blast
  define b where "b = join_state\<lparr>bk_sql := db2, bk_cache := m1, bk_redis := w1\<rparr>"
  have b: "bk_cache b = m1" "bk_redis b = w1" "live_canvas 5 b = Some (canvas_new 5 ''10.1.0.1'' 6379)"
    by (simp_all add: b_def) (simp add: live_canvas_def join_state_def life_backend_def)
  have route: "value_int (JObj [(''canvas_id'', JInt 5), (''connection_id'', JStr ''c''), (''request_id'', JStr ''r'')])
      ''canvas_id'' 0 = Inr 5"
    by (simp add: value_int_def value_with_def get_int_def as_int32_id jget_def)
  show ?thesis
    by (simp add: join_def Let_def bindA_eq join_parts route with_sql_def u auth[folded b_def] requireA_def loadForQuery_def
        getOrCreateCanvas_def getCanvas_def b live touchQuery_def modify_def with_memory_def l2 parse doc join_answer_def g seen
        inputs n l3 del: encode.simps)
qed


end
