(* ===== verification/Query_Batch.thy ===== *)
theory Query_Batch
  imports Query_Base
begin

text \<open>
  \<^verbatim>\<open>cpp/src/service/CanvasQueryService.cpp\<close>, second part: the sequenced batches of a client
  (\<open>canvas_ops\<close>) and the snapshot it synchronises with (\<open>canvas_sync\<close>). A batch is checked against the
  receipt of the client, prepared on the stored items it names, applied by one script, and announced with
  the permissions before and after. Shown here: a batch reaches the script only when it is the next of its
  client or repeats the last one, with items the identity may write, and the sequence numbers stay exact.
\<close>

section \<open>Reading the named items\<close>

fun add_ids :: "json list \<Rightarrow> string list \<Rightarrow> string list outcome" where
  \<comment> \<open>the ids of a translation\<close>
  "add_ids [] wanted = Inr wanted"
| "add_ids (item # rest) wanted =
     (case item of
        JStr k \<Rightarrow> requireE (validQueryItemId k) ''ITEM_ID_INVALID'' (add_ids rest (List.insert k wanted))
      | _ \<Rightarrow> Inl (InvalidArgument ''ITEM_ID_INVALID''))"

definition operation_ids :: "json \<Rightarrow> string list \<Rightarrow> string list outcome" where
  "operation_ids operation wanted =
     requireE (is_object operation) ''QUERY_ACTION_INVALID''
     (bindE (value_string operation ''action'' []) (\<lambda>action.
      if action = ''translate'' then
        bindE (value_json operation ''ids'' (JArr [])) (\<lambda>ids.
        (case ids of
           JArr vs \<Rightarrow> requireE (vs \<noteq> [] \<and> \<not> longer_than vs 10000) ''ITEM_TRANSLATION_INVALID'' (add_ids vs wanted)
         | _ \<Rightarrow> Inl (InvalidArgument ''ITEM_TRANSLATION_INVALID'')))
      else
        bindE (value_string operation ''id'' []) (\<lambda>item.
        requireE (validQueryItemId item) ''ITEM_ID_INVALID'' (Inr (List.insert item wanted)))))"

fun wanted_ids :: "json list \<Rightarrow> string list \<Rightarrow> string list outcome" where
  "wanted_ids [] wanted = Inr wanted"
| "wanted_ids (operation # rest) wanted =
     bindE (operation_ids operation wanted) (\<lambda>more.
     requireE (\<not> longer_than more 20000) ''QUERY_BATCH_INVALID'' (wanted_ids rest more))"

definition loaded_item :: "json \<Rightarrow> string \<Rightarrow> json option" where
  \<comment> \<open>the callback of \<open>prepare\<close> on an item that was loaded\<close>
  "loaded_item loaded k = (case jget loaded k of None \<Rightarrow> None | Some v \<Rightarrow> if is_null v then None else Some v)"

section \<open>Preparing\<close>

text \<open>
  \<open>prepare\<close> with the callback of the service: the operations touch only the items they name, which have
  been loaded; the ends of a connector may lie outside and are then read from the store, one by one.
\<close>

definition query_end ::
  "('w, 'v) query_env \<Rightarrow> int \<Rightarrow> json \<Rightarrow> string set \<Rightarrow> bool \<Rightarrow> mutation \<Rightarrow> string \<Rightarrow> (('w, 'v) backend, bool) action" where
  "query_end Q i loaded groups admin mu k =
     bindA (case map_of (mu_items mu) k of
              Some e \<Rightarrow> ret (Some e)
            | None \<Rightarrow> if contains loaded k then ret (loaded_item loaded k) else query_item Q i k) (\<lambda>found.
     let endpoint = (case found of Some e \<Rightarrow> e | None \<Rightarrow> JNull)
     in if is_null endpoint \<or> \<not> queryCanAccess endpoint groups admin then ret False
        else bindA (lift_outcome (value_string endpoint ''kind'' []))
               (\<lambda>kind. ret (kind \<noteq> ''connector'' \<and> kind \<noteq> ''host-tombstone'')))"

fun query_connectors ::
  "('w, 'v) query_env \<Rightarrow> int \<Rightarrow> json \<Rightarrow> string set \<Rightarrow> bool \<Rightarrow> mutation \<Rightarrow> (string \<times> json) list
   \<Rightarrow> (('w, 'v) backend, unit) action" where
  "query_connectors Q i loaded groups admin mu [] = ret ()"
| "query_connectors Q i loaded groups admin mu ((k, item) # rest) =
     (if is_null item then query_connectors Q i loaded groups admin mu rest
      else bindA (lift_outcome (value_string item ''kind'' [])) (\<lambda>kind.
        if kind \<noteq> ''connector'' then query_connectors Q i loaded groups admin mu rest
        else bindA (lift_outcome (value_string item ''from'' [])) (\<lambda>from.
        bindA (lift_outcome (value_string item ''to'' [])) (\<lambda>to.
        require (from \<noteq> to \<and> validQueryItemId from \<and> validQueryItemId to) ''ITEM_CONNECTOR_INVALID''
        (bindA (query_end Q i loaded groups admin mu from) (\<lambda>ok1.
         require ok1 ''ITEM_CONNECTOR_INVALID''
         (bindA (query_end Q i loaded groups admin mu to) (\<lambda>ok2.
          require ok2 ''ITEM_CONNECTOR_INVALID'' (query_connectors Q i loaded groups admin mu rest)))))))))"

definition query_prepare ::
  "('w, 'v) query_env \<Rightarrow> int \<Rightarrow> json \<Rightarrow> json \<Rightarrow> string set \<Rightarrow> bool \<Rightarrow> (('w, 'v) backend, mutation) action" where
  "query_prepare Q i loaded operations groups admin =
     bindA (lift_outcome (case operations of
         JArr ops \<Rightarrow> requireE (ops \<noteq> [] \<and> \<not> longer_than ops 512) ''QUERY_BATCH_INVALID''
           (broker_operations (qe_lib Q) (qe_fp Q) (loaded_item loaded) groups admin ops mutation_empty)
       | _ \<Rightarrow> Inl (InvalidArgument ''QUERY_BATCH_INVALID''))) (\<lambda>mu.
     bindA (query_connectors Q i loaded groups admin mu (mu_items mu)) (\<lambda>_.
     require (\<not> longer_than (jl_dump (qe_lib Q) (JObj (mu_items mu))) (8 * 1024 * 1024)) ''QUERY_BATCH_TOO_LARGE''
       (ret mu)))"

section \<open>The batch\<close>

definition last_sequence :: int where
  "last_sequence = 9007199254740991"

definition batch_count :: "json \<Rightarrow> int outcome" where
  "batch_count event =
     (case jget event ''request_count'' of
        Some (JInt n) \<Rightarrow>
          requireE (0 < as_int64 n \<and> as_int64 n < last_sequence) ''CLIENT_SEQUENCE_INVALID'' (Inr (as_int64 n))
      | _ \<Rightarrow> Inl (InvalidArgument ''CLIENT_SEQUENCE_INVALID''))"

definition batch_digest :: "('w, 'v) query_env \<Rightarrow> json \<Rightarrow> string" where
  "batch_digest Q operations = toHex (qe_sha256 Q (jl_dump (qe_lib Q) operations))"

definition repeats_last :: "json \<Rightarrow> string \<Rightarrow> string \<Rightarrow> unit outcome" where
  "repeats_last receipt digest request =
     bindE (value_string receipt ''digest'' []) (\<lambda>d.
     requireE (d = digest) ''CLIENT_REQUEST_MISMATCH''
     (bindE (value_string receipt ''request_id'' []) (\<lambda>r.
      requireE (r = request) ''CLIENT_REQUEST_MISMATCH'' (Inr ()))))"

definition batch_mutation ::
  "('w, 'v) query_env \<Rightarrow> int \<Rightarrow> json \<Rightarrow> string set \<Rightarrow> bool \<Rightarrow> (('w, 'v) backend, mutation) action" where
  \<comment> \<open>the mutation of a new batch\<close>
  "batch_mutation Q i operations groups admin =
     (case operations of
        JArr ops \<Rightarrow>
          require (ops \<noteq> [] \<and> \<not> longer_than ops 512) ''QUERY_BATCH_INVALID''
          (bindA (lift_outcome (wanted_ids ops [])) (\<lambda>wanted.
           bindA (with_memory (readBrokerItems (qe_memory Q) i (qe_order Q (set wanted)))) (\<lambda>loaded.
           case loaded of
             None \<Rightarrow> unavailable ''STORAGE_UNAVAILABLE''
           | Some items \<Rightarrow> query_prepare Q i items operations groups admin)))
      | _ \<Rightarrow> invalid ''QUERY_BATCH_INVALID'')"

definition next_mutation ::
  "('w, 'v) query_env \<Rightarrow> int \<Rightarrow> json \<Rightarrow> int \<Rightarrow> int \<Rightarrow> json \<Rightarrow> string \<Rightarrow> string \<Rightarrow> string set \<Rightarrow> bool
   \<Rightarrow> (('w, 'v) backend, mutation) action" where
  "next_mutation Q i receipt accepted cnt operations digest request groups admin =
     (if cnt = accepted \<and> \<not> is_null receipt then
        bindA (lift_outcome (repeats_last receipt digest request)) (\<lambda>_. ret mutation_empty)
      else if accepted = int64_max then raise Undefined_Behaviour
      else require (cnt = accepted + 1) ''CLIENT_SEQUENCE_CONFLICT'' (batch_mutation Q i operations groups admin))"

fun announce ::
  "json \<Rightarrow> (string \<times> json) list \<Rightarrow> (string \<times> json) list
   \<Rightarrow> ((string \<times> json) list \<times> (string \<times> json) list \<times> (string \<times> json) list) outcome" where
  \<comment> \<open>previous permissions, permissions, and the items marked with the revision\<close>
  "announce revision previous [] = Inr ([], [], [])"
| "announce revision previous ((k, item) # rest) =
     (let old = (case map_of previous k of Some j \<Rightarrow> j | None \<Rightarrow> JNull) in
      bindE (if is_null old then Inr (JArr []) else value_json old ''permission'' (JArr [])) (\<lambda>before.
      bindE (if is_null item then Inr (JArr []) else value_json item ''permission'' (JArr [])) (\<lambda>now.
      bindE (if is_null item then Inr item else jput item ''__broker_revision'' revision) (\<lambda>marked.
      bindE (announce revision previous rest) (\<lambda>(befores, nows, items).
        Inr ((k, before) # befores, (k, now) # nows, (k, marked) # items))))))"

definition batch_commit ::
  "json \<Rightarrow> json \<Rightarrow> json \<Rightarrow> string \<Rightarrow> int \<Rightarrow> mutation \<Rightarrow> json outcome" where
  \<comment> \<open>the broadcast of an applied batch\<close>
  "batch_commit author request revision client cnt mu =
     bindE (announce revision (mu_previous mu) (mu_items mu)) (\<lambda>(befores, nows, items).
       Inr (object_of [(''all'', JBool True),
         (''event'', object_of ([(''type'', JStr ''canvas_commit''), (''author_id'', author), (''revision'', revision),
            (''client_id'', JStr client), (''request_count'', JInt cnt), (''request_id'', request)]
            @ (if mu_only_translations mu then [(''translations'', JArr (mu_translations mu))]
               else [(''items'', object_of items)]))),
         (''permissions'', object_of nows), (''previous_permissions'', object_of befores)]))"

definition batch_answer ::
  "json \<Rightarrow> json \<Rightarrow> json \<Rightarrow> string \<Rightarrow> int \<Rightarrow> mutation \<Rightarrow> (('w, 'v) backend, json) action" where
  \<comment> \<open>from the reply of the script to the envelope\<close>
  "batch_answer route author result client cnt mu =
     bindA (case jget result ''error'' of
              Some v \<Rightarrow> bindA (lift_outcome (get_string v)) invalid
            | None \<Rightarrow> ret ()) (\<lambda>_.
     bindA (lift_outcome (bindE (jput result ''type'' (JStr ''canvas_result'')) (\<lambda>r1.
       bindE (jput r1 ''ok'' (JBool True)) (\<lambda>r2. bindE (jput r2 ''client_id'' (JStr client)) (\<lambda>r3.
         jput r3 ''request_count'' (JInt cnt)))))) (\<lambda>response.
     bindA (lift_outcome (value_bool result ''duplicate'' False)) (\<lambda>duplicate.
     bindA (if duplicate then
              bindA (const_at result ''server_revision'') (\<lambda>revision.
                ret (object_of [(''all'', JBool True),
                  (''event'', object_of [(''type'', JStr ''canvas_watermark''), (''revision'', revision)])]))
            else
              bindA (const_at result ''revision'') (\<lambda>revision.
              bindA (const_at route ''request_id'') (\<lambda>request.
                lift_outcome (batch_commit author request revision client cnt mu)))) (\<lambda>broadcast.
       envelope route response [broadcast]))))"

definition canvas_ops ::
  "('w, 'v) query_env \<Rightarrow> json \<Rightarrow> int \<Rightarrow> json \<Rightarrow> json \<Rightarrow> string \<Rightarrow> string \<Rightarrow> json \<Rightarrow> int \<Rightarrow> string set \<Rightarrow> bool
   \<Rightarrow> (('w, 'v) backend, json) action" where
  "canvas_ops Q route i author event client key receipt accepted groups admin =
     bindA (lift_outcome (batch_count event)) (\<lambda>cnt.
     bindA (lift_outcome (value_json event ''operations'' (JArr []))) (\<lambda>operations.
     bindA (lift_outcome (value_string route ''request_id'' [])) (\<lambda>request.
     (let digest = batch_digest Q operations in
      bindA (next_mutation Q i receipt accepted cnt operations digest request groups admin) (\<lambda>mu.
      bindA (with_memory (applyBrokerBatch (qe_memory Q) i key cnt request digest (mu_items mu) (JObj (mu_expected mu)))) (\<lambda>result.
      case result of
        None \<Rightarrow> unavailable ''QUERY_OUTCOME_UNKNOWN''
      | Some r \<Rightarrow> batch_answer route author r client cnt mu))))))"

definition canvas_sync ::
  "('w, 'v) query_env \<Rightarrow> json \<Rightarrow> int \<Rightarrow> json \<Rightarrow> string \<Rightarrow> json \<Rightarrow> int \<Rightarrow> string set \<Rightarrow> bool
   \<Rightarrow> (('w, 'v) backend, json) action" where
  "canvas_sync Q route i author client sync accepted groups admin =
     bindA (with_memory (loadCanvas (qe_memory Q) (be_try_lock (qe_backend Q)) i)) (\<lambda>raw.
     case raw of
       None \<Rightarrow> unavailable ''STORAGE_UNAVAILABLE''
     | Some t \<Rightarrow>
         (case jl_parse (qe_lib Q) t of
            None \<Rightarrow> raise (Thrown JsonException)
          | Some doc \<Rightarrow>
              bindA (lift_outcome (value_json doc ''items'' (JObj []))) (\<lambda>source.
              bindA (lift_outcome (visible_items groups admin (json_entries source) [])) (\<lambda>items.
              bindA (const_at sync ''revision'') (\<lambda>revision.
                envelope route (object_of [(''type'', JStr ''canvas_snapshot''), (''sync_protocol'', JInt 2),
                  (''sync_user_id'', author), (''items'', JObj items), (''revision'', revision),
                  (''client_id'', JStr client), (''accepted_count'', JInt accepted)]) [])))))"

definition client_request ::
  "('w, 'v) query_env \<Rightarrow> json \<Rightarrow> int \<Rightarrow> json \<Rightarrow> json \<Rightarrow> string \<Rightarrow> string set \<Rightarrow> bool \<Rightarrow> (('w, 'v) backend, json) action" where
  \<comment> \<open>the branch of \<open>query\<close> for \<open>canvas_ops\<close> and \<open>canvas_sync\<close>\<close>
  "client_request Q route i identity event type groups admin =
     bindA (lift_outcome (value_string event ''client_id'' [])) (\<lambda>client.
     require (validQueryItemId client) ''CLIENT_ID_INVALID''
     (bindA (const_at identity ''user_id'') (\<lambda>author.
      bindA (lift_outcome (get_int64 author)) (\<lambda>user_id.
      (let key = int_text user_id @ '':'' @ client in
       bindA (with_memory (brokerSyncState (qe_memory Q) (be_try_lock (qe_backend Q)) i key)) (\<lambda>sync.
       case sync of
         None \<Rightarrow> unavailable ''STORAGE_UNAVAILABLE''
       | Some sync \<Rightarrow>
           bindA (lift_outcome (value_json sync ''receipt'' JNull)) (\<lambda>receipt.
           bindA (lift_outcome (accepted_count receipt)) (\<lambda>accepted.
             if type = ''canvas_sync'' then canvas_sync Q route i author client sync accepted groups admin
             else canvas_ops Q route i author event client key receipt accepted groups admin))))))))"


section \<open>Sequenced and permitted\<close>

lemma batch_mutation_ok:
  assumes "batch_mutation Q i operations groups admin s = (Inr mu, s')"
  shows "\<exists>ops wanted loaded m w. operations = JArr ops \<and> wanted_ids ops [] = Inr wanted
    \<and> readBrokerItems (qe_memory Q) i (qe_order Q (set wanted)) (bk_cache s) (bk_redis s) = (Some (Some loaded), m, w)
    \<and> mu_inv (loaded_item loaded) groups admin mu"
proof -
  obtain ops where o: "operations = JArr ops" using assms by (cases operations) (auto simp: batch_mutation_def)
  obtain wanted s1 loaded where r: "wanted_ids ops [] = Inr wanted"
      "with_memory (readBrokerItems (qe_memory Q) i (qe_order Q (set wanted))) s = (Inr (Some loaded), s1)"
      "query_prepare Q i loaded operations groups admin s1 = (Inr mu, s')"
  proof -
    obtain wanted s1 loaded where w: "wanted_ids ops [] = Inr wanted"
        "with_memory (readBrokerItems (qe_memory Q) i (qe_order Q (set wanted))) s = (Inr loaded, s1)"
      and c: "(case loaded of None \<Rightarrow> unavailable ''STORAGE_UNAVAILABLE''
           | Some items \<Rightarrow> query_prepare Q i items operations groups admin) s1 = (Inr mu, s')"
      using assms unfolding batch_mutation_def o
      by (clarsimp simp only: json.case action_iffs)
    show thesis using that[OF w(1)] w(2) c by (cases loaded) simp_all
  qed
  have "broker_operations (qe_lib Q) (qe_fp Q) (loaded_item loaded) groups admin ops mutation_empty = Inr mu"
    using r(3) unfolding query_prepare_def o by (clarsimp simp only: json.case action_iffs requireE_Inr_iff) simp
  then have "mu_inv (loaded_item loaded) groups admin mu" by (rule broker_operations_inv[OF _ mu_inv_empty])
  with o r(1) with_memory_Inr[OF r(2)] show ?thesis by blast
qed

lemma next_mutation_ok:
  assumes "next_mutation Q i receipt accepted cnt operations digest request groups admin s = (Inr mu, s')"
  shows "(cnt = accepted \<and> \<not> is_null receipt \<and> value_string receipt ''digest'' [] = Inr digest
      \<and> value_string receipt ''request_id'' [] = Inr request \<and> mu = mutation_empty)
    \<or> (cnt = accepted + 1 \<and> (\<exists>ops wanted loaded m w. operations = JArr ops \<and> wanted_ids ops [] = Inr wanted
      \<and> readBrokerItems (qe_memory Q) i (qe_order Q (set wanted)) (bk_cache s) (bk_redis s) = (Some (Some loaded), m, w)
      \<and> (\<forall>k item. map_of (mu_items mu) k = Some item \<longrightarrow> entry_ok (loaded_item loaded) groups admin mu k item)))"
  using assms batch_mutation_ok[of Q i operations groups admin s mu s']
  by (fastforce simp: next_mutation_def repeats_last_def action_iffs outcome_iffs mu_inv_def split: if_splits)

lemma batch_answer_accepted:
  "batch_answer route author result client cnt mu s = (Inr answer, s') \<Longrightarrow> jget result ''error'' = None"
  by (cases "jget result ''error''") (auto simp: batch_answer_def action_iffs)

text \<open>
  C2. Batches are sequenced and permitted. When a batch of a client is answered, the script was asked to apply it
  under the sequence of this user and client, with the digest of its operations. Either it repeats the last
  accepted batch, by its number, digest and request id, and carries no items; or it is numbered one above the
  last accepted one, its items were read from the canvas before, and each of them respects the rights of the
  identity and expects the revision that was read. The script did not refuse it.
\<close>

theorem client_batches_are_sequenced:
  assumes "client_request Q route i identity event ''canvas_ops'' groups admin s = (Inr answer, s')"
  shows "\<exists>author user_id client sync receipt accepted cnt operations request mu r m w m1 w1 m2 w2.
    jget identity ''user_id'' = Some author \<and> get_int64 author = Inr user_id \<and> value_string event ''client_id'' [] = Inr client \<and> validQueryItemId client
    \<and> brokerSyncState (qe_memory Q) (be_try_lock (qe_backend Q)) i (int_text (user_id) @ '':'' @ client)
        (bk_cache s) (bk_redis s) = (Some (Some sync), m, w)
    \<and> value_json sync ''receipt'' JNull = Inr receipt \<and> accepted_count receipt = Inr accepted
    \<and> batch_count event = Inr cnt \<and> value_json event ''operations'' (JArr []) = Inr operations
    \<and> value_string route ''request_id'' [] = Inr request
    \<and> ((cnt = accepted \<and> \<not> is_null receipt \<and> value_string receipt ''digest'' [] = Inr (batch_digest Q operations)
          \<and> value_string receipt ''request_id'' [] = Inr request \<and> mu = mutation_empty)
       \<or> (cnt = accepted + 1 \<and> (\<exists>ops wanted loaded m3 w3. operations = JArr ops \<and> wanted_ids ops [] = Inr wanted
          \<and> readBrokerItems (qe_memory Q) i (qe_order Q (set wanted)) m w = (Some (Some loaded), m3, w3)
          \<and> (\<forall>k item. map_of (mu_items mu) k = Some item \<longrightarrow> entry_ok (loaded_item loaded) groups admin mu k item))))
    \<and> applyBrokerBatch (qe_memory Q) i (int_text (user_id) @ '':'' @ client) cnt request (batch_digest Q operations)
        (mu_items mu) (JObj (mu_expected mu)) m1 w1 = (Some (Some r), m2, w2)
    \<and> jget r ''error'' = None"
proof -
  obtain author user_id client sync receipt accepted s1 where
    c: "value_string event ''client_id'' [] = Inr client" "validQueryItemId client"
      "jget identity ''user_id'' = Some author" "get_int64 author = Inr user_id"
      "with_memory (brokerSyncState (qe_memory Q) (be_try_lock (qe_backend Q)) i (int_text user_id @ '':'' @ client)) s
        = (Inr (Some sync), s1)"
      "value_json sync ''receipt'' JNull = Inr receipt" "accepted_count receipt = Inr accepted"
    and o: "canvas_ops Q route i author event client (int_text user_id @ '':'' @ client) receipt accepted groups admin s1
        = (Inr answer, s')"
  proof -
    obtain author user_id client sync s1 where
      w: "value_string event ''client_id'' [] = Inr client" "validQueryItemId client"
        "jget identity ''user_id'' = Some author" "get_int64 author = Inr user_id"
        "with_memory (brokerSyncState (qe_memory Q) (be_try_lock (qe_backend Q)) i (int_text user_id @ '':'' @ client)) s
          = (Inr sync, s1)"
      and r: "(case sync of
         None \<Rightarrow> unavailable ''STORAGE_UNAVAILABLE''
       | Some sync \<Rightarrow>
           bindA (lift_outcome (value_json sync ''receipt'' JNull)) (\<lambda>receipt.
           bindA (lift_outcome (accepted_count receipt)) (\<lambda>accepted.
             if ''canvas_ops'' = ''canvas_sync'' then canvas_sync Q route i author client sync accepted groups admin
             else canvas_ops Q route i author event client (int_text user_id @ '':'' @ client) receipt accepted groups admin))) s1
        = (Inr answer, s')"
      using assms unfolding client_request_def Let_def
      by (clarsimp simp only: action_iffs const_at_Inr)
    obtain y where y: "sync = Some y" using r by (cases sync) auto
    show thesis using that[OF w(1-4), of y] w(5) r by (auto simp: y action_iffs)
  qed
  obtain cnt operations request mu s2 result s3 where
    b: "batch_count event = Inr cnt" "value_json event ''operations'' (JArr []) = Inr operations"
      "value_string route ''request_id'' [] = Inr request"
      "next_mutation Q i receipt accepted cnt operations (batch_digest Q operations) request groups admin s1 = (Inr mu, s2)"
      "with_memory (applyBrokerBatch (qe_memory Q) i (int_text user_id @ '':'' @ client) cnt request (batch_digest Q operations)
         (mu_items mu) (JObj (mu_expected mu))) s2 = (Inr result, s3)"
    and r: "(case result of
        None \<Rightarrow> unavailable ''QUERY_OUTCOME_UNKNOWN''
      | Some r \<Rightarrow> batch_answer route author r client cnt mu) s3 = (Inr answer, s')"
    using o unfolding canvas_ops_def Let_def by (clarsimp simp only: action_iffs)
  obtain reply where res: "result = Some reply" using r by (cases result) auto
  have err: "jget reply ''error'' = None" using r unfolding res option.case by (rule batch_answer_accepted)
  note m = with_memory_Inr[OF c(5)] and ap = with_memory_Inr[OF b(5), unfolded res]
  show ?thesis
    by (intro exI conjI) (rule c(3) c(4) c(1) c(2) m c(6) c(7) b(1) b(2) b(3) next_mutation_ok[OF b(4)] ap err)+
qed


section \<open>A batch that creates an item\<close>

definition batch_list :: "json list" where
  "batch_list = [JObj [(''action'', JStr ''create''), (''id'', JStr ''m''), (''patch'', sample_item)]]"

definition batch_operations :: json where
  "batch_operations = JArr batch_list"

definition batch_event :: json where
  "batch_event = JObj [(''client_id'', JStr ''c''), (''operations'', batch_operations), (''request_count'', JInt 1)]"

definition batch_memory :: "ref_world mc_env" where
  "batch_memory = script_env ''canvas:5''
     (broker_eval ref_rj ref_lua ''9:c'' 1 ''r'' [] [(''m'', sample_item)] [(''m'', JInt (-1))])"

definition batch_env :: "(ref_world, ref_store) query_env" where
  "batch_env = \<lparr>qe_backend = life_backend_env\<lparr>be_memory := batch_memory\<rparr>, qe_sha256 = \<lambda>_. [], qe_fp = sample_fp,
     qe_order = \<lambda>_. [''m'']\<rparr>"

definition batch_sync :: "cache_manager \<times> ref_world" where
  "batch_sync = snd (brokerSyncState batch_memory (\<lambda>_. True) 5 ''9:c'' (createState ref_options)
     [(''canvas:5'', join_document)])"

definition batch_read :: "cache_manager \<times> ref_world" where
  "batch_read = snd (readBrokerItems batch_memory 5 [''m''] (fst batch_sync) (snd batch_sync))"

definition batch_mu :: mutation where
  "batch_mu = \<lparr>mu_items = [(''m'', sample_item)], mu_previous = [(''m'', JNull)], mu_expected = [(''m'', JInt (-1))],
     mu_translations = [], mu_only_translations = False\<rparr>"

lemma batch_steps:
  "fst (brokerSyncState batch_memory (\<lambda>_. True) 5 ''9:c'' (createState ref_options)
     [(''canvas:5'', join_document)]) = Some (Some (sync_state 0 JNull))"
  "fst (readBrokerItems batch_memory 5 [''m''] (fst batch_sync) (snd batch_sync)) = Some (Some (JObj [(''m'', JNull)]))"
  "fst (applyBrokerBatch batch_memory 5 ''9:c'' 1 ''r'' [] [(''m'', sample_item)] (JObj [(''m'', JInt (-1))])
     (fst batch_read) (snd batch_read)) = Some (Some (JObj [(''accepted_count'', JInt 1), (''duplicate'', JBool False),
        (''revision'', JInt 1), (''server_revision'', JInt 1)]))"
  "broker_operations ref_lib sample_fp (loaded_item (JObj [(''m'', JNull)])) {''team''} False batch_list
     mutation_empty = Inr batch_mu"
  by code_simp+

theorem client_batches_are_sequenced_witness:
  "\<exists>answer s'. client_request batch_env (JObj [(''request_id'', JStr ''r'')]) 5 (JObj [(''user_id'', JInt 9)]) batch_event
      ''canvas_ops'' {''team''} False join_state = (Inr answer, s')
    \<and> batch_count batch_event = Inr 1"
proof -
  obtain sm sw where s1: "brokerSyncState batch_memory (\<lambda>_. True) 5 ''9:c'' (createState ref_options)
      [(''canvas:5'', join_document)] = (Some (Some (sync_state 0 JNull)), sm, sw)"
    using batch_steps(1) by (metis prod.collapse)
  have e1: "batch_sync = (sm, sw)" by (simp add: batch_sync_def s1)
  obtain rm rw where r: "readBrokerItems batch_memory 5 [''m''] sm sw = (Some (Some (JObj [(''m'', JNull)])), rm, rw)"
    using batch_steps(2)[unfolded e1 fst_conv snd_conv] by (metis prod.collapse)
  have e2: "batch_read = (rm, rw)" by (simp add: batch_read_def e1 r)
  let ?reply = "JObj [(''accepted_count'', JInt 1), (''duplicate'', JBool False), (''revision'', JInt 1),
      (''server_revision'', JInt 1)]"
  obtain am aw where a: "applyBrokerBatch batch_memory 5 ''9:c'' 1 ''r'' [] [(''m'', sample_item)] (JObj [(''m'', JInt (-1))]) rm rw
      = (Some (Some ?reply), am, aw)"
    using batch_steps(3)[unfolded e2 fst_conv snd_conv] by (metis prod.collapse)
  have st: "bk_cache join_state = createState ref_options" "bk_redis join_state = [(''canvas:5'', join_document)]"
    by (simp_all add: join_state_def)
  have env: "qe_memory batch_env = batch_memory" "be_try_lock (qe_backend batch_env) = (\<lambda>_. True)" "qe_fp batch_env = sample_fp"
    "qe_order batch_env = (\<lambda>_. [''m''])" "me_lib batch_memory = ref_lib" "batch_digest batch_env ops = []" for ops
    by (simp_all add: batch_env_def batch_memory_def batch_digest_def)
  have count: "batch_count batch_event = Inr 1"
    by (simp add: batch_count_def batch_event_def jget_def as_int64_id last_sequence_def requireE_def)
  have reads: "value_string batch_event ''client_id'' [] = Inr ''c''" "validQueryItemId ''c''"
    "value_json batch_event ''operations'' (JArr []) = Inr batch_operations"
    "value_string (JObj [(''request_id'', JStr ''r'')]) ''request_id'' [] = Inr ''r''"
    "value_json (sync_state 0 JNull) ''receipt'' JNull = Inr JNull" "accepted_count JNull = Inr 0" "int_text 9 = ''9''"
    "value_string sample_item ''kind'' [] = Inr ''shape''" "is_null JNull" "wanted_ids batch_list [] = Inr [''m'']"
    by code_simp+
  have ops: "batch_operations = JArr batch_list" "batch_list \<noteq> []"
    "\<not> longer_than batch_list 512"
    by (simp_all add: batch_operations_def batch_list_def longer_than_def)
  have size: "\<not> longer_than (jl_dump ref_lib (JObj [(''m'', sample_item)])) (8 * 1024 * 1024)"
  proof -
    have "length (jl_dump ref_lib (JObj [(''m'', sample_item)])) < 100" by code_simp
    then show ?thesis by (simp add: longer_than_def)
  qed
  have m: "\<exists>s2. next_mutation batch_env 5 JNull 0 1 batch_operations [] ''r'' {''team''} False
      (join_state\<lparr>bk_cache := sm, bk_redis := sw\<rparr>) = (Inr batch_mu, s2) \<and> bk_cache s2 = rm \<and> bk_redis s2 = rw"
    using ops(2,3) size
    by (simp add: next_mutation_def reads int64_max_def batch_mutation_def ops(1) requireA_def bindA_eq env
        with_memory_def r query_prepare_def batch_steps(4) requireE_def batch_mu_def)
  obtain s2 where m: "next_mutation batch_env 5 JNull 0 1 batch_operations [] ''r'' {''team''} False
      (join_state\<lparr>bk_cache := sm, bk_redis := sw\<rparr>) = (Inr batch_mu, s2)" "bk_cache s2 = rm" "bk_redis s2 = rw"
    using m by blast
  have mu: "mu_items batch_mu = [(''m'', sample_item)]" "mu_expected batch_mu = [(''m'', JInt (-1))]"
    "mu_previous batch_mu = [(''m'', JNull)]" "\<not> mu_only_translations batch_mu"
    by (simp_all add: batch_mu_def)
  have rest: "\<exists>answer s'. batch_answer (JObj [(''request_id'', JStr ''r'')]) (JInt 9) ?reply ''c'' 1 batch_mu t = (Inr answer, s')"
    for t :: "(ref_world, ref_store) backend"
  proof -
    have "\<exists>b. batch_commit (JInt 9) (JStr ''r'') (JInt 1) ''c'' 1 batch_mu = Inr b"
      by (simp add: batch_commit_def mu) (simp add: sample_item_def value_json_def value_with_def jput_def is_null_def jget_def)
    then obtain b where "batch_commit (JInt 9) (JStr ''r'') (JInt 1) ''c'' 1 batch_mu = Inr b" by blast
    then show ?thesis
      by (simp add: batch_answer_def bindA_eq jget_def jput_def value_bool_def value_with_def get_bool_def const_at_def
          envelope_def)
  qed
  have "get_int64 (JInt 9) = Inr 9" by (simp add: get_int64_def as_int64_id)
  then have "\<exists>answer s'. client_request batch_env (JObj [(''request_id'', JStr ''r'')]) 5 (JObj [(''user_id'', JInt 9)])
      batch_event ''canvas_ops'' {''team''} False join_state = (Inr answer, s')"
    using rest[of "s2\<lparr>bk_cache := am, bk_redis := aw\<rparr>"] by (simp add: client_request_def bindA_eq reads requireA_def const_at_def Let_def env with_memory_def st s1
        canvas_ops_def count m mu a)
  then obtain answer s' where run: "client_request batch_env (JObj [(''request_id'', JStr ''r'')]) 5 (JObj [(''user_id'', JInt 9)])
      batch_event ''canvas_ops'' {''team''} False join_state = (Inr answer, s')"
    by blast
  from client_batches_are_sequenced[OF run] show ?thesis using run count by blast
qed

end
