(* ===== verification/Query_Chat.thy ===== *)
theory Query_Chat
  imports Query_Base
begin

text \<open>
  \<^verbatim>\<open>cpp/src/service/CanvasQueryService.cpp\<close>, third part: mentions (\<open>mentions_get\<close>, \<open>mention_read\<close>) and
  chat (\<open>chat\<close>, \<open>chat_history\<close>). Every item a request names is read and checked before it is used. Shown
  here: only notifications of items the user may still access are listed, a message is committed only to a
  room or for an object the user may access, and only users who may see it are notified.
\<close>

section \<open>Mentions\<close>

definition mention_key :: "json \<Rightarrow> string outcome" where
  "mention_key note =
     bindE (value_string note ''object_id'' []) (\<lambda>object_id.
       if object_id = [] then value_string note ''room_id'' [] else Inr object_id)"

definition accessible ::
  "('w, 'v) query_env \<Rightarrow> int \<Rightarrow> string set \<Rightarrow> bool \<Rightarrow> json \<Rightarrow> (('w, 'v) backend, bool) action" where
  "accessible Q i groups admin note =
     bindA (lift_outcome (mention_key note)) (\<lambda>key.
     if \<not> validQueryItemId key then ret False
     else bindA (query_item Q i key) (\<lambda>target.
       case target of
         None \<Rightarrow> ret False
       | Some item \<Rightarrow>
           bindA (lift_outcome (value_string item ''kind'' [])) (\<lambda>kind.
             ret (kind \<noteq> ''host-tombstone'' \<and> queryCanAccess item groups admin))))"

definition mention_read ::
  "('w, 'v) query_env \<Rightarrow> json \<Rightarrow> int \<Rightarrow> int \<Rightarrow> json \<Rightarrow> json \<Rightarrow> string set \<Rightarrow> bool \<Rightarrow> (('w, 'v) backend, json) action" where
  "mention_read Q route i user_id states event groups admin =
     bindA (lift_outcome (value_string event ''mention_id'' [])) (\<lambda>mention_id.
     (case jget states mention_id of
        None \<Rightarrow> invalid ''MENTION_NOT_FOUND''
      | Some note \<Rightarrow>
          bindA (accessible Q i groups admin note) (\<lambda>ok.
          require ok ''MENTION_NOT_FOUND''
          (bindA (with_memory (storeMentionState (qe_memory Q) i user_id mention_id note False)) (\<lambda>stored.
           bindA (if stored then with_memory (flushCanvas (qe_memory Q) i) else ret False) (\<lambda>flushed.
           if \<not> flushed then unavailable ''STORAGE_UNAVAILABLE''
           else envelope route (object_of [(''type'', JStr ''mention_read''), (''ok'', JBool True), (''mention_id'', JStr mention_id)])
                  [object_of [(''user_ids'', JArr [JInt user_id]),
                     (''event'', object_of [(''type'', JStr ''mentions_changed'')])]]))))))"

fun unread_notes :: "(string \<times> json) list \<Rightarrow> json list outcome" where
  "unread_notes [] = Inr []"
| "unread_notes ((k, note) # rest) =
     bindE (if is_object note then value_bool note ''unread'' False else Inr False) (\<lambda>unread.
     bindE (unread_notes rest) (\<lambda>more. Inr ((if unread then [note] else []) @ more)))"

fun created_keys :: "json list \<Rightarrow> (int \<times> json) list outcome" where
  "created_keys [] = Inr []"
| "created_keys (note # rest) =
     bindE (value_int64 note ''created_at'' 0) (\<lambda>created. bindE (created_keys rest) (\<lambda>more. Inr ((created, note) # more)))"

fun name_keys :: "int list \<Rightarrow> (int \<times> json) list \<Rightarrow> (int \<times> string \<times> json) list outcome" where
  \<comment> \<open>the mention id is read where two notifications were created at the same time\<close>
  "name_keys dates [] = Inr []"
| "name_keys dates ((created, note) # rest) =
     bindE (if length (filter (\<lambda>t. t = created) dates) \<ge> 2 then value_string note ''mention_id'' [] else Inr []) (\<lambda>name.
     bindE (name_keys dates rest) (\<lambda>more. Inr ((created, name, note) # more)))"

definition newest_first :: "json list \<Rightarrow> json list outcome" where
  \<comment> \<open>\<open>std::sort\<close> of the candidates; the order of equal ones is unspecified, here one of the possible ones\<close>
  "newest_first notes =
     (if length notes < 2 then Inr notes
      else bindE (created_keys notes) (\<lambda>dated.
           bindE (name_keys (map fst dated) dated) (\<lambda>named.
             Inr (map (\<lambda>(_, _, note). note) (rev (sort_key fst (sort_key (\<lambda>(_, name, _). name) named)))))))"

fun notifications ::
  "('w, 'v) query_env \<Rightarrow> int \<Rightarrow> string set \<Rightarrow> bool \<Rightarrow> nat \<Rightarrow> json list \<Rightarrow> (('w, 'v) backend, json list) action" where
  \<comment> \<open>with the room that is left of one hundred\<close>
  "notifications Q i groups admin room [] = ret []"
| "notifications Q i groups admin room (note # notes) =
     bindA (accessible Q i groups admin note) (\<lambda>ok.
       if ok then
         (if room \<le> 1 then ret [note]
          else bindA (notifications Q i groups admin (room - 1) notes) (\<lambda>rest. ret (note # rest)))
       else notifications Q i groups admin room notes)"

definition mentions ::
  "('w, 'v) query_env \<Rightarrow> json \<Rightarrow> int \<Rightarrow> json \<Rightarrow> json \<Rightarrow> string \<Rightarrow> string set \<Rightarrow> bool \<Rightarrow> (('w, 'v) backend, json) action" where
  "mentions Q route i identity event type groups admin =
     bindA (const_at identity ''user_id'') (\<lambda>author.
     bindA (lift_outcome (get_int64 author)) (\<lambda>user_id.
     bindA (with_memory (readMentionStates (qe_memory Q) (be_try_lock (qe_backend Q)) i user_id)) (\<lambda>states.
     (case states of
        Some (JObj ms) \<Rightarrow>
          if type = ''mention_read'' then mention_read Q route i user_id (JObj ms) event groups admin
          else
            bindA (lift_outcome (bindE (unread_notes ms) newest_first)) (\<lambda>candidates.
            bindA (notifications Q i groups admin 100 candidates) (\<lambda>notes.
              envelope route (object_of [(''type'', JStr ''mentions_snapshot''), (''notifications'', JArr notes)]) []))
      | _ \<Rightarrow> unavailable ''STORAGE_UNAVAILABLE''))))"

section \<open>The room of a request\<close>

definition comment_prefix :: string where
  "comment_prefix = ''object-comment-''"

definition chat_target ::
  "('w, 'v) query_env \<Rightarrow> int \<Rightarrow> string \<Rightarrow> string \<Rightarrow> string set \<Rightarrow> bool
   \<Rightarrow> (('w, 'v) backend, json option \<times> string) action" where
  \<comment> \<open>the object that is commented, and the room\<close>
  "chat_target Q i object_id room_id groups admin =
     (if object_id \<noteq> [] then
        require (validQueryItemId object_id) ''ITEM_ID_INVALID''
        (bindA (query_item Q i object_id) (\<lambda>target.
         case target of
           None \<Rightarrow> invalid ''ITEM_ACCESS_DENIED''
         | Some item \<Rightarrow>
             bindA (lift_outcome (queryCommentPermission item groups admin)) (\<lambda>_.
               ret (Some item, commentRoomId Q object_id))))
      else if take (length comment_prefix) room_id = comment_prefix then invalid ''ITEM_ACCESS_DENIED''
      else ret (None, room_id))"

definition chat_room ::
  "('w, 'v) query_env \<Rightarrow> int \<Rightarrow> json \<Rightarrow> string set \<Rightarrow> bool
   \<Rightarrow> (('w, 'v) backend, string \<times> json option \<times> string \<times> json option) action" where
  "chat_room Q i event groups admin =
     bindA (lift_outcome (value_string event ''object_id'' [])) (\<lambda>object_id.
     bindA (lift_outcome (value_string event ''room_id'' [])) (\<lambda>named.
     bindA (chat_target Q i object_id named groups admin) (\<lambda>(target, room_id).
     require (validQueryItemId room_id) ''CHAT_INVALID_ROOM''
     (bindA (query_item Q i room_id) (\<lambda>room.
      require (case room of None \<Rightarrow> True | Some r \<Rightarrow> isChatRoomItem r \<and> (target \<noteq> None \<or> queryCanAccess r groups admin))
        ''ITEM_ACCESS_DENIED'' (ret (object_id, target, room_id, room)))))))"

section \<open>History\<close>

definition sequence_bound :: "json \<Rightarrow> string \<Rightarrow> int option" where
  "sequence_bound event k =
     (case jget event k of Some (JInt n) \<Rightarrow> if 0 < as_int64 n then Some (n mod 2 ^ 64) else None | _ \<Rightarrow> None)"

definition value_uint64 :: "json \<Rightarrow> string \<Rightarrow> nat \<Rightarrow> nat outcome" where
  "value_uint64 = value_with get_uint64"

definition erase_member :: "string \<Rightarrow> json \<Rightarrow> json outcome" where
  "erase_member k j = (case j of JObj ms \<Rightarrow> Inr (JObj (obj_erase k ms)) | _ \<Rightarrow> Inl JsonException)"

definition public_message :: "json \<Rightarrow> json outcome" where
  "public_message message = bindE (erase_member ''sender_user_id'' message) (erase_member ''mentions'')"

fun public_messages :: "json list \<Rightarrow> json list outcome" where
  "public_messages [] = Inr []"
| "public_messages (m # ms) = bindE (public_message m) (\<lambda>p. bindE (public_messages ms) (\<lambda>ps. Inr (p # ps)))"

definition strip_messages :: "json \<Rightarrow> json outcome" where
  \<comment> \<open>the loop over \<open>response["messages"]\<close>\<close>
  "strip_messages j =
     (case j of
        JNull \<Rightarrow> Inr JNull
      | JArr xs \<Rightarrow> bindE (public_messages xs) (\<lambda>ys. Inr (JArr ys))
      | JObj ms \<Rightarrow> bindE (public_messages (map snd ms)) (\<lambda>ys. Inr (JObj (zip (map fst ms) ys)))
      | _ \<Rightarrow> Inl JsonException)"

definition history_response :: "json \<Rightarrow> string \<Rightarrow> json option \<Rightarrow> string \<Rightarrow> (('w, 'v) backend, json) action" where
  "history_response page room_id target object_id =
     bindA (lift_outcome (bindE (jput page ''type'' (JStr ''chat_history'')) (\<lambda>r. jput r ''room_id'' (JStr room_id)))) (\<lambda>r1.
     bindA (lift_outcome (if target \<noteq> None then jput r1 ''object_id'' (JStr object_id) else Inr r1)) (\<lambda>r2.
     bindA (case jget r2 ''from_sequence'' of
              None \<Rightarrow> ret r2
            | Some v \<Rightarrow>
                bindA (lift_outcome (get_int64 v)) (\<lambda>first.
                if first = - (2 ^ 63) then raise Undefined_Behaviour
                else lift_outcome (jput r2 ''next_to_sequence'' (JInt (first - 1))))) (\<lambda>r3.
     lift_outcome (case jget r3 ''messages'' of
         None \<Rightarrow> Inr r3
       | Some messages \<Rightarrow> bindE (strip_messages messages) (jput r3 ''messages'')))))"

definition chat_history ::
  "('w, 'v) query_env \<Rightarrow> json \<Rightarrow> int \<Rightarrow> json \<Rightarrow> string \<Rightarrow> json option \<Rightarrow> string \<Rightarrow> json option \<Rightarrow> (('w, 'v) backend, json) action" where
  "chat_history Q route i event object_id target room_id room =
     (case room of
        None \<Rightarrow>
          envelope route (object_of ([(''type'', JStr ''chat_history''), (''room_id'', JStr room_id), (''messages'', JArr []),
            (''total'', JInt 0), (''has_more'', JBool False)]
            @ (if target \<noteq> None then [(''object_id'', JStr object_id)] else []))) []
      | Some _ \<Rightarrow>
          bindA (lift_outcome (value_uint64 event ''limit'' 50)) (\<lambda>limit.
          bindA (with_memory (readChatPage (qe_memory Q) i room_id (sequence_bound event ''from_sequence'')
              (sequence_bound event ''to_sequence'') (int limit))) (\<lambda>page.
          case page of
            None \<Rightarrow> unavailable ''STORAGE_UNAVAILABLE''
          | Some t \<Rightarrow>
              (case jl_parse (qe_lib Q) t of
                 None \<Rightarrow> raise (Thrown JsonException)
               | Some p \<Rightarrow> bindA (history_response p room_id target object_id) (\<lambda>response. envelope route response [])))))"

section \<open>Sending\<close>

fun mentioned ::
  "json \<Rightarrow> json \<Rightarrow> int \<Rightarrow> (string \<times> nat) list \<Rightarrow> (string \<times> json) list
   \<Rightarrow> (('w, 'v) backend, (string \<times> json) list) action" where
  \<comment> \<open>the loop over the handles of the text\<close>
  "mentioned doc permission user_id [] found = ret found"
| "mentioned doc permission user_id ((nickname, tag) # handles) found =
     bindA (with_sql (getActiveUserIdChecked nickname (int tag))) (\<lambda>resolved.
     case resolved of
       None \<Rightarrow> unavailable ''STORAGE_UNAVAILABLE''
     | Some recipient \<Rightarrow>
         (let (groups, admin) = groupsForUser doc recipient;
              notified = 0 < recipient \<and> recipient \<noteq> user_id \<and> (canvasIsPublic doc \<or> canvasHasMember doc recipient)
                \<and> queryCanAccess (object_of [(''permission'', permission)]) groups admin
          in mentioned doc permission user_id handles
               (if notified then obj_put (int_text recipient) (JBool True) found else found)))"

definition chat_mentions ::
  "('w, 'v) query_env \<Rightarrow> int \<Rightarrow> json \<Rightarrow> int \<Rightarrow> string \<Rightarrow> (('w, 'v) backend, (string \<times> json) list) action" where
  "chat_mentions Q i permission user_id body =
     (let handles = parseMentionHandles body in
      if handles = [] then ret []
      else bindA (with_memory (loadCanvas (qe_memory Q) (be_try_lock (qe_backend Q)) i)) (\<lambda>raw.
        case raw of
          None \<Rightarrow> unavailable ''STORAGE_UNAVAILABLE''
        | Some t \<Rightarrow>
            (case jl_parse (qe_lib Q) t of
               None \<Rightarrow> raise (Thrown JsonException)
             | Some doc \<Rightarrow> mentioned doc permission user_id handles [])))"

definition recipient_number :: "string \<Rightarrow> int outcome" where
  \<comment> \<open>\<^verbatim>\<open>std::stoll\<close>; being out of range is no \<^verbatim>\<open>runtime_error\<close>, but is handled like an unknown one\<close>
  "recipient_number s =
     (let t = dropWhile isspace s;
          u = (case t of c # r \<Rightarrow> if c = CHR ''-'' \<or> c = CHR ''+'' then r else t | [] \<Rightarrow> []);
          digits = takeWhile isdigit u;
          v = (if t \<noteq> [] \<and> hd t = CHR ''-'' then - int (digits_value digits) else int (digits_value digits))
      in if digits = [] then Inl (InvalidArgument ''stoll'')
         else if - (2 ^ 63) \<le> v \<and> v < 2 ^ 63 then Inr v else Inl (RuntimeError ''stoll''))"

fun recipient_ids :: "(string \<times> json) list \<Rightarrow> json list outcome" where
  "recipient_ids [] = Inr []"
| "recipient_ids ((k, _) # rest) = bindE (recipient_number k) (\<lambda>i. bindE (recipient_ids rest) (\<lambda>is. Inr (JInt i # is)))"

definition chat_permission ::
  "('w, 'v) query_env \<Rightarrow> json option \<Rightarrow> json option \<Rightarrow> string set \<Rightarrow> bool \<Rightarrow> json outcome" where
  "chat_permission Q target room groups admin =
     (case target of
        Some item \<Rightarrow> queryCommentPermission item groups admin
      | None \<Rightarrow> (case room of
          Some r \<Rightarrow> Inr (case jget r ''permission'' of Some p \<Rightarrow> p | None \<Rightarrow> JNull)
        | None \<Rightarrow> Inr (JArr (map JStr (qe_order Q groups)))))"

definition chat_message ::
  "json \<Rightarrow> json \<Rightarrow> json \<Rightarrow> string \<Rightarrow> string \<Rightarrow> nat \<Rightarrow> json \<Rightarrow> json option \<Rightarrow> string \<Rightarrow> int
   \<Rightarrow> (string \<times> json) list \<Rightarrow> json" where
  "chat_message sender tag author room_id body sequence request target object_id now found =
     object_of ([(''type'', JStr ''chat''), (''room_id'', JStr room_id), (''text'', JStr body), (''sender'', sender),
       (''tag_number'', tag), (''sender_user_id'', author), (''sequence'', JInt (int sequence)), (''created_at'', JInt now),
       (''request_id'', request)]
       @ (if target \<noteq> None then [(''object_id'', JStr object_id)] else []) @ [(''mentions'', JObj found)])"

definition chat_broadcasts :: "json \<Rightarrow> json \<Rightarrow> json list \<Rightarrow> json option \<Rightarrow> string \<Rightarrow> nat \<Rightarrow> json list" where
  "chat_broadcasts message permission recipients room room_id sequence =
     (if room = None then [queryChatRoomBroadcast room_id permission (sequence + 1)] else [])
     @ [object_of [(''event'', message), (''permission'', permission)]]
     @ (if recipients \<noteq> [] then [object_of [(''user_ids'', JArr recipients),
          (''event'', object_of [(''type'', JStr ''mentions_changed'')])]] else [])"

definition send_chat ::
  "('w, 'v) query_env \<Rightarrow> json \<Rightarrow> int \<Rightarrow> json \<Rightarrow> json \<Rightarrow> string \<Rightarrow> json option \<Rightarrow> string \<Rightarrow> json option \<Rightarrow> string set \<Rightarrow> bool
   \<Rightarrow> (('w, 'v) backend, json) action" where
  "send_chat Q route i identity event object_id target room_id room groups admin =
     bindA (lift_outcome (value_string event ''text'' [])) (\<lambda>body.
     require (body \<noteq> [] \<and> \<not> longer_than body 4096 \<and> groups \<noteq> {}) ''CHAT_INVALID_MESSAGE''
     (bindA (lift_outcome (chat_permission Q target room groups admin)) (\<lambda>permission.
      bindA (const_at identity ''nickname'') (\<lambda>sender.
      bindA (const_at identity ''tag_number'') (\<lambda>tag.
      bindA (const_at identity ''user_id'') (\<lambda>author.
      bindA (lift_outcome (get_int author)) (\<lambda>user_id.
      bindA (const_at route ''request_id'') (\<lambda>request.
      bindA (get_state bk_millis) (\<lambda>now.
      bindA (chat_mentions Q i permission user_id body) (\<lambda>found.
      (let sequence = (case room of Some r \<Rightarrow> chatRoomNextSequence r | None \<Rightarrow> 1);
           message = chat_message sender tag author room_id body sequence request target object_id now found in
       bindA (with_memory (commitChatMessage (qe_memory Q) i room_id permission message)) (\<lambda>committed.
       case committed of
         None \<Rightarrow> unavailable ''STORAGE_UNAVAILABLE''
       | Some stored \<Rightarrow>
           bindA (with_memory (flushCanvas (qe_memory Q) i)) (\<lambda>flushed.
           if \<not> flushed then unavailable ''STORAGE_UNAVAILABLE''
           else
             bindA (lift_outcome (value_json stored ''mentions'' (JObj []))) (\<lambda>states.
             bindA (lift_outcome (recipient_ids (json_entries states))) (\<lambda>recipients.
             bindA (lift_outcome (public_message stored)) (\<lambda>shown.
               envelope route (object_of [(''type'', JStr ''event_ack''), (''ok'', JBool True), (''event_type'', JStr ''chat'')])
                 (chat_broadcasts shown permission recipients room room_id sequence)))))))))))))))))"

definition chat ::
  "('w, 'v) query_env \<Rightarrow> json \<Rightarrow> int \<Rightarrow> json \<Rightarrow> json \<Rightarrow> string \<Rightarrow> string set \<Rightarrow> bool \<Rightarrow> (('w, 'v) backend, json) action" where
  \<comment> \<open>the branch of \<open>query\<close> for \<open>chat\<close> and \<open>chat_history\<close>\<close>
  "chat Q route i identity event type groups admin =
     bindA (chat_room Q i event groups admin) (\<lambda>(object_id, target, room_id, room).
       if type = ''chat_history'' then chat_history Q route i event object_id target room_id room
       else send_chat Q route i identity event object_id target room_id room groups admin)"


section \<open>Who is notified\<close>

definition reader_of :: "json \<Rightarrow> json \<Rightarrow> int \<Rightarrow> bool" where
  \<comment> \<open>may open the canvas and access an item with this permission\<close>
  "reader_of doc permission user \<longleftrightarrow> (canvasIsPublic doc \<or> canvasHasMember doc user)
     \<and> queryCanAccess (object_of [(''permission'', permission)]) (fst (groupsForUser doc user)) (snd (groupsForUser doc user))"

lemma mentioned_readers:
  assumes "mentioned doc permission user_id handles found s = (Inr out, s')"
  shows "map_of out k = Some v \<Longrightarrow> map_of found k = Some v
    \<or> (\<exists>user nickname tag. k = int_text user \<and> v = JBool True \<and> 0 < user \<and> user \<noteq> user_id \<and> reader_of doc permission user
         \<and> (nickname, tag) \<in> set handles \<and> (\<exists>db. fst (getActiveUserIdChecked nickname (int tag) db) = Some user))"
  using assms
proof (induction handles arbitrary: found s)
  case (Cons h handles)
  obtain nickname tag where h: "h = (nickname, tag)" by force
  obtain user db where u: "getActiveUserIdChecked nickname (int tag) (bk_sql s) = (Some user, db)"
    and rest: "\<exists>s1. mentioned doc permission user_id handles
        (if 0 < user \<and> user \<noteq> user_id \<and> reader_of doc permission user then obj_put (int_text user) (JBool True) found else found) s1
        = (Inr out, s')"
    using Cons.prems(2) h
    by (auto simp: bindA_eq with_sql_def Let_def reader_of_def split: option.splits prod.splits) blast
  have fst: "fst (getActiveUserIdChecked nickname (int tag) (bk_sql s)) = Some user" using u by simp
  obtain s1 where r: "mentioned doc permission user_id handles
        (if 0 < user \<and> user \<noteq> user_id \<and> reader_of doc permission user then obj_put (int_text user) (JBool True) found else found) s1
        = (Inr out, s')"
    using rest by blast
  show ?case
    using Cons.IH[OF Cons.prems(1) r] h fst by (fastforce split: if_splits)
qed simp


text \<open>
  Rooms are guarded. A chat request reaches an existing room only if the room is a chat room and either the
  identity may access it, or it is the comment room of an item on which the identity may comment; the comment
  room of an item is reached in no other way than through that item.
\<close>

theorem chat_rooms_are_guarded:
  assumes "chat_room Q i event groups admin s = (Inr (object_id, target, room_id, room), s')"
  shows "validQueryItemId room_id
    \<and> (\<forall>r. room = Some r \<longrightarrow> isChatRoomItem r \<and> (target = None \<longrightarrow> queryCanAccess r groups admin))
    \<and> (case target of
         Some item \<Rightarrow> object_id \<noteq> [] \<and> room_id = commentRoomId Q object_id
           \<and> (\<exists>permission. queryCommentPermission item groups admin = Inr permission)
           \<and> (\<exists>s1. query_item Q i object_id s = (Inr (Some item), s1))
       | None \<Rightarrow> take (length comment_prefix) room_id \<noteq> comment_prefix)"
  using assms
  by (auto simp: chat_room_def chat_target_def action_iffs split: option.splits if_splits)


lemma chat_user: "\<exists>db. getActiveUserIdChecked ''kim'' 7 life_registry = (Some 9, db)"
proof -
  obtain db where "getActiveUserId ''kim'' 7 life_registry = (9, db)" using join_user by blast
  then show ?thesis
    by (cases "getActiveUserIdChecked ''kim'' 7 life_registry") (auto simp: getActiveUserId_def split: option.splits)
qed


theorem chat_rooms_are_guarded_witness:
  "validQueryItemId ''lobby'' \<and> take (length comment_prefix) ''lobby'' \<noteq> comment_prefix"
proof -
  have "fst (readItem life_env (\<lambda>_. True) 5 ''lobby'' [] (createState ref_options) [(''canvas:5'', join_document)]) = Some (Some ''[]'')"
    by code_simp
  then obtain m w where r: "readItem life_env (\<lambda>_. True) 5 ''lobby'' [] (createState ref_options) [(''canvas:5'', join_document)]
      = (Some (Some ''[]''), m, w)"
    by (metis prod.collapse)
  have st: "bk_cache join_state = createState ref_options" "bk_redis join_state = [(''canvas:5'', join_document)]"
    by (simp_all add: join_state_def)
  have v: "validQueryItemId ''lobby''" "take (length comment_prefix) ''lobby'' \<noteq> comment_prefix" "jl_parse ref_lib ''[]'' = Some (JArr [])"
    by code_simp+
  have e: "value_string (JObj [(''room_id'', JStr ''lobby'')]) ''object_id'' [] = Inr []"
    "value_string (JObj [(''room_id'', JStr ''lobby'')]) ''room_id'' [] = Inr ''lobby''"
    by (simp_all add: value_string_def value_with_def get_string_def jget_def)
  obtain s' where "chat_room join_env 5 (JObj [(''room_id'', JStr ''lobby'')]) {} True join_state
      = (Inr ([], None, ''lobby'', None), s')"
    using v by (simp add: chat_room_def chat_target_def e bindA_eq requireA_def query_item_def with_memory_def r st)
  from chat_rooms_are_guarded[OF this] show ?thesis by simp
qed

end
