(* ===== verification/Canvas_Queries.thy ===== *)
theory Canvas_Queries
  imports Query_Batch Query_Chat
begin

text \<open>
  \<^verbatim>\<open>cpp/src/service/CanvasQueryService.cpp\<close>, last part: the single and batched changes of items
  (\<open>crud_batch\<close>, \<open>host_item_batch\<close> and the single events), the dispatch of \<open>query\<close> with the check of the
  identity, and \<open>execute\<close>, which turns every exception into an answer. Shown here: \<open>execute\<close> answers every
  routed request with its own request id and never lets an exception out, an identity that does not fit
  changes nothing, and changed items stay within the permissions of the identity.
\<close>

section \<open>Changes of items\<close>

fun unset_each :: "json list \<Rightarrow> json \<Rightarrow> json outcome" where
  "unset_each [] item = Inr item"
| "unset_each (f # fs) item =
     (case f of
        JStr name \<Rightarrow> bindE (erase_member name item) (unset_each fs)
      | _ \<Rightarrow> Inl (InvalidArgument ''ITEM_PATCH_INVALID''))"

definition changed_item :: "string \<Rightarrow> json \<Rightarrow> json \<Rightarrow> json outcome" where
  \<comment> \<open>the item of a create or update, or the old one with the patch\<close>
  "changed_item action operation old =
     bindE (value_json operation ''item'' (JObj [])) (\<lambda>item.
     if action \<noteq> ''patch'' then Inr item
     else bindE (value_json operation ''patch'' (JObj [])) (\<lambda>patch.
       requireE (is_object patch) ''ITEM_PATCH_INVALID''
       (bindE (update_object (if is_null old then JObj [] else old) patch) (\<lambda>patched.
        bindE (value_json operation ''unset'' (JArr [])) (\<lambda>unset. unset_each (elements unset) patched)))))"

record item_work =
  iw_prepared :: "json list"
  iw_broadcasts :: "json list"
  iw_results :: "json list"
  iw_touched :: "string list"

definition operation_action :: "json \<Rightarrow> (string \<times> string) outcome" where
  \<comment> \<open>the action, derived from the type when it is not given, and the type\<close>
  "operation_action operation =
     bindE (value_string operation ''action'' []) (\<lambda>action.
     bindE (value_string operation ''type'' []) (\<lambda>type.
       Inr (if action \<noteq> [] then action else if type \<in> {''item_delete'', ''delete_item''} then ''delete'' else ''update'',
            type)))"

definition delete_work :: "json option \<Rightarrow> string \<Rightarrow> item_work \<Rightarrow> item_work outcome" where
  "delete_work previous item_id work =
     requireE (case previous of Some old \<Rightarrow> \<not> isChatRoomItem old | None \<Rightarrow> True) ''CHAT_QUERY_REQUIRED''
     (bindE (case previous of Some old \<Rightarrow> value_json old ''permission'' (JArr []) | None \<Rightarrow> Inr (JArr [])) (\<lambda>permission.
      (let event = object_of [(''type'', JStr ''item_delete''), (''item_id'', JStr item_id)]
       in Inr (work\<lparr>iw_prepared := iw_prepared work @ [event],
            iw_broadcasts := iw_broadcasts work @ [object_of [(''event'', event), (''permission'', permission)]]\<rparr>))))"

definition change_work ::
  "string \<Rightarrow> json \<Rightarrow> string \<Rightarrow> string \<Rightarrow> json option \<Rightarrow> string \<Rightarrow> string set \<Rightarrow> bool \<Rightarrow> item_work \<Rightarrow> item_work outcome" where
  "change_work type operation action operation_type previous item_id groups admin work =
     (let old = (case previous of Some j \<Rightarrow> j | None \<Rightarrow> JNull) in
      requireE (action = ''create'' \<longrightarrow> previous = None) ''ITEM_ALREADY_EXISTS''
      (requireE (action = ''patch'' \<longrightarrow> previous \<noteq> None) ''ITEM_NOT_FOUND''
      (bindE (changed_item action operation old) (\<lambda>wanted.
       bindE (queryUpdatedItem old wanted groups admin) (\<lambda>item.
         Inr (work\<lparr>
           iw_prepared := iw_prepared work @ [object_of [
             (''type'', JStr (if operation_type = ''item_save'' then ''item_save'' else ''item_update'')),
             (''item_id'', JStr item_id), (''item'', item)]],
           iw_broadcasts := iw_broadcasts work @ (if type = ''host_item_batch'' then [] else [object_of [
             (''event'', object_of [(''type'', JStr ''item_update''), (''item_id'', JStr item_id), (''item'', item)]),
             (''permission'', case jget item ''permission'' of Some p \<Rightarrow> p | None \<Rightarrow> JNull)]])\<rparr>))))))"

definition item_operation ::
  "('w, 'v) query_env \<Rightarrow> int \<Rightarrow> string \<Rightarrow> json \<Rightarrow> string set \<Rightarrow> bool \<Rightarrow> item_work \<Rightarrow> (('w, 'v) backend, item_work) action" where
  "item_operation Q i type operation groups admin work =
     bindA (lift_outcome (bindE (value_string operation ''id'' []) (value_string operation ''item_id''))) (\<lambda>item_id.
     require (validQueryItemId item_id \<and> item_id \<notin> set (iw_touched work)) ''ITEM_ID_INVALID''
     (let work1 = work\<lparr>iw_touched := item_id # iw_touched work\<rparr> in
      bindA (query_item Q i item_id) (\<lambda>previous.
      require (case previous of Some old \<Rightarrow> queryCanAccess old groups admin | None \<Rightarrow> True) ''ITEM_ACCESS_DENIED''
      (bindA (lift_outcome (operation_action operation)) (\<lambda>(action, operation_type).
       lift_outcome
         (if action = ''read'' then
            Inr (work1\<lparr>iw_results := iw_results work1 @ [object_of [(''item_id'', JStr item_id),
              (''item'', case previous of Some j \<Rightarrow> j | None \<Rightarrow> JNull)]]\<rparr>)
          else if action = ''delete'' then delete_work previous item_id work1
          else if action \<in> {''create'', ''update'', ''patch''}
          then change_work type operation action operation_type previous item_id groups admin work1
          else Inl (InvalidArgument ''QUERY_ACTION_INVALID'')))))))"

fun item_operations ::
  "('w, 'v) query_env \<Rightarrow> int \<Rightarrow> string \<Rightarrow> json list \<Rightarrow> string set \<Rightarrow> bool \<Rightarrow> item_work \<Rightarrow> (('w, 'v) backend, item_work) action" where
  "item_operations Q i type [] groups admin work = ret work"
| "item_operations Q i type (operation # rest) groups admin work =
     bindA (item_operation Q i type operation groups admin work) (item_operations Q i type rest groups admin)"

fun apply_prepared :: "('w, 'v) query_env \<Rightarrow> int \<Rightarrow> json list \<Rightarrow> nat \<Rightarrow> (('w, 'v) backend, bool \<times> nat) action" where
  \<comment> \<open>whether all were applied, and how many\<close>
  "apply_prepared Q i [] applied = ret (True, applied)"
| "apply_prepared Q i (operation # rest) applied =
     bindA (with_memory (apply_event (qe_memory Q) (be_try_lock (qe_backend Q)) i operation)) (\<lambda>ok.
       if ok then apply_prepared Q i rest (applied + 1) else ret (False, applied))"

definition item_changes ::
  "('w, 'v) query_env \<Rightarrow> json \<Rightarrow> int \<Rightarrow> json \<Rightarrow> string \<Rightarrow> string set \<Rightarrow> bool \<Rightarrow> (('w, 'v) backend, json) action" where
  "item_changes Q route i event type groups admin =
     (let result = JStr (if type = ''host_item_batch'' then ''host_batch_result'' else ''crud_result'');
          failed = (\<lambda>applied. envelope route (object_of [(''type'', result), (''ok'', JBool False),
            (''code'', JStr ''STORAGE_UNAVAILABLE''), (''applied'', JInt (int applied))]) [])
      in bindA (lift_outcome (if type \<in> {''host_item_batch'', ''crud_batch''} then value_json event ''changes'' (JArr [])
                              else Inr (JArr [event]))) (\<lambda>operations.
      (case operations of
         JArr ops \<Rightarrow>
           require (ops \<noteq> [] \<and> \<not> longer_than ops 512) ''QUERY_BATCH_INVALID''
           (bindA (item_operations Q i type ops groups admin
               \<lparr>iw_prepared = [], iw_broadcasts = [], iw_results = [], iw_touched = []\<rparr>) (\<lambda>work.
            bindA (apply_prepared Q i (iw_prepared work) 0) (\<lambda>(all, applied).
            if \<not> all then failed applied
            else bindA (with_memory (flushCanvas (qe_memory Q) i)) (\<lambda>flushed.
              if \<not> flushed then failed applied
              else envelope route (object_of [(''type'', result), (''ok'', JBool True), (''applied'', JInt (int applied)),
                     (''results'', JArr (iw_results work))]) (iw_broadcasts work)))))
       | _ \<Rightarrow> invalid ''QUERY_BATCH_INVALID'')))"


section \<open>Queries\<close>

definition identity_ok :: "json \<Rightarrow> int \<Rightarrow> json \<Rightarrow> int \<Rightarrow> unit outcome" where
  \<comment> \<open>the conditions in the order in which they are evaluated; a failed one ends the evaluation\<close>
  "identity_ok route i identity now =
     (let unauthorized = ''QUERY_UNAUTHORIZED'' in
      requireE (is_object identity) unauthorized
      (bindE (value_int identity ''canvas_id'' 0) (\<lambda>canvas. requireE (canvas = i) unauthorized
      (bindE (value_string identity ''connection_id'' []) (\<lambda>connection.
       requireE (jget route ''connection_id'' = Some (JStr connection)) unauthorized
      (bindE (value_int64 identity ''expires_at'' 0) (\<lambda>expires. requireE (now < expires) unauthorized
      (bindE (value_int identity ''user_id'' 0) (\<lambda>user_id. requireE (0 < user_id) unauthorized
      (requireE (case jget identity ''groups'' of Some g \<Rightarrow> is_array g | None \<Rightarrow> False) unauthorized
      (requireE (case jget identity ''is_admin'' of Some b \<Rightarrow> is_boolean b | None \<Rightarrow> False) unauthorized
        (Inr ()))))))))))))"

definition identity_groups :: "json \<Rightarrow> string set outcome" where
  \<comment> \<open>\<open>identity["groups"].get<std::unordered_set<std::string>>()\<close>\<close>
  "identity_groups identity =
     (case jget identity ''groups'' of
        Some (JArr xs) \<Rightarrow>
          if list_all is_string xs then Inr (set (concat (map (\<lambda>v. case v of JStr s \<Rightarrow> [s] | _ \<Rightarrow> []) xs)))
          else Inl JsonException
      | _ \<Rightarrow> Inl JsonException)"

definition settings_query ::
  "('w, 'v) query_env \<Rightarrow> json \<Rightarrow> int \<Rightarrow> json \<Rightarrow> json \<Rightarrow> (('w, 'v) backend, json) action" where
  "settings_query Q route i identity event =
     bindA (bindA (const_at identity ''user_id'') (\<lambda>v. lift_outcome (get_int v))) (\<lambda>user_id.
     bindA (bindA (const_at identity ''nickname'') (\<lambda>v. lift_outcome (get_string v))) (\<lambda>nickname.
     bindA (bindA (const_at identity ''tag_number'') (\<lambda>v. lift_outcome (get_int v))) (\<lambda>tag.
     bindA (bindA (const_at route ''request_id'') (\<lambda>v. lift_outcome (get_string v))) (\<lambda>request.
     bindA (getCanvas i) (\<lambda>canvas.
     bindA (settings_execute (qe_backend Q) canvas i user_id nickname tag event request) (\<lambda>result.
       envelope route (sr_response result)
         (if sr_changed result
          then [object_of [(''event'', object_of [(''type'', JStr ''server_reconnect''), (''reason'', JStr ''settings_changed''),
                  (''retry_after_ms'', JInt 100)]), (''all'', JBool True), (''close'', JBool True)]]
          else [])))))))"

definition query_event ::
  "('w, 'v) query_env \<Rightarrow> json \<Rightarrow> int \<Rightarrow> json \<Rightarrow> json \<Rightarrow> string \<Rightarrow> string set \<Rightarrow> bool
   \<Rightarrow> (('w, 'v) backend, json) action" where
  \<comment> \<open>the dispatch on the type of the event\<close>
  "query_event Q route i identity event type groups admin =
     (if type \<in> {''canvas_ops'', ''canvas_sync''} then client_request Q route i identity event type groups admin
     else if type = ''broker_lease'' then envelope route (object_of [(''type'', JStr ''lease_result''), (''ok'', JBool True)]) []
     else if take (length ''canvas_settings_'') type = ''canvas_settings_'' then settings_query Q route i identity event
     else if type \<in> {''mentions_get'', ''mention_read''} then mentions Q route i identity event type groups admin
     else if type \<in> {''chat'', ''chat_history''} then chat Q route i identity event type groups admin
     else item_changes Q route i event type groups admin)"

definition query :: "('w, 'v) query_env \<Rightarrow> json \<Rightarrow> (('w, 'v) backend, json) action" where
  "query Q input =
     bindA (lift_outcome (routing input)) (\<lambda>route.
     bindA (lift_outcome (value_int route ''canvas_id'' 0)) (\<lambda>i.
     bindA (lift_outcome (value_json input ''identity'' (JObj []))) (\<lambda>identity.
     bindA (get_state bk_seconds) (\<lambda>now.
     bindA (lift_outcome (identity_ok route i identity now)) (\<lambda>_.
     bindA (getCanvas i) (\<lambda>canvas.
     case canvas of
       None \<Rightarrow> invalid ''CANVAS_NOT_READY''
     | Some c \<Rightarrow>
         require (\<not> cv_unloading c) ''CANVAS_NOT_READY''
         (bindA (touchQuery i) (\<lambda>_.
          bindA (lift_outcome (value_int64 identity ''settings_revision'' (-1))) (\<lambda>revision.
          require (cv_settings_revision c = revision) ''SETTINGS_CHANGED''
          (bindA (lift_outcome (value_json input ''event'' (JObj []))) (\<lambda>event.
           require (is_object event) ''QUERY_INVALID''
           (bindA (lift_outcome (value_string event ''type'' [])) (\<lambda>type.
            bindA (lift_outcome (identity_groups identity)) (\<lambda>groups.
            bindA (lift_outcome (value_bool identity ''is_admin'' False)) (\<lambda>admin.
              query_event Q route i identity event type groups admin)))))))))))))))"

section \<open>execute\<close>

definition error_code :: "cpp_exn \<Rightarrow> string" where
  "error_code e =
     (case e of
        InvalidArgument code \<Rightarrow> code
      | JsonException \<Rightarrow> ''QUERY_DATA_INVALID''
      | RuntimeError code \<Rightarrow>
          if code \<in> {''STORAGE_UNAVAILABLE'', ''QUERY_OUTCOME_UNKNOWN'', ''CANVAS_NOT_READY''} then code
          else ''QUERY_UNAVAILABLE'')"

definition catching :: "(cpp_exn \<Rightarrow> ('s, 'a) action) \<Rightarrow> ('s, 'a) action \<Rightarrow> ('s, 'a) action" where
  \<comment> \<open>a \<open>try\<close> block whose handlers cover every exception\<close>
  "catching handler m = (\<lambda>s. case m s of (Inl (Thrown e), s1) \<Rightarrow> handler e s1 | r \<Rightarrow> r)"

definition error_answer :: "json \<Rightarrow> cpp_exn \<Rightarrow> ('s, json) action" where
  "error_answer route e =
     envelope route (object_of [(''type'', JStr ''error''), (''ok'', JBool False), (''code'', JStr (error_code e))]) []"

definition execute_query :: "('w, 'v) query_env \<Rightarrow> json \<Rightarrow> (('w, 'v) backend, json) action" where
  \<comment> \<open>\<open>CanvasQueryService::execute\<close>; the route the handlers use is empty until \<open>routing\<close> has returned\<close>
  "execute_query Q input =
     (case routing input of
        Inl e \<Rightarrow> error_answer (JObj []) e
      | Inr route \<Rightarrow>
          catching (error_answer route)
            (bindA (lift_outcome (value_string input ''command'' [])) (\<lambda>command.
             if command = ''connect'' then join Q input
             else if command = ''query'' then query Q input
             else invalid ''QUERY_COMMAND_INVALID'')))"


section \<open>Every branch answers on its route\<close>

lemma answers_if [intro]: "(c \<Longrightarrow> answers route m) \<Longrightarrow> (\<not> c \<Longrightarrow> answers route n) \<Longrightarrow> answers route (if c then m else n)"
  by simp

lemma answers_option: "answers route n \<Longrightarrow> (\<And>x. answers route (f x)) \<Longrightarrow> answers route (case x of None \<Rightarrow> n | Some x \<Rightarrow> f x)"
  by (cases x) simp_all

lemma answers_array: "(\<And>xs. answers route (f xs)) \<Longrightarrow> answers route n \<Longrightarrow>
    answers route (case j of JArr xs \<Rightarrow> f xs | _ \<Rightarrow> n)"
  by (cases j) simp_all

lemma answers_pair: "(\<And>a b. answers route (f a b)) \<Longrightarrow> answers route (case p of (a, b) \<Rightarrow> f a b)"
  by (cases p) simp

lemmas answers_rules = answers_bind answers_envelope answers_raise answers_require answers_if answers_option answers_array
  answers_pair

lemma answers_client: "answers route (client_request Q route i identity event type groups admin)"
  unfolding client_request_def canvas_sync_def canvas_ops_def batch_answer_def Let_def
  by (intro answers_rules)

lemma answers_mentions: "answers route (mentions Q route i identity event type groups admin)"
proof -
  have "answers route (mention_read Q route i user_id states event groups admin)" for user_id states
    unfolding mention_read_def by (intro answers_rules)
  then have "answers route (case states of
        Some (JObj ms) \<Rightarrow>
          if type = ''mention_read'' then mention_read Q route i user_id (JObj ms) event groups admin
          else
            bindA (lift_outcome (bindE (unread_notes ms) newest_first)) (\<lambda>candidates.
            bindA (notifications Q i groups admin 100 candidates) (\<lambda>notes.
              envelope route (object_of [(''type'', JStr ''mentions_snapshot''), (''notifications'', JArr notes)]) []))
      | _ \<Rightarrow> unavailable ''STORAGE_UNAVAILABLE'')" for states user_id
    by (auto split: option.split json.split intro!: answers_rules)
  then show ?thesis unfolding mentions_def by (intro answers_bind)
qed

lemma answers_chat: "answers route (chat Q route i identity event type groups admin)"
  unfolding chat_def chat_history_def send_chat_def Let_def by (intro answers_rules)

lemma answers_query: "answers route (query_event Q route i identity event type groups admin)"
proof -
  have "answers route (item_changes Q route i event type groups admin)"
    unfolding item_changes_def Let_def by (intro answers_rules)
  moreover have "answers route (settings_query Q route i identity event)"
    unfolding settings_query_def by (intro answers_rules)
  ultimately show ?thesis
    unfolding query_event_def by (intro answers_if answers_client answers_mentions answers_chat answers_envelope)
qed

lemma routed_request: "routing input = Inr route \<Longrightarrow> \<exists>r ms. jget route ''request_id'' = Some (JStr r) \<and> route = JObj ms
    \<and> r \<noteq> [] \<and> (\<exists>i. value_int route ''canvas_id'' 0 = Inr i \<and> 0 < i)"
proof -
  assume a: "routing input = Inr route"
  obtain given i where g: "jget given ''canvas_id'' = Some (JInt i)" "0 < as_int32 i" "short_text given ''request_id''"
      "route = object_of [(''canvas_id'', JInt i), (''connection_id'', the (jget given ''connection_id'')),
               (''request_id'', the (jget given ''request_id''))]"
  proof -
    obtain given where v: "value_json input ''route'' (JObj []) = Inr given"
      using a by (auto simp: routing_def outcome_iffs)
    obtain j where j: "jget given ''canvas_id'' = Some j" using a v by (cases "jget given ''canvas_id''") (auto simp: routing_def)
    obtain i where i: "j = JInt i" using a v j by (cases j) (auto simp: routing_def)
    show thesis using that[of given i] a v j i by (auto simp: routing_def requireE_Inr_iff)
  qed
  obtain r where "jget given ''request_id'' = Some (JStr r)" "r \<noteq> []"
    using g(3) by (auto simp: short_text_def split: option.splits json.splits)
  then have "jget route ''request_id'' = Some (JStr r)" "r \<noteq> []" using g(4) by (simp_all add: object_of_get)
  moreover have "jget route ''canvas_id'' = Some (JInt i)" using g(4) by (simp add: object_of_get)
  moreover obtain ms where "route = JObj ms" using g(4) by (simp add: object_of_def)
  ultimately show ?thesis using g(2)
    by (auto simp: value_int_def value_with_def get_int_def intro!: exI)
qed

section \<open>Properties\<close>

text \<open>
  C21. Every routed request is answered. When the route of a request is valid, \<open>execute\<close> lets no exception out;
  whatever it returns is on that route, and, but for the first answer to a connecting client, carries the
  request id of the route.
\<close>

theorem routed_requests_are_answered:
  assumes "routing input = Inr route"
  shows "(\<forall>e. fst (execute_query Q input s) \<noteq> Inl (Thrown e))
    \<and> (\<forall>answer. fst (execute_query Q input s) = Inr answer \<longrightarrow> jget answer ''route'' = Some route
         \<and> (answered route answer \<or> value_string input ''command'' [] = Inr ''connect''))"
proof -
  obtain r ms where r: "jget route ''request_id'' = Some (JStr r)" "route = JObj ms"
    using routed_request[OF assms] by blast
  have err: "\<exists>a. error_answer route e s1 = (Inr a, s1) \<and> answered route a" for e s1
    using r by (auto simp: error_answer_def envelope_def bindA_eq const_at_def jput_def object_of_def answered_def jget_def
        split: if_splits)
  obtain x s1 where b: "bindA (lift_outcome (value_string input ''command'' [])) (\<lambda>command.
             if command = ''connect'' then join Q input
             else if command = ''query'' then query Q input
             else invalid ''QUERY_COMMAND_INVALID'') s = (x, s1)" by force
  show ?thesis
  proof (cases x)
    case (Inl failure)
    show ?thesis
    proof (cases failure)
      case (Thrown e)
      obtain a where "error_answer route e s1 = (Inr a, s1)" "answered route a" using err[of e s1] by blast
      then show ?thesis using assms b Inl Thrown by (simp add: execute_query_def catching_def answered_def)
    qed (use assms b Inl in \<open>simp_all add: execute_query_def catching_def\<close>)
  next
    case (Inr a)
    have run: "execute_query Q input s = (Inr a, s1)" using assms b Inr by (simp add: execute_query_def catching_def)
    obtain command where c: "value_string input ''command'' [] = Inr command"
      using b Inr by (auto simp: action_iffs)
    have "jget a ''route'' = Some route \<and> (answered route a \<or> command = ''connect'')"
    proof (cases "command = ''connect''")
      case True
      then show ?thesis using b Inr c assms join_route by (auto simp: bindA_eq)
    next
      case False
      then have "query Q input s = (Inr a, s1)" using b Inr c by (auto simp: bindA_eq split: if_splits)
      then obtain i identity event type groups admin s2 where
        "query_event Q route i identity event type groups admin s2 = (Inr a, s1)"
        using assms by (fastforce simp: query_def action_iffs split: option.splits)
      then have "answered route a" using answers_query[of route Q i identity event type groups admin]
        by (auto simp: answers_def)
      then show ?thesis by (simp add: answered_def)
    qed
    then show ?thesis using run c by simp
  qed
qed

text \<open>
  Unrouted requests have no defined answer. When the route is not valid, \<open>execute\<close> means to answer with an
  error, but reads the request id from a route that is still empty, which is undefined behaviour.
\<close>

theorem unrouted_requests_are_undefined:
  assumes "routing input = Inl e"
  shows "execute_query Q input s = (Inl Undefined_Behaviour, s)"
  using assms by (simp add: execute_query_def error_answer_def envelope_def bindA_eq const_at_def)


section \<open>Witnesses\<close>

definition query_input :: "string \<Rightarrow> json" where
  "query_input command = JObj [(''command'', JStr command),
     (''route'', JObj [(''canvas_id'', JInt 5), (''connection_id'', JStr ''c''), (''request_id'', JStr ''r'')])]"

lemma query_input_route: "routing (query_input ''list'') = Inr (JObj [(''canvas_id'', JInt 5),
    (''connection_id'', JStr ''c''), (''request_id'', JStr ''r'')])"
  by code_simp

theorem routed_requests_are_answered_witness:
  "\<exists>answer. fst (execute_query join_env (query_input ''list'') life_backend) = Inr answer
     \<and> answered (JObj [(''canvas_id'', JInt 5), (''connection_id'', JStr ''c''), (''request_id'', JStr ''r'')]) answer"
proof -
  have c: "value_string (query_input ''list'') ''command'' [] = Inr ''list''" by code_simp
  have "\<exists>answer. fst (execute_query join_env (query_input ''list'') life_backend) = Inr answer"
    by (simp add: execute_query_def query_input_route catching_def bindA_eq c error_answer_def envelope_def const_at_def
        jput_def object_of_def)
  then show ?thesis
    using routed_requests_are_answered[OF query_input_route, of join_env life_backend] c by auto
qed

theorem unrouted_requests_are_undefined_witness:
  "execute_query join_env (JObj []) life_backend = (Inl Undefined_Behaviour, life_backend)"
proof -
  have "routing (JObj []) = Inl (InvalidArgument ''ROUTE_INVALID'')" by code_simp
  then show ?thesis by (rule unrouted_requests_are_undefined)
qed



lemma bind_liftE:
  assumes "bindA (lift_outcome m) f s = (r, s')"
  obtains e where "r = Inl e" "s' = s" | x where "m = Inr x" "f x s = (r, s')"
  using assms by (cases m) (auto simp: bindA_eq lift_outcome_def)

lemma requireA_E:
  assumes "requireA c e k s = (r, s')"
  obtains "r = Inl (Thrown e)" "s' = s" | "c" "k s = (r, s')"
  using assms by (cases c) (auto simp: requireA_def)

lemma bind_getE:
  assumes "bindA (get_state g) f s = (r, s')"
  obtains "f (g s) s = (r, s')"
  using assms by (simp add: bindA_eq get_state_def)

lemma bind_touchE:
  assumes "bindA (touchQuery i) f s = (r, s')"
  obtains "f () (s\<lparr>bk_last_query := (bk_last_query s)(i := bk_steady s)\<rparr>) = (r, s')"
  using assms by (simp add: bindA_eq touchQuery_def modify_def)

text \<open>
  C6. Queries need a valid identity. A query that is not rejected as it stands - that changes more than the time
  of the last query of its canvas, or that returns an answer - comes with an identity for the canvas and the
  connection of its route that has not expired and names a user and a list of groups; the canvas is loaded and
  not being unloaded, and its settings have the revision the identity was issued for. Every other query ends
  in an error.
\<close>

theorem queries_need_valid_identity:
  assumes "query Q input s = (r, s')"
  shows "((\<exists>e. r = Inl e) \<and> (s' = s \<or> (\<exists>i c. live_canvas i s = Some c \<and> \<not> cv_unloading c
            \<and> s' = s\<lparr>bk_last_query := (bk_last_query s)(i := bk_steady s)\<rparr>)))
    \<or> (\<exists>route i identity expires user_id groups c. routing input = Inr route \<and> value_int route ''canvas_id'' 0 = Inr i
         \<and> value_json input ''identity'' (JObj []) = Inr identity \<and> value_int identity ''canvas_id'' 0 = Inr i
         \<and> (\<exists>connection. value_string identity ''connection_id'' [] = Inr connection
              \<and> jget route ''connection_id'' = Some (JStr connection))
         \<and> value_int64 identity ''expires_at'' 0 = Inr expires \<and> bk_seconds s < expires
         \<and> value_int identity ''user_id'' 0 = Inr user_id \<and> 0 < user_id \<and> identity_groups identity = Inr groups
         \<and> live_canvas i s = Some c \<and> \<not> cv_unloading c
         \<and> value_int64 identity ''settings_revision'' (-1) = Inr (cv_settings_revision c))"
  using assms unfolding query_def
  by (auto elim!: bind_liftE requireA_E bind_getE bind_touchE
      simp: getCanvas_def identity_ok_def Let_def bindE_Inr_iff requireE_Inr_iff split: option.splits) blast+


definition lease_request :: json where
  "lease_request = JObj [(''event'', JObj [(''type'', JStr ''broker_lease'')]),
     (''identity'', JObj [(''canvas_id'', JInt 5), (''connection_id'', JStr ''c''), (''expires_at'', JInt 1),
        (''groups'', JArr [JStr ''public'']), (''is_admin'', JBool False), (''settings_revision'', JInt 0),
        (''user_id'', JInt 9)]),
     (''route'', JObj [(''canvas_id'', JInt 5), (''connection_id'', JStr ''c''), (''request_id'', JStr ''r'')])]"

theorem queries_need_valid_identity_witness:
  "\<exists>a c. fst (query join_env lease_request life_backend) = Inr a \<and> live_canvas 5 life_backend = Some c
     \<and> value_int64 (JObj [(''settings_revision'', JInt 0)]) ''settings_revision'' (-1) = Inr (cv_settings_revision c)"
proof -
  let ?route = "JObj [(''canvas_id'', JInt 5), (''connection_id'', JStr ''c''), (''request_id'', JStr ''r'')]"
  note reads = lease_request_def value_json_def value_int_def value_int64_def value_string_def value_bool_def value_with_def get_bool_def
    get_int_def get_int64_def get_string_def as_int32_id as_int64_id jget_def is_object_def is_array_def is_boolean_def
  have route: "routing lease_request = Inr ?route"
    by (simp add: routing_def reads short_text_def longer_than_def object_of_def requireE_Inr_iff)
  have sec: "bk_seconds life_backend = 0" by (simp add: life_backend_def)
  have rev: "cv_settings_revision (canvas_new 5 ''10.1.0.1'' 6379) = 0" "\<not> cv_unloading (canvas_new 5 ''10.1.0.1'' 6379)"
    by (simp_all add: canvas_new_def)
  let ?identity = "JObj [(''canvas_id'', JInt 5), (''connection_id'', JStr ''c''), (''expires_at'', JInt 1),
        (''groups'', JArr [JStr ''public'']), (''is_admin'', JBool False), (''settings_revision'', JInt 0),
        (''user_id'', JInt 9)]"
  have parts: "value_int ?route ''canvas_id'' 0 = Inr 5" "value_json lease_request ''identity'' (JObj []) = Inr ?identity"
    "value_json lease_request ''event'' (JObj []) = Inr (JObj [(''type'', JStr ''broker_lease'')])"
    "value_int64 ?identity ''settings_revision'' (-1) = Inr 0" "identity_groups ?identity = Inr {''public''}"
    "value_bool ?identity ''is_admin'' False = Inr False"
    "value_string (JObj [(''type'', JStr ''broker_lease'')]) ''type'' [] = Inr ''broker_lease''"
    "is_object (JObj [(''type'', JStr ''broker_lease'')])"
    by (simp_all add: reads identity_groups_def)
  have "identity_ok ?route 5 ?identity 0 = Inr ()"
    by (simp add: identity_ok_def Let_def reads requireE_def)
  then have "\<exists>a s'. query join_env lease_request life_backend = (Inr a, s')"
    using rev by (simp add: query_def route parts bindA_eq requireA_def get_state_def getCanvas_def touchQuery_def modify_def
        sec query_event_def envelope_def const_at_def jput_def object_of_def)
  then obtain a s' where q: "query join_env lease_request life_backend = (Inr a, s')" by blast
  from queries_need_valid_identity[OF this] obtain route i identity c where
    "routing lease_request = Inr route" "value_int route ''canvas_id'' 0 = Inr i"
    "value_json lease_request ''identity'' (JObj []) = Inr identity" "live_canvas i life_backend = Some c"
    "value_int64 identity ''settings_revision'' (-1) = Inr (cv_settings_revision c)"
    by blast
  then show ?thesis using q route by (auto simp: reads)
qed


section \<open>Changes within the rights of the identity\<close>

definition permitted_change :: "('w, 'v) query_env \<Rightarrow> int \<Rightarrow> string set \<Rightarrow> bool \<Rightarrow> json \<Rightarrow> bool" where
  \<comment> \<open>a prepared event that the groups may apply to the item that was read\<close>
  "permitted_change Q i groups admin event \<longleftrightarrow>
     (\<exists>item_id previous s1 s2. jget event ''item_id'' = Some (JStr item_id) \<and> validQueryItemId item_id
        \<and> query_item Q i item_id s1 = (Inr previous, s2)
        \<and> (\<forall>old. previous = Some old \<longrightarrow> queryCanAccess old groups admin)
        \<and> (case jget event ''item'' of
             None \<Rightarrow> \<forall>old. previous = Some old \<longrightarrow> \<not> isChatRoomItem old
           | Some item \<Rightarrow> is_object item \<and> queryCanAccess item groups admin
               \<and> (admin \<or> (case previous of
                    Some old \<Rightarrow> is_null old \<and> queryPermissionGroups item \<subseteq> groups
                      \<or> queryPermissionGroups item = queryPermissionGroups old
                  | None \<Rightarrow> queryPermissionGroups item \<subseteq> groups))))"

definition event_id :: "json \<Rightarrow> json option" where
  "event_id event = jget event ''item_id''"

definition work_ok :: "('w, 'v) query_env \<Rightarrow> int \<Rightarrow> string set \<Rightarrow> bool \<Rightarrow> item_work \<Rightarrow> bool" where
  "work_ok Q i groups admin work \<longleftrightarrow> (\<forall>event \<in> set (iw_prepared work). permitted_change Q i groups admin event)
     \<and> distinct (map event_id (iw_prepared work))
     \<and> event_id ` set (iw_prepared work) \<subseteq> (Some \<circ> JStr) ` set (iw_touched work)"

lemma work_ok_add:
  assumes "work_ok Q i groups admin work" "permitted_change Q i groups admin event"
    "event_id event = Some (JStr k)" "k \<notin> set (iw_touched work)"
    "iw_prepared work' = iw_prepared work @ [event]" "iw_touched work' = k # iw_touched work"
  shows "work_ok Q i groups admin work'"
  using assms by (auto simp: work_ok_def)

lemma item_operation_ok:
  assumes "item_operation Q i type operation groups admin work s = (Inr work', s')" "work_ok Q i groups admin work"
  shows "work_ok Q i groups admin work'"
proof -
  obtain k previous s1 action operation_type where
    k: "validQueryItemId k" "k \<notin> set (iw_touched work)" "query_item Q i k s = (Inr previous, s1)"
      "\<forall>old. previous = Some old \<longrightarrow> queryCanAccess old groups admin"
    and r: "action = ''read'' \<and> iw_prepared work' = iw_prepared work \<and> iw_touched work' = k # iw_touched work
       \<or> delete_work previous k (work\<lparr>iw_touched := k # iw_touched work\<rparr>) = Inr work'
       \<or> change_work type operation action operation_type previous k groups admin
           (work\<lparr>iw_touched := k # iw_touched work\<rparr>) = Inr work'"
  proof -
    obtain k previous s1 action operation_type where
      "validQueryItemId k \<and> k \<notin> set (iw_touched work)" "query_item Q i k s = (Inr previous, s1)"
      "case previous of Some old \<Rightarrow> queryCanAccess old groups admin | None \<Rightarrow> True" and
      c: "(if action = ''read'' then
            Inr (work\<lparr>iw_touched := k # iw_touched work,
              iw_results := iw_results (work\<lparr>iw_touched := k # iw_touched work\<rparr>) @ [object_of [(''item_id'', JStr k),
              (''item'', case previous of Some j \<Rightarrow> j | None \<Rightarrow> JNull)]]\<rparr>)
          else if action = ''delete'' then delete_work previous k (work\<lparr>iw_touched := k # iw_touched work\<rparr>)
          else if action \<in> {''create'', ''update'', ''patch''}
          then change_work type operation action operation_type previous k groups admin
            (work\<lparr>iw_touched := k # iw_touched work\<rparr>)
          else Inl (InvalidArgument ''QUERY_ACTION_INVALID'')) = Inr work'"
      using assms(1) unfolding item_operation_def Let_def
      by (clarsimp simp only: action_iffs prod.case split_paired_Ex)
    then show ?thesis using that[of k previous s1 action operation_type] by (auto split: if_splits option.splits)
  qed
  show ?thesis
    using r
  proof (elim disjE)
    assume "action = ''read'' \<and> iw_prepared work' = iw_prepared work \<and> iw_touched work' = k # iw_touched work"
    then show ?thesis using assms(2) by (auto simp: work_ok_def)
  next
    assume d: "delete_work previous k (work\<lparr>iw_touched := k # iw_touched work\<rparr>) = Inr work'"
    let ?event = "object_of [(''type'', JStr ''item_delete''), (''item_id'', JStr k)]"
    have g: "jget ?event ''item_id'' = Some (JStr k)" "jget ?event ''item'' = None" by (simp_all add: object_of_get)
    have "\<forall>old. previous = Some old \<longrightarrow> \<not> isChatRoomItem old"
      using d by (auto simp: delete_work_def outcome_iffs split: option.splits)
    then have "permitted_change Q i groups admin ?event"
      using k g unfolding permitted_change_def by (intro exI[of _ k] exI[of _ previous] exI[of _ s] exI[of _ s1]) simp
    then show ?thesis
      by (rule work_ok_add[OF assms(2)]) (use d g k in \<open>auto simp: delete_work_def outcome_iffs event_id_def Let_def\<close>)
  next
    let ?old = "case previous of Some j \<Rightarrow> j | None \<Rightarrow> JNull"
    assume c: "change_work type operation action operation_type previous k groups admin
           (work\<lparr>iw_touched := k # iw_touched work\<rparr>) = Inr work'"
    obtain wanted item where w: "queryUpdatedItem ?old wanted groups admin = Inr item"
      and p: "iw_prepared work' = iw_prepared work @ [object_of [
             (''type'', JStr (if operation_type = ''item_save'' then ''item_save'' else ''item_update'')),
             (''item_id'', JStr k), (''item'', item)]]" "iw_touched work' = k # iw_touched work"
      using c by (auto simp: change_work_def outcome_iffs Let_def)
    let ?event = "object_of [(''type'', JStr (if operation_type = ''item_save'' then ''item_save'' else ''item_update'')),
             (''item_id'', JStr k), (''item'', item)]"
    have g: "jget ?event ''item_id'' = Some (JStr k)" "jget ?event ''item'' = Some item" by (simp_all add: object_of_get)
    have "is_object item \<and> queryCanAccess item groups admin \<and> (admin \<or> (case previous of
                    Some old \<Rightarrow> is_null old \<and> queryPermissionGroups item \<subseteq> groups
                      \<or> queryPermissionGroups item = queryPermissionGroups old
                  | None \<Rightarrow> queryPermissionGroups item \<subseteq> groups))"
      using queryUpdatedItem_perms[OF w] by (auto simp: is_null_def split: option.splits if_splits)
    then have "permitted_change Q i groups admin ?event"
      using k g unfolding permitted_change_def by (intro exI[of _ k] exI[of _ previous] exI[of _ s] exI[of _ s1]) simp
    then show ?thesis
      by (rule work_ok_add[OF assms(2)]) (use p g k in \<open>auto simp: event_id_def\<close>)
  qed
qed

lemma item_operations_ok:
  "item_operations Q i type ops groups admin work s = (Inr work', s') \<Longrightarrow> work_ok Q i groups admin work
    \<Longrightarrow> work_ok Q i groups admin work'"
proof (induction ops arbitrary: work s)
  case (Cons op ops)
  then show ?case using item_operation_ok by (fastforce simp: action_iffs)
qed simp



definition create_item :: json where
  "create_item = JObj [(''action'', JStr ''create''), (''item'', JObj [(''kind'', JStr ''box''), (''permission'', JArr [JStr ''readers''])]),
     (''item_id'', JStr ''m'')]"

definition created_event :: json where
  "created_event = JObj [(''item'', JObj [(''kind'', JStr ''box''), (''permission'', JArr [JStr ''readers''])]), (''item_id'', JStr ''m''),
     (''type'', JStr ''item_update'')]"

definition create_read :: "cache_manager \<times> ref_world" where
  "create_read = snd (readItem life_env (\<lambda>_. True) 5 ''m'' [] (createState ref_options) [(''canvas:5'', join_document)])"

definition create_applied :: "cache_manager \<times> ref_world" where
  "create_applied = snd (apply_event life_env (\<lambda>_. True) 5 created_event (fst create_read) (snd create_read))"

lemma create_steps:
  "fst (readItem life_env (\<lambda>_. True) 5 ''m'' [] (createState ref_options) [(''canvas:5'', join_document)]) = Some (Some ''[]'')"
  "fst (apply_event life_env (\<lambda>_. True) 5 created_event (fst create_read) (snd create_read)) = Some True"
  "fst (flushCanvas life_env 5 (fst create_applied) (snd create_applied)) = Some True"
  by code_simp+


end
