(* ===== verification/Spec2Isabelle.thy ===== *)
theory Spec2Isabelle
  imports Canvas_Persistence Broker_Ops Broker_History Chat_Pages Canvas_Composition Canvas_Initialization Canvas_Mentions Redis_Sentinel Canvas_Events Broker_Socket Sql_Pool Canvas_Queries
begin

text \<open>
  A verification development of the C++ back end of Project Agora (\<^verbatim>\<open>src/cpp\<close>), the server that holds shared
  canvases in memory and answers the queries of the brokers.

  \<^bold>\<open>The program.\<close> A canvas is one JSON document: its items, its people and groups, its settings, the chat
  rooms with their histories, and a record of the batches each client has had accepted. While a canvas is
  used, the document lives in RedisJSON behind a write-back cache of regions (\<^verbatim>\<open>MemoryClass\<close>); when it is
  unloaded, it is written to Elasticsearch. A SQL registry says which server has loaded which canvas and on
  which Redis service. Brokers send queries over a WebSocket (\<^verbatim>\<open>BrokerQuerySocketService\<close>) to
  \<^verbatim>\<open>CanvasQueryService\<close>, which reads and changes the document through \<^verbatim>\<open>CanvasServiceMemory\<close>: some changes
  by writing regions of the cache, others by Lua scripts that run atomically on the server after the
  cache was flushed (\<^verbatim>\<open>executeAtomic\<close>) and after which the changed regions are dropped.

  \<^bold>\<open>The theories\<close>, from the bottom; each names its file at its head, a definition has the name of the C++
  function it models where there is one, and the steps of a long function are definitions of their own.

  \<^item> \<^theory_text>\<open>Prelude\<close>, \<^theory_text>\<open>Json\<close>, \<^theory_text>\<open>Json_Codec\<close>, \<^theory_text>\<open>Json_Path\<close>: exceptions as values (\<open>outcome\<close>), narrowing
    conversions, JSON values with the accessors of \<^verbatim>\<open>nlohmann::json\<close> and their exceptions, a reference printer
    and parser, and the JSON paths of \<^verbatim>\<open>src/memory/MemoryClass.cpp\<close>.
  \<^item> \<^theory_text>\<open>Lru_Memory\<close>, \<^theory_text>\<open>Region_Lru\<close>, \<^theory_text>\<open>Cache_Manager\<close>, \<^theory_text>\<open>Memory_Class\<close>: \<^verbatim>\<open>include/memory/LruMemory.hpp\<close>
    and the three classes of \<^verbatim>\<open>src/memory/MemoryClass.cpp\<close>. \<^theory_text>\<open>Memory_Backend\<close> states what the cache relies on
    (\<open>redis_json_ok\<close>) and proves that the write-back of regions satisfies the locale of \<^theory_text>\<open>Region_Lru\<close>;
    \<^theory_text>\<open>Memory_Transparency\<close> and \<^theory_text>\<open>Memory_Properties\<close> prove the cache transparent: reads return the current
    value, writes change one region, a flush makes everything durable, atomic commands keep it coherent.
  \<^item> \<^theory_text>\<open>Redis_Lua\<close>, \<^theory_text>\<open>Broker_Sync\<close>, \<^theory_text>\<open>Chat_Scripts\<close>, \<^theory_text>\<open>Canvas_Store\<close>, \<^theory_text>\<open>Canvas_Commands\<close>,
    \<^theory_text>\<open>Canvas_Options\<close>: \<^verbatim>\<open>src/service_memory/CanvasServiceMemory.cpp\<close>. Every Lua script is a function of the
    stored document. \<^theory_text>\<open>Broker_History\<close> shows that batches are accepted exactly once, in sequence and without
    lost updates; \<^theory_text>\<open>Chat_Rooms\<close> and \<^theory_text>\<open>Chat_Pages\<close> that messages are appended in order, once per request,
    and that pages are windows of the history; \<^theory_text>\<open>Canvas_Composition\<close> composes scripts and cache.
  \<^item> \<^theory_text>\<open>Access_Rules\<close>, \<^theory_text>\<open>Broker_Ops\<close>, \<^theory_text>\<open>Canvas_Mentions\<close>, \<^theory_text>\<open>Canvas_Password\<close>, \<^theory_text>\<open>Canvas_Events\<close>: the
    rules of access, the preparation of a batch, the handles in a message, the password hashes, and the
    writing of one queued event (\<^verbatim>\<open>include/service\<close>, \<^verbatim>\<open>src/CanvasPassword.cpp\<close>, \<^verbatim>\<open>CanvasEventMemory.cpp\<close>).
  \<^item> \<^theory_text>\<open>Canvas_Persistence\<close>: the queue of \<^verbatim>\<open>src/Canvas.cpp\<close> with its worker and its waits, as a step relation.
  \<^item> \<^theory_text>\<open>Document_Store\<close>, \<^theory_text>\<open>Canvas_Snapshots\<close>, \<^theory_text>\<open>Canvas_Initialization\<close>: Elasticsearch, the durable form of a
    document and its way back into Redis (\<^verbatim>\<open>ElasticsearchMemory.cpp\<close>, \<^verbatim>\<open>CanvasSnapshotMemory.cpp\<close>).
  \<^item> \<^theory_text>\<open>Redis_Protocol\<close>, \<^theory_text>\<open>Redis_Sentinel\<close>: \<^verbatim>\<open>src/memory/RedisClient.cpp\<close>, the RESP transport and the search
    for the primary. \<^theory_text>\<open>Sql_Command\<close>, \<^theory_text>\<open>Sql_Pool\<close>, \<^theory_text>\<open>Sql_Registry\<close>: \<^verbatim>\<open>src/memory/MssqlMemory.cpp\<close> and
    \<^verbatim>\<open>RegistryServiceMemory.cpp\<close>, the scripts as functions of the tables, with messages that may be lost.
  \<^item> \<^theory_text>\<open>Broker_Socket\<close>: \<^verbatim>\<open>src/service/BrokerQuerySocketService.cpp\<close> as a step relation.
  \<^item> \<^theory_text>\<open>Canvas_Lifecycle\<close>: \<^verbatim>\<open>CanvasLifecycleMemory.cpp\<close> over all of these; the state \<open>backend\<close> holds the
    cache, the Redis world, the durable documents, the registry and the loaded canvases. A step is an
    \<open>action\<close>, a function of the state to a result or a failure (an exception, undefined behaviour, or not
    returning) and the new state. \<^theory_text>\<open>Canvas_Settings\<close>: \<^verbatim>\<open>CanvasSettingsService.cpp\<close>. \<^theory_text>\<open>Query_Base\<close>,
    \<^theory_text>\<open>Query_Batch\<close>, \<^theory_text>\<open>Query_Chat\<close>, \<^theory_text>\<open>Canvas_Queries\<close>: \<^verbatim>\<open>CanvasQueryService.cpp\<close>, in its order.

  \<^bold>\<open>Interfaces.\<close> The locale \<open>bounded_store\<close> is the contract of \<open>LruMemory\<close>; \<open>region_backend\<close> that of the
  server below \<open>RegionLru\<close>, a sublocale of \<open>redis_json\<close>, the contract of RedisJSON; \<open>lua_scripts\<close> fixes what
  scripts run on. They are interpreted on the models (\<open>lm\<close>, \<open>wb\<close>) and on reference servers (\<open>ref\<close>,
  \<open>ref_scripts\<close>, \<open>life\<close>) on which the witnesses are evaluated.

  \<^bold>\<open>What is a parameter.\<close> Code outside the repository appears as an argument, with named hypotheses:
  printing and parsing of JSON (\<open>json_lib_ok\<close>), RedisJSON (\<open>redis_json_ok\<close>, \<open>whole_get_ok\<close> for whole
  documents, \<open>rj_ok\<close> inside scripts), Lua numbers and tables (\<open>lua_ok\<close>), the atomic run of a script
  (\<open>runs_script\<close>), base64 (\<open>b64_ok\<close>), password hashing (\<open>crypto_ok\<close>), a document store that gives back what
  it took (\<open>put_get_law\<close>), sockets, FreeTDS, the order and the collation of SQL results, SHA256,
  floating-point addition, and the order in which hash sets are iterated. \<open>Json_Codec\<close> and the reference
  servers satisfy the hypotheses.

  \<^bold>\<open>Concurrency.\<close> Where the interleaving is the point - the persistence queue, the socket service, the SQL
  session pool, the servers at the registry, the clients of a canvas - the model is a step relation or a
  sequence of operations of many parties, and the properties are invariants of every reachable state. The
  other operations run alone, as the code has them: under the mutex of their object, the lifecycle lock
  or the settings lock of their canvas, or as one script on the server.

  \<^bold>\<open>Bounds.\<close> Integers are unbounded where the code cannot overflow and narrowed by \<open>as_int32\<close> and
  \<open>as_int64\<close> where it reads them from JSON; where an addition may overflow, the model fails with undefined
  behaviour. Loops are structural or have a termination proof on what is left to do: the queue, the bytes to
  write or read, the chunks of a text. Only the reading of a nested reply of Redis has fuel, one more than
  the bytes of the input, and \<open>reply_fuel\<close> in \<^theory_text>\<open>Redis_Protocol\<close> shows that it is enough. A wait that would
  never end is the failure \<open>No_Return\<close>.

  \<^bold>\<open>What is not modelled\<close>: the HTTP API, the health checks, the start of the process and log records, which
  are plumbing around third-party servers; \<^verbatim>\<open>RedisMemory\<close>, which forwards commands; waiting and time-outs,
  except as the failures they cause; destructors; the Java, Python and shell parts of the repository.
\<close>

end
